(* ===== verification/Tethys_Prelude.thy ===== *)
theory Tethys_Prelude
  imports Main "HOL-Library.Word"
begin

text \<open>
  Shared vocabulary of the development: the machine integers of the Rust code, results as
  sums, the in-place edit of the first matching list element (\<open>iter_mut().find(..)\<close>
  followed by an assignment), and two generic interfaces. \<open>step_invariant\<close> is the contract
  of a component whose operations preserve an invariant; \<open>keyed_store\<close> is the contract of
  a component that keeps at most one row per key. The components interpret both on their
  own operations.
\<close>

section \<open>Machine integers and results\<close>

type_synonym u32 = "32 word"
type_synonym u64 = "64 word"
type_synonym f64_bits = "64 word"

text \<open>A Rust \<open>Result<A, E>\<close> is the sum \<open>'e + 'a\<close>.\<close>

abbreviation Ok :: "'a \<Rightarrow> 'e + 'a" where "Ok \<equiv> Inr"
abbreviation Err :: "'e \<Rightarrow> 'e + 'a" where "Err \<equiv> Inl"

named_theorems wf_intros \<open>preservation of the components' invariants\<close>
named_theorems frame_simps \<open>what an operation leaves unchanged\<close>

text \<open>\<open>saturating_sub\<close> and \<open>saturating_add\<close> on unsigned words.\<close>

definition sat_sub :: "'a::len word \<Rightarrow> 'a word \<Rightarrow> 'a word" where
  "sat_sub a b = (if a \<le> b then 0 else a - b)"

definition sat_add :: "'a::len word \<Rightarrow> 'a word \<Rightarrow> 'a word" where
  "sat_add a b = (if unat a + unat b < 2 ^ LENGTH('a) then a + b else - 1)"

lemma unat_sat_sub: "unat (sat_sub a b) = unat a - unat b"
  by (auto simp: sat_sub_def word_le_nat_alt not_le unat_sub)

lemma sat_sub_eq_0: "sat_sub a b = 0 \<longleftrightarrow> unat a \<le> unat b"
  by (metis unat_sat_sub unat_eq_zero diff_is_0_eq)

lemma unat_sat_add:
  "unat (sat_add a b) = min (unat a + unat b) (2 ^ LENGTH('a) - 1)" for a b :: "'a::len word"
  by (auto simp: sat_add_def unsigned_minus_1_eq_mask mask_eq_exp_minus_1 min_def iffD1[OF unat_add_lem] not_less)

section \<open>Editing the first matching element\<close>

text \<open>\<open>if let Some(x) = xs.iter_mut().find(P) { *x = f(x) }\<close>.\<close>

fun modify_first :: "('a \<Rightarrow> bool) \<Rightarrow> ('a \<Rightarrow> 'a) \<Rightarrow> 'a list \<Rightarrow> 'a list" where
  "modify_first P f [] = []"
| "modify_first P f (x # xs) = (if P x then f x # xs else x # modify_first P f xs)"

lemma length_modify_first [simp]: "length (modify_first P f xs) = length xs"
  by (induction xs) auto

lemma map_modify_first:
  "(\<And>x. P x \<Longrightarrow> g (f x) = g x) \<Longrightarrow> map g (modify_first P f xs) = map g xs"
  by (induction xs) auto

lemma modify_first_none: "find P xs = None \<Longrightarrow> modify_first P f xs = xs"
  by (induction xs) (auto split: if_splits)

lemma find_modify_first:
  "(\<And>x. P x \<Longrightarrow> P (f x)) \<Longrightarrow> find P (modify_first P f xs) = map_option f (find P xs)"
  by (induction xs) auto

lemma find_modify_first_other:
  assumes "\<And>x. P x \<Longrightarrow> \<not> Q x \<and> \<not> Q (f x)"
  shows "find Q (modify_first P f xs) = find Q xs"
  using assms by (induction xs) auto

lemma find_Some_props: "find P xs = Some x \<Longrightarrow> x \<in> set xs \<and> P x"
  by (induction xs) (auto split: if_splits)

lemma find_key_None_iff: "find (\<lambda>x. key x = k) xs = None \<longleftrightarrow> k \<notin> key ` set xs"
  by (auto simp: find_None_iff)

lemma find_append:
  "find P (xs @ ys) = (case find P xs of None \<Rightarrow> find P ys | Some x \<Rightarrow> Some x)"
  by (induction xs) auto

lemma distinct_key_find:
  "distinct (map key xs) \<Longrightarrow> x \<in> set xs \<Longrightarrow> find (\<lambda>y. key y = key x) xs = Some x"
  by (induction xs) (auto simp: image_iff)

lemma map_filter_modify_first:
  assumes "\<And>x. P x \<Longrightarrow> Q (f x) = Q x \<and> g (f x) = g x"
  shows "map g (filter Q (modify_first P f xs)) = map g (filter Q xs)"
  using assms by (induction xs) auto

lemma set_modify_first: "y \<in> set (modify_first P f xs) \<Longrightarrow> y \<in> set xs \<or> (\<exists>x \<in> set xs. P x \<and> y = f x)"
  by (induction xs) (auto split: if_splits)

lemma count_modify_first:
  "(\<And>x. \<not> P (f x)) \<Longrightarrow> length (filter P (modify_first P f xs)) = length (filter P xs) - 1"
  by (induction xs) auto

lemma map_of_filter_neq:
  "map_of (filter (\<lambda>e. fst e \<noteq> a) es) k = (if k = a then None else map_of es k)"
  by (induction es) auto

text \<open>The last \<open>n\<close> elements of a stream, the contents of a bounded buffer.\<close>

definition last_n :: "nat \<Rightarrow> 'a list \<Rightarrow> 'a list" where
  "last_n n xs = drop (length xs - n) xs"

lemma length_last_n: "length (last_n n xs) = min n (length xs)"
  by (simp add: last_n_def)

lemma last_n_append: "last_n n (xs @ ys) = last_n n (last_n n xs @ ys)"
proof (cases "length xs \<le> n")
  case False
  then have "length xs - n + (length ys - 0) = length (xs @ ys) - n" by simp
  then show ?thesis
    using False by (cases "length ys \<le> n") (simp_all add: last_n_def add.commute)
qed (simp add: last_n_def)

section \<open>The invariant of a stateful component\<close>

text \<open>
  A component is an initial state, a step and an invariant that the initial state satisfies
  and every step preserves. Every run then satisfies it.
\<close>

fun run_steps :: "('s \<Rightarrow> 'e \<Rightarrow> 's) \<Rightarrow> 's \<Rightarrow> 'e list \<Rightarrow> 's" where
  "run_steps step s [] = s"
| "run_steps step s (e # es) = run_steps step (step s e) es"

lemma run_steps_append: "run_steps step s (xs @ ys) = run_steps step (run_steps step s xs) ys"
  by (induction xs arbitrary: s) auto

locale step_invariant =
  fixes init :: 's
    and step :: "'s \<Rightarrow> 'e \<Rightarrow> 's"
    and inv :: "'s \<Rightarrow> bool"
  assumes inv_init: "inv init"
    and inv_step: "inv s \<Longrightarrow> inv (step s e)"
begin

lemma inv_run_from: "inv s \<Longrightarrow> inv (run_steps step s es)"
  by (induction es arbitrary: s) (auto intro: inv_step)

lemma inv_run: "inv (run_steps step init es)"
  by (rule inv_run_from) (rule inv_init)

end

text \<open>The same contract for a component whose sections interleave: a step relation.\<close>

locale transition_invariant =
  fixes initial :: "'s \<Rightarrow> bool"
    and trans_step :: "'s \<Rightarrow> 's \<Rightarrow> bool"
    and inv :: "'s \<Rightarrow> bool"
  assumes initial_inv: "initial s \<Longrightarrow> inv s"
    and trans_inv: "trans_step s t \<Longrightarrow> inv s \<Longrightarrow> inv t"
begin

lemma reach_inv: "initial s \<Longrightarrow> trans_step\<^sup>*\<^sup>* s t \<Longrightarrow> inv t"
  by (rotate_tac, induction rule: rtranclp_induct) (auto intro: initial_inv trans_inv)

end

section \<open>Stores with one row per key\<close>

text \<open>
  What the clients of a table, a registry or a cache rely on: a lookup sees exactly the last
  write under its key. The invariant is the provider's.
\<close>

locale keyed_store =
  fixes lookup :: "'s \<Rightarrow> 'k \<Rightarrow> 'v option"
    and upsert :: "'s \<Rightarrow> 'v \<Rightarrow> 's"
    and key :: "'v \<Rightarrow> 'k"
    and wf :: "'s \<Rightarrow> bool"
  assumes lookup_upsert: "wf s \<Longrightarrow> lookup (upsert s v) = (lookup s)(key v \<mapsto> v)"
    and wf_upsert: "wf s \<Longrightarrow> wf (upsert s v)"
    and lookup_key: "wf s \<Longrightarrow> lookup s k = Some v \<Longrightarrow> key v = k"
begin

lemma lookup_after_upsert: "wf s \<Longrightarrow> lookup (upsert s v) (key v) = Some v"
  by (simp add: lookup_upsert)

lemma upsert_other: "wf s \<Longrightarrow> k \<noteq> key v \<Longrightarrow> lookup (upsert s v) k = lookup s k"
  by (simp add: lookup_upsert)

lemma upsert_twice:
  "wf s \<Longrightarrow> key v = key w \<Longrightarrow> lookup (upsert (upsert s v) w) = lookup (upsert s w)"
  by (simp add: lookup_upsert wf_upsert)

lemma upsert_commute:
  "wf s \<Longrightarrow> key v \<noteq> key w
    \<Longrightarrow> lookup (upsert (upsert s v) w) = lookup (upsert (upsert s w) v)"
  by (simp add: lookup_upsert wf_upsert fun_upd_twist)

end

section \<open>Tables\<close>

text \<open>A table with a primary key, as the list of its rows in insertion order.\<close>

definition table_get :: "('r \<Rightarrow> 'k) \<Rightarrow> 'r list \<Rightarrow> 'k \<Rightarrow> 'r option" where
  "table_get key rows k = find (\<lambda>r. key r = k) rows"

text \<open>\<open>INSERT ... ON CONFLICT(key) DO UPDATE\<close>, \<open>merge\<close> being the update of the old row.\<close>

definition table_upsert :: "('r \<Rightarrow> 'k) \<Rightarrow> ('r \<Rightarrow> 'r \<Rightarrow> 'r) \<Rightarrow> 'r list \<Rightarrow> 'r \<Rightarrow> 'r list" where
  "table_upsert key merge rows row =
     (if table_get key rows (key row) = None then rows @ [row]
      else modify_first (\<lambda>r. key r = key row) (\<lambda>old. merge old row) rows)"

text \<open>\<open>INSERT OR IGNORE\<close>.\<close>

definition table_ensure :: "('r \<Rightarrow> 'k) \<Rightarrow> 'r list \<Rightarrow> 'r \<Rightarrow> 'r list" where
  "table_ensure key rows row = (if table_get key rows (key row) = None then rows @ [row] else rows)"

lemma table_get_key: "table_get key rows k = Some r \<Longrightarrow> key r = k \<and> r \<in> set rows"
  using find_Some_props by (fastforce simp: table_get_def)

lemma table_get_None: "table_get key rows k = None \<longleftrightarrow> k \<notin> key ` set rows"
  by (simp add: table_get_def find_key_None_iff)

lemma table_get_append:
  "table_get key (rows @ [row]) k = (case table_get key rows k of Some r \<Rightarrow> Some r
     | None \<Rightarrow> if key row = k then Some row else None)"
  by (simp add: table_get_def find_append split: option.split)

lemma table_upsert_keys:
  assumes "\<And>old. key (merge old row) = key row"
  shows "map key (table_upsert key merge rows row) =
    (if key row \<in> key ` set rows then map key rows else map key rows @ [key row])"
  using assms by (auto simp: table_upsert_def table_get_None intro: map_modify_first)

lemma table_upsert_distinct:
  assumes "\<And>old. key (merge old row) = key row" "distinct (map key rows)"
  shows "distinct (map key (table_upsert key merge rows row))"
  using assms by (auto simp: table_upsert_keys)

lemma table_ensure_distinct:
  "distinct (map key rows) \<Longrightarrow> distinct (map key (table_ensure key rows row))"
  by (auto simp: table_ensure_def table_get_None)

lemma table_get_upsert:
  assumes "\<And>old. key (merge old row) = key row"
  shows "table_get key (table_upsert key merge rows row) k =
    (if k = key row then Some (case table_get key rows k of None \<Rightarrow> row | Some old \<Rightarrow> merge old row)
     else table_get key rows k)"
proof (cases "k = key row")
  case True
  then show ?thesis
    using assms by (auto simp: table_upsert_def table_get_append)
      (auto simp: table_get_def find_modify_first split: option.splits)
next
  case False
  then have "find (\<lambda>r. key r = k) (modify_first (\<lambda>r. key r = key row) (\<lambda>old. merge old row) rows)
      = find (\<lambda>r. key r = k) rows"
    using assms by (intro find_modify_first_other) auto
  with False show ?thesis
    by (auto simp: table_upsert_def table_get_def find_append split: option.split)
qed

lemma table_upsert_replace:
  "table_get key (table_upsert key (\<lambda>_ row. row) rows row) = (table_get key rows)(key row \<mapsto> row)"
  by (auto simp: fun_eq_iff table_get_upsert split: option.split)

end
