(* ===== verification/Thread_Schema.thy ===== *)
theory Thread_Schema
  imports Tethys_Prelude
begin

text \<open>
  The normalized agent-event model of \<^verbatim>\<open>crates/tethys-schema/src/thread.rs\<close>: thread states,
  patches, events and materialized entries. Enum variants keep their Rust names, with a
  prefix where two enums share a variant name. Identifiers are strings (\<open>char list\<close>, one
  \<open>char\<close> per UTF-8 byte); the only float, the cost of a usage snapshot, is kept as its
  64-bit pattern, since no code of the model computes with it.
\<close>

section \<open>States, patches and message content\<close>

datatype ThreadState =
  TS_Idle | TS_Running | TS_AwaitingApproval | TS_Error | TS_Interrupted | TS_Suspended
| TS_Archived

datatype 'a Patch = Unchanged | Clear | Set 'a

datatype StopReason =
  SR_EndTurn | SR_MaxTokens | SR_StopSequence | SR_Refusal | SR_Cancelled | SR_Error
| SR_Other string

datatype SessionState = SS_Running | SS_Idle "StopReason option" | SS_RequiresAction

datatype Role = Role_User | Role_Agent | Role_Thought

datatype ContentBlock =
  CB_Text string
| CB_ResourceLink string string "string option"
| CB_Image string string
| CB_Unknown string

record MessageUpsert =
  mu_message_id :: string
  mu_role :: Role
  mu_content :: "ContentBlock list Patch"

record MessageChunk =
  mc_message_id :: string
  mc_role :: Role
  mc_block :: ContentBlock

section \<open>Tool calls, plans, configuration and permissions\<close>

datatype ToolCallStatus = TC_Pending | TC_Executing | TC_Completed | TC_Failed

record ToolCallPatch =
  tc_title :: "string option"
  tc_kind :: "string option"
  tc_status :: "ToolCallStatus option"
  tc_input :: "string option"
  tc_output :: "string option"
  tc_locations :: "string list"

datatype ToolCallContent =
  TCC_Text string
| TCC_Diff string string
| TCC_Terminal string
| TCC_Unknown string

datatype PlanEntryPriority = PP_High | PP_Medium | PP_Low

datatype PlanEntryStatus = PS_Pending | PS_InProgress | PS_Completed

record PlanEntry =
  pe_content :: string
  pe_priority :: PlanEntryPriority
  pe_status :: PlanEntryStatus

type_synonym PlanContent = "PlanEntry list"

record ConfigOption =
  co_id :: string
  co_name :: string
  co_description :: "string option"
  co_current_value :: string
  co_values :: "string list"

record AgentCommand =
  ac_name :: string
  ac_description :: "string option"
  ac_input :: "string option"

record UsageSnapshot =
  us_input_tokens :: u32
  us_output_tokens :: u32
  us_total_tokens :: u32
  us_cost :: "f64_bits option"

record SessionInfo =
  si_title :: "string option"
  si_updated_at :: "string option"

datatype PermissionSubject =
  Subj_Command string
| Subj_ToolCall string
| Subj_File string
| Subj_Unknown string

record PermOption =
  po_option_id :: string
  po_name :: string
  po_kind :: "string option"

datatype PermOutcome = Approved | Rejected | PermCancelled

datatype Decider = Decider_User | Decider_Policy

record PermissionRequest =
  pr_req_id :: string
  pr_title :: string
  pr_description :: "string option"
  pr_subject :: "PermissionSubject option"
  pr_options :: "PermOption list"

datatype WriteVia = AcpFs | Watcher

datatype CheckpointKind = CK_TurnStart | CK_TurnEnd | CK_Manual

section \<open>Events and entries\<close>

datatype TurnEventBody =
  Ev_StateChanged SessionState
| Ev_MessageUpsert MessageUpsert
| Ev_MessageChunk MessageChunk
| Ev_ToolCallUpsert string ToolCallPatch
| Ev_ToolCallContentChunk string ToolCallContent
| Ev_TerminalUpsert string "string Patch"
| Ev_TerminalOutputChunk string string
| Ev_PlanUpsert string PlanContent
| Ev_ConfigOptionsChanged "ConfigOption list"
| Ev_CommandsAvailable "AgentCommand list"
| Ev_SessionInfo SessionInfo
| Ev_Usage UsageSnapshot
| Ev_PermissionRequested PermissionRequest
| Ev_PermissionResolved string PermOutcome Decider
| Ev_FileWrite string "string option" string WriteVia
| Ev_Checkpoint string CheckpointKind
| Ev_Error string string bool
| Ev_Unknown string

record EventEnvelope =
  env_thread_id :: string
  env_seq :: u32
  env_event :: TurnEventBody

datatype Entry =
  E_Message string Role "ContentBlock list"
| E_ToolCall string ToolCallPatch
| E_Plan string PlanContent
| E_Terminal string string
| E_Permission string PermissionRequest "PermOutcome option"
| E_Error string string

fun entry_id :: "Entry \<Rightarrow> string" where
  "entry_id (E_Message message_id _ _) = message_id"
| "entry_id (E_ToolCall tool_call_id _) = tool_call_id"
| "entry_id (E_Plan plan_id _) = plan_id"
| "entry_id (E_Terminal terminal_id _) = terminal_id"
| "entry_id (E_Permission req_id _ _) = req_id"
| "entry_id (E_Error _ _) = ''error''"

end
