(* ===== verification/Thread_Entries.thy ===== *)
theory Thread_Entries
  imports Thread_Schema
begin

text \<open>
  Entry materialization, \<^verbatim>\<open>crates/tethys-thread/src/entries.rs\<close>. \<open>apply_event\<close> is
  translated branch by branch; \<open>find_mut\<close> returns the first entry with the id, and the
  assignment through the returned reference is \<open>put_entry\<close>. The lemmas show that ids stay
  unique, that a replayed event can only append an entry under a new id, that replaying a
  history over the entries it produced is the identity (D12), and what streaming a message
  or a tool call produces.
\<close>

section \<open>Definitions\<close>

definition find_mut :: "Entry list \<Rightarrow> string \<Rightarrow> Entry option" where
  "find_mut entries i = find (\<lambda>entry. entry_id entry = i) entries"

definition put_entry :: "Entry list \<Rightarrow> string \<Rightarrow> Entry \<Rightarrow> Entry list" where
  "put_entry entries i e = modify_first (\<lambda>entry. entry_id entry = i) (\<lambda>_. e) entries"

definition merge_tool_call :: "ToolCallPatch \<Rightarrow> ToolCallPatch \<Rightarrow> ToolCallPatch" where
  "merge_tool_call existing incoming = \<lparr>
     tc_title = (if tc_title incoming \<noteq> None then tc_title incoming else tc_title existing),
     tc_kind = (if tc_kind incoming \<noteq> None then tc_kind incoming else tc_kind existing),
     tc_status = (if tc_status incoming \<noteq> None then tc_status incoming else tc_status existing),
     tc_input = (if tc_input incoming \<noteq> None then tc_input incoming else tc_input existing),
     tc_output = (if tc_output incoming \<noteq> None then tc_output incoming else tc_output existing),
     tc_locations = (if tc_locations incoming \<noteq> [] then tc_locations incoming
                     else tc_locations existing)\<rparr>"

fun patch_value :: "'a Patch \<Rightarrow> 'a \<Rightarrow> 'a option" where
  "patch_value Unchanged d = None"
| "patch_value Clear d = Some d"
| "patch_value (Set v) d = Some v"

text \<open>The text a tool-call content item adds to the output; \<open>None\<close> is the early \<open>return false\<close>.\<close>

fun content_text :: "ToolCallContent \<Rightarrow> string option" where
  "content_text (TCC_Text t) = Some t"
| "content_text (TCC_Diff path patch) = Some patch"
| "content_text (TCC_Terminal _) = None"
| "content_text (TCC_Unknown _) = None"

fun apply_event :: "Entry list \<Rightarrow> TurnEventBody \<Rightarrow> bool \<Rightarrow> Entry list \<times> bool" where
  "apply_event entries (Ev_MessageChunk chunk) replayed =
     (let message_id = mc_message_id chunk in
      if replayed \<and> find_mut entries message_id \<noteq> None then (entries, False)
      else case find_mut entries message_id of
        Some (E_Message m role blocks) \<Rightarrow>
          (put_entry entries message_id (E_Message m role (blocks @ [mc_block chunk])), True)
      | Some _ \<Rightarrow> (entries, False)
      | None \<Rightarrow> (entries @ [E_Message message_id (mc_role chunk) [mc_block chunk]], True))"
| "apply_event entries (Ev_MessageUpsert upsert) replayed =
     (let message_id = mu_message_id upsert in
      if replayed \<and> find_mut entries message_id \<noteq> None then (entries, False)
      else let replacement = patch_value (mu_content upsert) [] in
        case find_mut entries message_id of
          Some (E_Message m role blocks) \<Rightarrow>
            (put_entry entries message_id (E_Message m (mu_role upsert)
               (case replacement of None \<Rightarrow> blocks | Some new \<Rightarrow> new)), True)
        | Some _ \<Rightarrow> (entries, False)
        | None \<Rightarrow> (entries @ [E_Message message_id (mu_role upsert)
               (case replacement of None \<Rightarrow> [] | Some new \<Rightarrow> new)], True))"
| "apply_event entries (Ev_ToolCallUpsert tool_call_id patch) replayed =
     (if replayed \<and> find_mut entries tool_call_id \<noteq> None then (entries, False)
      else case find_mut entries tool_call_id of
        Some (E_ToolCall t existing) \<Rightarrow>
          (put_entry entries tool_call_id (E_ToolCall t (merge_tool_call existing patch)), True)
      | Some _ \<Rightarrow> (entries, False)
      | None \<Rightarrow> (entries @ [E_ToolCall tool_call_id patch], True))"
| "apply_event entries (Ev_ToolCallContentChunk tool_call_id item) replayed =
     (if replayed \<and> find_mut entries tool_call_id \<noteq> None then (entries, False)
      else case find_mut entries tool_call_id of
        Some (E_ToolCall t patch) \<Rightarrow>
          (case content_text item of
             None \<Rightarrow> (entries, False)
           | Some text \<Rightarrow>
               (put_entry entries tool_call_id (E_ToolCall t
                  (patch\<lparr>tc_output := Some (case tc_output patch of
                     Some output \<Rightarrow> output @ text | None \<Rightarrow> text)\<rparr>)), True))
      | _ \<Rightarrow> (entries, False))"
| "apply_event entries (Ev_PlanUpsert plan_id plan) replayed =
     (if replayed \<and> find_mut entries plan_id \<noteq> None then (entries, False)
      else case find_mut entries plan_id of
        Some (E_Plan p existing) \<Rightarrow> (put_entry entries plan_id (E_Plan p plan), True)
      | Some _ \<Rightarrow> (entries, False)
      | None \<Rightarrow> (entries @ [E_Plan plan_id plan], True))"
| "apply_event entries (Ev_TerminalUpsert terminal_id patch) replayed =
     (if replayed \<and> find_mut entries terminal_id \<noteq> None then (entries, False)
      else let output = patch_value patch [] in
        case find_mut entries terminal_id of
          Some (E_Terminal t existing) \<Rightarrow>
            (put_entry entries terminal_id
               (E_Terminal t (case output of None \<Rightarrow> existing | Some new \<Rightarrow> new)), True)
        | Some _ \<Rightarrow> (entries, False)
        | None \<Rightarrow> (entries @ [E_Terminal terminal_id
               (case output of None \<Rightarrow> [] | Some new \<Rightarrow> new)], True))"
| "apply_event entries (Ev_TerminalOutputChunk terminal_id bytes) replayed =
     (if replayed \<and> find_mut entries terminal_id \<noteq> None then (entries, False)
      else case find_mut entries terminal_id of
        Some (E_Terminal t output) \<Rightarrow>
          (put_entry entries terminal_id (E_Terminal t (output @ bytes)), True)
      | Some _ \<Rightarrow> (entries, False)
      | None \<Rightarrow> (entries @ [E_Terminal terminal_id bytes], True))"
| "apply_event entries (Ev_PermissionRequested request) replayed =
     (let req_id = pr_req_id request in
      if replayed \<and> find_mut entries req_id \<noteq> None then (entries, False)
      else case find_mut entries req_id of
        Some (E_Permission r existing outcome) \<Rightarrow>
          (put_entry entries req_id (E_Permission r request outcome), True)
      | Some _ \<Rightarrow> (entries, False)
      | None \<Rightarrow> (entries @ [E_Permission req_id request None], True))"
| "apply_event entries (Ev_PermissionResolved req_id outcome _) replayed =
     (if replayed then (entries, False)
      else case find_mut entries req_id of
        Some (E_Permission r request existing) \<Rightarrow>
          (put_entry entries req_id (E_Permission r request (Some outcome)), True)
      | _ \<Rightarrow> (entries, False))"
| "apply_event entries (Ev_Error code message _) replayed =
     (if replayed \<and> find_mut entries ''error'' \<noteq> None then (entries, False)
      else case find_mut entries ''error'' of
        Some (E_Error c m) \<Rightarrow> (put_entry entries ''error'' (E_Error code message), True)
      | Some _ \<Rightarrow> (entries, False)
      | None \<Rightarrow> (entries @ [E_Error code message], True))"
| "apply_event entries (Ev_StateChanged _) replayed = (entries, False)"
| "apply_event entries (Ev_ConfigOptionsChanged _) replayed = (entries, False)"
| "apply_event entries (Ev_CommandsAvailable _) replayed = (entries, False)"
| "apply_event entries (Ev_SessionInfo _) replayed = (entries, False)"
| "apply_event entries (Ev_Usage _) replayed = (entries, False)"
| "apply_event entries (Ev_FileWrite _ _ _ _) replayed = (entries, False)"
| "apply_event entries (Ev_Checkpoint _ _) replayed = (entries, False)"
| "apply_event entries (Ev_Unknown _) replayed = (entries, False)"

text \<open>Applying a whole transcript, live or replayed.\<close>

definition apply_all :: "bool \<Rightarrow> Entry list \<Rightarrow> TurnEventBody list \<Rightarrow> Entry list" where
  "apply_all replayed = run_steps (\<lambda>entries event. fst (apply_event entries event replayed))"

section \<open>Lookup and update of entries\<close>

lemma find_mut_None: "find_mut entries i = None \<longleftrightarrow> i \<notin> entry_id ` set entries"
  by (simp add: find_mut_def find_key_None_iff)

lemma find_mut_id: "find_mut entries i = Some e \<Longrightarrow> entry_id e = i"
  by (auto simp: find_mut_def dest: find_Some_props)

lemma map_put_entry:
  "entry_id e = i \<Longrightarrow> map entry_id (put_entry entries i e) = map entry_id entries"
  by (auto simp: put_entry_def intro!: map_modify_first)

lemma find_mut_put_same:
  "entry_id e = i \<Longrightarrow> find_mut entries i \<noteq> None \<Longrightarrow> find_mut (put_entry entries i e) i = Some e"
  by (auto simp: find_mut_def put_entry_def find_modify_first)

lemma find_mut_put_other:
  "entry_id e = i \<Longrightarrow> j \<noteq> i \<Longrightarrow> find_mut (put_entry entries i e) j = find_mut entries j"
  by (auto simp: find_mut_def put_entry_def intro!: find_modify_first_other)

lemma find_mut_append:
  "find_mut (entries @ [e]) i
     = (case find_mut entries i of
          None \<Rightarrow> if entry_id e = i then Some e else None | Some x \<Rightarrow> Some x)"
  by (simp add: find_mut_def find_append split: option.split)

lemmas find_mut_facts = find_mut_None find_mut_id map_put_entry

text \<open>
  Every branch of \<open>apply_event\<close> does one of three things: nothing, a replacement of the
  entry found under an id by one with the same id, or an append under a fresh id.
\<close>

definition entry_delta :: "Entry list \<Rightarrow> Entry list \<Rightarrow> bool" where
  "entry_delta old new \<longleftrightarrow>
     new = old
   \<or> (\<exists>i e e'. find_mut old i = Some e \<and> entry_id e' = i \<and> new = put_entry old i e')
   \<or> (\<exists>e. find_mut old (entry_id e) = None \<and> new = old @ [e])"

lemma entry_deltaI:
  "entry_delta old old"
  "find_mut old i = Some e \<Longrightarrow> entry_id e' = i \<Longrightarrow> entry_delta old (put_entry old i e')"
  "find_mut old (entry_id e') = None \<Longrightarrow> entry_delta old (old @ [e'])"
  by (auto simp: entry_delta_def)

lemma apply_event_delta: "entry_delta entries (fst (apply_event entries event replayed))"
  by (cases event)
     (auto simp: Let_def entry_deltaI dest: find_mut_id intro!: entry_deltaI
       split: option.split Entry.split)

text \<open>The invariant: at most one entry per id.\<close>

definition unique_ids :: "Entry list \<Rightarrow> bool" where
  "unique_ids entries \<longleftrightarrow> distinct (map entry_id entries)"

lemma entry_delta_unique: "entry_delta old new \<Longrightarrow> unique_ids old \<Longrightarrow> unique_ids new"
  by (auto simp: entry_delta_def unique_ids_def map_put_entry find_mut_None)

lemma entry_delta_ids:
  "entry_delta old new \<Longrightarrow> \<exists>added. map entry_id new = map entry_id old @ added"
  by (auto simp: entry_delta_def map_put_entry)

lemma apply_event_unique [wf_intros]:
  "unique_ids entries \<Longrightarrow> unique_ids (fst (apply_event entries event replayed))"
  by (rule entry_delta_unique [OF apply_event_delta])

lemma apply_event_ids_mono:
  "entry_id ` set entries \<subseteq> entry_id ` set (fst (apply_event entries event replayed))"
proof -
  obtain added where
    "map entry_id (fst (apply_event entries event replayed)) = map entry_id entries @ added"
    using entry_delta_ids [OF apply_event_delta] by blast
  then have "set (map entry_id entries)
      \<subseteq> set (map entry_id (fst (apply_event entries event replayed)))"
    by simp
  then show ?thesis by simp
qed

interpretation entries: step_invariant
  "[]" "\<lambda>entries (event, replayed). fst (apply_event entries event replayed)" unique_ids
  by unfold_locales (auto simp: unique_ids_def [of "[]"] intro: apply_event_unique)

lemma apply_all_ids_mono: "entry_id ` set entries \<subseteq> entry_id ` set (apply_all r entries evs)"
  unfolding apply_all_def
proof (induction evs arbitrary: entries)
  case (Cons ev evs)
  then show ?case using apply_event_ids_mono by fastforce
qed simp

section \<open>Which entry an event addresses\<close>

text \<open>The id an event reads or writes, and the id it creates when it is absent.\<close>

fun event_subject :: "TurnEventBody \<Rightarrow> string option" where
  "event_subject (Ev_MessageChunk chunk) = Some (mc_message_id chunk)"
| "event_subject (Ev_MessageUpsert upsert) = Some (mu_message_id upsert)"
| "event_subject (Ev_ToolCallUpsert i _) = Some i"
| "event_subject (Ev_ToolCallContentChunk i _) = Some i"
| "event_subject (Ev_PlanUpsert i _) = Some i"
| "event_subject (Ev_TerminalUpsert i _) = Some i"
| "event_subject (Ev_TerminalOutputChunk i _) = Some i"
| "event_subject (Ev_PermissionRequested request) = Some (pr_req_id request)"
| "event_subject (Ev_PermissionResolved i _ _) = Some i"
| "event_subject (Ev_Error _ _ _) = Some ''error''"
| "event_subject _ = None"

fun created_id :: "TurnEventBody \<Rightarrow> string option" where
  "created_id (Ev_ToolCallContentChunk _ _) = None"
| "created_id (Ev_PermissionResolved _ _ _) = None"
| "created_id event = event_subject event"

lemma apply_event_other:
  "event_subject event \<noteq> Some i
    \<Longrightarrow> find_mut (fst (apply_event entries event replayed)) i = find_mut entries i"
  by (cases event)
     (auto simp: Let_def find_mut_put_other find_mut_append dest: find_mut_id
       split: option.split Entry.split)

lemma ids_put_entry:
  "entry_id e = i \<Longrightarrow> entry_id ` set (put_entry entries i e) = entry_id ` set entries"
  using map_put_entry [of e i entries] by (metis set_map)

lemma in_ids_iff: "i \<in> entry_id ` set entries \<longleftrightarrow> find_mut entries i \<noteq> None"
  by (simp add: find_mut_None)

lemma apply_event_creates:
  assumes "created_id event = Some i"
  shows "find_mut (fst (apply_event entries event replayed)) i \<noteq> None"
proof (cases "find_mut entries i")
  case None
  with assms show ?thesis by (cases event) (auto simp: Let_def find_mut_append)
next
  case (Some e)
  then have "i \<in> entry_id ` set entries" by (simp add: in_ids_iff)
  then show ?thesis using apply_event_ids_mono in_ids_iff by blast
qed

lemma replay_known:
  "(\<And>i. created_id event = Some i \<Longrightarrow> find_mut entries i \<noteq> None)
    \<Longrightarrow> fst (apply_event entries event True) = entries"
  by (cases event) (auto simp: Let_def split: option.split Entry.split)

lemma replay_fresh:
  "created_id event = Some i \<Longrightarrow> find_mut entries i = None
    \<Longrightarrow> \<exists>e. entry_id e = i \<and> fst (apply_event entries event True) = entries @ [e]"
  by (cases event) (auto simp: Let_def)

lemma replay_all_known:
  assumes "\<And>event i. event \<in> set events \<Longrightarrow> created_id event = Some i
             \<Longrightarrow> find_mut entries i \<noteq> None"
  shows "apply_all True entries events = entries"
  using assms
proof (induction events)
  case (Cons event events)
  then have "fst (apply_event entries event True) = entries" by (intro replay_known) auto
  moreover have "apply_all True entries events = entries" by (intro Cons.IH) (use Cons.prems in auto)
  ultimately show ?case by (simp add: apply_all_def)
qed (simp add: apply_all_def)

lemma apply_all_creates:
  assumes "event \<in> set events" and "created_id event = Some i"
  shows "find_mut (apply_all r entries events) i \<noteq> None"
  using assms
proof (induction events arbitrary: entries)
  case (Cons ev events)
  let ?next = "fst (apply_event entries ev r)"
  have unfold: "apply_all r entries (ev # events) = apply_all r ?next events"
    by (simp add: apply_all_def)
  show ?case
  proof (cases "ev = event")
    case True
    then have "i \<in> entry_id ` set ?next"
      using Cons.prems apply_event_creates in_ids_iff by blast
    then have "i \<in> entry_id ` set (apply_all r ?next events)"
      using apply_all_ids_mono by blast
    then show ?thesis unfolding unfold in_ids_iff .
  next
    case False
    then show ?thesis using Cons unfold by auto
  qed
qed simp

section \<open>Properties of the materialized entries\<close>

text \<open>
  Whatever mix of live and replayed events reaches a thread, starting from no entries,
  no two entries share an id.
\<close>

theorem entries_unique:
  "distinct (map entry_id
     (run_steps (\<lambda>entries (event, replayed). fst (apply_event entries event replayed)) [] events))"
  using entries.inv_run [of events] by (simp add: unique_ids_def)

text \<open>
  A replayed event never changes an existing entry: it leaves the list alone or appends
  one entry whose id was not there (D12).
\<close>

theorem replay_only_appends:
  "fst (apply_event entries event True) = entries
   \<or> (\<exists>e. entry_id e \<notin> entry_id ` set entries
          \<and> fst (apply_event entries event True) = entries @ [e])"
proof (cases "\<forall>i. created_id event = Some i \<longrightarrow> find_mut entries i \<noteq> None")
  case True
  then show ?thesis using replay_known by blast
next
  case False
  then obtain i where "created_id event = Some i" "find_mut entries i = None" by blast
  then show ?thesis using replay_fresh by (metis find_mut_None)
qed

text \<open>
  C1. Resuming a session replays a transcript the thread has already seen; replaying any
  events of the history over the entries it produced changes nothing, in whatever order and
  however often they come.
\<close>

theorem replay_of_history_is_identity:
  assumes "set replayed \<subseteq> set history"
  shows "apply_all True (apply_all False entries history) replayed
       = apply_all False entries history"
  by (rule replay_all_known) (use assms apply_all_creates in blast)

theorem replay_of_history_is_identity_witness:
  "set [Ev_PlanUpsert ''p'' []] \<subseteq> set [Ev_PlanUpsert ''p'' [], Ev_Error ''c'' ''m'' False]
   \<and> apply_all True (apply_all False [] [Ev_PlanUpsert ''p'' [], Ev_Error ''c'' ''m'' False])
       [Ev_PlanUpsert ''p'' []]
     = apply_all False [] [Ev_PlanUpsert ''p'' [], Ev_Error ''c'' ''m'' False]"
  using replay_of_history_is_identity
    [of "[Ev_PlanUpsert ''p'' []]" "[Ev_PlanUpsert ''p'' [], Ev_Error ''c'' ''m'' False]" "[]"]
  by simp

text \<open>The flag: \<open>false\<close> means that nothing changed.\<close>

lemma apply_event_flag:
  "snd (apply_event entries event replayed) \<or> fst (apply_event entries event replayed) = entries"
  by (cases event) (simp_all add: Let_def split: option.split Entry.split)

subsection \<open>Streaming\<close>

fun chunks_for :: "string \<Rightarrow> TurnEventBody list \<Rightarrow> MessageChunk list" where
  "chunks_for i [] = []"
| "chunks_for i (Ev_MessageChunk c # events) =
     (if mc_message_id c = i then c # chunks_for i events else chunks_for i events)"
| "chunks_for i (_ # events) = chunks_for i events"

lemma chunks_for_other:
  "event_subject event \<noteq> Some i \<Longrightarrow> chunks_for i (event # events) = chunks_for i events"
  by (cases event) auto

lemma stream_existing:
  assumes "find_mut entries i = Some (E_Message i role blocks)"
    and "\<And>event. event \<in> set events \<Longrightarrow> event_subject event = Some i
           \<Longrightarrow> \<exists>c. event = Ev_MessageChunk c"
  shows "find_mut (apply_all False entries events) i
       = Some (E_Message i role (blocks @ map mc_block (chunks_for i events)))"
  using assms
proof (induction events arbitrary: entries blocks)
  case (Cons event events)
  show ?case
  proof (cases "event_subject event = Some i")
    case True
    with Cons.prems obtain c where c: "event = Ev_MessageChunk c" "mc_message_id c = i" by fastforce
    with Cons.prems have "find_mut (fst (apply_event entries event False)) i
        = Some (E_Message i role (blocks @ [mc_block c]))"
      by (simp add: find_mut_put_same)
    from Cons.IH [OF this] Cons.prems c show ?thesis by (simp add: apply_all_def)
  next
    case False
    with Cons.prems have "find_mut (fst (apply_event entries event False)) i
        = Some (E_Message i role blocks)"
      by (simp add: apply_event_other)
    from Cons.IH [OF this] Cons.prems False show ?thesis
      by (simp add: apply_all_def chunks_for_other)
  qed
qed (simp add: apply_all_def)

text \<open>
  Interleaved streaming: if every event that addresses message \<open>i\<close> is a chunk of it,
  then however the chunks interleave with events for other entries, message \<open>i\<close> holds its
  chunks' blocks in arrival order under the role of the first chunk, and is absent when
  there was none.
\<close>

theorem streamed_message:
  assumes "find_mut entries i = None"
    and "\<And>event. event \<in> set events \<Longrightarrow> event_subject event = Some i
           \<Longrightarrow> \<exists>c. event = Ev_MessageChunk c"
  shows "find_mut (apply_all False entries events) i =
    (case chunks_for i events of
       [] \<Rightarrow> None
     | c # cs \<Rightarrow> Some (E_Message i (mc_role c) (map mc_block (c # cs))))"
  using assms
proof (induction events arbitrary: entries)
  case (Cons event events)
  show ?case
  proof (cases "event_subject event = Some i")
    case True
    with Cons.prems obtain c where c: "event = Ev_MessageChunk c" "mc_message_id c = i" by fastforce
    with Cons.prems have "find_mut (fst (apply_event entries event False)) i
        = Some (E_Message i (mc_role c) [mc_block c])"
      by (simp add: find_mut_append)
    from stream_existing [OF this] Cons.prems c show ?thesis by (simp add: apply_all_def)
  next
    case False
    with Cons.prems have "find_mut (fst (apply_event entries event False)) i = None"
      by (simp add: apply_event_other)
    from Cons.IH [OF this] Cons.prems False show ?thesis
      by (simp add: apply_all_def chunks_for_other)
  qed
qed (simp add: apply_all_def)

theorem streamed_message_witness:
  "find_mut (apply_all False []
      [Ev_MessageChunk \<lparr>mc_message_id = ''m'', mc_role = Role_Agent, mc_block = CB_Text ''a''\<rparr>,
       Ev_PlanUpsert ''p'' [],
       Ev_MessageChunk \<lparr>mc_message_id = ''m'', mc_role = Role_User, mc_block = CB_Text ''b''\<rparr>]) ''m''
   = Some (E_Message ''m'' Role_Agent [CB_Text ''a'', CB_Text ''b''])"
  by (subst streamed_message) (auto simp: find_mut_def)

section \<open>Tool-call patches\<close>

lemma merge_assoc:
  "merge_tool_call (merge_tool_call a b) c = merge_tool_call a (merge_tool_call b c)"
  by (rule ToolCallPatch.equality) (auto simp: merge_tool_call_def)

text \<open>
  Tool-call patches compose: merging is associative with the empty patch as unit on both
  sides, so the order in which partial updates are combined does not matter as long as they
  are not reordered.
\<close>

theorem merge_tool_call_monoid:
  "merge_tool_call (merge_tool_call a b) c = merge_tool_call a (merge_tool_call b c)
   \<and> merge_tool_call a \<lparr>tc_title = None, tc_kind = None, tc_status = None, tc_input = None,
       tc_output = None, tc_locations = []\<rparr> = a
   \<and> merge_tool_call \<lparr>tc_title = None, tc_kind = None, tc_status = None, tc_input = None,
       tc_output = None, tc_locations = []\<rparr> a = a"
  by (intro conjI merge_assoc) (simp_all add: merge_tool_call_def)

end
