(* ===== verification/Thread_Machine.thy ===== *)
theory Thread_Machine
  imports Thread_Entries
begin

text \<open>
  The thread state machine, \<^verbatim>\<open>crates/tethys-thread/src/state.rs\<close>: the record
  \<open>ThreadMachine\<close>, one definition per method, and the step relation of the public mutators.
  Sequence numbers are 32-bit words. The lemmas show the invariant of every reachable
  machine (unique entry ids, positional turn indices), that replay drives no transition,
  that \<open>latest_seq\<close> never decreases, and when turns are closed; the last theorem is the
  history in which a turn is left open.
\<close>

section \<open>Definitions\<close>

datatype EventOrigin = Live | Replay

record TurnRecord =
  tr_index :: u32
  tr_started_seq :: u32
  tr_ended_seq :: "u32 option"
  tr_stop_reason :: "StopReason option"

record ThreadMachine =
  tm_id :: string
  tm_state :: ThreadState
  tm_entries :: "Entry list"
  tm_turns :: "TurnRecord list"
  tm_latest_seq :: u32
  tm_session_id :: "string option"
  tm_title :: "string option"

definition tm_new :: "string \<Rightarrow> ThreadMachine" where
  "tm_new i = \<lparr>tm_id = i, tm_state = TS_Idle, tm_entries = [], tm_turns = [],
     tm_latest_seq = 0, tm_session_id = None, tm_title = None\<rparr>"

definition set_session :: "string \<Rightarrow> ThreadMachine \<Rightarrow> ThreadMachine" where
  "set_session session m = m\<lparr>tm_session_id := Some session\<rparr>"

definition end_turn :: "u32 \<Rightarrow> StopReason option \<Rightarrow> ThreadMachine \<Rightarrow> ThreadMachine" where
  "end_turn seq stop_reason m =
     m\<lparr>tm_turns := modify_first (\<lambda>turn. tr_ended_seq turn = None)
         (\<lambda>turn. turn\<lparr>tr_ended_seq := Some seq, tr_stop_reason := stop_reason\<rparr>) (tm_turns m)\<rparr>"

definition apply_entry :: "TurnEventBody \<Rightarrow> bool \<Rightarrow> ThreadMachine \<Rightarrow> ThreadMachine" where
  "apply_entry event replayed m =
     m\<lparr>tm_entries := fst (apply_event (tm_entries m) event replayed)\<rparr>"

definition begin_turn :: "u32 \<Rightarrow> ThreadMachine \<Rightarrow> ThreadMachine" where
  "begin_turn seq m =
     (if tm_state m \<noteq> TS_Running
      then m\<lparr>tm_turns := tm_turns m @ [\<lparr>tr_index = of_nat (length (tm_turns m)),
             tr_started_seq = seq, tr_ended_seq = None, tr_stop_reason = None\<rparr>]\<rparr>
      else m)"

fun apply_live :: "u32 \<Rightarrow> TurnEventBody \<Rightarrow> ThreadMachine \<Rightarrow> ThreadMachine" where
  "apply_live seq (Ev_StateChanged SS_Running) m = (begin_turn seq m)\<lparr>tm_state := TS_Running\<rparr>"
| "apply_live seq (Ev_StateChanged (SS_Idle stop_reason)) m =
     (end_turn seq stop_reason m)\<lparr>tm_state := TS_Idle\<rparr>"
| "apply_live seq (Ev_StateChanged SS_RequiresAction) m = m\<lparr>tm_state := TS_AwaitingApproval\<rparr>"
| "apply_live seq (Ev_PermissionRequested request) m =
     (apply_entry (Ev_PermissionRequested request) False m)\<lparr>tm_state := TS_AwaitingApproval\<rparr>"
| "apply_live seq (Ev_PermissionResolved req_id outcome decider) m =
     (let m' = apply_entry (Ev_PermissionResolved req_id outcome decider) False m in
      if tm_state m' = TS_AwaitingApproval then m'\<lparr>tm_state := TS_Running\<rparr> else m')"
| "apply_live seq (Ev_SessionInfo info) m =
     (if si_title info \<noteq> None then m\<lparr>tm_title := si_title info\<rparr> else m)"
| "apply_live seq (Ev_Error code message retryable) m =
     (apply_entry (Ev_Error code message retryable) False m)\<lparr>tm_state := TS_Error\<rparr>"
| "apply_live seq event m = apply_entry event False m"

definition tm_apply :: "u32 \<Rightarrow> TurnEventBody \<Rightarrow> EventOrigin \<Rightarrow> ThreadMachine \<Rightarrow> ThreadMachine" where
  "tm_apply seq event origin m =
     (let m' = m\<lparr>tm_latest_seq := max (tm_latest_seq m) seq\<rparr> in
      if origin = Replay then apply_entry event True m' else apply_live seq event m')"

definition mark_resumed :: "ThreadMachine \<Rightarrow> ThreadMachine" where
  "mark_resumed m = (if tm_state m = TS_Interrupted then m\<lparr>tm_state := TS_Idle\<rparr> else m)"

definition mark_interrupted :: "ThreadMachine \<Rightarrow> ThreadMachine" where
  "mark_interrupted m =
     (end_turn (tm_latest_seq m) (Some SR_Error) m)\<lparr>tm_state := TS_Interrupted\<rparr>"

definition tm_archive :: "ThreadMachine \<Rightarrow> ThreadMachine" where
  "tm_archive m = m\<lparr>tm_state := TS_Archived\<rparr>"

text \<open>The step relation: one rule per public mutator.\<close>

inductive tm_step :: "ThreadMachine \<Rightarrow> ThreadMachine \<Rightarrow> bool" where
  step_apply: "tm_step m (tm_apply seq event origin m)"
| step_set_session: "tm_step m (set_session session m)"
| step_mark_resumed: "tm_step m (mark_resumed m)"
| step_mark_interrupted: "tm_step m (mark_interrupted m)"
| step_archive: "tm_step m (tm_archive m)"

inductive tm_reachable :: "string \<Rightarrow> ThreadMachine \<Rightarrow> bool" where
  reach_new: "tm_reachable i (tm_new i)"
| reach_step: "tm_reachable i m \<Longrightarrow> tm_step m m' \<Longrightarrow> tm_reachable i m'"

inductive_cases tm_stepE: "tm_step m m'"

lemmas tm_op_defs = tm_apply_def set_session_def mark_resumed_def mark_interrupted_def
  tm_archive_def apply_entry_def end_turn_def begin_turn_def

section \<open>The invariant of reachable machines\<close>

definition turns_indexed :: "TurnRecord list \<Rightarrow> bool" where
  "turns_indexed turns \<longleftrightarrow> map tr_index turns = map of_nat [0..<length turns]"

definition tm_wf :: "ThreadMachine \<Rightarrow> bool" where
  "tm_wf m \<longleftrightarrow> unique_ids (tm_entries m) \<and> turns_indexed (tm_turns m)"

lemma tm_wf_new: "tm_wf (tm_new i)"
  by (simp add: tm_wf_def tm_new_def unique_ids_def turns_indexed_def)

lemma end_turn_wf [wf_intros]: "tm_wf m \<Longrightarrow> tm_wf (end_turn seq r m)"
  by (simp add: tm_wf_def turns_indexed_def end_turn_def map_modify_first)

lemma begin_turn_wf [wf_intros]: "tm_wf m \<Longrightarrow> tm_wf (begin_turn seq m)"
  by (simp add: tm_wf_def turns_indexed_def begin_turn_def)

lemma apply_entry_wf [wf_intros]: "tm_wf m \<Longrightarrow> tm_wf (apply_entry event r m)"
  by (simp add: tm_wf_def apply_entry_def apply_event_unique)

lemma tm_wf_updates [simp]:
  "tm_wf (m\<lparr>tm_state := s\<rparr>) = tm_wf m"
  "tm_wf (m\<lparr>tm_latest_seq := q\<rparr>) = tm_wf m"
  "tm_wf (m\<lparr>tm_session_id := x\<rparr>) = tm_wf m"
  "tm_wf (m\<lparr>tm_title := t\<rparr>) = tm_wf m"
  by (simp_all add: tm_wf_def)

lemma apply_live_wf [wf_intros]: "tm_wf m \<Longrightarrow> tm_wf (apply_live seq event m)"
  by (cases "(seq, event, m)" rule: apply_live.cases)
     (auto simp: Let_def intro: wf_intros)

lemma tm_step_wf: "tm_step m m' \<Longrightarrow> tm_wf m \<Longrightarrow> tm_wf m'"
  by (erule tm_stepE)
     (auto simp: tm_apply_def set_session_def mark_resumed_def mark_interrupted_def tm_archive_def
       Let_def intro: wf_intros)

lemma tm_reachable_wf: "tm_reachable i m \<Longrightarrow> tm_wf m"
  by (induction rule: tm_reachable.induct) (auto intro: tm_wf_new tm_step_wf)

section \<open>What an operation leaves alone\<close>

lemma apply_entry_frame [frame_simps]:
  "tm_id (apply_entry event r m) = tm_id m"
  "tm_state (apply_entry event r m) = tm_state m"
  "tm_turns (apply_entry event r m) = tm_turns m"
  "tm_latest_seq (apply_entry event r m) = tm_latest_seq m"
  "tm_session_id (apply_entry event r m) = tm_session_id m"
  "tm_title (apply_entry event r m) = tm_title m"
  by (simp_all add: apply_entry_def)

lemma turn_ops_frame [frame_simps]:
  "tm_id (end_turn seq r m) = tm_id m" "tm_id (begin_turn seq m) = tm_id m"
  "tm_latest_seq (end_turn seq r m) = tm_latest_seq m"
  "tm_latest_seq (begin_turn seq m) = tm_latest_seq m"
  "tm_entries (end_turn seq r m) = tm_entries m" "tm_entries (begin_turn seq m) = tm_entries m"
  by (simp_all add: end_turn_def begin_turn_def)

lemma apply_live_frame [frame_simps]:
  "tm_id (apply_live seq event m) = tm_id m"
  "tm_latest_seq (apply_live seq event m) = tm_latest_seq m"
  by (cases "(seq, event, m)" rule: apply_live.cases; simp add: Let_def frame_simps)+

lemma tm_step_latest: "tm_step m m' \<Longrightarrow> tm_id m' = tm_id m \<and> tm_latest_seq m \<le> tm_latest_seq m'"
  by (erule tm_stepE)
     (auto simp: tm_apply_def set_session_def mark_resumed_def mark_interrupted_def tm_archive_def
       Let_def frame_simps)

section \<open>Open turns\<close>

definition open_turns :: "ThreadMachine \<Rightarrow> nat" where
  "open_turns m = length (filter (\<lambda>turn. tr_ended_seq turn = None) (tm_turns m))"

lemma open_turns_end_turn: "open_turns (end_turn seq r m) = open_turns m - 1"
  by (simp add: open_turns_def end_turn_def count_modify_first)

lemma open_turns_begin_turn:
  "open_turns (begin_turn seq m) = open_turns m + (if tm_state m = TS_Running then 0 else 1)"
  by (simp add: open_turns_def begin_turn_def)

lemma open_turns_updates [simp]:
  "open_turns (m\<lparr>tm_state := s\<rparr>) = open_turns m"
  "open_turns (m\<lparr>tm_latest_seq := q\<rparr>) = open_turns m"
  "open_turns (m\<lparr>tm_session_id := x\<rparr>) = open_turns m"
  "open_turns (m\<lparr>tm_title := t\<rparr>) = open_turns m"
  "open_turns (apply_entry event r m) = open_turns m"
  by (simp_all add: open_turns_def frame_simps)

lemma open_turns_new: "open_turns (tm_new i) = 0"
  by (simp add: open_turns_def tm_new_def)

lemmas open_turns_simps = open_turns_end_turn open_turns_begin_turn

text \<open>
  Histories in which the agent reports \<open>Running\<close> only while the machine is running already
  or has no turn open.
\<close>

definition orderly :: "ThreadMachine \<Rightarrow> TurnEventBody \<Rightarrow> EventOrigin \<Rightarrow> bool" where
  "orderly m event origin \<longleftrightarrow>
     origin = Live \<and> event = Ev_StateChanged SS_Running
       \<longrightarrow> tm_state m = TS_Running \<or> open_turns m = 0"

inductive orderly_reachable :: "string \<Rightarrow> ThreadMachine \<Rightarrow> bool" where
  orderly_new: "orderly_reachable i (tm_new i)"
| orderly_apply: "orderly_reachable i m \<Longrightarrow> orderly m event origin
    \<Longrightarrow> orderly_reachable i (tm_apply seq event origin m)"
| orderly_set_session: "orderly_reachable i m \<Longrightarrow> orderly_reachable i (set_session session m)"
| orderly_resumed: "orderly_reachable i m \<Longrightarrow> orderly_reachable i (mark_resumed m)"
| orderly_interrupted: "orderly_reachable i m \<Longrightarrow> orderly_reachable i (mark_interrupted m)"
| orderly_archive: "orderly_reachable i m \<Longrightarrow> orderly_reachable i (tm_archive m)"

lemma apply_live_open_turns:
  "orderly m event Live \<Longrightarrow> open_turns m \<le> 1 \<Longrightarrow> open_turns (apply_live seq event m) \<le> 1"
  by (cases "(seq, event, m)" rule: apply_live.cases)
     (auto simp: Let_def orderly_def open_turns_simps)

lemma orderly_open_turns: "orderly_reachable i m \<Longrightarrow> open_turns m \<le> 1"
proof (induction rule: orderly_reachable.induct)
  case (orderly_apply i m event origin seq)
  then have "orderly (m\<lparr>tm_latest_seq := max (tm_latest_seq m) seq\<rparr>) event origin"
    by (simp add: orderly_def)
  with orderly_apply show ?case
    using apply_live_open_turns [of "m\<lparr>tm_latest_seq := max (tm_latest_seq m) seq\<rparr>" event seq]
    by (cases origin) (simp_all add: tm_apply_def Let_def)
qed (auto simp: open_turns_new set_session_def mark_resumed_def mark_interrupted_def
      tm_archive_def open_turns_simps)

section \<open>Properties\<close>

text \<open>
  C2. In every machine reachable through the public operations the entry ids are distinct
  and the turn at position \<open>k\<close> carries index \<open>k\<close> (as a 32-bit number).
\<close>

theorem reachable_machine_wf:
  assumes "tm_reachable i m"
  shows "distinct (map entry_id (tm_entries m))
       \<and> map tr_index (tm_turns m) = map of_nat [0..<length (tm_turns m)]"
  using tm_reachable_wf [OF assms] by (simp add: tm_wf_def unique_ids_def turns_indexed_def)

theorem reachable_machine_wf_witness:
  "map tr_index (tm_turns (tm_apply 1 (Ev_StateChanged SS_Running) Live (tm_new ''t'')))
     = map of_nat [0..<length (tm_turns
         (tm_apply 1 (Ev_StateChanged SS_Running) Live (tm_new ''t'')))]"
  using reachable_machine_wf
    [OF tm_reachable.reach_step [OF tm_reachable.reach_new tm_step.step_apply]]
  by blast

text \<open>
  A replayed event drives no transition: it leaves the state, the turns, the session and
  the title as they are, and moves \<open>latest_seq\<close> only forward.
\<close>

theorem replay_keeps_state:
  "tm_state (tm_apply seq event Replay m) = tm_state m
   \<and> tm_turns (tm_apply seq event Replay m) = tm_turns m
   \<and> tm_session_id (tm_apply seq event Replay m) = tm_session_id m
   \<and> tm_title (tm_apply seq event Replay m) = tm_title m
   \<and> tm_latest_seq (tm_apply seq event Replay m) = max (tm_latest_seq m) seq"
  by (simp add: tm_apply_def Let_def frame_simps)

text \<open>
  \<open>latest_seq\<close> bounds every sequence number applied so far and no operation decreases it.
\<close>

theorem latest_seq_monotone:
  "tm_step m m' \<Longrightarrow> tm_latest_seq m \<le> tm_latest_seq m'"
  by (simp add: tm_step_latest)

theorem latest_seq_monotone_witness:
  "tm_latest_seq (tm_new ''t'')
     \<le> tm_latest_seq (tm_apply 7 (Ev_Unknown ''x'') Live (tm_new ''t''))"
  by (rule latest_seq_monotone) (rule tm_step.step_apply)

text \<open>
  C3. If the agent reports \<open>Running\<close> only when the machine is running or has no open turn,
  then at most one turn is open at any time, and an \<open>Idle\<close> report and an interruption both
  leave no turn open.
\<close>

theorem orderly_turns_closed:
  assumes "orderly_reachable i m"
  shows "open_turns m \<le> 1
       \<and> open_turns (tm_apply seq (Ev_StateChanged (SS_Idle r)) Live m) = 0
       \<and> open_turns (mark_interrupted m) = 0"
  using orderly_open_turns [OF assms]
  by (simp add: tm_apply_def mark_interrupted_def open_turns_simps)

theorem orderly_turns_closed_witness:
  "open_turns (tm_apply 2 (Ev_StateChanged (SS_Idle None)) Live
     (tm_apply 1 (Ev_StateChanged SS_Running) Live (tm_new ''t''))) = 0"
  using orderly_turns_closed [of "''t''" "tm_apply 1 (Ev_StateChanged SS_Running) Live (tm_new ''t'')"
      2 None]
    orderly_reachable.orderly_apply [OF orderly_reachable.orderly_new,
      of "''t''" "Ev_StateChanged SS_Running" Live 1]
  by (simp add: orderly_def tm_new_def open_turns_def)

text \<open>
  Without that order the turn log is wrong: an agent that reports running, requires
  action, running, idle leaves two turn records, and after the turn has ended the second is
  still open although the thread is idle.
\<close>

theorem requires_action_leaves_open_turn:
  "let m = tm_apply 4 (Ev_StateChanged (SS_Idle (Some SR_EndTurn))) Live
       (tm_apply 3 (Ev_StateChanged SS_Running) Live
         (tm_apply 2 (Ev_StateChanged SS_RequiresAction) Live
           (tm_apply 1 (Ev_StateChanged SS_Running) Live (tm_new i)))) in
   tm_state m = TS_Idle \<and> length (tm_turns m) = 2
   \<and> map tr_ended_seq (tm_turns m) = [Some 4, None] \<and> open_turns m = 1"
  by (simp add: tm_apply_def tm_new_def begin_turn_def end_turn_def open_turns_def Let_def)

end
