(* ===== verification/Rust_Text.thy ===== *)
theory Rust_Text
  imports Tethys_Prelude "HOL-Library.Sublist" "HOL-Library.Char_ord"
begin

text \<open>
  The string operations of the Rust standard library that the program uses, on strings as
  lists of bytes: \<open>strip_prefix\<close>, \<open>strip_suffix\<close>, \<open>split\<close>, \<open>splitn\<close>, \<open>split_once\<close>,
  \<open>split_inclusive\<close>, \<open>lines\<close>, decimal formatting and parsing, \<open>from_utf8_lossy\<close> and the
  debug form of a string, with their round trips.
\<close>

section \<open>Prefixes and suffixes\<close>

abbreviation newline :: char where "newline \<equiv> CHR 0x0A"
abbreviation cr :: char where "cr \<equiv> CHR 0x0D"
abbreviation nul :: char where "nul \<equiv> CHR 0x00"

definition strip_prefix :: "string \<Rightarrow> string \<Rightarrow> string option" where
  "strip_prefix p s = (if take (length p) s = p then Some (drop (length p) s) else None)"

definition strip_suffix :: "string \<Rightarrow> string \<Rightarrow> string option" where
  "strip_suffix p s = map_option rev (strip_prefix (rev p) (rev s))"

definition starts_with :: "string \<Rightarrow> string \<Rightarrow> bool" where
  "starts_with p s \<longleftrightarrow> strip_prefix p s \<noteq> None"

definition ends_with :: "string \<Rightarrow> string \<Rightarrow> bool" where
  "ends_with p s \<longleftrightarrow> strip_suffix p s \<noteq> None"

lemma strip_prefix_append [simp]: "strip_prefix p (p @ s) = Some s"
  by (simp add: strip_prefix_def)

lemma strip_prefix_Some: "strip_prefix p s = Some r \<longleftrightarrow> s = p @ r"
  by (auto simp: strip_prefix_def) (metis append_take_drop_id)

lemma strip_suffix_append [simp]: "strip_suffix p (s @ p) = Some s"
  by (simp add: strip_suffix_def)

lemma strip_suffix_Some: "strip_suffix p s = Some r \<longleftrightarrow> s = r @ p"
  by (auto simp: strip_suffix_def strip_prefix_Some) (metis rev_append rev_rev_ident)

lemma starts_with_iff: "starts_with p s \<longleftrightarrow> (\<exists>r. s = p @ r)"
  by (auto simp: starts_with_def strip_prefix_Some)

lemma ends_with_iff: "ends_with p s \<longleftrightarrow> (\<exists>r. s = r @ p)"
  by (auto simp: ends_with_def strip_suffix_Some)

lemma ends_with_char: "ends_with [c] s \<longleftrightarrow> s \<noteq> [] \<and> last s = c"
  by (cases s rule: rev_cases) (auto simp: ends_with_iff)

section \<open>Character classes and trimming\<close>

text \<open>
  \<open>str::trim\<close> and its relatives, on the ASCII whitespace; \<open>is_ascii_whitespace\<close> of a byte
  leaves out the vertical tab.
\<close>

definition is_space :: "char \<Rightarrow> bool" where
  "is_space c \<longleftrightarrow> c = CHR '' '' \<or> (9 \<le> (of_char c :: nat) \<and> of_char c \<le> (13 :: nat))"

definition is_ascii_space :: "char \<Rightarrow> bool" where
  "is_ascii_space c \<longleftrightarrow> is_space c \<and> c \<noteq> CHR 0x0B"

definition alphanumeric :: "char \<Rightarrow> bool" where
  "alphanumeric c \<longleftrightarrow> (let n = of_char c :: nat in
     48 \<le> n \<and> n \<le> 57 \<or> 65 \<le> n \<and> n \<le> 90 \<or> 97 \<le> n \<and> n \<le> 122)"

definition blank :: "string \<Rightarrow> bool" where
  "blank text \<longleftrightarrow> list_all is_space text"

definition trim_start_matches :: "(char \<Rightarrow> bool) \<Rightarrow> string \<Rightarrow> string" where
  "trim_start_matches P s = dropWhile P s"

definition trim_end_matches :: "(char \<Rightarrow> bool) \<Rightarrow> string \<Rightarrow> string" where
  "trim_end_matches P s = rev (dropWhile P (rev s))"

definition trim_matches :: "(char \<Rightarrow> bool) \<Rightarrow> string \<Rightarrow> string" where
  "trim_matches P s = trim_end_matches P (trim_start_matches P s)"

definition trim :: "string \<Rightarrow> string" where
  "trim s = trim_matches is_space s"

lemma trim_end_matches_split: "\<exists>tl. s = trim_end_matches P s @ tl \<and> list_all P tl"
proof -
  have "rev s = takeWhile P (rev s) @ dropWhile P (rev s)" by simp
  then have "s = trim_end_matches P s @ rev (takeWhile P (rev s))"
    by (metis rev_append rev_rev_ident trim_end_matches_def)
  moreover have "list_all P (rev (takeWhile P (rev s)))"
    by (auto simp: list_all_iff dest: set_takeWhileD)
  ultimately show ?thesis by blast
qed

text \<open>\<open>trim_start_matches\<close> with a string pattern removes every repetition of it.\<close>

function trim_start_str :: "string \<Rightarrow> string \<Rightarrow> string" where
  "trim_start_str p s =
     (if p \<noteq> [] \<and> starts_with p s then trim_start_str p (drop (length p) s) else s)"
  by pat_completeness auto
termination by (relation "measure (\<lambda>(p, s). length s)") (auto simp: starts_with_iff)

declare trim_start_str.simps [simp del]

lemma trim_start_str_once:
  "p \<noteq> [] \<Longrightarrow> \<not> starts_with p s \<Longrightarrow> trim_start_str p (p @ s) = s"
  by (simp add: trim_start_str.simps[of p "p @ s"] trim_start_str.simps[of p s] starts_with_iff)

section \<open>Searching and replacing\<close>

text \<open>\<open>contains\<close> and \<open>replace\<close> with a nonempty pattern: occurrences from the left, not overlapping.\<close>

fun contains :: "string \<Rightarrow> string \<Rightarrow> bool" where
  "contains p [] = (p = [])"
| "contains p (c # s) = (starts_with p (c # s) \<or> contains p s)"

function replace_all :: "string \<Rightarrow> string \<Rightarrow> string \<Rightarrow> string" where
  "replace_all p r s =
     (case s of [] \<Rightarrow> []
      | c # s' \<Rightarrow>
          if p \<noteq> [] \<and> starts_with p s then r @ replace_all p r (drop (length p) s)
          else c # replace_all p r s')"
  by pat_completeness auto
termination by (relation "measure (\<lambda>(p, r, s). length s)") auto

declare replace_all.simps [simp del]

lemma contains_iff: "contains p s \<longleftrightarrow> (\<exists>a b. s = a @ p @ b)"
proof (induction s)
  case (Cons c s)
  show ?case
  proof
    assume "contains p (c # s)"
    then show "\<exists>a b. c # s = a @ p @ b"
      using Cons by (auto simp: starts_with_iff) (metis append_Cons append_Nil)+
  next
    assume "\<exists>a b. c # s = a @ p @ b"
    then obtain a b where ab: "c # s = a @ p @ b" by blast
    show "contains p (c # s)"
    proof (cases a)
      case Nil
      then have "starts_with p (c # s)" using ab by (auto simp: starts_with_iff)
      then show ?thesis by simp
    next
      case (Cons x a')
      then have "s = a' @ p @ b" using ab by simp
      then show ?thesis using \<open>contains p s \<longleftrightarrow> (\<exists>a b. s = a @ p @ b)\<close> by auto
    qed
  qed
qed auto

lemma replace_all_absent: "\<not> contains p s \<Longrightarrow> replace_all p r s = s"
proof (induction s)
  case (Cons c s)
  then show ?case by (subst replace_all.simps) auto
qed (simp add: replace_all.simps)

lemma replace_all_here: "p \<noteq> [] \<Longrightarrow> replace_all p r (p @ s) = r @ replace_all p r s"
  by (cases p) (simp_all add: replace_all.simps[of _ _ "_ # _"] starts_with_def strip_prefix_def)

text \<open>\<open>replace('\\', "/")\<close>.\<close>

definition to_slashes :: "string \<Rightarrow> string" where
  "to_slashes = map (\<lambda>c. if c = CHR 0x5C then CHR ''/'' else c)"

lemma to_slashes_id: "CHR 0x5C \<notin> set s \<Longrightarrow> to_slashes s = s"
  by (induction s) (auto simp: to_slashes_def)

section \<open>Splitting\<close>

fun split_on :: "char \<Rightarrow> string \<Rightarrow> string list" where
  "split_on c [] = [[]]"
| "split_on c (x # xs) =
     (if x = c then [] # split_on c xs
      else case split_on c xs of [] \<Rightarrow> [[x]] | l # ls \<Rightarrow> (x # l) # ls)"

fun join_with :: "char \<Rightarrow> string list \<Rightarrow> string" where
  "join_with c [] = []"
| "join_with c [l] = l"
| "join_with c (l # ls) = l @ c # join_with c ls"

definition split_once :: "char \<Rightarrow> string \<Rightarrow> (string \<times> string) option" where
  "split_once c s = (if c \<in> set s
     then Some (takeWhile (\<lambda>x. x \<noteq> c) s, tl (dropWhile (\<lambda>x. x \<noteq> c) s)) else None)"

fun splitn :: "nat \<Rightarrow> char \<Rightarrow> string \<Rightarrow> string list" where
  "splitn 0 c s = []"
| "splitn (Suc 0) c s = [s]"
| "splitn (Suc n) c s = (case split_once c s of None \<Rightarrow> [s] | Some (a, b) \<Rightarrow> a # splitn n c b)"

fun split_inclusive :: "char \<Rightarrow> string \<Rightarrow> string list" where
  "split_inclusive c [] = []"
| "split_inclusive c (x # xs) =
     (if x = c then [x] # split_inclusive c xs
      else case split_inclusive c xs of [] \<Rightarrow> [[x]] | l # ls \<Rightarrow> (x # l) # ls)"

lemma split_on_ne [simp]: "split_on c s \<noteq> []"
  by (cases s) (auto split: list.split)

lemma split_on_free: "c \<notin> set s \<Longrightarrow> split_on c s = [s]"
  by (induction s) auto

lemma split_on_append: "c \<notin> set a \<Longrightarrow> split_on c (a @ c # b) = a # split_on c b"
  by (induction a) auto

lemma split_on_join:
  "ls \<noteq> [] \<Longrightarrow> (\<And>l. l \<in> set ls \<Longrightarrow> c \<notin> set l) \<Longrightarrow> split_on c (join_with c ls) = ls"
  by (induction c ls rule: join_with.induct) (auto simp: split_on_free split_on_append)

lemma join_split_on [simp]: "join_with c (split_on c s) = s"
proof (induction s)
  case (Cons x xs)
  obtain l ls where "split_on c xs = l # ls" by (cases "split_on c xs") auto
  with Cons show ?case by (cases ls) auto
qed simp

lemma split_on_parts: "l \<in> set (split_on c s) \<Longrightarrow> c \<notin> set l"
  by (induction s arbitrary: l) (auto split: list.splits if_splits)

lemma split_once_Some: "split_once c s = Some (a, b) \<longleftrightarrow> s = a @ c # b \<and> c \<notin> set a"
proof
  assume "split_once c s = Some (a, b)"
  then have *: "c \<in> set s" "a = takeWhile (\<lambda>x. x \<noteq> c) s" "b = tl (dropWhile (\<lambda>x. x \<noteq> c) s)"
    by (auto simp: split_once_def split: if_splits)
  then have "dropWhile (\<lambda>x. x \<noteq> c) s \<noteq> []" "hd (dropWhile (\<lambda>x. x \<noteq> c) s) = c"
    using hd_dropWhile[of "\<lambda>x. x \<noteq> c" s] by (auto simp: dropWhile_eq_Nil_conv)
  then have "dropWhile (\<lambda>x. x \<noteq> c) s = c # b" using *(3) by (cases "dropWhile (\<lambda>x. x \<noteq> c) s") auto
  then show "s = a @ c # b \<and> c \<notin> set a"
    using *(2) takeWhile_dropWhile_id[of "\<lambda>x. x \<noteq> c" s] by (auto dest: set_takeWhileD)
next
  assume "s = a @ c # b \<and> c \<notin> set a"
  then show "split_once c s = Some (a, b)"
    by (auto simp: split_once_def takeWhile_append dropWhile_append)
qed

lemma concat_split_inclusive [simp]: "concat (split_inclusive c s) = s"
  by (induction s) (auto split: list.split)

lemma split_inclusive_ne: "l \<in> set (split_inclusive c s) \<Longrightarrow> l \<noteq> []"
  by (induction s arbitrary: l) (auto split: list.splits if_splits)

lemma split_inclusive_inner:
  "l \<in> set (split_inclusive c s) \<Longrightarrow> c \<notin> set (butlast l)"
proof (induction s arbitrary: l)
  case (Cons x xs)
  show ?case
  proof (cases "split_inclusive c xs")
    case Nil
    with Cons.prems show ?thesis by (auto split: if_splits)
  next
    case (Cons m ms)
    then have "m \<noteq> []" by (metis list.set_intros(1) split_inclusive_ne)
    with Cons Cons.prems Cons.IH show ?thesis by (auto split: if_splits)
  qed
qed simp

lemma split_inclusive_line:
  "c \<notin> set l \<Longrightarrow> split_inclusive c (l @ c # s) = (l @ [c]) # split_inclusive c s"
  by (induction l) auto

lemma split_inclusive_free: "c \<notin> set l \<Longrightarrow> split_inclusive c l = (if l = [] then [] else [l])"
  by (induction l) auto

section \<open>Decimal numbers\<close>

definition digit :: "nat \<Rightarrow> char" where
  "digit d = char_of (48 + d)"

definition digit_val :: "char \<Rightarrow> nat option" where
  "digit_val c = (let n = of_char c :: nat in if 48 \<le> n \<and> n < 58 then Some (n - 48) else None)"

fun show_nat :: "nat \<Rightarrow> string" where
  "show_nat n = (if n < 10 then [digit n] else show_nat (n div 10) @ [digit (n mod 10)])"

declare show_nat.simps [simp del]

fun parse_digits :: "nat \<Rightarrow> nat \<Rightarrow> string \<Rightarrow> nat option" where
  "parse_digits bound acc [] = Some acc"
| "parse_digits bound acc (c # cs) =
     (case digit_val c of None \<Rightarrow> None
      | Some d \<Rightarrow> if acc * 10 + d < bound then parse_digits bound (acc * 10 + d) cs else None)"

text \<open>\<open>str::parse::<u32>()\<close>: an optional plus sign, at least one digit, no overflow.\<close>

definition parse_u32 :: "string \<Rightarrow> nat option" where
  "parse_u32 s =
     (case s of [] \<Rightarrow> None
      | c # cs \<Rightarrow>
          if c = CHR ''+'' then (if cs = [] then None else parse_digits (2 ^ 32) 0 cs)
          else parse_digits (2 ^ 32) 0 s)"

lemma of_char_digit: "d < 10 \<Longrightarrow> of_char (digit d) = 48 + d"
  by (simp add: digit_def)

lemma digit_val_digit [simp]: "d < 10 \<Longrightarrow> digit_val (digit d) = Some d"
  by (simp add: digit_val_def of_char_digit)

lemma digit_val_bound: "digit_val c = Some d \<Longrightarrow> d < 10"
  by (auto simp: digit_val_def Let_def split: if_splits)

lemma show_nat_ne [simp]: "show_nat n \<noteq> []"
  by (subst show_nat.simps) simp

lemma show_nat_digits: "c \<in> set (show_nat n) \<Longrightarrow> \<exists>d < 10. c = digit d"
proof (induction n rule: show_nat.induct)
  case (1 n)
  have "\<exists>d < 10. digit (n mod 10) = digit d" by (rule exI[of _ "n mod 10"]) simp
  with 1 show ?case by (cases "n < 10") (auto simp: show_nat.simps[of n])
qed

lemma digit_not: "d < 10 \<Longrightarrow> of_char c < (48::nat) \<or> (58::nat) \<le> of_char c \<Longrightarrow> digit d \<noteq> c"
  using of_char_digit by fastforce

lemma show_nat_free: "of_char c < (48::nat) \<or> (58::nat) \<le> of_char c \<Longrightarrow> c \<notin> set (show_nat n)"
  using show_nat_digits digit_not by blast

lemma parse_digits_append:
  "parse_digits b acc (xs @ ys)
     = (case parse_digits b acc xs of None \<Rightarrow> None | Some acc' \<Rightarrow> parse_digits b acc' ys)"
  by (induction b acc xs rule: parse_digits.induct) (auto split: option.split)

lemma parse_digits_show: "n < b \<Longrightarrow> parse_digits b 0 (show_nat n) = Some n"
proof (induction n rule: show_nat.induct)
  case (1 n)
  show ?case
  proof (cases "n < 10")
    case True
    then show ?thesis using 1 by (simp add: show_nat.simps[of n])
  next
    case False
    then have "parse_digits b 0 (show_nat (n div 10)) = Some (n div 10)"
      using 1 by (simp add: less_imp_diff_less div_less_dividend le_less_trans[OF div_le_dividend])
    then show ?thesis using 1 False
      by (simp add: show_nat.simps[of n] parse_digits_append)
  qed
qed

lemma parse_u32_show: "n < 2 ^ 32 \<Longrightarrow> parse_u32 (show_nat n) = Some n"
proof -
  assume "n < 2 ^ 32"
  moreover have "CHR ''+'' \<notin> set (show_nat n)" by (rule show_nat_free) simp
  ultimately show ?thesis
    using parse_digits_show[of n "2 ^ 32"] show_nat_ne[of n]
    by (cases "show_nat n") (auto simp: parse_u32_def simp del: show_nat_ne)
qed

lemma show_nat_inj: "show_nat m = show_nat n \<Longrightarrow> m = n"
  using parse_digits_show[of m "Suc (m + n)"] parse_digits_show[of n "Suc (m + n)"]
  by (metis less_add_Suc1 less_add_Suc2 option.inject)

text \<open>\<open>str::parse::<u64>()\<close> and \<open>str::parse::<i64>()\<close>; the latter also reads a minus sign.\<close>

definition parse_unsigned :: "nat \<Rightarrow> string \<Rightarrow> nat option" where
  "parse_unsigned bound s =
     (case s of [] \<Rightarrow> None
      | c # cs \<Rightarrow>
          if c = CHR ''+'' then (if cs = [] then None else parse_digits bound 0 cs)
          else parse_digits bound 0 s)"

definition parse_u64 :: "string \<Rightarrow> nat option" where
  "parse_u64 = parse_unsigned (2 ^ 64)"

definition parse_i64 :: "string \<Rightarrow> int option" where
  "parse_i64 s =
     (case s of CHR ''-'' # cs \<Rightarrow>
          if cs = [] then None else map_option (\<lambda>n. - int n) (parse_digits (2 ^ 63 + 1) 0 cs)
      | _ \<Rightarrow> map_option int (parse_unsigned (2 ^ 63) s))"

lemma parse_u32_eq: "parse_u32 = parse_unsigned (2 ^ 32)"
  unfolding fun_eq_iff parse_u32_def parse_unsigned_def by blast

lemma parse_digits_less:
  "parse_digits b acc s = Some n \<Longrightarrow> acc < b \<Longrightarrow> n < b"
  by (induction b acc s rule: parse_digits.induct) (auto split: option.splits if_splits)

lemma parse_unsigned_less: "parse_unsigned b s = Some n \<Longrightarrow> 0 < b \<Longrightarrow> n < b"
  by (auto simp: parse_unsigned_def simp del: parse_digits.simps split: list.splits if_splits
      intro: parse_digits_less)

lemma parse_u32_less: "parse_u32 s = Some n \<Longrightarrow> n < 2 ^ 32"
  by (auto simp: parse_u32_eq intro: parse_unsigned_less)

section \<open>Lines\<close>

text \<open>\<open>str::lines\<close>: the pieces ended by a newline, without it and without one carriage return before it.\<close>

definition chomp :: "string \<Rightarrow> string" where
  "chomp l =
     (case strip_suffix [newline] l of
        None \<Rightarrow> l
      | Some l' \<Rightarrow> (case strip_suffix [cr] l' of None \<Rightarrow> l' | Some l'' \<Rightarrow> l''))"

definition str_lines :: "string \<Rightarrow> string list" where
  "str_lines s = map chomp (split_inclusive newline s)"

lemma chomp_line: "cr \<notin> set l \<Longrightarrow> chomp (l @ [newline]) = l"
  by (auto simp: chomp_def strip_suffix_Some split: option.split)

lemma str_lines_Nil [simp]: "str_lines [] = []"
  by (simp add: str_lines_def)

lemma str_lines_line:
  "newline \<notin> set l \<Longrightarrow> cr \<notin> set l \<Longrightarrow> str_lines (l @ newline # s) = l # str_lines s"
  by (simp add: str_lines_def split_inclusive_line chomp_line)

lemma str_lines_render:
  assumes "\<And>l. l \<in> set ls \<Longrightarrow> newline \<notin> set l \<and> cr \<notin> set l"
  shows "str_lines (concat (map (\<lambda>l. l @ [newline]) ls)) = ls"
  using assms by (induction ls) (auto simp: str_lines_line)

section \<open>Bytes read as text\<close>

text \<open>
  \<open>String::from_utf8_lossy\<close>: \<open>utf8_step\<close> measures the next character or the maximal ill-formed
  piece, which becomes U+FFFD. The byte ranges are those of the Unicode table of well-formed
  sequences.
\<close>

definition byte_in :: "nat \<Rightarrow> nat \<Rightarrow> char \<Rightarrow> bool" where
  "byte_in lo hi c \<longleftrightarrow> lo \<le> (of_char c :: nat) \<and> of_char c \<le> hi"

definition second_ok :: "char \<Rightarrow> char \<Rightarrow> bool" where
  "second_ok a b =
     (if a = CHR 0xE0 then byte_in 160 191 b
      else if a = CHR 0xED then byte_in 128 159 b
      else if a = CHR 0xF0 then byte_in 144 191 b
      else if a = CHR 0xF4 then byte_in 128 143 b
      else byte_in 128 191 b)"

definition utf8_width :: "char \<Rightarrow> nat" where
  "utf8_width c =
     (if byte_in 0 127 c then 1 else if byte_in 194 223 c then 2
      else if byte_in 224 239 c then 3 else if byte_in 240 244 c then 4 else 0)"

text \<open>How many of the bytes after the first continue the character, at most \<open>n\<close>.\<close>

fun continuation :: "nat \<Rightarrow> string \<Rightarrow> nat" where
  "continuation 0 s = 0"
| "continuation (Suc n) [] = 0"
| "continuation (Suc n) (c # s) = (if byte_in 128 191 c then Suc (continuation n s) else 0)"

definition utf8_step :: "string \<Rightarrow> bool \<times> nat" where
  "utf8_step s =
     (case s of [] \<Rightarrow> (True, 0)
      | c # s' \<Rightarrow>
          let w = utf8_width c in
          if w = 0 then (False, 1)
          else if w = 1 then (True, 1)
          else case s' of [] \<Rightarrow> (False, 1)
            | d # s'' \<Rightarrow>
                if \<not> second_ok c d then (False, 1)
                else let k = continuation (w - 2) s'' in (k = w - 2, 2 + k))"

definition replacement :: string where
  "replacement = [CHR 0xEF, CHR 0xBF, CHR 0xBD]"

function utf8_lossy :: "string \<Rightarrow> string" where
  "utf8_lossy s =
     (if s = [] then []
      else case utf8_step s of (good, n) \<Rightarrow>
        (if good then take n s else replacement) @ utf8_lossy (drop (max 1 n) s))"
  by pat_completeness auto
termination by (relation "measure length") auto

declare utf8_lossy.simps [simp del]

lemma utf8_lossy_Nil [simp]: "utf8_lossy [] = []"
  by (simp add: utf8_lossy.simps)

text \<open>\<open>str::from_utf8\<close> succeeds.\<close>

function utf8_valid :: "string \<Rightarrow> bool" where
  "utf8_valid s =
     (if s = [] then True
      else case utf8_step s of (good, n) \<Rightarrow> good \<and> utf8_valid (drop (max 1 n) s))"
  by pat_completeness auto
termination by (relation "measure length") auto

declare utf8_valid.simps [simp del]

definition ascii :: "string \<Rightarrow> bool" where
  "ascii s \<longleftrightarrow> list_all (byte_in 0 127) s"

lemma utf8_lossy_ascii_Cons: "byte_in 0 127 c \<Longrightarrow> utf8_lossy (c # s) = c # utf8_lossy s"
  by (subst utf8_lossy.simps) (simp add: utf8_step_def utf8_width_def)

lemma utf8_lossy_ascii_append: "ascii a \<Longrightarrow> utf8_lossy (a @ s) = a @ utf8_lossy s"
  by (induction a) (auto simp: ascii_def utf8_lossy_ascii_Cons)

lemma utf8_lossy_ascii: "ascii a \<Longrightarrow> utf8_lossy a = a"
  using utf8_lossy_ascii_append[of a "[]"] by simp

lemma ascii_append [simp]: "ascii (a @ b) \<longleftrightarrow> ascii a \<and> ascii b"
  by (simp add: ascii_def)

lemma ascii_show_nat [simp]: "ascii (show_nat n)"
  by (auto simp: ascii_def list_all_iff byte_in_def of_char_digit dest!: show_nat_digits)

text \<open>\<open>{:?}\<close> of a string: quotes, backslashes and control characters are escaped.\<close>

definition hex_digit :: "nat \<Rightarrow> char" where
  "hex_digit d = (if d < 10 then digit d else char_of (87 + d))"

definition hex_code :: "nat \<Rightarrow> string" where
  "hex_code n = (if n < 16 then [hex_digit n] else [hex_digit (n div 16), hex_digit (n mod 16)])"

definition debug_char :: "char \<Rightarrow> string" where
  "debug_char c =
     (if c = nul then [CHR 0x5C, CHR ''0'']
      else if c = CHR 0x09 then [CHR 0x5C, CHR ''t'']
      else if c = newline then [CHR 0x5C, CHR ''n'']
      else if c = cr then [CHR 0x5C, CHR ''r'']
      else if c = CHR 0x22 \<or> c = CHR 0x5C then [CHR 0x5C, c]
      else if byte_in 0 31 c \<or> c = CHR 0x7F
        then [CHR 0x5C, CHR ''u'', CHR ''{''] @ hex_code (of_char c) @ [CHR ''}'']
      else [c])"

definition debug_str :: "string \<Rightarrow> string" where
  "debug_str s = [CHR 0x22] @ concat (map debug_char s) @ [CHR 0x22]"

section \<open>Paths\<close>

text \<open>\<open>Path::join\<close> with a relative second part.\<close>

definition join_path :: "string \<Rightarrow> string \<Rightarrow> string" where
  "join_path dir name =
     (if dir = [] \<or> last dir = CHR ''/'' then dir @ name else dir @ CHR ''/'' # name)"

text \<open>\<open>Path::file_stem\<close> and \<open>Path::extension\<close>: the last dot splits, a leading one does not.\<close>

definition file_stem :: "string \<Rightarrow> string" where
  "file_stem name =
     (let before = rev (tl (dropWhile (\<lambda>c. c \<noteq> CHR ''.'') (rev name))) in
      if CHR ''.'' \<in> set name \<and> before \<noteq> [] then before else name)"

definition extension :: "string \<Rightarrow> string option" where
  "extension name =
     (if CHR ''.'' \<in> set name \<and> file_stem name \<noteq> name
      then Some (rev (takeWhile (\<lambda>c. c \<noteq> CHR ''.'') (rev name))) else None)"

text \<open>\<open>Path::join\<close>: an absolute second part replaces the first.\<close>

definition is_absolute :: "string \<Rightarrow> bool" where
  "is_absolute p \<longleftrightarrow> p \<noteq> [] \<and> hd p = CHR ''/''"

definition path_join :: "string \<Rightarrow> string \<Rightarrow> string" where
  "path_join dir p = (if is_absolute p then p else join_path dir p)"

text \<open>
  \<open>Path::components\<close> on Unix: repeated separators and inner \<open>.\<close> parts disappear; a leading \<open>.\<close>
  stays. \<open>Path\<close> compares, strips and tests prefixes by components.
\<close>

datatype Component = RootDir | CurDir | ParentDir | Normal string

definition component :: "string \<Rightarrow> Component" where
  "component s = (if s = ''..'' then ParentDir else if s = ''.'' then CurDir else Normal s)"

definition components :: "string \<Rightarrow> Component list" where
  "components p =
     (let parts = filter (\<lambda>s. s \<noteq> []) (split_on (CHR ''/'') p) in
      if is_absolute p then RootDir # map component (filter (\<lambda>s. s \<noteq> ''.'') parts)
      else case parts of [] \<Rightarrow> []
        | s # rest \<Rightarrow> component s # map component (filter (\<lambda>s. s \<noteq> ''.'') rest))"

fun component_text :: "Component \<Rightarrow> string" where
  "component_text RootDir = []"
| "component_text CurDir = ''.''"
| "component_text ParentDir = ''..''"
| "component_text (Normal s) = s"

definition path_text :: "Component list \<Rightarrow> string" where
  "path_text cs = (if cs = [RootDir] then ''/'' else join_with (CHR ''/'') (map component_text cs))"

definition comp_parent :: "Component list \<Rightarrow> Component list option" where
  "comp_parent cs = (if cs = [] \<or> last cs = RootDir then None else Some (butlast cs))"

definition comp_file_name :: "Component list \<Rightarrow> string option" where
  "comp_file_name cs = (if cs = [] then None else case last cs of Normal s \<Rightarrow> Some s | _ \<Rightarrow> None)"

definition path_parent :: "string \<Rightarrow> string option" where
  "path_parent p = map_option path_text (comp_parent (components p))"

end
