(* ===== verification/Acp_Map.thy ===== *)
theory Acp_Map
  imports Thread_Entries Rust_Text
begin

text \<open>
  \<^verbatim>\<open>crates/tethys-acp/src/map.rs\<close> and \<^verbatim>\<open>map_v2.rs\<close>: how the session updates of both protocol
  versions become thread events. The types of the protocol library have the variants the mapping
  distinguishes; \<open>Future\<close> variants stand for what a later version of that library may add. Values
  that are only passed on as JSON are represented by their compact JSON text; the text of a content
  block is the parameter \<open>json\<close>.
\<close>

section \<open>Protocol types\<close>

datatype 'a MaybeUndefined = Undefined | Null | Value 'a

datatype AcpContent =
  AC_Text string
| AC_ResourceLink string string "string option"
| AC_Image string string
| AC_Other string

type_synonym content_json = "AcpContent \<Rightarrow> string"

record AcpChunk =
  ach_message_id :: "string option"
  ach_content :: AcpContent

datatype AcpToolStatus = ATS_Pending | ATS_InProgress | ATS_Completed | ATS_Failed | ATS_Cancelled | ATS_Other string | ATS_Future

datatype AcpToolContent =
  ATC_Content AcpContent
| ATC_Terminal string
| ATC_Diff string
| ATC_Other string
| ATC_Future string

record AcpToolCall =
  atc_id :: string
  atc_title :: string
  atc_kind :: string
  atc_status :: AcpToolStatus
  atc_raw_input :: "string option"
  atc_raw_output :: "string option"
  atc_locations :: "string list"
  atc_content :: "AcpToolContent list"

record AcpToolFields =
  atf_title :: "string option"
  atf_kind :: "string option"
  atf_status :: "AcpToolStatus option"
  atf_raw_input :: "string option"
  atf_raw_output :: "string option"
  atf_locations :: "string list option"
  atf_content :: "AcpToolContent list option"

datatype AcpStop = AST_EndTurn | AST_MaxTokens | AST_MaxTurnRequests | AST_Refusal | AST_Cancelled | AST_Other string | AST_Future

datatype AcpPriority = APP_High | APP_Medium | APP_Low | APP_Future

datatype AcpPlanStatus = APS_Pending | APS_InProgress | APS_Completed | APS_Future

record AcpPlanEntry =
  ape_content :: string
  ape_priority :: AcpPriority
  ape_status :: AcpPlanStatus

record AcpCommand =
  acmd_name :: string
  acmd_description :: string
  acmd_input :: "string option"

datatype AcpSelectOptions = ASO_Ungrouped "string list" | ASO_Grouped

datatype AcpConfigKind = ACK_Select string AcpSelectOptions | ACK_Boolean bool | ACK_Other

record AcpConfigOption =
  aco_id :: string
  aco_name :: string
  aco_description :: "string option"
  aco_kind :: AcpConfigKind

datatype Acp1Update =
  U1_UserMessageChunk AcpChunk
| U1_AgentMessageChunk AcpChunk
| U1_AgentThoughtChunk AcpChunk
| U1_ToolCall AcpToolCall
| U1_ToolCallUpdate string AcpToolFields
| U1_Plan "AcpPlanEntry list"
| U1_AvailableCommands "AcpCommand list"
| U1_CurrentMode string
| U1_ConfigOptions "AcpConfigOption list"
| U1_SessionInfo "string MaybeUndefined" "string MaybeUndefined"
| U1_Usage u64 "f64_bits option"
| U1_Other string

record Acp2ToolUpdate =
  at2_id :: string
  at2_title :: "string MaybeUndefined"
  at2_kind :: "string MaybeUndefined"
  at2_status :: "AcpToolStatus MaybeUndefined"
  at2_raw_input :: "string MaybeUndefined"
  at2_raw_output :: "string MaybeUndefined"
  at2_locations :: "string list MaybeUndefined"
  at2_content :: "AcpToolContent list MaybeUndefined"

datatype Acp2State = S2_Running | S2_Idle "AcpStop option" | S2_RequiresAction | S2_Other string

datatype Acp2Plan = P2_Items "AcpPlanEntry list" | P2_Other string

datatype Acp2Update =
  U2_UserMessageChunk string AcpContent
| U2_AgentMessageChunk string AcpContent
| U2_AgentThoughtChunk string AcpContent
| U2_UserMessage string "AcpContent list MaybeUndefined"
| U2_AgentMessage string "AcpContent list MaybeUndefined"
| U2_AgentThought string "AcpContent list MaybeUndefined"
| U2_StateUpdate Acp2State
| U2_ToolCallUpdate Acp2ToolUpdate
| U2_ToolCallContentChunk string AcpToolContent
| U2_TerminalOutputChunk string string
| U2_PlanUpdate Acp2Plan
| U2_AvailableCommands "AcpCommand list"
| U2_ConfigOptions "AcpConfigOption list"
| U2_SessionInfo "string MaybeUndefined" "string MaybeUndefined"
| U2_Usage u64 "f64_bits option"
| U2_Other string

section \<open>Synthetic message ids\<close>

record SyntheticMessageIds =
  smi_last_role :: "Role option"
  smi_ordinal :: u32

definition smi_default :: SyntheticMessageIds where
  "smi_default = \<lparr>smi_last_role = None, smi_ordinal = 0\<rparr>"

definition synthetic_name :: "u32 \<Rightarrow> string" where
  "synthetic_name n = ''v1-synthetic-'' @ show_nat (unat n)"

definition smi_id :: "string option \<Rightarrow> Role \<Rightarrow> SyntheticMessageIds \<Rightarrow> string \<times> SyntheticMessageIds" where
  "smi_id explicit role s =
     (case explicit of
        Some i \<Rightarrow> (i, s\<lparr>smi_last_role := None\<rparr>)
      | None \<Rightarrow>
          let s' = (if smi_last_role s \<noteq> Some role
                    then s\<lparr>smi_ordinal := smi_ordinal s + 1, smi_last_role := Some role\<rparr> else s) in
          (synthetic_name (smi_ordinal s'), s'))"

section \<open>Values\<close>

definition label :: "string \<Rightarrow> string" where
  "label json = trim_matches (\<lambda>c. c = CHR 0x22) json"

fun maybe_value :: "'a MaybeUndefined \<Rightarrow> 'a option" where
  "maybe_value (Value x) = Some x"
| "maybe_value Null = None"
| "maybe_value Undefined = None"

fun tool_status :: "AcpToolStatus \<Rightarrow> ToolCallStatus" where
  "tool_status ATS_Pending = TC_Pending"
| "tool_status ATS_InProgress = TC_Executing"
| "tool_status ATS_Completed = TC_Completed"
| "tool_status _ = TC_Failed"

fun content_block :: "content_json \<Rightarrow> AcpContent \<Rightarrow> ContentBlock" where
  "content_block json (AC_Text t) = CB_Text t"
| "content_block json (AC_ResourceLink uri name mime) = CB_ResourceLink uri name mime"
| "content_block json (AC_Image mime data) = CB_Image mime data"
| "content_block json block = CB_Unknown (json block)"

fun text_or_raw :: "content_json \<Rightarrow> AcpContent \<Rightarrow> string" where
  "text_or_raw json (AC_Text t) = t"
| "text_or_raw json block = json block"

fun tool_content_v1 :: "content_json \<Rightarrow> AcpToolContent \<Rightarrow> ToolCallContent" where
  "tool_content_v1 json (ATC_Content c) = TCC_Text (text_or_raw json c)"
| "tool_content_v1 json (ATC_Terminal t) = TCC_Terminal t"
| "tool_content_v1 json (ATC_Diff d) = TCC_Unknown d"
| "tool_content_v1 json (ATC_Other v) = TCC_Unknown v"
| "tool_content_v1 json (ATC_Future v) = TCC_Unknown v"

fun stop_reason_v1 :: "AcpStop \<Rightarrow> StopReason" where
  "stop_reason_v1 AST_EndTurn = SR_EndTurn"
| "stop_reason_v1 AST_MaxTokens = SR_MaxTokens"
| "stop_reason_v1 AST_MaxTurnRequests = SR_Other ''max_turn_requests''"
| "stop_reason_v1 AST_Refusal = SR_Refusal"
| "stop_reason_v1 AST_Cancelled = SR_Cancelled"
| "stop_reason_v1 _ = SR_Other ''unknown''"

fun plan_priority :: "AcpPriority \<Rightarrow> PlanEntryPriority" where
  "plan_priority APP_High = PP_High"
| "plan_priority APP_Medium = PP_Medium"
| "plan_priority APP_Low = PP_Low"
| "plan_priority APP_Future = PP_Medium"

fun plan_status :: "AcpPlanStatus \<Rightarrow> PlanEntryStatus" where
  "plan_status APS_Pending = PS_Pending"
| "plan_status APS_InProgress = PS_InProgress"
| "plan_status APS_Completed = PS_Completed"
| "plan_status APS_Future = PS_Pending"

definition plan_entry :: "AcpPlanEntry \<Rightarrow> PlanEntry" where
  "plan_entry e = \<lparr>pe_content = ape_content e, pe_priority = plan_priority (ape_priority e), pe_status = plan_status (ape_status e)\<rparr>"

definition agent_command :: "AcpCommand \<Rightarrow> AgentCommand" where
  "agent_command c = \<lparr>ac_name = acmd_name c, ac_description = Some (acmd_description c), ac_input = acmd_input c\<rparr>"

definition config_option :: "AcpConfigOption \<Rightarrow> ConfigOption" where
  "config_option opt =
     \<lparr>co_id = aco_id opt, co_name = aco_name opt, co_description = aco_description opt,
      co_current_value = (case aco_kind opt of
          ACK_Select cur _ \<Rightarrow> cur
        | ACK_Boolean b \<Rightarrow> if b then ''true'' else ''false''
        | ACK_Other \<Rightarrow> []),
      co_values = (case aco_kind opt of
          ACK_Select _ (ASO_Ungrouped values) \<Rightarrow> values
        | ACK_Select _ ASO_Grouped \<Rightarrow> []
        | ACK_Boolean _ \<Rightarrow> [''true'', ''false'']
        | ACK_Other \<Rightarrow> [])\<rparr>"

definition session_info :: "string MaybeUndefined \<Rightarrow> string MaybeUndefined \<Rightarrow> TurnEventBody" where
  "session_info title updated_at = Ev_SessionInfo \<lparr>si_title = maybe_value title, si_updated_at = maybe_value updated_at\<rparr>"

definition usage_event :: "u64 \<Rightarrow> f64_bits option \<Rightarrow> TurnEventBody" where
  "usage_event used cost = Ev_Usage
     \<lparr>us_input_tokens = 0, us_output_tokens = 0, us_total_tokens = ucast (min used 0xFFFFFFFF), us_cost = cost\<rparr>"

section \<open>Version 1\<close>

definition message_chunk :: "content_json \<Rightarrow> AcpChunk \<Rightarrow> Role \<Rightarrow> SyntheticMessageIds \<Rightarrow> TurnEventBody \<times> SyntheticMessageIds" where
  "message_chunk json chunk role s =
     (case smi_id (ach_message_id chunk) role s of (message_id, s') \<Rightarrow>
        (Ev_MessageChunk \<lparr>mc_message_id = message_id, mc_role = role, mc_block = content_block json (ach_content chunk)\<rparr>, s'))"

definition v1_tool_patch :: "AcpToolCall \<Rightarrow> ToolCallPatch" where
  "v1_tool_patch t =
     \<lparr>tc_title = Some (atc_title t), tc_kind = Some (label (atc_kind t)), tc_status = Some (tool_status (atc_status t)),
      tc_input = atc_raw_input t, tc_output = atc_raw_output t, tc_locations = atc_locations t\<rparr>"

definition v1_tool_update_patch :: "AcpToolFields \<Rightarrow> ToolCallPatch" where
  "v1_tool_update_patch f =
     \<lparr>tc_title = atf_title f, tc_kind = map_option label (atf_kind f), tc_status = map_option tool_status (atf_status f),
      tc_input = atf_raw_input f, tc_output = atf_raw_output f,
      tc_locations = (case atf_locations f of Some ls \<Rightarrow> ls | None \<Rightarrow> [])\<rparr>"

definition one :: "TurnEventBody \<times> 's \<Rightarrow> TurnEventBody list \<times> 's" where
  "one r = ([fst r], snd r)"

fun v1_update :: "content_json \<Rightarrow> Acp1Update \<Rightarrow> SyntheticMessageIds \<Rightarrow> TurnEventBody list \<times> SyntheticMessageIds" where
  "v1_update json (U1_UserMessageChunk chunk) s = one (message_chunk json chunk Role_User s)"
| "v1_update json (U1_AgentMessageChunk chunk) s = one (message_chunk json chunk Role_Agent s)"
| "v1_update json (U1_AgentThoughtChunk chunk) s = one (message_chunk json chunk Role_Thought s)"
| "v1_update json (U1_ToolCall t) s =
     (Ev_ToolCallUpsert (atc_id t) (v1_tool_patch t)
        # map (\<lambda>c. Ev_ToolCallContentChunk (atc_id t) (tool_content_v1 json c)) (atc_content t), s)"
| "v1_update json (U1_ToolCallUpdate i f) s =
     (Ev_ToolCallUpsert i (v1_tool_update_patch f)
        # (case atf_content f of
             Some content \<Rightarrow> map (\<lambda>c. Ev_ToolCallContentChunk i (tool_content_v1 json c)) content
           | None \<Rightarrow> []), s)"
| "v1_update json (U1_Plan entries) s = ([Ev_PlanUpsert ''default'' (map plan_entry entries)], s)"
| "v1_update json (U1_AvailableCommands commands) s = ([Ev_CommandsAvailable (map agent_command commands)], s)"
| "v1_update json (U1_CurrentMode mode) s =
     ([Ev_ConfigOptionsChanged [\<lparr>co_id = ''mode'', co_name = ''Mode'', co_description = None, co_current_value = mode, co_values = []\<rparr>]], s)"
| "v1_update json (U1_ConfigOptions options) s = ([Ev_ConfigOptionsChanged (map config_option options)], s)"
| "v1_update json (U1_SessionInfo title updated_at) s = ([session_info title updated_at], s)"
| "v1_update json (U1_Usage used cost) s = ([usage_event used cost], s)"
| "v1_update json (U1_Other raw) s = ([Ev_Unknown raw], s)"

section \<open>Version 2\<close>

text \<open>\<^verbatim>\<open>map_v2.rs\<close> has its own copy of every value mapping.\<close>

fun tool_status_v2 :: "AcpToolStatus \<Rightarrow> ToolCallStatus" where
  "tool_status_v2 ATS_Pending = TC_Pending"
| "tool_status_v2 ATS_InProgress = TC_Executing"
| "tool_status_v2 ATS_Completed = TC_Completed"
| "tool_status_v2 ATS_Failed = TC_Failed"
| "tool_status_v2 ATS_Cancelled = TC_Failed"
| "tool_status_v2 (ATS_Other _) = TC_Failed"
| "tool_status_v2 ATS_Future = TC_Failed"

fun content_block_v2 :: "content_json \<Rightarrow> AcpContent \<Rightarrow> ContentBlock" where
  "content_block_v2 json (AC_Text t) = CB_Text t"
| "content_block_v2 json (AC_ResourceLink uri name mime) = CB_ResourceLink uri name mime"
| "content_block_v2 json (AC_Image mime data) = CB_Image mime data"
| "content_block_v2 json block = CB_Unknown (json block)"

fun text_or_raw_v2 :: "content_json \<Rightarrow> AcpContent \<Rightarrow> string" where
  "text_or_raw_v2 json (AC_Text t) = t"
| "text_or_raw_v2 json block = json block"

fun tool_content_v2 :: "content_json \<Rightarrow> AcpToolContent \<Rightarrow> ToolCallContent" where
  "tool_content_v2 json (ATC_Content c) = TCC_Text (text_or_raw_v2 json c)"
| "tool_content_v2 json (ATC_Terminal t) = TCC_Terminal t"
| "tool_content_v2 json (ATC_Diff d) = TCC_Unknown d"
| "tool_content_v2 json (ATC_Other v) = TCC_Unknown v"
| "tool_content_v2 json (ATC_Future v) = TCC_Unknown ''null''"

fun stop_reason_v2 :: "AcpStop \<Rightarrow> StopReason" where
  "stop_reason_v2 AST_EndTurn = SR_EndTurn"
| "stop_reason_v2 AST_MaxTokens = SR_MaxTokens"
| "stop_reason_v2 AST_MaxTurnRequests = SR_Other ''max_turn_requests''"
| "stop_reason_v2 AST_Refusal = SR_Refusal"
| "stop_reason_v2 AST_Cancelled = SR_Cancelled"
| "stop_reason_v2 (AST_Other r) = SR_Other r"
| "stop_reason_v2 AST_Future = SR_Other ''unknown''"

definition plan_entry_v2 :: "AcpPlanEntry \<Rightarrow> PlanEntry" where
  "plan_entry_v2 e =
     \<lparr>pe_content = ape_content e,
      pe_priority = (case ape_priority e of
          APP_High \<Rightarrow> PP_High | APP_Medium \<Rightarrow> PP_Medium | APP_Low \<Rightarrow> PP_Low | APP_Future \<Rightarrow> PP_Medium),
      pe_status = (case ape_status e of
          APS_Pending \<Rightarrow> PS_Pending | APS_InProgress \<Rightarrow> PS_InProgress | APS_Completed \<Rightarrow> PS_Completed
        | APS_Future \<Rightarrow> PS_Pending)\<rparr>"

definition agent_command_v2 :: "AcpCommand \<Rightarrow> AgentCommand" where
  "agent_command_v2 c = \<lparr>ac_name = acmd_name c, ac_description = Some (acmd_description c), ac_input = acmd_input c\<rparr>"

definition config_option_v2 :: "AcpConfigOption \<Rightarrow> ConfigOption" where
  "config_option_v2 opt =
     \<lparr>co_id = aco_id opt, co_name = aco_name opt, co_description = aco_description opt,
      co_current_value = (case aco_kind opt of
          ACK_Select cur _ \<Rightarrow> cur
        | ACK_Boolean b \<Rightarrow> if b then ''true'' else ''false''
        | ACK_Other \<Rightarrow> []),
      co_values = (case aco_kind opt of
          ACK_Select _ options \<Rightarrow> (case options of ASO_Ungrouped values \<Rightarrow> values | ASO_Grouped \<Rightarrow> [])
        | ACK_Boolean _ \<Rightarrow> [''true'', ''false'']
        | ACK_Other \<Rightarrow> [])\<rparr>"

definition chunk_event :: "content_json \<Rightarrow> string \<Rightarrow> AcpContent \<Rightarrow> Role \<Rightarrow> TurnEventBody" where
  "chunk_event json message_id content role =
     Ev_MessageChunk \<lparr>mc_message_id = message_id, mc_role = role, mc_block = content_block_v2 json content\<rparr>"

definition upsert_event :: "content_json \<Rightarrow> string \<Rightarrow> Role \<Rightarrow> AcpContent list MaybeUndefined \<Rightarrow> TurnEventBody" where
  "upsert_event json message_id role content = Ev_MessageUpsert
     \<lparr>mu_message_id = message_id, mu_role = role,
      mu_content = (case content of
          Undefined \<Rightarrow> Unchanged
        | Null \<Rightarrow> Clear
        | Value blocks \<Rightarrow> Set (map (content_block_v2 json) blocks))\<rparr>"

definition tool_patch_v2 :: "Acp2ToolUpdate \<Rightarrow> ToolCallPatch" where
  "tool_patch_v2 u =
     \<lparr>tc_title = maybe_value (at2_title u), tc_kind = map_option label (maybe_value (at2_kind u)),
      tc_status = map_option tool_status_v2 (maybe_value (at2_status u)),
      tc_input = maybe_value (at2_raw_input u), tc_output = maybe_value (at2_raw_output u),
      tc_locations = (case maybe_value (at2_locations u) of Some ls \<Rightarrow> ls | None \<Rightarrow> [])\<rparr>"

fun v2_update :: "content_json \<Rightarrow> Acp2Update \<Rightarrow> TurnEventBody list" where
  "v2_update json (U2_UserMessageChunk i c) = [chunk_event json i c Role_User]"
| "v2_update json (U2_AgentMessageChunk i c) = [chunk_event json i c Role_Agent]"
| "v2_update json (U2_AgentThoughtChunk i c) = [chunk_event json i c Role_Thought]"
| "v2_update json (U2_UserMessage i content) = [upsert_event json i Role_User content]"
| "v2_update json (U2_AgentMessage i content) = [upsert_event json i Role_Agent content]"
| "v2_update json (U2_AgentThought i content) = [upsert_event json i Role_Thought content]"
| "v2_update json (U2_StateUpdate S2_Running) = [Ev_StateChanged SS_Running]"
| "v2_update json (U2_StateUpdate (S2_Idle reason)) = [Ev_StateChanged (SS_Idle (map_option stop_reason_v2 reason))]"
| "v2_update json (U2_StateUpdate S2_RequiresAction) = [Ev_StateChanged SS_RequiresAction]"
| "v2_update json (U2_StateUpdate (S2_Other raw)) = [Ev_Unknown raw]"
| "v2_update json (U2_ToolCallUpdate u) =
     Ev_ToolCallUpsert (at2_id u) (tool_patch_v2 u)
       # (case at2_content u of
            Value content \<Rightarrow> map (\<lambda>c. Ev_ToolCallContentChunk (at2_id u) (tool_content_v2 json c)) content
          | _ \<Rightarrow> [])"
| "v2_update json (U2_ToolCallContentChunk i c) = [Ev_ToolCallContentChunk i (tool_content_v2 json c)]"
| "v2_update json (U2_TerminalOutputChunk i data) = [Ev_TerminalOutputChunk i data]"
| "v2_update json (U2_PlanUpdate (P2_Items entries)) = [Ev_PlanUpsert ''default'' (map plan_entry_v2 entries)]"
| "v2_update json (U2_PlanUpdate (P2_Other raw)) = [Ev_Unknown raw]"
| "v2_update json (U2_AvailableCommands commands) = [Ev_CommandsAvailable (map agent_command_v2 commands)]"
| "v2_update json (U2_ConfigOptions options) = [Ev_ConfigOptionsChanged (map config_option_v2 options)]"
| "v2_update json (U2_SessionInfo title updated_at) = 
     [Ev_SessionInfo \<lparr>si_title = maybe_value title, si_updated_at = maybe_value updated_at\<rparr>]"
| "v2_update json (U2_Usage used cost) = 
     [Ev_Usage \<lparr>us_input_tokens = 0, us_output_tokens = 0, us_total_tokens = ucast (min used 0xFFFFFFFF), us_cost = cost\<rparr>]"
| "v2_update json (U2_Other raw) = [Ev_Unknown raw]"

datatype Acp2Subject = AS2_Command string | AS2_ToolCall string | AS2_Other string

record AcpPermOption =
  apo_option_id :: string
  apo_name :: string
  apo_kind :: string

record Acp2PermissionRequest =
  ap2_session_id :: string
  ap2_title :: string
  ap2_description :: "string option"
  ap2_subject :: "Acp2Subject option"
  ap2_options :: "AcpPermOption list"

fun permission_subject :: "Acp2Subject \<Rightarrow> PermissionSubject" where
  "permission_subject (AS2_Command c) = Subj_Command c"
| "permission_subject (AS2_ToolCall i) = Subj_ToolCall i"
| "permission_subject (AS2_Other raw) = Subj_Unknown raw"

definition perm_option :: "AcpPermOption \<Rightarrow> PermOption" where
  "perm_option opt = \<lparr>po_option_id = apo_option_id opt, po_name = apo_name opt, po_kind = Some (label (apo_kind opt))\<rparr>"

definition permission_request :: "Acp2PermissionRequest \<Rightarrow> PermissionRequest" where
  "permission_request r =
     \<lparr>pr_req_id = [], pr_title = ap2_title r, pr_description = ap2_description r,
      pr_subject = map_option permission_subject (ap2_subject r), pr_options = map perm_option (ap2_options r)\<rparr>"

section \<open>Both versions mean the same\<close>

text \<open>The version 2 update that says what a version 1 update says, where version 2 has one.\<close>

fun maybe_of :: "'a option \<Rightarrow> 'a MaybeUndefined" where
  "maybe_of None = Undefined"
| "maybe_of (Some x) = Value x"

lemma maybe_value_of [simp]: "maybe_value (maybe_of x) = x"
  by (cases x) simp_all

definition known_content :: "AcpToolContent list \<Rightarrow> bool" where
  "known_content cs \<longleftrightarrow> list_all (\<lambda>c. case c of ATC_Future _ \<Rightarrow> False | _ \<Rightarrow> True) cs"

fun v2_of :: "Acp1Update \<Rightarrow> Acp2Update option" where
  "v2_of (U1_UserMessageChunk c) = map_option (\<lambda>i. U2_UserMessageChunk i (ach_content c)) (ach_message_id c)"
| "v2_of (U1_AgentMessageChunk c) = map_option (\<lambda>i. U2_AgentMessageChunk i (ach_content c)) (ach_message_id c)"
| "v2_of (U1_AgentThoughtChunk c) = map_option (\<lambda>i. U2_AgentThoughtChunk i (ach_content c)) (ach_message_id c)"
| "v2_of (U1_ToolCall t) =
     (if known_content (atc_content t) then Some (U2_ToolCallUpdate
        \<lparr>at2_id = atc_id t, at2_title = Value (atc_title t), at2_kind = Value (atc_kind t), at2_status = Value (atc_status t),
         at2_raw_input = maybe_of (atc_raw_input t), at2_raw_output = maybe_of (atc_raw_output t),
         at2_locations = Value (atc_locations t), at2_content = Value (atc_content t)\<rparr>) else None)"
| "v2_of (U1_ToolCallUpdate i f) =
     (if case atf_content f of None \<Rightarrow> True | Some cs \<Rightarrow> known_content cs then Some (U2_ToolCallUpdate
        \<lparr>at2_id = i, at2_title = maybe_of (atf_title f), at2_kind = maybe_of (atf_kind f), at2_status = maybe_of (atf_status f),
         at2_raw_input = maybe_of (atf_raw_input f), at2_raw_output = maybe_of (atf_raw_output f),
         at2_locations = maybe_of (atf_locations f), at2_content = maybe_of (atf_content f)\<rparr>) else None)"
| "v2_of (U1_Plan entries) = Some (U2_PlanUpdate (P2_Items entries))"
| "v2_of (U1_AvailableCommands cs) = Some (U2_AvailableCommands cs)"
| "v2_of (U1_CurrentMode mode) = None"
| "v2_of (U1_ConfigOptions os) = Some (U2_ConfigOptions os)"
| "v2_of (U1_SessionInfo title updated_at) = Some (U2_SessionInfo title updated_at)"
| "v2_of (U1_Usage used cost) = Some (U2_Usage used cost)"
| "v2_of (U1_Other raw) = Some (U2_Other raw)"

lemma tool_status_same: "tool_status_v2 = tool_status"
proof
  show "tool_status_v2 st = tool_status st" for st by (cases st) simp_all
qed

lemma content_block_same: "content_block_v2 json c = content_block json c"
  by (cases c) simp_all

lemma text_or_raw_same: "text_or_raw_v2 json c = text_or_raw json c"
  by (cases c) simp_all

lemma plan_entry_same: "plan_entry_v2 = plan_entry"
  by (auto simp: fun_eq_iff plan_entry_v2_def plan_entry_def split: AcpPriority.split AcpPlanStatus.split)

lemma agent_command_same: "agent_command_v2 = agent_command"
  by (simp add: fun_eq_iff agent_command_v2_def agent_command_def)

lemma config_option_same: "config_option_v2 = config_option"
  by (auto simp: fun_eq_iff config_option_v2_def config_option_def split: AcpConfigKind.split AcpSelectOptions.split)

lemmas values_same = tool_status_same content_block_same text_or_raw_same plan_entry_same agent_command_same config_option_same

lemma known_content_same:
  "known_content cs \<Longrightarrow> map (\<lambda>c. f (tool_content_v1 json c)) cs = map (\<lambda>c. f (tool_content_v2 json c)) cs"
  by (induction cs) (auto simp: known_content_def values_same split: AcpToolContent.splits)



section \<open>Runs of a role\<close>

text \<open>The ids handed out for a sequence of chunks, each with its explicit id and its role.\<close>

fun chunk_ids :: "(string option \<times> Role) list \<Rightarrow> SyntheticMessageIds \<Rightarrow> string list" where
  "chunk_ids [] s = []"
| "chunk_ids ((explicit, role) # ks) s = (case smi_id explicit role s of (i, s') \<Rightarrow> i # chunk_ids ks s')"

fun chunk_key :: "Acp1Update \<Rightarrow> (string option \<times> Role) option" where
  "chunk_key (U1_UserMessageChunk c) = Some (ach_message_id c, Role_User)"
| "chunk_key (U1_AgentMessageChunk c) = Some (ach_message_id c, Role_Agent)"
| "chunk_key (U1_AgentThoughtChunk c) = Some (ach_message_id c, Role_Thought)"
| "chunk_key _ = None"

fun v1_updates :: "content_json \<Rightarrow> Acp1Update list \<Rightarrow> SyntheticMessageIds \<Rightarrow> TurnEventBody list \<times> SyntheticMessageIds" where
  "v1_updates json [] s = ([], s)"
| "v1_updates json (u # us) s =
     (case v1_update json u s of (es, s') \<Rightarrow> case v1_updates json us s' of (es', s'') \<Rightarrow> (es @ es', s''))"

fun message_ids :: "TurnEventBody list \<Rightarrow> string list" where
  "message_ids [] = []"
| "message_ids (Ev_MessageChunk c # es) = mc_message_id c # message_ids es"
| "message_ids (_ # es) = message_ids es"

lemma message_ids_append [simp]: "message_ids (es @ es') = message_ids es @ message_ids es'"
  by (induction es rule: message_ids.induct) simp_all

lemma message_ids_tool [simp]: "message_ids (map (\<lambda>c. Ev_ToolCallContentChunk i (f c)) cs) = []"
  by (induction cs) simp_all

lemma message_ids_updates: "message_ids (fst (v1_updates json us s)) = chunk_ids (List.map_filter chunk_key us) s"
proof (induction us arbitrary: s)
  case (Cons u us)
  have "message_ids (fst (v1_update json u s)) @ chunk_ids ks (snd (v1_update json u s)) =
      chunk_ids (case chunk_key u of None \<Rightarrow> ks | Some k \<Rightarrow> k # ks) s" for ks
    by (cases u) (auto simp: one_def message_chunk_def session_info_def usage_event_def split: prod.split option.split)
  thus ?case using Cons by (auto simp: List.map_filter_simps split: prod.split option.split) (metis fst_conv snd_conv append.assoc)+
qed (simp add: List.map_filter_simps)

lemma synthetic_name_inj: "synthetic_name m = synthetic_name n \<longleftrightarrow> m = n"
proof
  assume "synthetic_name m = synthetic_name n"
  hence "parse_u32 (show_nat (unat m)) = parse_u32 (show_nat (unat n))" by (simp add: synthetic_name_def)
  moreover have "unat m < 2 ^ 32" "unat n < 2 ^ 32" using unsigned_less[of m] unsigned_less[of n] by simp_all
  ultimately have "unat m = unat n" by (simp add: parse_u32_show)
  thus "m = n" by (rule unsigned_word_eqI)
qed simp


lemma ordinal_step:
  assumes "unat (smi_ordinal s) + 1 < 2 ^ 32"
  shows "unat (smi_ordinal s + 1) = unat (smi_ordinal s) + 1"
  using assms by (simp add: unat_word_ariths)

text \<open>After a chunk with an explicit id, or of another role, only later ordinals follow.\<close>

lemma later_ids:
  assumes "unat (smi_ordinal s) + length ks < 2 ^ 32" "j < length ks" "fst (ks ! j) = None"
  shows "\<exists>n. chunk_ids ks s ! j = synthetic_name n \<and> smi_ordinal s \<le> n \<and> (smi_last_role s = None \<longrightarrow> smi_ordinal s < n)"
  using assms
proof (induction ks arbitrary: s j)
  case (Cons k ks)
  obtain explicit role where k: "k = (explicit, role)" by (cases k)
  define s' where "s' = snd (smi_id explicit role s)"
  have bound: "unat (smi_ordinal s') + length ks < 2 ^ 32"
    and mono: "smi_ordinal s \<le> smi_ordinal s'" "explicit = None \<Longrightarrow> smi_last_role s = None \<Longrightarrow> smi_ordinal s < smi_ordinal s'"
    and role: "smi_last_role s' = None \<longleftrightarrow> explicit \<noteq> None" "explicit \<noteq> None \<Longrightarrow> smi_ordinal s' = smi_ordinal s"
    using Cons.prems(1) ordinal_step[of s]
    by (auto simp: s'_def smi_id_def Let_def word_le_nat_alt word_less_nat_alt split: option.split)
  show ?case
  proof (cases j)
    case 0
    thus ?thesis using Cons.prems mono
      by (auto simp: k s'_def smi_id_def Let_def intro!: exI[of _ "smi_ordinal s'"] split: prod.split)
  next
    case (Suc j')
    with Cons.prems obtain n where "chunk_ids ks s' ! j' = synthetic_name n" "smi_ordinal s' \<le> n"
      "smi_last_role s' = None \<longrightarrow> smi_ordinal s' < n" using Cons.IH[OF bound, of j'] by auto
    thus ?thesis using mono role by (auto simp: k Suc s'_def split: prod.split intro!: exI[of _ n])
  qed
qed simp

lemma run_of_role:
  assumes "smi_last_role s = Some role" "unat (smi_ordinal s) + length ks < 2 ^ 32" "j < length ks" "fst (ks ! j) = None"
  shows "chunk_ids ks s ! j = synthetic_name (smi_ordinal s) \<longleftrightarrow> (\<forall>k \<le> j. ks ! k = (None, role))"
  using assms
proof (induction ks arbitrary: j)
  case (Cons k ks)
  show ?case
  proof (cases "k = (None, role)")
    case True
    hence "chunk_ids (k # ks) s = synthetic_name (smi_ordinal s) # chunk_ids ks s"
      using Cons.prems(1) by (simp add: smi_id_def)
    thus ?thesis using Cons.prems Cons.IH[of "j - 1"] True
      by (cases j) (auto simp: All_less_Suc2 less_Suc_eq_le[symmetric])
  next
    case False
    obtain explicit role' where k: "k = (explicit, role')" by (cases k)
    define s' where "s' = snd (smi_id explicit role' s)"
    have "\<exists>n. chunk_ids (k # ks) s ! j = synthetic_name n \<and> smi_ordinal s < n"
    proof (cases explicit)
      case (Some i)
      with Cons.prems(4) k obtain j' where j: "j = Suc j'" by (cases j) auto
      have "unat (smi_ordinal s') + length ks < 2 ^ 32" using Cons.prems(2) by (simp add: s'_def smi_id_def Some)
      from later_ids[OF this, of j'] show ?thesis
        using Cons.prems j by (auto simp: k s'_def smi_id_def Some)
    next
      case None
      with False k Cons.prems(1) have s': "s' = s\<lparr>smi_ordinal := smi_ordinal s + 1, smi_last_role := Some role'\<rparr>"
        by (auto simp: s'_def smi_id_def)
      have step: "unat (smi_ordinal s + 1) = unat (smi_ordinal s) + 1" using Cons.prems(2) by (intro ordinal_step) simp
      hence lt: "smi_ordinal s < smi_ordinal s'" by (simp add: s' word_less_nat_alt)
      have ids: "chunk_ids (k # ks) s = synthetic_name (smi_ordinal s') # chunk_ids ks s'"
        using None k Cons.prems(1) False by (auto simp: s' smi_id_def)
      show ?thesis
      proof (cases j)
        case 0 thus ?thesis using lt ids by auto
      next
        case (Suc j')
        have "unat (smi_ordinal s') + length ks < 2 ^ 32" using Cons.prems(2) step by (simp add: s')
        from later_ids[OF this, of j'] show ?thesis using Cons.prems Suc lt ids by (auto dest: order.strict_trans2)
      qed
    qed
    thus ?thesis using False by (auto simp: synthetic_name_inj)
  qed
qed simp


fun chunk_state :: "(string option \<times> Role) list \<Rightarrow> SyntheticMessageIds \<Rightarrow> SyntheticMessageIds" where
  "chunk_state [] s = s"
| "chunk_state ((explicit, role) # ks) s = chunk_state ks (snd (smi_id explicit role s))"

lemma chunk_ids_append: "chunk_ids (ks @ ls) s = chunk_ids ks s @ chunk_ids ls (chunk_state ks s)"
  by (induction ks s rule: chunk_state.induct) (auto split: prod.split)

lemma length_chunk_ids [simp]: "length (chunk_ids ks s) = length ks"
  by (induction ks s rule: chunk_state.induct) (auto split: prod.split)

lemma chunk_state_ordinal:
  "unat (smi_ordinal s) + length ks < 2 ^ 32 \<Longrightarrow> unat (smi_ordinal (chunk_state ks s)) \<le> unat (smi_ordinal s) + length ks"
proof (induction ks arbitrary: s)
  case (Cons k ks)
  obtain explicit role where k: "k = (explicit, role)" by (cases k)
  have "unat (smi_ordinal (snd (smi_id explicit role s))) \<le> unat (smi_ordinal s) + 1"
    using Cons.prems ordinal_step[of s] by (auto simp: smi_id_def Let_def split: option.split)
  with Cons.IH[of "snd (smi_id explicit role s)"] Cons.prems show ?case by (simp add: k)
qed simp

lemma idless_name:
  "explicit = None \<Longrightarrow> smi_id explicit role s = (i, s') \<Longrightarrow> i = synthetic_name (smi_ordinal s') \<and> smi_last_role s' = Some role"
  by (auto simp: smi_id_def Let_def split: if_splits)

lemma chunk_state_append: "chunk_state (ks @ ls) s = chunk_state ls (chunk_state ks s)"
  by (induction ks s rule: chunk_state.induct) auto

lemma chunk_ids_run:
  assumes "length ks < 2 ^ 32" "i < j" "j < length ks" "ks ! i = (None, role)" "fst (ks ! j) = None"
  shows "chunk_ids ks smi_default ! i = chunk_ids ks smi_default ! j \<longleftrightarrow> (\<forall>k \<le> j - Suc i. drop (Suc i) ks ! k = (None, role))"
proof -
  define s where "s = chunk_state (take i ks) smi_default"
  obtain name s' where id: "smi_id None role s = (name, s')" by fastforce
  have split: "ks = take i ks @ (None, role) # drop (Suc i) ks" using assms by (metis id_take_nth_drop less_trans)
  have ids: "chunk_ids ks smi_default = chunk_ids (take i ks) smi_default @ name # chunk_ids (drop (Suc i) ks) s'"
    by (subst split) (simp add: chunk_ids_append id s_def[symmetric])
  have name: "name = synthetic_name (smi_ordinal s')" "smi_last_role s' = Some role" using idless_name[OF refl id] by simp_all
  have "s' = chunk_state (take (Suc i) ks) smi_default"
    using assms by (simp add: take_Suc_conv_app_nth chunk_state_append s_def[symmetric] id)
  hence "unat (smi_ordinal s') \<le> i + 1"
    using chunk_state_ordinal[of smi_default "take (Suc i) ks"] assms by (simp add: smi_default_def)
  hence bound: "unat (smi_ordinal s') + length (drop (Suc i) ks) < 2 ^ 32" using assms by simp
  have "chunk_ids (drop (Suc i) ks) s' ! (j - Suc i) = synthetic_name (smi_ordinal s') \<longleftrightarrow>
      (\<forall>k \<le> j - Suc i. drop (Suc i) ks ! k = (None, role))"
    using assms by (intro run_of_role name(2) bound) simp_all
  thus ?thesis using assms name by (auto simp: ids nth_append nth_Cons' min_def)
qed

lemma shifted_range:
  assumes "i < j" "j < length ks"
  shows "(\<forall>k \<le> j - Suc i. drop (Suc i) ks ! k = x) \<longleftrightarrow> (\<forall>k. i < k \<and> k \<le> j \<longrightarrow> ks ! k = x)"
proof (intro iffI allI impI)
  fix k assume l: "\<forall>k \<le> j - Suc i. drop (Suc i) ks ! k = x" "i < k \<and> k \<le> j"
  hence "k - Suc i \<le> j - Suc i" by (simp add: diff_le_mono)
  hence "drop (Suc i) ks ! (k - Suc i) = x" using l(1) by blast
  thus "ks ! k = x" using l(2) assms by simp
qed (use assms in simp)

text \<open>
  C38. Synthetic message ids follow runs of a role. Over any session of version 1 updates, two
  chunks that carry no message id get the same synthetic id exactly when every chunk between them
  is of their role and carries no id; what is not a message chunk, such as a tool call, does not
  end a run.
\<close>

theorem synthetic_ids_follow_runs:
  assumes "ks = List.map_filter chunk_key us" "ids = message_ids (fst (v1_updates json us smi_default))"
    and "length ks < 2 ^ 32" "i < j" "j < length ks" "fst (ks ! i) = None" "fst (ks ! j) = None"
  shows "ids ! i = ids ! j \<longleftrightarrow> (\<forall>k. i \<le> k \<and> k \<le> j \<longrightarrow> ks ! k = (None, snd (ks ! i)))"
proof -
  obtain role where role: "ks ! i = (None, role)" using assms(6) by (cases "ks ! i") auto
  have "ids = chunk_ids ks smi_default" by (simp add: assms(1,2) message_ids_updates)
  hence "ids ! i = ids ! j \<longleftrightarrow> (\<forall>k. i < k \<and> k \<le> j \<longrightarrow> ks ! k = (None, role))"
    using chunk_ids_run[OF assms(3,4,5) role assms(7)] shifted_range[OF assms(4,5), of "(None, role)"] by blast
  also have "\<dots> \<longleftrightarrow> (\<forall>k. i \<le> k \<and> k \<le> j \<longrightarrow> ks ! k = (None, role))"
    using role by (metis le_less)
  finally show ?thesis by (simp add: role)
qed

theorem synthetic_ids_follow_runs_witness:
  "let chunk = (\<lambda>t. \<lparr>ach_message_id = None, ach_content = AC_Text t\<rparr>);
       us = [U1_AgentMessageChunk (chunk ''a''), U1_ToolCallUpdate ''t'' \<lparr>atf_title = None, atf_kind = None, atf_status = None,
          atf_raw_input = None, atf_raw_output = None, atf_locations = None, atf_content = None\<rparr>,
          U1_AgentMessageChunk (chunk ''b''), U1_AgentThoughtChunk (chunk ''c'')];
       ids = message_ids (fst (v1_updates (\<lambda>_. []) us smi_default)) in
   ids ! 0 = ids ! 1 \<and> ids ! 0 \<noteq> ids ! 2"
proof -
  define chunk where "chunk = (\<lambda>t. \<lparr>ach_message_id = None :: string option, ach_content = AC_Text t\<rparr>)"
  define us where "us = [U1_AgentMessageChunk (chunk ''a''), U1_ToolCallUpdate ''t'' \<lparr>atf_title = None, atf_kind = None, atf_status = None,
          atf_raw_input = None, atf_raw_output = None, atf_locations = None, atf_content = None\<rparr>,
          U1_AgentMessageChunk (chunk ''b''), U1_AgentThoughtChunk (chunk ''c'')]"
  have ks: "List.map_filter chunk_key us = [(None, Role_Agent), (None, Role_Agent), (None, Role_Thought)]"
    by (simp add: us_def chunk_def List.map_filter_simps)
  have "message_ids (fst (v1_updates (\<lambda>_. []) us smi_default)) ! 0 = message_ids (fst (v1_updates (\<lambda>_. []) us smi_default)) ! 1"
    using synthetic_ids_follow_runs[OF refl refl, of us 0 1 "\<lambda>_. []"] by (simp add: ks less_Suc_eq_le le_Suc_eq)
  moreover have "message_ids (fst (v1_updates (\<lambda>_. []) us smi_default)) ! 0 \<noteq> message_ids (fst (v1_updates (\<lambda>_. []) us smi_default)) ! 2"
    using synthetic_ids_follow_runs[OF refl refl, of us 0 2 "\<lambda>_. []"] by (auto simp: ks dest!: spec[where x = 2])
  ultimately show ?thesis by (simp add: Let_def us_def chunk_def)
qed

end
