(* ===== verification/BTree_Map.thy ===== *)
theory BTree_Map
  imports Tethys_Prelude "HOL-Library.List_Lexorder" "HOL-Library.Char_ord"
begin

text \<open>
  Rust's \<open>BTreeMap<String, V>\<close> as the sorted association list it iterates over. Strings are
  compared bytewise (\<open>List_Lexorder\<close> over \<open>Char_ord\<close>), which is the order of Rust's
  \<open>String\<close>. \<open>bt_insert\<close> is \<open>insert\<close>, \<open>bt_extend\<close> is \<open>extend\<close>, \<open>bt_of_list\<close> collects an
  iterator of pairs (a later pair wins) and \<open>map_of\<close> is \<open>get\<close>.
\<close>

type_synonym ('k, 'v) btree = "('k \<times> 'v) list"

definition bt_wf :: "('k::linorder, 'v) btree \<Rightarrow> bool" where
  "bt_wf m \<longleftrightarrow> sorted_wrt (<) (map fst m)"

fun bt_insert :: "'k::linorder \<Rightarrow> 'v \<Rightarrow> ('k, 'v) btree \<Rightarrow> ('k, 'v) btree" where
  "bt_insert k v [] = [(k, v)]"
| "bt_insert k v ((k', v') # m) =
     (if k < k' then (k, v) # (k', v') # m
      else if k = k' then (k, v) # m
      else (k', v') # bt_insert k v m)"

fun bt_extend :: "('k::linorder, 'v) btree \<Rightarrow> ('k \<times> 'v) list \<Rightarrow> ('k, 'v) btree" where
  "bt_extend m [] = m"
| "bt_extend m ((k, v) # kvs) = bt_extend (bt_insert k v m) kvs"

definition bt_of_list :: "('k::linorder \<times> 'v) list \<Rightarrow> ('k, 'v) btree" where
  "bt_of_list kvs = bt_extend [] kvs"

definition bt_remove :: "'k \<Rightarrow> ('k, 'v) btree \<Rightarrow> ('k, 'v) btree" where
  "bt_remove k m = filter (\<lambda>kv. fst kv \<noteq> k) m"

section \<open>Order and lookup\<close>

lemma keys_bt_insert: "fst ` set (bt_insert k v m) = insert k (fst ` set m)"
  by (induction k v m rule: bt_insert.induct) auto

lemma bt_wf_Nil [simp]: "bt_wf []"
  by (simp add: bt_wf_def)

lemma bt_wf_Cons: "bt_wf (kv # m) \<longleftrightarrow> (\<forall>k \<in> fst ` set m. fst kv < k) \<and> bt_wf m"
  by (auto simp: bt_wf_def)

lemma bt_wf_insert [wf_intros]: "bt_wf m \<Longrightarrow> bt_wf (bt_insert k v m)"
proof (induction k v m rule: bt_insert.induct)
  case (2 k v k' v' m)
  then show ?case by (auto simp: bt_wf_Cons keys_bt_insert)
qed (simp add: bt_wf_Cons)

lemma map_of_bt_insert: "map_of (bt_insert k v m) = (map_of m)(k \<mapsto> v)" if "bt_wf m"
  using that
proof (induction k v m rule: bt_insert.induct)
  case (2 k v k' v' m)
  then show ?case by (auto simp: bt_wf_Cons fun_eq_iff)
qed simp

lemma bt_wf_extend [wf_intros]: "bt_wf m \<Longrightarrow> bt_wf (bt_extend m kvs)"
  by (induction m kvs rule: bt_extend.induct) (auto intro: wf_intros)

lemma map_of_bt_extend: "bt_wf m \<Longrightarrow> map_of (bt_extend m kvs) = map_of m ++ map_of (rev kvs)"
proof (induction m kvs rule: bt_extend.induct)
  case (2 m k v kvs)
  then show ?case by (simp add: bt_wf_insert map_of_bt_insert map_add_def fun_eq_iff split: option.split)
qed simp

lemma bt_wf_of_list [wf_intros, simp]: "bt_wf (bt_of_list kvs)"
  by (simp add: bt_of_list_def bt_wf_extend)

lemma map_of_bt_of_list: "map_of (bt_of_list kvs) = map_of (rev kvs)"
  by (simp add: bt_of_list_def map_of_bt_extend)

lemma bt_wf_distinct: "bt_wf m \<Longrightarrow> distinct (map fst m)"
  by (simp add: bt_wf_def strict_sorted_iff)

lemma map_of_rev_wf: "bt_wf m \<Longrightarrow> map_of (rev m) = map_of m"
  using map_of_inject_set [of "rev m" m] bt_wf_distinct [of m] by (simp add: rev_map [symmetric])

lemma bt_wf_filter [wf_intros]: "bt_wf m \<Longrightarrow> bt_wf (filter P m)"
  by (induction m) (auto simp: bt_wf_Cons)

lemma bt_wf_map_values [wf_intros]: "bt_wf m \<Longrightarrow> bt_wf (map (\<lambda>(k, v). (k, f k v)) m)"
  by (induction m) (auto simp: bt_wf_Cons)

lemma map_of_filter_wf:
  "bt_wf m \<Longrightarrow> map_of (filter (\<lambda>(k, v). P k v) m) k
     = (case map_of m k of None \<Rightarrow> None | Some v \<Rightarrow> if P k v then Some v else None)"
proof (induction m)
  case (Cons kv m)
  have "map_of m (fst kv) = None" if "bt_wf (kv # m)"
    using that by (auto simp: bt_wf_Cons map_of_eq_None_iff)
  with Cons show ?case by (auto simp: bt_wf_Cons split: prod.split option.split)
qed simp

lemma in_set_bt: "bt_wf m \<Longrightarrow> (k, v) \<in> set m \<longleftrightarrow> map_of m k = Some v"
  by (simp add: bt_wf_distinct map_of_eq_Some_iff)

interpretation btree: keyed_store
  "\<lambda>m k. map_option (Pair k) (map_of m k)" "\<lambda>m (k, v). bt_insert k v m" fst bt_wf
  by unfold_locales (auto simp: map_of_bt_insert fun_eq_iff intro: bt_wf_insert)

end
