(* ===== verification/Sync_Schema.thy ===== *)
theory Sync_Schema
  imports BTree_Map
begin

text \<open>
  The sync wire types of \<^verbatim>\<open>crates/tethys-schema/src/sync.rs\<close> and the connection types of
  \<^verbatim>\<open>crates/tethys-schema/src/connection.rs\<close>: targets, scopes, registry values and entries,
  the per-entry metadata with its legacy migration, plans, skills and the attachment grid.
  \<open>BTreeMap\<close> fields are sorted association lists. The theorems are the wire-name round trips
  and what rewriting a registry file keeps of an entry's restrictions.
\<close>

section \<open>Targets, transports and scopes\<close>

datatype ProjectionTarget = PT_ClaudeCode | PT_Codex | PT_OpenCode

fun projection_target_as_str :: "ProjectionTarget \<Rightarrow> string" where
  "projection_target_as_str PT_ClaudeCode = ''claude-code''"
| "projection_target_as_str PT_Codex = ''codex''"
| "projection_target_as_str PT_OpenCode = ''opencode''"

definition projection_target_parse :: "string \<Rightarrow> ProjectionTarget option" where
  "projection_target_parse s =
     (if s = ''claude-code'' then Some PT_ClaudeCode
      else if s = ''codex'' then Some PT_Codex
      else if s = ''opencode'' then Some PT_OpenCode
      else None)"

datatype TargetId = T_Session | T_ClaudeCode | T_Codex | T_OpenCode

fun target_as_str :: "TargetId \<Rightarrow> string" where
  "target_as_str T_Session = ''session''"
| "target_as_str T_ClaudeCode = ''claude-code''"
| "target_as_str T_Codex = ''codex''"
| "target_as_str T_OpenCode = ''opencode''"

definition target_parse :: "string \<Rightarrow> TargetId option" where
  "target_parse s =
     (if s = ''session'' then Some T_Session
      else if s = ''claude-code'' then Some T_ClaudeCode
      else if s = ''codex'' then Some T_Codex
      else if s = ''opencode'' then Some T_OpenCode
      else None)"

fun target_of_projection :: "ProjectionTarget \<Rightarrow> TargetId" where
  "target_of_projection PT_ClaudeCode = T_ClaudeCode"
| "target_of_projection PT_Codex = T_Codex"
| "target_of_projection PT_OpenCode = T_OpenCode"

fun projection_of_target :: "TargetId \<Rightarrow> unit + ProjectionTarget" where
  "projection_of_target T_ClaudeCode = Ok PT_ClaudeCode"
| "projection_of_target T_Codex = Ok PT_Codex"
| "projection_of_target T_OpenCode = Ok PT_OpenCode"
| "projection_of_target T_Session = Err ()"

datatype TransportKind = Stdio | Http | Sse

fun transport_as_str :: "TransportKind \<Rightarrow> string" where
  "transport_as_str Stdio = ''stdio''"
| "transport_as_str Http = ''http''"
| "transport_as_str Sse = ''sse''"

datatype Scope = Global | Workspace

fun scope_as_str :: "Scope \<Rightarrow> string" where
  "scope_as_str Global = ''global''"
| "scope_as_str Workspace = ''workspace''"

definition scope_parse :: "string \<Rightarrow> Scope option" where
  "scope_parse s =
     (if s = ''global'' then Some Global
      else if s = ''workspace'' \<or> s = ''project'' then Some Workspace
      else None)"

section \<open>Registry values, metadata and entries\<close>

datatype RegistryValue = Plain string | Secret string

fun as_plain :: "RegistryValue \<Rightarrow> string option" where
  "as_plain (Plain v) = Some v"
| "as_plain (Secret _) = None"

fun secret_ref :: "RegistryValue \<Rightarrow> string option" where
  "secret_ref (Plain _) = None"
| "secret_ref (Secret r) = Some r"

record EntryMeta =
  em_scope :: "Scope option"
  em_providers :: "string list option"
  em_targets :: "TargetId list option"
  em_enabled :: bool
  em_legacy :: bool

definition default_meta :: EntryMeta where
  "default_meta = \<lparr>em_scope = None, em_providers = None, em_targets = None,
     em_enabled = True, em_legacy = False\<rparr>"

text \<open>
  \<open>EntryMetaRaw\<close> has the fields of \<open>EntryMeta\<close> after serde's defaults; \<open>meta_from_raw\<close> is the
  \<open>From\<close> conversion every deserialization goes through.
\<close>

type_synonym EntryMetaRaw = EntryMeta

definition meta_from_raw :: "EntryMetaRaw \<Rightarrow> EntryMeta" where
  "meta_from_raw raw =
     (let providers =
        (case (em_providers raw, em_targets raw) of
           (Some p, _) \<Rightarrow> Some p
         | (None, Some targets) \<Rightarrow>
             (let p = map target_as_str (filter (\<lambda>t. t \<noteq> T_Session) targets) in
              if p = [] then None else Some p)
         | (None, None) \<Rightarrow> None)
      in raw\<lparr>em_providers := providers\<rparr>)"

text \<open>What serde writes: every field but \<open>targets\<close>, which is \<open>skip_serializing\<close>.\<close>

definition meta_serialize :: "EntryMeta \<Rightarrow> EntryMetaRaw" where
  "meta_serialize meta = meta\<lparr>em_targets := None\<rparr>"

definition allows_provider :: "EntryMeta \<Rightarrow> string \<Rightarrow> bool" where
  "allows_provider meta provider_id =
     (case em_providers meta of
        Some providers \<Rightarrow> provider_id \<in> set providers
      | None \<Rightarrow>
          (case em_targets meta of
             Some targets \<Rightarrow>
               (let non_session = map target_as_str (filter (\<lambda>t. t \<noteq> T_Session) targets) in
                if non_session = [] then True else provider_id \<in> set non_session)
           | None \<Rightarrow> True))"

definition allows :: "EntryMeta \<Rightarrow> TargetId \<Rightarrow> bool" where
  "allows meta target =
     (case em_targets meta of
        Some targets \<Rightarrow> target \<in> set targets
      | None \<Rightarrow>
          if target = T_Session then True else allows_provider meta (target_as_str target))"

record RegistryEntry =
  re_transport :: TransportKind
  re_command :: "string option"
  re_args :: "string list"
  re_env :: "(string, RegistryValue) btree"
  re_url :: "string option"
  re_headers :: "(string, RegistryValue) btree"
  re_meta :: EntryMeta

record McpTransports =
  mt_stdio :: bool
  mt_http :: bool
  mt_sse :: bool

record SessionServer =
  ss_name :: string
  ss_transport :: TransportKind
  ss_command :: "string option"
  ss_args :: "string list"
  ss_env :: "(string, RegistryValue) btree"
  ss_url :: "string option"
  ss_headers :: "(string, RegistryValue) btree"

section \<open>Plans, manifests, imports and skills\<close>

datatype EntryState = Pending | InSync | Drifted | Conflict | Unsupported

record EntryProjection =
  ep_name :: string
  ep_state :: EntryState
  ep_projected :: bool
  ep_notes :: "string list"

record ProjectionPlan =
  pp_target :: TargetId
  pp_path :: string
  pp_scope :: Scope
  pp_base_hash :: string
  pp_created :: bool
  pp_diff :: string
  pp_content :: string
  pp_entries :: "EntryProjection list"
  pp_providers :: "string list"

record Applied =
  ap_target :: TargetId
  ap_path :: string
  ap_scope :: Scope
  ap_file_hash :: string
  ap_created :: bool
  ap_entries :: "(string, string) btree"

datatype VerifyStatus = VS_InSync | VS_Drifted | VS_Missing

record ImportCandidate =
  ic_name :: string
  ic_entry :: RegistryEntry
  ic_source_path :: string
  ic_scope :: Scope
  ic_conflict :: bool

datatype SkillOrigin = SO_Folder | SO_Archive | SO_GitHub | SO_Lockfile

record SkillSource =
  sk_origin :: SkillOrigin
  sk_repo :: "string option"
  sk_reference :: "string option"
  sk_subdir :: "string option"
  sk_lock_hash :: "string option"
  sk_url :: "string option"

record SkillInfo =
  sinfo_name :: string
  sinfo_scope :: Scope
  sinfo_path :: string
  sinfo_source :: SkillSource
  sinfo_enabled :: bool
  sinfo_requires_trust :: bool
  sinfo_trusted :: bool
  sinfo_content_hash :: string
  sinfo_pinned_sha :: "string option"

record ServerRow =
  sr_name :: string
  sr_transport :: TransportKind
  sr_scope :: Scope

record ProviderColumn =
  pc_id :: string
  pc_name :: string
  pc_connected :: bool
  pc_target :: "ProjectionTarget option"

datatype AttachmentState =
  Attached
| UnsupportedTransport TransportKind
| FileProjection ProjectionTarget EntryState
| Excluded
| NotNegotiated

record AttachmentCell =
  cell_server_name :: string
  cell_provider_id :: string
  cell_status :: AttachmentState

record AttachmentGrid =
  grid_servers :: "ServerRow list"
  grid_providers :: "ProviderColumn list"
  grid_cells :: "AttachmentCell list"

section \<open>Connections\<close>

datatype AcpProtocol = V1 | V2

datatype ConnectionState = CS_Connecting | CS_Connected | CS_Error | CS_Draining

record AgentInfo =
  ai_name :: string
  ai_version :: string
  ai_title :: "string option"

record NormalizedCapabilities =
  nc_load_session :: bool
  nc_resume :: bool
  nc_mcp :: McpTransports
  nc_prompt_embedded_context :: bool

record AgentCompat =
  preferred_protocol :: "AcpProtocol option"
  projection_target :: "ProjectionTarget option"

record ConnectionKey =
  ck_profile_id :: string
  ck_host :: string

record ConnectionEntry =
  ce_key :: ConnectionKey
  ce_state :: ConnectionState
  ce_protocol :: "AcpProtocol option"
  ce_info :: "AgentInfo option"
  ce_capabilities :: "NormalizedCapabilities option"
  ce_pid :: "u32 option"
  ce_restarts :: u32
  ce_stale :: bool

section \<open>Properties\<close>

text \<open>
  Wire names round-trip: every target, projection target and scope is parsed back from
  the name it prints, and the two target enums convert into each other.
\<close>

theorem wire_names_roundtrip:
  "target_parse (target_as_str t) = Some t
   \<and> projection_target_parse (projection_target_as_str p) = Some p
   \<and> scope_parse (scope_as_str s) = Some s
   \<and> projection_of_target (target_of_projection p) = Ok p
   \<and> target_as_str (target_of_projection p) = projection_target_as_str p"
  by (cases t; cases p; cases s)
     (simp_all add: target_parse_def projection_target_parse_def scope_parse_def)

lemma rewritten_allows_file:
  "em_targets m = Some ts \<Longrightarrow> em_providers m = None \<Longrightarrow> t \<noteq> T_Session
    \<Longrightarrow> allows (meta_from_raw (meta_serialize (meta_from_raw m))) t
      \<longleftrightarrow> t \<in> set ts \<or> set ts \<subseteq> {T_Session}"
proof -
  assume a: "em_targets m = Some ts" "em_providers m = None" "t \<noteq> T_Session"
  have inj: "target_as_str x = target_as_str y \<longleftrightarrow> x = y" for x y
    by (cases x; cases y) simp_all
  have "filter (\<lambda>t. t \<noteq> T_Session) ts = [] \<longleftrightarrow> set ts \<subseteq> {T_Session}"
    by (auto simp: filter_empty_conv)
  with a inj show ?thesis
    by (auto simp: allows_def allows_provider_def meta_from_raw_def meta_serialize_def Let_def)
qed

text \<open>
  Reading an entry with a legacy \<open>targets\<close> list and writing it back (the v1 to v2
  migration) keeps exactly the file targets it named when it names at least one; a list that
  names only the session loses the restriction, and the entry becomes visible to every file
  target.
\<close>

theorem targets_migration:
  assumes "em_targets meta = Some targets" and "em_providers meta = None" and "t \<noteq> T_Session"
  shows "(allows (meta_from_raw meta) t \<longleftrightarrow> t \<in> set targets)
       \<and> (allows (meta_from_raw (meta_serialize (meta_from_raw meta))) t
            \<longleftrightarrow> t \<in> set targets \<or> set targets \<subseteq> {T_Session})"
  using assms rewritten_allows_file [of meta targets t]
  by (simp_all add: allows_def meta_from_raw_def Let_def)

theorem targets_migration_witness:
  "\<not> allows (meta_from_raw (default_meta\<lparr>em_targets := Some [T_Session]\<rparr>)) T_Codex
   \<and> allows (meta_from_raw (meta_serialize
       (meta_from_raw (default_meta\<lparr>em_targets := Some [T_Session]\<rparr>)))) T_Codex"
  using targets_migration [of "default_meta\<lparr>em_targets := Some [T_Session]\<rparr>" "[T_Session]" T_Codex]
  by (simp add: default_meta_def)

end
