(* ===== verification/Supervisor.thy ===== *)
theory Supervisor
  imports Tethys_Prelude
begin

text \<open>
  \<^verbatim>\<open>crates/tethys-supervisor/src/lib.rs\<close>: the bounded stderr capture and the cancellation
  ladder (the Unix branch). The buffer is a list of bytes with its capacity; the reference
  it is compared with is the last \<open>capacity\<close> bytes of everything written. The ladder runs
  against an environment: the answers of the successive \<open>try_wait\<close> polls, the ones of the
  grace loop as a list that ends when the deadline is reached, and the answer of the final
  \<open>wait\<close>. Its result is the actions taken, in order, and the returned value.
\<close>

section \<open>Stderr ring buffer\<close>

type_synonym byte = "8 word"

record StderrRingBuffer =
  rb_capacity :: nat
  rb_buffer :: "byte list"

definition rb_new :: "nat \<Rightarrow> StderrRingBuffer" where
  "rb_new capacity = \<lparr>rb_capacity = capacity, rb_buffer = []\<rparr>"

definition write_bytes :: "StderrRingBuffer \<Rightarrow> byte list \<Rightarrow> StderrRingBuffer" where
  "write_bytes rb bytes =
     (let buf = rb_buffer rb; cap = rb_capacity rb in
      if length buf + length bytes \<le> cap then rb\<lparr>rb_buffer := buf @ bytes\<rparr>
      else let overflow = (length buf + length bytes) - cap in
        if overflow \<ge> length buf
        then let start = length bytes - cap in rb\<lparr>rb_buffer := drop start bytes\<rparr>
        else rb\<lparr>rb_buffer := drop overflow buf @ bytes\<rparr>)"

definition rb_len :: "StderrRingBuffer \<Rightarrow> nat" where
  "rb_len rb = length (rb_buffer rb)"

definition rb_wf :: "StderrRingBuffer \<Rightarrow> bool" where
  "rb_wf rb \<longleftrightarrow> rb_len rb \<le> rb_capacity rb"

lemma write_bytes_capacity [simp]: "rb_capacity (write_bytes rb bytes) = rb_capacity rb"
  by (simp add: write_bytes_def Let_def)

lemma write_bytes_last_n:
  assumes "rb_wf rb"
  shows "rb_buffer (write_bytes rb bytes) = last_n (rb_capacity rb) (rb_buffer rb @ bytes)"
  using assms by (auto simp: write_bytes_def Let_def last_n_def rb_wf_def rb_len_def)

lemma write_bytes_wf [wf_intros]: "rb_wf rb \<Longrightarrow> rb_wf (write_bytes rb bytes)"
  by (simp add: rb_wf_def [of "write_bytes rb bytes"] rb_len_def write_bytes_last_n length_last_n)

lemma run_write_bytes:
  assumes "rb_wf rb" and "rb_buffer rb = last_n (rb_capacity rb) written"
  shows "rb_buffer (run_steps write_bytes rb chunks) = last_n (rb_capacity rb) (written @ concat chunks)"
  using assms
proof (induction chunks arbitrary: rb written)
  case (Cons chunk chunks)
  have "rb_buffer (write_bytes rb chunk) = last_n (rb_capacity rb) (written @ chunk)"
    using Cons.prems by (simp add: write_bytes_last_n last_n_append [of _ written])
  with Cons.IH [of "write_bytes rb chunk" "written @ chunk"] write_bytes_wf [OF Cons.prems(1)]
  show ?case by simp
qed simp

lemma rb_new_wf: "rb_wf (rb_new n)"
  by (simp add: rb_wf_def rb_new_def rb_len_def)

interpretation ring: step_invariant "rb_new n" write_bytes rb_wf for n
  by unfold_locales (auto intro: rb_new_wf write_bytes_wf)

text \<open>
  The ring buffer refines its specification: after any sequence of writes it holds
  exactly the last \<open>capacity\<close> bytes of the concatenated output, hence never more than
  \<open>capacity\<close> bytes.
\<close>

theorem ring_buffer_refines_stream:
  "rb_buffer (run_steps write_bytes (rb_new capacity) chunks) = last_n capacity (concat chunks)
   \<and> rb_len (run_steps write_bytes (rb_new capacity) chunks) \<le> capacity"
  using run_write_bytes [OF rb_new_wf, of capacity "[]" chunks]
  by (simp add: rb_new_def last_n_def rb_len_def)

section \<open>Cancellation ladder\<close>

datatype Signal = SIGINT | SIGTERM | SIGKILL

datatype LadderAction = TryWait | SendSignal Signal | SleepMs nat | Wait

text \<open>A poll is \<open>io::Result<Option<ExitStatus>>\<close>: an error, still running, or exited.\<close>

type_synonym 'e poll = "'e + bool"

fun grace_loop :: "'e poll list \<Rightarrow> LadderAction list \<times> ('e + unit) option" where
  "grace_loop [] = ([], None)"
| "grace_loop (Inl e # polls) = ([TryWait], Some (Err e))"
| "grace_loop (Inr True # polls) = ([TryWait], Some (Ok ()))"
| "grace_loop (Inr False # polls) =
     (case grace_loop polls of (acts, r) \<Rightarrow> (TryWait # SleepMs 25 # acts, r))"

definition cancel_ladder ::
  "'e poll \<Rightarrow> 'e poll list \<Rightarrow> ('e + unit) \<Rightarrow> LadderAction list \<times> ('e + unit)" where
  "cancel_ladder first polls waited =
     (case first of
        Inl e \<Rightarrow> ([TryWait], Err e)
      | Inr exited \<Rightarrow>
          if exited then ([TryWait], Ok ())
          else case grace_loop polls of
            (acts, Some r) \<Rightarrow> (TryWait # SendSignal SIGINT # acts, r)
          | (acts, None) \<Rightarrow>
              (TryWait # SendSignal SIGINT # acts
                @ [SendSignal SIGTERM, SleepMs 100, SendSignal SIGKILL, Wait], waited))"

definition force_kill_group :: "('e + unit) \<Rightarrow> LadderAction list \<times> ('e + unit)" where
  "force_kill_group waited = ([SendSignal SIGKILL, Wait], waited)"

fun signals :: "LadderAction list \<Rightarrow> Signal list" where
  "signals [] = []"
| "signals (SendSignal s # acts) = s # signals acts"
| "signals (_ # acts) = signals acts"

lemma signals_append: "signals (xs @ ys) = signals xs @ signals ys"
  by (induction xs rule: signals.induct) auto

lemma grace_loop_signals: "signals (fst (grace_loop polls)) = []"
  by (induction polls rule: grace_loop.induct) (auto split: prod.split)

lemma grace_loop_deadline: "snd (grace_loop polls) = None \<longleftrightarrow> set polls \<subseteq> {Inr False}"
  by (induction polls rule: grace_loop.induct) (auto split: prod.split)

lemma grace_loop_ok: "snd (grace_loop polls) = Some (Ok ()) \<Longrightarrow> Inr True \<in> set polls"
  by (induction polls rule: grace_loop.induct) (auto split: prod.splits)

text \<open>
  The ladder escalates in order and only as far as needed: a child that is found exited
  at the first poll (or whose poll fails) is never signalled, one that exits during the
  grace period receives \<open>SIGINT\<close> only, and one that is still running when the deadline
  passes receives \<open>SIGINT\<close>, \<open>SIGTERM\<close>, \<open>SIGKILL\<close> in this order, followed by the final wait
  whose result is returned.
\<close>

theorem cancel_ladder_escalates:
  "signals (fst (cancel_ladder first polls waited)) =
     (if first \<noteq> Inr False then []
      else if set polls \<subseteq> {Inr False} then [SIGINT, SIGTERM, SIGKILL] else [SIGINT])
   \<and> (first = Inr False \<and> set polls \<subseteq> {Inr False}
        \<longrightarrow> snd (cancel_ladder first polls waited) = waited
          \<and> last (fst (cancel_ladder first polls waited)) = Wait)"
proof (cases "grace_loop polls")
  case (Pair acts r)
  then have "signals acts = []" and "r = None \<longleftrightarrow> set polls \<subseteq> {Inr False}"
    using grace_loop_signals [of polls] grace_loop_deadline [of polls] by simp_all
  then show ?thesis
    by (auto simp: cancel_ladder_def Pair signals_append split: sum.split option.split)
qed

theorem cancel_ladder_escalates_witness:
  "signals (fst (cancel_ladder (Inr False :: nat poll) [Inr False, Inr False] (Ok ())))
     = [SIGINT, SIGTERM, SIGKILL]
   \<and> snd (cancel_ladder (Inr False :: nat poll) [Inr False, Inr False] (Ok ())) = Ok ()"
  using cancel_ladder_escalates [of "Inr False :: nat poll" "[Inr False, Inr False]" "Ok ()"] by simp

end
