(* ===== verification/Connection_Store.thy ===== *)
theory Connection_Store
  imports Sync_Schema Supervisor "HOL-Library.Product_Lexorder"
begin

text \<open>
  The agent connection store: \<^verbatim>\<open>crates/tethys-agent-servers/src/connection_store.rs\<close>,
  \<^verbatim>\<open>launch.rs\<close> and \<^verbatim>\<open>recovery.rs\<close>. Child processes and ACP connections are handles (natural
  numbers, so that \<open>Arc::ptr_eq\<close> is equality); instants are milliseconds. What the
  operating system and the agent answer is an argument: whether a child has exited, the
  result of spawning a launch specification and connecting to it with a protocol, whether a
  cancel or resume request on a connection succeeded within the cancel grace.
  The store additionally logs the children handed to the supervisor's kill operations.

  The whole operations (\<open>acquire\<close>, \<open>reap_idle\<close>, \<open>restart\<close>, \<open>recover\<close>) are compositions of
  sections that each hold the entries lock; \<open>conn_step\<close> is their interleaving, with the
  connect guard as the in-flight component of the state.
\<close>

section \<open>Data\<close>

record LaunchSpec =
  ls_profile_id :: string
  ls_host :: string
  ls_program :: string
  ls_args :: "string list"
  ls_cwd :: "string option"
  ls_env :: "(string \<times> string) list"
  ls_stderr_capacity :: nat

definition launch_new :: "string \<Rightarrow> string \<Rightarrow> LaunchSpec" where
  "launch_new profile_id program = \<lparr>ls_profile_id = profile_id, ls_host = ''local'',
     ls_program = program, ls_args = [], ls_cwd = None, ls_env = [],
     ls_stderr_capacity = 2 * 1024 * 1024\<rparr>"

datatype StoreError =
  UnknownProfile string | SpawnError string | ConnectError string | RecoveryError string

datatype RecoveryOutcome =
  RO_Cancelled | RO_SessionResumed | RO_ProcessRestarted | RO_Interrupted

datatype Lifecycle = L_Connecting | L_Connected | L_Error | L_Draining | L_Terminated

fun exposed :: "Lifecycle \<Rightarrow> ConnectionState option" where
  "exposed L_Connecting = Some CS_Connecting"
| "exposed L_Connected = Some CS_Connected"
| "exposed L_Error = Some CS_Error"
| "exposed L_Draining = Some CS_Draining"
| "exposed L_Terminated = None"

type_synonym child = nat
type_synonym conn = nat

record ConnEntry =
  e_key :: ConnectionKey
  e_spec :: LaunchSpec
  e_compat :: AgentCompat
  e_state :: Lifecycle
  e_protocol :: "AcpProtocol option"
  e_info :: "AgentInfo option"
  e_capabilities :: "NormalizedCapabilities option"
  e_pid :: "u32 option"
  e_restarts :: u32
  e_spawn_count :: u32
  e_leases :: u32
  e_last_active :: nat
  e_child :: "child option"
  e_connection :: "conn option"

text \<open>A successful spawn with the facts the new connection reports.\<close>

record Spawned =
  sp_child :: child
  sp_connection :: conn
  sp_pid :: u32
  sp_info :: AgentInfo
  sp_capabilities :: NormalizedCapabilities
  sp_protocol :: AcpProtocol

record PendingSpawn =
  ps_spec :: LaunchSpec
  ps_compat :: AgentCompat
  ps_child :: "child option"
  ps_connection :: "conn option"

text \<open>The answers of \<open>SupervisedChild::spawn\<close>, the pipes and \<open>tethys_acp::connect\<close>.\<close>

datatype SpawnResult =
  SpawnFails string
| PipesMissing child u32
| ConnectFails child u32 string
| Spawns Spawned

type_synonym spawner = "LaunchSpec \<Rightarrow> AcpProtocol \<Rightarrow> SpawnResult"

record StoreOptions =
  so_protocol :: AcpProtocol
  so_client_name :: string
  so_idle_grace :: nat
  so_cancel_grace :: nat

definition options_new :: "AcpProtocol \<Rightarrow> StoreOptions" where
  "options_new protocol = \<lparr>so_protocol = protocol, so_client_name = ''tethys'',
     so_idle_grace = 30 * 1000, so_cancel_grace = 5 * 1000\<rparr>"

record ConnectionStore =
  cs_options :: StoreOptions
  cs_entries :: "ConnectionKey \<rightharpoonup> ConnEntry"
  cs_killed :: "child list"

type_synonym ConnectionLease = "ConnectionKey \<times> conn"

section \<open>Operations under the entries lock\<close>

definition update_entry ::
  "ConnectionKey \<Rightarrow> (ConnEntry \<Rightarrow> ConnEntry) \<Rightarrow> ConnectionStore \<Rightarrow> ConnectionStore" where
  "update_entry k f st =
     (case cs_entries st k of
        None \<Rightarrow> st
      | Some e \<Rightarrow> st\<lparr>cs_entries := (cs_entries st)(k \<mapsto> f e)\<rparr>)"

definition kill :: "child option \<Rightarrow> ConnectionStore \<Rightarrow> ConnectionStore" where
  "kill c st = (case c of None \<Rightarrow> st | Some c \<Rightarrow> st\<lparr>cs_killed := cs_killed st @ [c]\<rparr>)"

definition store_new :: "StoreOptions \<Rightarrow> ConnectionStore" where
  "store_new options = \<lparr>cs_options = options, cs_entries = Map.empty, cs_killed = []\<rparr>"

definition register ::
  "nat \<Rightarrow> LaunchSpec \<Rightarrow> AgentCompat \<Rightarrow> ConnectionStore \<Rightarrow> ConnectionKey \<times> ConnectionStore" where
  "register now spec cmpt st =
     (let key = \<lparr>ck_profile_id = ls_profile_id spec, ck_host = ls_host spec\<rparr> in
      (key,
       case cs_entries st key of
         Some _ \<Rightarrow> st
       | None \<Rightarrow> st\<lparr>cs_entries := (cs_entries st)(key \<mapsto>
           \<lparr>e_key = key, e_spec = spec, e_compat = cmpt, e_state = L_Terminated,
            e_protocol = None, e_info = None, e_capabilities = None, e_pid = None,
            e_restarts = 0, e_spawn_count = 0, e_leases = 0, e_last_active = now,
            e_child = None, e_connection = None\<rparr>)\<rparr>))"

definition refresh_liveness :: "(child \<Rightarrow> bool) \<Rightarrow> ConnEntry \<Rightarrow> ConnEntry" where
  "refresh_liveness exited e =
     (if e_state e \<noteq> L_Connected then e
      else if (case e_child e of None \<Rightarrow> False | Some c \<Rightarrow> exited c)
      then e\<lparr>e_connection := None, e_state := L_Error\<rparr>
      else e)"

definition reuse ::
  "(child \<Rightarrow> bool) \<Rightarrow> nat \<Rightarrow> ConnectionKey \<Rightarrow> ConnectionStore
    \<Rightarrow> ConnectionLease option \<times> ConnectionStore" where
  "reuse exited now k st =
     (case cs_entries st k of
        None \<Rightarrow> (None, st)
      | Some e0 \<Rightarrow>
          let e = refresh_liveness exited e0; st' = update_entry k (\<lambda>_. e) st in
          if e_state e \<noteq> L_Connected then (None, st')
          else case e_connection e of
            None \<Rightarrow> (None, st')
          | Some c \<Rightarrow>
              (Some (k, c),
               update_entry k (\<lambda>e. e\<lparr>e_leases := e_leases e + 1, e_last_active := now\<rparr>) st'))"

definition begin_spawn ::
  "ConnectionKey \<Rightarrow> ConnectionStore \<Rightarrow> StoreError + (PendingSpawn \<times> ConnectionStore)" where
  "begin_spawn k st =
     (case cs_entries st k of
        None \<Rightarrow> Err (UnknownProfile (ck_profile_id k))
      | Some e \<Rightarrow>
          let spawn_count = e_spawn_count e + 1;
              restarts = (if spawn_count > 1 then e_restarts e + 1 else e_restarts e) in
          Ok (\<lparr>ps_spec = e_spec e, ps_compat = e_compat e, ps_child = e_child e,
               ps_connection = e_connection e\<rparr>,
              update_entry k (\<lambda>e. e\<lparr>e_spawn_count := spawn_count, e_restarts := restarts,
                e_state := L_Connecting, e_child := None, e_connection := None\<rparr>) st))"

definition mark_error ::
  "ConnectionKey \<Rightarrow> u32 option \<Rightarrow> ConnectionStore \<Rightarrow> ConnectionStore" where
  "mark_error k pid st =
     update_entry k (\<lambda>e. e\<lparr>e_state := L_Error, e_connection := None,
       e_pid := (if pid \<noteq> None then pid else e_pid e)\<rparr>) st"

definition connect_protocol :: "AgentCompat \<Rightarrow> StoreOptions \<Rightarrow> AcpProtocol" where
  "connect_protocol cmpt options =
     (case preferred_protocol cmpt of None \<Rightarrow> so_protocol options | Some p \<Rightarrow> p)"

definition spawn_connection ::
  "spawner \<Rightarrow> ConnectionKey \<Rightarrow> LaunchSpec \<Rightarrow> AgentCompat \<Rightarrow> ConnectionStore
    \<Rightarrow> (StoreError + Spawned) \<times> ConnectionStore" where
  "spawn_connection spawner k spec cmpt st =
     (case spawner spec (connect_protocol cmpt (cs_options st)) of
        SpawnFails msg \<Rightarrow> (Err (SpawnError msg), mark_error k None st)
      | PipesMissing c pid \<Rightarrow>
          (Err (SpawnError ''child stdio pipes unavailable''),
           mark_error k (Some pid) (kill (Some c) st))
      | ConnectFails c pid msg \<Rightarrow>
          (Err (ConnectError msg), mark_error k (Some pid) (kill (Some c) st))
      | Spawns s \<Rightarrow> (Ok s, st))"

definition install ::
  "nat \<Rightarrow> ConnectionKey \<Rightarrow> Spawned \<Rightarrow> ConnectionStore \<Rightarrow> ConnectionLease \<times> ConnectionStore" where
  "install now k s st =
     ((k, sp_connection s),
      update_entry k (\<lambda>e. e\<lparr>e_state := L_Connected, e_child := Some (sp_child s),
        e_connection := Some (sp_connection s), e_pid := Some (sp_pid s),
        e_protocol := Some (sp_protocol s), e_info := Some (sp_info s),
        e_capabilities := Some (sp_capabilities s), e_leases := e_leases e + 1,
        e_last_active := now\<rparr>) st)"

definition release :: "nat \<Rightarrow> ConnectionKey \<Rightarrow> ConnectionStore \<Rightarrow> ConnectionStore" where
  "release now k st =
     update_entry k (\<lambda>e.
       let e' = e\<lparr>e_leases := sat_sub (e_leases e) 1, e_last_active := now\<rparr> in
       if e_leases e' = 0 \<and> e_state e' = L_Connected then e'\<lparr>e_state := L_Draining\<rparr> else e') st"

definition watch_closed :: "ConnectionKey \<Rightarrow> conn \<Rightarrow> ConnectionStore \<Rightarrow> ConnectionStore" where
  "watch_closed k c st =
     update_entry k (\<lambda>e.
       if e_connection e = Some c \<and> e_state e = L_Connected
       then e\<lparr>e_connection := None, e_state := L_Error\<rparr> else e) st"

definition live_connection :: "ConnectionKey \<Rightarrow> ConnectionStore \<Rightarrow> StoreError + conn option" where
  "live_connection k st =
     (case cs_entries st k of
        None \<Rightarrow> Err (UnknownProfile (ck_profile_id k))
      | Some e \<Rightarrow> Ok (e_connection e))"

section \<open>Whole operations\<close>

definition acquire ::
  "(child \<Rightarrow> bool) \<Rightarrow> nat \<Rightarrow> spawner \<Rightarrow> ConnectionKey \<Rightarrow> ConnectionStore
    \<Rightarrow> (StoreError + ConnectionLease) \<times> ConnectionStore" where
  "acquire exited now spawner k st =
     (case reuse exited now k st of
        (Some lease, st') \<Rightarrow> (Ok lease, st')
      | (None, st') \<Rightarrow>
          (case begin_spawn k st' of
             Inl e \<Rightarrow> (Err e, st')
           | Inr (pending, st'') \<Rightarrow>
               (case spawn_connection spawner k (ps_spec pending) (ps_compat pending)
                       (kill (ps_child pending) st'') of
                  (Inl e, st3) \<Rightarrow> (Err e, st3)
                | (Inr s, st3) \<Rightarrow>
                    (case install now k s st3 of (lease, st4) \<Rightarrow> (Ok lease, st4)))))"

definition reap_candidate :: "nat \<Rightarrow> nat \<Rightarrow> ConnEntry \<Rightarrow> bool" where
  "reap_candidate now idle_grace e \<longleftrightarrow>
     e_state e = L_Draining \<and> e_leases e = 0 \<and> now - e_last_active e \<ge> idle_grace"

definition reap_one :: "ConnectionKey \<Rightarrow> ConnectionStore \<Rightarrow> bool \<times> ConnectionStore" where
  "reap_one k st =
     (case cs_entries st k of
        None \<Rightarrow> (False, st)
      | Some e \<Rightarrow>
          if e_state e \<noteq> L_Draining \<or> e_leases e \<noteq> 0 then (False, st)
          else (True, kill (e_child e)
            (update_entry k (\<lambda>e. e\<lparr>e_state := L_Terminated, e_child := None,
               e_connection := None\<rparr>) st)))"

fun reap_loop :: "ConnectionKey list \<Rightarrow> ConnectionStore \<Rightarrow> nat \<times> ConnectionStore" where
  "reap_loop [] st = (0, st)"
| "reap_loop (k # ks) st =
     (case reap_one k st of (hit, st') \<Rightarrow>
        case reap_loop ks st' of (n, st'') \<Rightarrow> (if hit then Suc n else n, st''))"

text \<open>\<open>order\<close> is the iteration order of the hash map: an enumeration of its keys.\<close>

definition reap_idle ::
  "nat \<Rightarrow> ConnectionKey list \<Rightarrow> ConnectionStore \<Rightarrow> nat \<times> ConnectionStore" where
  "reap_idle now order st =
     reap_loop (filter (\<lambda>k. case cs_entries st k of None \<Rightarrow> False
       | Some e \<Rightarrow> reap_candidate now (so_idle_grace (cs_options st)) e) order) st"

definition restart ::
  "ConnectionKey \<Rightarrow> (string + unit) \<Rightarrow> ConnectionStore \<Rightarrow> (StoreError + unit) \<times> ConnectionStore" where
  "restart k killed st =
     (case cs_entries st k of
        None \<Rightarrow> (Err (UnknownProfile (ck_profile_id k)), st)
      | Some e \<Rightarrow>
          let st' = kill (e_child e) (update_entry k (\<lambda>e. e\<lparr>e_state := L_Error,
                      e_child := None, e_connection := None\<rparr>) st) in
          (case e_child e of
             None \<Rightarrow> (Ok (), st')
           | Some _ \<Rightarrow>
               (case killed of Inl msg \<Rightarrow> (Err (SpawnError msg), st') | Inr _ \<Rightarrow> (Ok (), st'))))"

definition acquire_or_interrupt ::
  "(child \<Rightarrow> bool) \<Rightarrow> nat \<Rightarrow> spawner \<Rightarrow> ConnectionKey \<Rightarrow> ConnectionStore
    \<Rightarrow> RecoveryOutcome \<times> ConnectionStore" where
  "acquire_or_interrupt exited now spawner k st =
     (case acquire exited now spawner k st of
        (Inr lease, st') \<Rightarrow> (RO_ProcessRestarted, release now (fst lease) st')
      | (Inl _, st') \<Rightarrow> (RO_Interrupted, st'))"

definition recover ::
  "(child \<Rightarrow> bool) \<Rightarrow> nat \<Rightarrow> spawner \<Rightarrow> (conn \<Rightarrow> bool) \<Rightarrow> (conn \<Rightarrow> bool) \<Rightarrow> (string + unit)
    \<Rightarrow> ConnectionKey \<Rightarrow> ConnectionStore \<Rightarrow> (StoreError + RecoveryOutcome) \<times> ConnectionStore" where
  "recover exited now spawner cancelled resumed killed k st =
     (case live_connection k st of
        Inl e \<Rightarrow> (Err e, st)
      | Inr None \<Rightarrow>
          (case acquire_or_interrupt exited now spawner k st of (out, st') \<Rightarrow> (Ok out, st'))
      | Inr (Some c) \<Rightarrow>
          if cancelled c then (Ok RO_Cancelled, st)
          else if resumed c then (Ok RO_SessionResumed, st)
          else (case restart k killed st of
                  (Inr _, st') \<Rightarrow>
                    (case acquire_or_interrupt exited now spawner k st' of (out, st'') \<Rightarrow> (Ok out, st''))
                | (Inl _, st') \<Rightarrow> (Ok RO_Interrupted, st')))"

section \<open>Views\<close>

definition entry_row :: "ConnEntry \<Rightarrow> ConnectionState \<Rightarrow> AcpProtocol option \<Rightarrow> ConnectionEntry" where
  "entry_row e state protocol = \<lparr>ce_key = e_key e, ce_state = state, ce_protocol = protocol,
     ce_info = e_info e, ce_capabilities = e_capabilities e, ce_pid = e_pid e,
     ce_restarts = e_restarts e, ce_stale = (e_state e = L_Error)\<rparr>"

fun refresh_all ::
  "(child \<Rightarrow> bool) \<Rightarrow> ConnectionKey list \<Rightarrow> ConnectionStore \<Rightarrow> ConnectionStore" where
  "refresh_all exited [] st = st"
| "refresh_all exited (k # ks) st =
     refresh_all exited ks (update_entry k (refresh_liveness exited) st)"

definition store_entries ::
  "(child \<Rightarrow> bool) \<Rightarrow> ConnectionKey list \<Rightarrow> ConnectionStore
    \<Rightarrow> ConnectionEntry list \<times> ConnectionStore" where
  "store_entries exited order st =
     (let st' = refresh_all exited order st;
          rows = List.map_filter (\<lambda>k. case cs_entries st' k of None \<Rightarrow> None
            | Some e \<Rightarrow> map_option (\<lambda>s. entry_row e s (e_protocol e)) (exposed (e_state e))) order
      in (sort_key (\<lambda>row. (ck_profile_id (ce_key row), ck_host (ce_key row))) rows, st'))"

definition store_entry ::
  "(child \<Rightarrow> bool) \<Rightarrow> ConnectionKey \<Rightarrow> ConnectionStore \<Rightarrow> ConnectionEntry option \<times> ConnectionStore" where
  "store_entry exited k st =
     (case cs_entries st k of
        None \<Rightarrow> (None, st)
      | Some e0 \<Rightarrow>
          let e = refresh_liveness exited e0;
              state = (case exposed (e_state e) of None \<Rightarrow> CS_Connecting | Some s \<Rightarrow> s);
              protocol = (case e_protocol e of None \<Rightarrow> preferred_protocol (e_compat e)
                          | Some p \<Rightarrow> Some p) in
          (Some (entry_row e state protocol), update_entry k (\<lambda>_. e) st))"

definition spawns :: "ConnectionKey \<Rightarrow> ConnectionStore \<Rightarrow> u32" where
  "spawns k st = (case cs_entries st k of None \<Rightarrow> 0 | Some e \<Rightarrow> e_spawn_count e)"


section \<open>Interleaving\<close>

text \<open>
  A system state is the store, the holder of the connect guard (at most one spawn is in
  flight, and nobody reuses a connection meanwhile), and two ghost components: the children
  ever spawned and the leases not yet dropped.
\<close>

datatype Flight =
  FlightPending ConnectionKey PendingSpawn
| FlightLaunched ConnectionKey Spawned

record ConnSys =
  sys_store :: ConnectionStore
  sys_flight :: "Flight option"
  sys_spawned :: "child set"
  sys_live :: "ConnectionKey \<Rightarrow> nat"

definition sys_new :: "StoreOptions \<Rightarrow> ConnSys" where
  "sys_new options = \<lparr>sys_store = store_new options, sys_flight = None, sys_spawned = {},
     sys_live = (\<lambda>_. 0)\<rparr>"

text \<open>The child that a failing spawn leaves behind, if it got that far.\<close>

fun result_child :: "SpawnResult \<Rightarrow> child option" where
  "result_child (SpawnFails _) = None"
| "result_child (PipesMissing c _) = Some c"
| "result_child (ConnectFails c _ _) = Some c"
| "result_child (Spawns s) = Some (sp_child s)"

inductive conn_step :: "ConnSys \<Rightarrow> ConnSys \<Rightarrow> bool" where
  step_register:
    "conn_step y (y\<lparr>sys_store := snd (register now spec cmpt (sys_store y))\<rparr>)"
| step_reuse:
    "sys_flight y = None \<Longrightarrow> reuse exited now k (sys_store y) = (Some lease, st')
     \<Longrightarrow> sys_live y k + 1 < 2 ^ 32
     \<Longrightarrow> conn_step y (y\<lparr>sys_store := st', sys_live := (sys_live y)(k := sys_live y k + 1)\<rparr>)"
| step_no_reuse:
    "sys_flight y = None \<Longrightarrow> reuse exited now k (sys_store y) = (None, st')
     \<Longrightarrow> conn_step y (y\<lparr>sys_store := st'\<rparr>)"
| step_begin:
    "sys_flight y = None \<Longrightarrow> begin_spawn k (sys_store y) = Ok (p, st')
     \<Longrightarrow> conn_step y (y\<lparr>sys_store := st', sys_flight := Some (FlightPending k p)\<rparr>)"
| step_kill_pending:
    "sys_flight y = Some (FlightPending k p)
     \<Longrightarrow> conn_step y (y\<lparr>sys_store := kill (ps_child p) (sys_store y),
           sys_flight := Some (FlightPending k (p\<lparr>ps_child := None\<rparr>))\<rparr>)"
| step_spawn_fails:
    "sys_flight y = Some (FlightPending k p) \<Longrightarrow> ps_child p = None
     \<Longrightarrow> spawn_connection (\<lambda>_ _. r) k (ps_spec p) (ps_compat p) (sys_store y) = (Err e, st')
     \<Longrightarrow> set_option (result_child r) \<inter> sys_spawned y = {}
     \<Longrightarrow> conn_step y (y\<lparr>sys_store := st', sys_flight := None,
           sys_spawned := sys_spawned y \<union> set_option (result_child r)\<rparr>)"
| step_spawns:
    "sys_flight y = Some (FlightPending k p) \<Longrightarrow> ps_child p = None \<Longrightarrow> sp_child s \<notin> sys_spawned y
     \<Longrightarrow> conn_step y (y\<lparr>sys_flight := Some (FlightLaunched k s),
           sys_spawned := insert (sp_child s) (sys_spawned y)\<rparr>)"
| step_install:
    "sys_flight y = Some (FlightLaunched k s) \<Longrightarrow> sys_live y k + 1 < 2 ^ 32
     \<Longrightarrow> conn_step y (y\<lparr>sys_store := snd (install now k s (sys_store y)), sys_flight := None,
           sys_live := (sys_live y)(k := sys_live y k + 1)\<rparr>)"
| step_release:
    "0 < sys_live y k
     \<Longrightarrow> conn_step y (y\<lparr>sys_store := release now k (sys_store y),
           sys_live := (sys_live y)(k := sys_live y k - 1)\<rparr>)"
| step_reap:
    "conn_step y (y\<lparr>sys_store := snd (reap_one k (sys_store y))\<rparr>)"
| step_restart:
    "conn_step y (y\<lparr>sys_store := snd (restart k killed (sys_store y))\<rparr>)"
| step_closed:
    "conn_step y (y\<lparr>sys_store := watch_closed k c (sys_store y)\<rparr>)"
| step_refresh:
    "conn_step y (y\<lparr>sys_store := update_entry k (refresh_liveness exited) (sys_store y)\<rparr>)"

text \<open>Where a child is: in an entry, with the holder of the guard, or handed to a kill.\<close>

datatype Slot = In_entry ConnectionKey | In_flight | Killed

fun flight_children :: "Flight option \<Rightarrow> child set" where
  "flight_children None = {}"
| "flight_children (Some (FlightPending k p)) = set_option (ps_child p)"
| "flight_children (Some (FlightLaunched k s)) = {sp_child s}"

fun flight_key :: "Flight \<Rightarrow> ConnectionKey" where
  "flight_key (FlightPending k p) = k"
| "flight_key (FlightLaunched k s) = k"

definition entry_children :: "ConnectionStore \<Rightarrow> ConnectionKey \<Rightarrow> child set" where
  "entry_children st k = (case cs_entries st k of None \<Rightarrow> {} | Some e \<Rightarrow> set_option (e_child e))"

fun slots :: "ConnSys \<Rightarrow> Slot \<Rightarrow> child set" where
  "slots y (In_entry k) = entry_children (sys_store y) k"
| "slots y In_flight = flight_children (sys_flight y)"
| "slots y Killed = set (cs_killed (sys_store y))"

definition owned_once :: "('slot \<Rightarrow> 'c set) \<Rightarrow> 'c set \<Rightarrow> bool" where
  "owned_once h S \<longleftrightarrow>
     (\<Union>s. h s) = S \<and> (\<forall>s t c. c \<in> h s \<longrightarrow> c \<in> h t \<longrightarrow> s = t)"

definition lifecycle_ok :: "nat \<Rightarrow> ConnEntry \<Rightarrow> bool" where
  "lifecycle_ok live e \<longleftrightarrow> unat (e_leases e) = live \<and>
     (case e_state e of
        L_Connecting \<Rightarrow> e_child e = None \<and> e_connection e = None
      | L_Terminated \<Rightarrow> e_child e = None \<and> e_connection e = None
      | L_Error \<Rightarrow> e_connection e = None
      | L_Connected \<Rightarrow> e_child e \<noteq> None \<and> e_connection e \<noteq> None \<and> 0 < live
      | L_Draining \<Rightarrow> e_child e \<noteq> None \<and> e_connection e \<noteq> None \<and> live = 0)"

definition rows_ok :: "(ConnectionKey \<Rightarrow> nat) \<Rightarrow> ConnectionStore \<Rightarrow> bool" where
  "rows_ok live st \<longleftrightarrow>
     (\<forall>k e. cs_entries st k = Some e \<longrightarrow> e_key e = k \<and> lifecycle_ok (live k) e)
     \<and> (\<forall>k. cs_entries st k = None \<longrightarrow> live k = 0)"

definition flight_ok :: "ConnSys \<Rightarrow> bool" where
  "flight_ok y \<longleftrightarrow>
     (case sys_flight y of None \<Rightarrow> True
      | Some f \<Rightarrow> (\<exists>e. cs_entries (sys_store y) (flight_key f) = Some e \<and> e_child e = None
                     \<and> e_state e \<in> {L_Connecting, L_Error}))"

definition conn_inv :: "ConnSys \<Rightarrow> bool" where
  "conn_inv y \<longleftrightarrow>
     rows_ok (sys_live y) (sys_store y) \<and> flight_ok y \<and> owned_once (slots y) (sys_spawned y)"

subsection \<open>Ownership moves\<close>

lemma owned_once_move:
  "owned_once h S \<Longrightarrow> a \<noteq> b \<Longrightarrow> owned_once (h(a := {}, b := h b \<union> h a)) S"
  by (auto simp: owned_once_def split: if_splits)

lemma owned_once_fresh:
  "owned_once h S \<Longrightarrow> X \<inter> S = {} \<Longrightarrow> owned_once (h(b := h b \<union> X)) (S \<union> X)"
  by (auto simp: owned_once_def split: if_splits)

lemma owned_once_cong: "owned_once h S \<Longrightarrow> (\<And>s. h' s = h s) \<Longrightarrow> owned_once h' S"
  by (simp add: owned_once_def)

subsection \<open>What the sections do to a row\<close>

lemma update_entry_entries:
  "cs_entries (update_entry k f st) = (cs_entries st)(k := map_option f (cs_entries st k))"
  by (auto simp: update_entry_def fun_eq_iff split: option.split)

lemma update_entry_killed [simp]: "cs_killed (update_entry k f st) = cs_killed st"
  by (simp add: update_entry_def split: option.split)

lemma kill_entries [simp]: "cs_entries (kill c st) = cs_entries st"
  by (simp add: kill_def split: option.split)

lemma kill_killed [simp]: "set (cs_killed (kill c st)) = set (cs_killed st) \<union> set_option c"
  by (auto simp: kill_def split: option.split)

lemma rows_ok_kill [simp]: "rows_ok live (kill c st) = rows_ok live st"
  by (simp add: rows_ok_def)

lemma rows_ok_update:
  assumes "rows_ok live st"
    and "\<And>e. cs_entries st k = Some e \<Longrightarrow> e_key (f e) = e_key e \<and> lifecycle_ok n (f e)"
    and "cs_entries st k = None \<Longrightarrow> n = 0"
  shows "rows_ok (live(k := n)) (update_entry k f st)"
  using assms by (auto simp: rows_ok_def update_entry_entries split: if_splits)

lemma rows_ok_update_same:
  assumes "rows_ok live st"
    and "\<And>e. cs_entries st k = Some e \<Longrightarrow> lifecycle_ok (live k) e
           \<Longrightarrow> e_key (f e) = e_key e \<and> lifecycle_ok (live k) (f e)"
  shows "rows_ok live (update_entry k f st)"
proof -
  have "rows_ok (live(k := live k)) (update_entry k f st)"
  proof (rule rows_ok_update[OF assms(1)])
    fix e assume "cs_entries st k = Some e"
    moreover from this have "lifecycle_ok (live k) e"
      using assms(1) by (auto simp: rows_ok_def)
    ultimately show "e_key (f e) = e_key e \<and> lifecycle_ok (live k) (f e)"
      using assms(2) by blast
  next
    assume "cs_entries st k = None"
    then show "live k = 0" using assms(1) by (auto simp: rows_ok_def)
  qed
  then show ?thesis by simp
qed

lemma rows_okD: "rows_ok live st \<Longrightarrow> cs_entries st k = Some e \<Longrightarrow> lifecycle_ok (live k) e"
  by (auto simp: rows_ok_def)

lemma lifecycle_refresh: "lifecycle_ok n e \<Longrightarrow> lifecycle_ok n (refresh_liveness exited e)"
  by (auto simp: lifecycle_ok_def refresh_liveness_def split: Lifecycle.splits)

lemma refresh_frame [simp]:
  "e_key (refresh_liveness exited e) = e_key e" "e_child (refresh_liveness exited e) = e_child e"
  by (auto simp: refresh_liveness_def)

lemma unat_lease_up: "unat (w :: u32) = n \<Longrightarrow> n + 1 < 2 ^ 32 \<Longrightarrow> unat (w + 1) = n + 1"
  by (simp add: unat_word_ariths)

lemma rows_ok_reuse:
  assumes "rows_ok live st" "reuse exited now k st = (l, st')"
    "l = None \<or> live k + 1 < 2 ^ 32"
  shows "rows_ok (if l = None then live else live(k := live k + 1)) st'"
proof (cases "cs_entries st k")
  case None
  then show ?thesis using assms by (auto simp: reuse_def)
next
  case (Some e)
  let ?e = "refresh_liveness exited e"
  have st1: "rows_ok live (update_entry k (\<lambda>_. ?e) st)"
    using assms(1) Some by (intro rows_ok_update_same) (auto simp: lifecycle_refresh)
  show ?thesis
  proof (cases l)
    case None
    with st1 Some assms(2) show ?thesis by (auto simp: reuse_def Let_def split: if_splits option.splits)
  next
    case (Some _)
    with \<open>cs_entries st k = Some e\<close> assms(2)
    have "st' = update_entry k (\<lambda>e. e\<lparr>e_leases := e_leases e + 1, e_last_active := now\<rparr>)
                  (update_entry k (\<lambda>_. ?e) st)" "e_state ?e = L_Connected"
      by (auto simp: reuse_def Let_def split: if_splits option.splits)
    moreover have "lifecycle_ok (live k) ?e"
      using assms(1) \<open>cs_entries st k = Some e\<close> by (auto intro: lifecycle_refresh rows_okD)
    ultimately show ?thesis
      using st1 Some assms(3) \<open>cs_entries st k = Some e\<close>
      by (auto intro!: rows_ok_update simp: update_entry_entries lifecycle_ok_def unat_lease_up
               split: Lifecycle.splits)
  qed
qed

lemma rows_ok_begin:
  "rows_ok live st \<Longrightarrow> begin_spawn k st = Ok (p, st') \<Longrightarrow> rows_ok live st'"
  by (auto simp: begin_spawn_def Let_def lifecycle_ok_def intro!: rows_ok_update_same
           split: option.splits)

lemma rows_ok_mark_error: "rows_ok live st \<Longrightarrow> rows_ok live (mark_error k pid st)"
  unfolding mark_error_def
  by (rule rows_ok_update_same) (auto simp: lifecycle_ok_def)

lemma rows_ok_spawn_connection:
  "rows_ok live st \<Longrightarrow> spawn_connection sp k spec cmpt st = (res, st') \<Longrightarrow> rows_ok live st'"
  by (auto simp: spawn_connection_def rows_ok_mark_error split: SpawnResult.splits)

lemma rows_ok_install:
  assumes "rows_ok live st" "cs_entries st k \<noteq> None" "live k + 1 < 2 ^ 32"
  shows "rows_ok (live(k := live k + 1)) (snd (install now k s st))"
  unfolding install_def snd_conv using assms
  by (intro rows_ok_update) (auto dest: rows_okD simp: lifecycle_ok_def unat_lease_up)

lemma rows_ok_release:
  assumes ok: "rows_ok live st" and pos: "0 < live k"
  shows "rows_ok (live(k := live k - 1)) (release now k st)"
  unfolding release_def
proof (rule rows_ok_update[OF ok])
  fix e assume "cs_entries st k = Some e"
  then have "lifecycle_ok (live k) e" using ok by (rule rows_okD[rotated])
  then show "e_key (let e' = e\<lparr>e_leases := sat_sub (e_leases e) 1, e_last_active := now\<rparr> in
       if e_leases e' = 0 \<and> e_state e' = L_Connected then e'\<lparr>e_state := L_Draining\<rparr> else e') = e_key e
     \<and> lifecycle_ok (live k - 1)
         (let e' = e\<lparr>e_leases := sat_sub (e_leases e) 1, e_last_active := now\<rparr> in
          if e_leases e' = 0 \<and> e_state e' = L_Connected then e'\<lparr>e_state := L_Draining\<rparr> else e')"
    using pos by (auto simp: lifecycle_ok_def unat_sat_sub sat_sub_eq_0 Let_def split: Lifecycle.splits)
qed (use ok in \<open>auto simp: rows_ok_def\<close>)

lemma rows_ok_watch: "rows_ok live st \<Longrightarrow> rows_ok live (watch_closed k c st)"
  unfolding watch_closed_def
  by (rule rows_ok_update_same) (auto simp: lifecycle_ok_def)

lemma rows_ok_reap: "rows_ok live st \<Longrightarrow> rows_ok live (snd (reap_one k st))"
  by (auto simp: reap_one_def lifecycle_ok_def intro!: rows_ok_update_same split: option.splits)

lemma rows_ok_restart: "rows_ok live st \<Longrightarrow> rows_ok live (snd (restart k killed st))"
  by (auto simp: restart_def Let_def lifecycle_ok_def intro!: rows_ok_update_same
           split: option.splits sum.splits)

lemma rows_ok_register: "rows_ok live st \<Longrightarrow> rows_ok live (snd (register now spec cmpt st))"
  by (auto simp: register_def Let_def rows_ok_def lifecycle_ok_def split: option.splits)

lemma rows_ok_refresh:
  "rows_ok live st \<Longrightarrow> rows_ok live (update_entry k (refresh_liveness exited) st)"
  by (rule rows_ok_update_same) (auto simp: lifecycle_refresh)

lemmas rows_ok_sections = rows_ok_begin rows_ok_spawn_connection rows_ok_release rows_ok_watch
  rows_ok_reap rows_ok_restart rows_ok_register rows_ok_refresh

subsection \<open>What the sections do to the children\<close>

lemma entry_children_kill [simp]: "entry_children (kill c st) = entry_children st"
  by (simp add: entry_children_def fun_eq_iff)

lemma entry_children_update:
  "entry_children (update_entry k f st) = (entry_children st)
     (k := (case cs_entries st k of None \<Rightarrow> {} | Some e \<Rightarrow> set_option (e_child (f e))))"
  by (auto simp: entry_children_def update_entry_entries fun_eq_iff split: option.split)

lemma entry_children_update_same:
  "(\<And>e. cs_entries st k = Some e \<Longrightarrow> e_child (f e) = e_child e)
    \<Longrightarrow> entry_children (update_entry k f st) = entry_children st"
  by (auto simp: entry_children_update entry_children_def fun_eq_iff split: option.split)

definition same_children :: "ConnectionStore \<Rightarrow> ConnectionStore \<Rightarrow> bool" where
  "same_children st st' \<longleftrightarrow>
     entry_children st' = entry_children st \<and> set (cs_killed st') = set (cs_killed st)"

definition waiting :: "ConnectionStore \<Rightarrow> ConnectionKey \<Rightarrow> bool" where
  "waiting st k \<longleftrightarrow> (\<exists>e. cs_entries st k = Some e \<and> e_child e = None
     \<and> e_state e \<in> {L_Connecting, L_Error})"

lemma flight_ok_waiting:
  "flight_ok y \<longleftrightarrow> (\<forall>f. sys_flight y = Some f \<longrightarrow> waiting (sys_store y) (flight_key f))"
  by (auto simp: flight_ok_def waiting_def split: option.split)

lemma same_children_update:
  "(\<And>e. cs_entries st k = Some e \<Longrightarrow> e_child (f e) = e_child e)
    \<Longrightarrow> same_children st (update_entry k f st)"
  by (simp add: same_children_def entry_children_update_same)

lemma same_children_trans:
  "same_children a b \<Longrightarrow> same_children b c \<Longrightarrow> same_children a c"
  by (simp add: same_children_def)

lemma same_children_reuse: "reuse exited now k st = (l, st') \<Longrightarrow> same_children st st'"
  by (auto simp: reuse_def Let_def update_entry_entries intro: same_children_update
           intro!: same_children_trans[OF same_children_update same_children_update]
           split: option.splits if_splits) (simp add: same_children_def)

lemma same_children_quiet:
  "same_children st (release now k st)" "same_children st (watch_closed k c st)"
  "same_children st (update_entry k (refresh_liveness exited) st)"
  "same_children st (mark_error k pid st)"
  unfolding release_def watch_closed_def mark_error_def
  by (auto intro!: same_children_update simp: Let_def)

lemma same_children_register: "same_children st (snd (register now spec cmpt st))"
  by (auto simp: same_children_def register_def Let_def entry_children_def fun_eq_iff
           split: option.split)

lemma waiting_update:
  "(\<And>e. cs_entries st k = Some e \<Longrightarrow> e_child e = None \<Longrightarrow> e_state e \<in> {L_Connecting, L_Error}
      \<Longrightarrow> e_child (f e) = None \<and> e_state (f e) \<in> {L_Connecting, L_Error})
    \<Longrightarrow> waiting st j \<Longrightarrow> waiting (update_entry k f st) j"
  by (auto simp: waiting_def update_entry_entries)

lemma waiting_kill [simp]: "waiting (kill c st) = waiting st"
  by (simp add: waiting_def fun_eq_iff)

lemma waiting_quiet:
  "waiting st j \<Longrightarrow> waiting (release now k st) j"
  "waiting st j \<Longrightarrow> waiting (watch_closed k c st) j"
  "waiting st j \<Longrightarrow> waiting (update_entry k (refresh_liveness exited) st) j"
  unfolding release_def watch_closed_def
  by (auto elim!: waiting_update[rotated] simp: Let_def refresh_liveness_def)

lemma waiting_register: "waiting st j \<Longrightarrow> waiting (snd (register now spec cmpt st)) j"
  by (auto simp: waiting_def register_def Let_def split: option.split)

lemma waiting_reap: "waiting st j \<Longrightarrow> waiting (snd (reap_one k st)) j"
  by (auto simp: reap_one_def elim!: waiting_update[rotated] split: option.split)

lemma waiting_restart: "waiting st j \<Longrightarrow> waiting (snd (restart k killed st)) j"
  by (auto simp: restart_def Let_def elim!: waiting_update[rotated]
           split: option.split sum.split)

lemmas waiting_sections = waiting_quiet waiting_register waiting_reap waiting_restart

lemma owned_once_same:
  assumes "owned_once (slots y) S" "same_children (sys_store y) (sys_store y')"
    "flight_children (sys_flight y') = flight_children (sys_flight y)"
  shows "owned_once (slots y') S"
proof (rule owned_once_cong[OF assms(1)])
  fix s show "slots y' s = slots y s"
    using assms(2,3) by (cases s) (auto simp: same_children_def)
qed

text \<open>A section that takes the child of an entry and hands it to a kill.\<close>

lemma owned_once_take_kill:
  assumes "owned_once (slots y) S"
    "entry_children st' = (entry_children (sys_store y))(k := {})"
    "set (cs_killed st') = set (cs_killed (sys_store y)) \<union> entry_children (sys_store y) k"
  shows "owned_once (slots (y\<lparr>sys_store := st'\<rparr>)) S"
proof (rule owned_once_cong[OF owned_once_move[OF assms(1), of "In_entry k" Killed]])
  fix s show "slots (y\<lparr>sys_store := st'\<rparr>) s
    = ((slots y)(In_entry k := {}, Killed := slots y Killed \<union> slots y (In_entry k))) s"
    using assms(2,3) by (cases s) auto
qed simp

lemma owned_once_reap:
  "owned_once (slots y) S \<Longrightarrow> owned_once (slots (y\<lparr>sys_store := snd (reap_one k (sys_store y))\<rparr>)) S"
  by (auto simp: reap_one_def entry_children_update entry_children_def
           intro: owned_once_take_kill[where k = k] split: option.split)

lemma owned_once_restart:
  "owned_once (slots y) S
    \<Longrightarrow> owned_once (slots (y\<lparr>sys_store := snd (restart k killed (sys_store y))\<rparr>)) S"
  by (auto simp: restart_def Let_def entry_children_update entry_children_def
           intro: owned_once_take_kill[where k = k] split: option.split sum.split)

lemma begin_spawn_children:
  assumes "begin_spawn k st = Ok (p, st')"
  shows "set_option (ps_child p) = entry_children st k" "waiting st' k"
    "entry_children st' = (entry_children st)(k := {})" "cs_killed st' = cs_killed st"
  using assms
  by (auto simp: begin_spawn_def Let_def entry_children_update waiting_def update_entry_entries
           split: option.splits) (simp_all add: entry_children_def)

lemma spawn_fails_children:
  assumes "spawn_connection (\<lambda>_ _. r) k spec cmpt st = (Err e, st')"
  shows "entry_children st' = entry_children st"
    "set (cs_killed st') = set (cs_killed st) \<union> set_option (result_child r)"
  using assms same_children_quiet(4)
  by (auto simp: spawn_connection_def same_children_def split: SpawnResult.splits)

lemma install_children:
  assumes "waiting st k"
  shows "entry_children (snd (install now k s st)) = (entry_children st)(k := {sp_child s})"
    "cs_killed (snd (install now k s st)) = cs_killed st"
  using assms by (auto simp: install_def entry_children_update waiting_def)

lemma waiting_children: "waiting st k \<Longrightarrow> entry_children st k = {}"
  by (auto simp: waiting_def entry_children_def)

lemma owned_once_begin:
  assumes "owned_once (slots y) S" "sys_flight y = None" "begin_spawn k (sys_store y) = Ok (p, st')"
  shows "owned_once (slots (y\<lparr>sys_store := st', sys_flight := Some (FlightPending k p)\<rparr>)) S"
proof (rule owned_once_cong[OF owned_once_move[OF assms(1), of "In_entry k" In_flight]])
  fix s show "slots (y\<lparr>sys_store := st', sys_flight := Some (FlightPending k p)\<rparr>) s
    = ((slots y)(In_entry k := {}, In_flight := slots y In_flight \<union> slots y (In_entry k))) s"
    using assms(2) begin_spawn_children[OF assms(3)] by (cases s) auto
qed simp

lemma owned_once_kill_pending:
  assumes "owned_once (slots y) S" "sys_flight y = Some (FlightPending k p)"
  shows "owned_once (slots (y\<lparr>sys_store := kill (ps_child p) (sys_store y),
           sys_flight := Some (FlightPending k (p\<lparr>ps_child := None\<rparr>))\<rparr>)) S"
proof (rule owned_once_cong[OF owned_once_move[OF assms(1), of In_flight Killed]])
  fix s show "slots (y\<lparr>sys_store := kill (ps_child p) (sys_store y),
           sys_flight := Some (FlightPending k (p\<lparr>ps_child := None\<rparr>))\<rparr>) s
    = ((slots y)(In_flight := {}, Killed := slots y Killed \<union> slots y In_flight)) s"
    using assms(2) by (cases s) auto
qed simp

lemma owned_once_spawn_fails:
  assumes "owned_once (slots y) S" "sys_flight y = Some (FlightPending k p)" "ps_child p = None"
    "spawn_connection (\<lambda>_ _. r) k (ps_spec p) (ps_compat p) (sys_store y) = (Err e, st')"
    "set_option (result_child r) \<inter> S = {}"
  shows "owned_once (slots (y\<lparr>sys_store := st', sys_flight := None, sys_spawned := T\<rparr>))
           (S \<union> set_option (result_child r))"
proof (rule owned_once_cong[OF owned_once_fresh[OF assms(1,5), of Killed]])
  fix s show "slots (y\<lparr>sys_store := st', sys_flight := None, sys_spawned := T\<rparr>) s
    = ((slots y)(Killed := slots y Killed \<union> set_option (result_child r))) s"
    using assms(2,3) spawn_fails_children[OF assms(4)] by (cases s) auto
qed

lemma owned_once_spawns:
  assumes "owned_once (slots y) S" "sys_flight y = Some (FlightPending k p)" "ps_child p = None"
    "sp_child s \<notin> S"
  shows "owned_once (slots (y\<lparr>sys_flight := Some (FlightLaunched k s), sys_spawned := T\<rparr>))
           (insert (sp_child s) S)"
proof -
  have "owned_once ((slots y)(In_flight := slots y In_flight \<union> {sp_child s})) (S \<union> {sp_child s})"
    using assms(4) by (intro owned_once_fresh[OF assms(1)]) auto
  moreover have "slots (y\<lparr>sys_flight := Some (FlightLaunched k s), sys_spawned := T\<rparr>) x
      = ((slots y)(In_flight := slots y In_flight \<union> {sp_child s})) x" for x
    using assms(2,3) by (cases x) auto
  ultimately show ?thesis by (auto intro: owned_once_cong)
qed

lemma owned_once_install:
  assumes "owned_once (slots y) S" "sys_flight y = Some (FlightLaunched k s)" "waiting (sys_store y) k"
  shows "owned_once (slots (y\<lparr>sys_store := snd (install now k s (sys_store y)), sys_flight := None,
           sys_live := l\<rparr>)) S"
proof (rule owned_once_cong[OF owned_once_move[OF assms(1), of In_flight "In_entry k"]])
  fix x show "slots (y\<lparr>sys_store := snd (install now k s (sys_store y)), sys_flight := None,
           sys_live := l\<rparr>) x
    = ((slots y)(In_flight := {}, In_entry k := slots y (In_entry k) \<union> slots y In_flight)) x"
    using assms(2) install_children[OF assms(3)] waiting_children[OF assms(3)] by (cases x) auto
qed simp

lemmas owned_once_sections = owned_once_begin owned_once_kill_pending owned_once_spawn_fails
  owned_once_spawns owned_once_install owned_once_reap owned_once_restart

subsection \<open>The invariant\<close>

lemma sys_new_inv: "conn_inv (sys_new options)"
proof -
  have "slots (sys_new options) s = {}" for s
    by (cases s) (auto simp: sys_new_def store_new_def entry_children_def)
  then have "owned_once (slots (sys_new options)) {}" by (simp add: owned_once_def)
  then show ?thesis
    by (simp add: conn_inv_def sys_new_def store_new_def rows_ok_def flight_ok_def)
qed

lemma conn_step_inv: "conn_step y y' \<Longrightarrow> conn_inv y \<Longrightarrow> conn_inv y'"
proof (induction rule: conn_step.induct)
  case (step_reuse y exited now k lease st')
  then show ?case
    using rows_ok_reuse[of "sys_live y" "sys_store y" exited now k "Some lease" st']
    by (auto simp: conn_inv_def flight_ok_waiting same_children_reuse elim!: owned_once_same)
next
  case (step_no_reuse y exited now k st')
  then show ?case
    using rows_ok_reuse[of "sys_live y" "sys_store y" exited now k None st']
    by (auto simp: conn_inv_def flight_ok_waiting same_children_reuse elim!: owned_once_same)
next
  case (step_begin y k p st')
  then show ?case
    by (auto simp: conn_inv_def flight_ok_waiting owned_once_begin
             intro: rows_ok_begin begin_spawn_children)
next
  case (step_install y k s now)
  then have w: "waiting (sys_store y) k" by (auto simp: conn_inv_def flight_ok_waiting)
  with step_install show ?case
    by (auto simp: conn_inv_def flight_ok_waiting owned_once_install waiting_def
             intro!: rows_ok_install[simplified])
next
  case (step_release y k now)
  then show ?case
    by (auto simp: conn_inv_def flight_ok_waiting waiting_quiet same_children_quiet
             intro: rows_ok_release[simplified] elim!: owned_once_same)
qed (auto simp: conn_inv_def flight_ok_waiting
         same_children_quiet same_children_register
       intro: rows_ok_sections waiting_sections owned_once_sections
       elim: owned_once_same)

interpretation connections: transition_invariant
  "\<lambda>y. \<exists>options. y = sys_new options" conn_step conn_inv
  by unfold_locales (auto simp: sys_new_inv intro: conn_step_inv)

section \<open>Functional behaviour\<close>

definition reusable :: "(child \<Rightarrow> bool) \<Rightarrow> ConnEntry \<Rightarrow> bool" where
  "reusable exited e \<longleftrightarrow> e_state e = L_Connected \<and> e_connection e \<noteq> None
     \<and> \<not> (case e_child e of None \<Rightarrow> False | Some c \<Rightarrow> exited c)"

lemma update_entry_simps [simp]:
  "cs_options (update_entry k f st) = cs_options st"
  "cs_options (kill c st) = cs_options st"
  by (simp_all add: update_entry_def kill_def split: option.split)

lemma cs_killed_kill: "cs_killed (kill c st) = cs_killed st @ (case c of None \<Rightarrow> [] | Some c \<Rightarrow> [c])"
  by (simp add: kill_def split: option.split)

lemma update_entry_known:
  "cs_entries st k = Some e \<Longrightarrow> update_entry k f st = st\<lparr>cs_entries := (cs_entries st)(k \<mapsto> f e)\<rparr>"
  by (simp add: update_entry_def)

lemma reuse_known:
  assumes "cs_entries st k = Some e"
  shows "reusable exited e \<Longrightarrow> reuse exited now k st = (Some (k, the (e_connection e)),
      st\<lparr>cs_entries := (cs_entries st)(k \<mapsto> e\<lparr>e_leases := e_leases e + 1, e_last_active := now\<rparr>)\<rparr>)"
    and "\<not> reusable exited e \<Longrightarrow> reuse exited now k st =
      (None, st\<lparr>cs_entries := (cs_entries st)(k \<mapsto> refresh_liveness exited e)\<rparr>)"
  using assms
  by (auto simp: reuse_def reusable_def refresh_liveness_def update_entry_known Let_def
           split: option.splits)

text \<open>The row that \<open>begin_spawn\<close> leaves while the spawn is in flight.\<close>

definition spawning_row :: "ConnEntry \<Rightarrow> ConnEntry" where
  "spawning_row e = e\<lparr>e_spawn_count := e_spawn_count e + 1,
     e_restarts := (if e_spawn_count e + 1 > 1 then e_restarts e + 1 else e_restarts e),
     e_state := L_Connecting, e_child := None, e_connection := None\<rparr>"

lemma spawning_row_refresh [simp]: "spawning_row (refresh_liveness exited e) = spawning_row e"
  by (auto simp: spawning_row_def refresh_liveness_def)

lemma acquire_respawn:
  assumes "cs_entries st k = Some e" "\<not> reusable exited e"
  shows "acquire exited now sp k st =
     (case spawn_connection sp k (e_spec e) (e_compat e)
             (kill (e_child e) (st\<lparr>cs_entries := (cs_entries st)(k \<mapsto> spawning_row e)\<rparr>)) of
        (Inl er, st3) \<Rightarrow> (Err er, st3)
      | (Inr s, st3) \<Rightarrow> (case install now k s st3 of (lease, st4) \<Rightarrow> (Ok lease, st4)))"
proof -
  let ?e = "refresh_liveness exited e"
  let ?st = "st\<lparr>cs_entries := (cs_entries st)(k \<mapsto> ?e)\<rparr>"
  have "begin_spawn k ?st = Ok (\<lparr>ps_spec = e_spec ?e, ps_compat = e_compat ?e,
      ps_child = e_child ?e, ps_connection = e_connection ?e\<rparr>,
      st\<lparr>cs_entries := (cs_entries st)(k \<mapsto> spawning_row ?e)\<rparr>)"
    by (simp add: begin_spawn_def Let_def update_entry_def spawning_row_def)
  moreover have "e_spec ?e = e_spec e" "e_compat ?e = e_compat e"
    by (simp_all add: refresh_liveness_def)
  ultimately show ?thesis
    by (simp only: acquire_def reuse_known(2)[OF assms] prod.case option.case sum.case
        LaunchSpec.simps PendingSpawn.simps refresh_frame spawning_row_refresh)
qed

text \<open>
  The specification of \<open>acquire\<close> as one transition: which error or lease, which row, and
  which children are killed, in order.
\<close>

definition installed_row :: "nat \<Rightarrow> Spawned \<Rightarrow> ConnEntry \<Rightarrow> ConnEntry" where
  "installed_row now s e = (spawning_row e)\<lparr>e_state := L_Connected,
     e_child := Some (sp_child s), e_connection := Some (sp_connection s),
     e_pid := Some (sp_pid s), e_protocol := Some (sp_protocol s), e_info := Some (sp_info s),
     e_capabilities := Some (sp_capabilities s), e_leases := e_leases e + 1,
     e_last_active := now\<rparr>"

fun failed_row :: "SpawnResult \<Rightarrow> ConnEntry \<Rightarrow> ConnEntry" where
  "failed_row (PipesMissing c pid) e = (spawning_row e)\<lparr>e_state := L_Error, e_pid := Some pid\<rparr>"
| "failed_row (ConnectFails c pid m) e = (spawning_row e)\<lparr>e_state := L_Error, e_pid := Some pid\<rparr>"
| "failed_row _ e = (spawning_row e)\<lparr>e_state := L_Error\<rparr>"

fun spawn_error :: "SpawnResult \<Rightarrow> StoreError" where
  "spawn_error (ConnectFails c pid msg) = ConnectError msg"
| "spawn_error (PipesMissing c pid) = SpawnError ''child stdio pipes unavailable''"
| "spawn_error (SpawnFails msg) = SpawnError msg"
| "spawn_error (Spawns s) = SpawnError []"

definition list_of_option :: "'a option \<Rightarrow> 'a list" where
  "list_of_option x = (case x of None \<Rightarrow> [] | Some a \<Rightarrow> [a])"

definition acquire_spec ::
  "(child \<Rightarrow> bool) \<Rightarrow> nat \<Rightarrow> spawner \<Rightarrow> ConnectionKey \<Rightarrow> ConnectionStore
    \<Rightarrow> (StoreError + ConnectionLease) \<times> ConnectionStore" where
  "acquire_spec exited now spawner k st =
     (case cs_entries st k of
        None \<Rightarrow> (Err (UnknownProfile (ck_profile_id k)), st)
      | Some e \<Rightarrow>
          if reusable exited e
          then (Ok (k, the (e_connection e)), st\<lparr>cs_entries := (cs_entries st)
                  (k \<mapsto> e\<lparr>e_leases := e_leases e + 1, e_last_active := now\<rparr>)\<rparr>)
          else (case spawner (e_spec e) (connect_protocol (e_compat e) (cs_options st)) of
                  Spawns s \<Rightarrow>
                    (Ok (k, sp_connection s),
                     st\<lparr>cs_entries := (cs_entries st)(k \<mapsto> installed_row now s e),
                        cs_killed := cs_killed st @ list_of_option (e_child e)\<rparr>)
                | r \<Rightarrow>
                    (Err (spawn_error r),
                     st\<lparr>cs_entries := (cs_entries st)(k \<mapsto> failed_row r e),
                        cs_killed := cs_killed st @ list_of_option (e_child e)
                                       @ list_of_option (result_child r)\<rparr>)))"

lemma kill_list_of_option: "kill c st = st\<lparr>cs_killed := cs_killed st @ list_of_option c\<rparr>"
  by (simp add: kill_def list_of_option_def split: option.split)

text \<open>
  C6. \<^emph>\<open>What \<open>acquire\<close> does.\<close> An unregistered key is an error and changes nothing. A connected
  entry whose process is alive is shared: its lease count goes up and nothing is spawned or
  killed. Otherwise exactly the old child of the entry is killed, the registered
  specification is spawned with the preferred (or the default) protocol, and the result is
  installed with one more lease; a failed spawn kills the half-started child too and leaves
  the entry in the error state without child or connection. No other entry changes.
\<close>

theorem acquire_refines_spec: "acquire exited now sp k st = acquire_spec exited now sp k st"
proof (cases "cs_entries st k")
  case None
  then show ?thesis by (simp add: acquire_def reuse_def begin_spawn_def acquire_spec_def)
next
  case (Some e)
  show ?thesis
  proof (cases "reusable exited e")
    case True
    with Some show ?thesis by (simp add: acquire_def reuse_known acquire_spec_def)
  next
    case False
    then show ?thesis
      unfolding acquire_respawn[OF Some False] acquire_spec_def Some
      by (cases st; cases e)
         (auto simp: spawn_connection_def install_def mark_error_def kill_list_of_option
            update_entry_def installed_row_def list_of_option_def spawning_row_def
            split: SpawnResult.split)
  qed
qed

section \<open>Reaping and recovery\<close>

definition reaped_row :: "ConnEntry \<Rightarrow> ConnEntry" where
  "reaped_row e = e\<lparr>e_state := L_Terminated, e_child := None, e_connection := None\<rparr>"

definition draining :: "ConnectionStore \<Rightarrow> ConnectionKey \<Rightarrow> bool" where
  "draining st k \<longleftrightarrow> (case cs_entries st k of None \<Rightarrow> False
     | Some e \<Rightarrow> e_state e = L_Draining \<and> e_leases e = 0)"

definition expired :: "nat \<Rightarrow> ConnectionStore \<Rightarrow> ConnectionKey \<Rightarrow> bool" where
  "expired now st k \<longleftrightarrow> (case cs_entries st k of None \<Rightarrow> False
     | Some e \<Rightarrow> reap_candidate now (so_idle_grace (cs_options st)) e)"

lemma reap_one_eq:
  "reap_one k st = (draining st k,
     if draining st k
     then kill (e_child (the (cs_entries st k))) (update_entry k reaped_row st) else st)"
  by (auto simp: reap_one_def draining_def reaped_row_def[abs_def] split: option.split)

lemma reap_one_other: "j \<noteq> k \<Longrightarrow> cs_entries (snd (reap_one k st)) j = cs_entries st j"
  by (simp add: reap_one_eq update_entry_entries)

lemma reap_loop_draining:
  assumes "distinct ks" "\<And>k. k \<in> set ks \<Longrightarrow> draining st k"
  shows "fst (reap_loop ks st) = length ks
    \<and> cs_entries (snd (reap_loop ks st))
        = (\<lambda>k. if k \<in> set ks then map_option reaped_row (cs_entries st k) else cs_entries st k)
    \<and> cs_killed (snd (reap_loop ks st))
        = cs_killed st @ concat (map (\<lambda>k. list_of_option (e_child (the (cs_entries st k)))) ks)"
  using assms
proof (induction ks arbitrary: st)
  case (Cons k ks)
  let ?st = "snd (reap_one k st)"
  have hit: "reap_one k st = (True, ?st)" using Cons.prems(2) by (simp add: reap_one_eq)
  have other: "cs_entries ?st j = cs_entries st j" if "j \<in> set ks" for j
    using Cons.prems(1) that by (intro reap_one_other) auto
  have IH: "fst (reap_loop ks ?st) = length ks
    \<and> cs_entries (snd (reap_loop ks ?st))
        = (\<lambda>k. if k \<in> set ks then map_option reaped_row (cs_entries ?st k) else cs_entries ?st k)
    \<and> cs_killed (snd (reap_loop ks ?st))
        = cs_killed ?st @ concat (map (\<lambda>k. list_of_option (e_child (the (cs_entries ?st k)))) ks)"
    using Cons.prems other by (intro Cons.IH) (auto simp: draining_def)
  have k: "cs_entries ?st = (cs_entries st)(k := map_option reaped_row (cs_entries st k))"
    "cs_killed ?st = cs_killed st @ list_of_option (e_child (the (cs_entries st k)))"
    using Cons.prems(2)[of k] by (simp_all add: reap_one_eq update_entry_entries kill_list_of_option)
  show ?case
    using IH Cons.prems(1) other
    by (subst (1 2 3) reap_loop.simps, subst (1 2 3) hit)
       (auto simp: case_prod_beta k fun_eq_iff cong: map_cong)
qed simp

text \<open>
  \<^emph>\<open>The idle reaper.\<close> \<open>reap_idle\<close> terminates exactly the entries that have been draining
  without a lease for at least the idle grace: it returns their number, takes their child and
  connection, kills exactly those children, and leaves every other entry untouched.
\<close>

theorem reap_idle_exact:
  assumes "distinct order" "set order = dom (cs_entries st)"
  shows "let (n, st') = reap_idle now order st; hits = filter (expired now st) order in
    n = length hits
    \<and> (\<forall>k. cs_entries st' k =
         (if expired now st k then map_option reaped_row (cs_entries st k) else cs_entries st k))
    \<and> cs_killed st' = cs_killed st
         @ concat (map (\<lambda>k. list_of_option (e_child (the (cs_entries st k)))) hits)"
proof -
  let ?hits = "filter (expired now st) order"
  have "expired now st k \<Longrightarrow> draining st k" for k
    by (auto simp: expired_def draining_def reap_candidate_def split: option.splits)
  then have "fst (reap_loop ?hits st) = length ?hits
    \<and> cs_entries (snd (reap_loop ?hits st))
        = (\<lambda>k. if k \<in> set ?hits then map_option reaped_row (cs_entries st k) else cs_entries st k)
    \<and> cs_killed (snd (reap_loop ?hits st))
        = cs_killed st @ concat (map (\<lambda>k. list_of_option (e_child (the (cs_entries st k)))) ?hits)"
    using assms(1) by (intro reap_loop_draining) auto
  moreover have "k \<in> set order" if "expired now st k" for k
    using that assms(2) by (auto simp: expired_def split: option.splits)
  ultimately show ?thesis
    by (auto simp: reap_idle_def expired_def[abs_def] Let_def case_prod_beta)
qed

lemma acquire_none_connected:
  assumes "cs_entries st k = Some e" "e_connection e = None \<or> e_state e \<noteq> L_Connected"
  shows "acquire exited now sp k st =
     (case sp (e_spec e) (connect_protocol (e_compat e) (cs_options st)) of
        Spawns s \<Rightarrow> (Ok (k, sp_connection s),
          st\<lparr>cs_entries := (cs_entries st)(k \<mapsto> installed_row now s e),
             cs_killed := cs_killed st @ list_of_option (e_child e)\<rparr>)
      | r \<Rightarrow> (Err (spawn_error r),
          st\<lparr>cs_entries := (cs_entries st)(k \<mapsto> failed_row r e),
             cs_killed := cs_killed st @ list_of_option (e_child e) @ list_of_option (result_child r)\<rparr>))"
proof -
  have "\<not> reusable exited e" using assms(2) by (auto simp: reusable_def)
  then show ?thesis
    unfolding acquire_respawn[OF assms(1) \<open>\<not> reusable exited e\<close>]
    by (cases st; cases e)
       (auto simp: spawn_connection_def install_def mark_error_def kill_list_of_option
            update_entry_def installed_row_def list_of_option_def spawning_row_def
            split: SpawnResult.split)
qed

text \<open>What \<open>recover\<close> guarantees for each outcome.\<close>

fun recovery_effect ::
  "RecoveryOutcome \<Rightarrow> ConnectionKey \<Rightarrow> ConnectionStore \<Rightarrow> ConnectionStore \<Rightarrow> bool" where
  "recovery_effect RO_Cancelled k st st' \<longleftrightarrow> st' = st"
| "recovery_effect RO_SessionResumed k st st' \<longleftrightarrow> st' = st"
| "recovery_effect RO_ProcessRestarted k st st' \<longleftrightarrow>
     (\<exists>e e'. cs_entries st k = Some e \<and> cs_entries st' k = Some e'
        \<and> e_state e' \<in> {L_Connected, L_Draining} \<and> e_child e' \<noteq> None \<and> e_connection e' \<noteq> None
        \<and> e_spawn_count e' = e_spawn_count e + 1
        \<and> cs_killed st' = cs_killed st @ list_of_option (e_child e))"
| "recovery_effect RO_Interrupted k st st' \<longleftrightarrow>
     (\<exists>e e'. cs_entries st k = Some e \<and> cs_entries st' k = Some e'
        \<and> e_state e' = L_Error \<and> e_connection e' = None
        \<and> set (cs_killed st) \<union> set_option (e_child e) \<subseteq> set (cs_killed st'))"

lemma failed_row_simps [simp]:
  "e_state (failed_row r e) = L_Error" "e_connection (failed_row r e) = None"
  by (cases r; simp add: spawning_row_def)+

lemma acquire_or_interrupt_effect:
  assumes "cs_entries st k = Some e" "e_connection e = None"
    "acquire_or_interrupt exited now sp k st = (out, st')"
  shows "out \<in> {RO_ProcessRestarted, RO_Interrupted} \<and> recovery_effect out k st st'"
  using assms(3)
  by (auto simp: acquire_or_interrupt_def acquire_none_connected[OF assms(1) disjI1[OF assms(2)]]
        release_def update_entry_def assms(1) installed_row_def spawning_row_def Let_def
        list_of_option_def split: SpawnResult.splits option.splits)

lemma restart_known:
  assumes "cs_entries st k = Some e"
  shows "restart k killed st =
     ((case e_child e of None \<Rightarrow> Ok () | Some _ \<Rightarrow>
         (case killed of Inl msg \<Rightarrow> Err (SpawnError msg) | Inr _ \<Rightarrow> Ok ())),
      st\<lparr>cs_entries := (cs_entries st)(k \<mapsto> e\<lparr>e_state := L_Error, e_child := None,
             e_connection := None\<rparr>),
         cs_killed := cs_killed st @ list_of_option (e_child e)\<rparr>)"
  using assms by (simp add: restart_def Let_def update_entry_def kill_list_of_option list_of_option_def
    split: option.split sum.split)

text \<open>
  \<^emph>\<open>The recovery ladder.\<close> Recovering a registered agent never fails with an error. It is
  \<open>Cancelled\<close> or \<open>SessionResumed\<close> exactly when the live connection answered that request,
  and then the store is untouched; \<open>ProcessRestarted\<close> means the old child was killed and one
  new process was spawned and connected; \<open>Interrupted\<close> leaves the entry in the error state
  without a connection and its old child killed.
\<close>

theorem recover_ladder:
  assumes "cs_entries st k = Some e"
  shows "\<exists>out st'. recover exited now sp cancelled resumed killed k st = (Ok out, st')
    \<and> (out = RO_Cancelled \<longleftrightarrow> (\<exists>c. e_connection e = Some c \<and> cancelled c))
    \<and> (out = RO_SessionResumed \<longleftrightarrow> (\<exists>c. e_connection e = Some c \<and> \<not> cancelled c \<and> resumed c))
    \<and> recovery_effect out k st st'"
proof (cases "e_connection e")
  case None
  obtain out st' where a: "acquire_or_interrupt exited now sp k st = (out, st')" by fastforce
  then show ?thesis
    using acquire_or_interrupt_effect[OF assms None a] None assms
    by (auto simp: recover_def live_connection_def)
next
  case (Some c)
  obtain res st1 where rs: "restart k killed st = (res, st1)" by fastforce
  have r: "cs_entries st1 k = Some (e\<lparr>e_state := L_Error, e_child := None, e_connection := None\<rparr>)"
    "cs_killed st1 = cs_killed st @ list_of_option (e_child e)"
    using rs by (auto simp: restart_known[OF assms])
  obtain out st' where a: "acquire_or_interrupt exited now sp k st1 = (out, st')" by fastforce
  have eff: "out \<in> {RO_ProcessRestarted, RO_Interrupted}" "recovery_effect out k st1 st'"
    using acquire_or_interrupt_effect[OF r(1) _ a] by simp_all
  have "recovery_effect out k st st'"
    using eff r assms by (auto simp: list_of_option_def split: option.splits)
  moreover have "recovery_effect RO_Interrupted k st st1"
    using r assms by (auto simp: list_of_option_def split: option.splits)
  ultimately show ?thesis
    using Some assms a rs eff(1)
    by (cases res) (auto simp: recover_def live_connection_def simp del: recovery_effect.simps(3,4))
qed

text \<open>
  \<^emph>\<open>A released connection is not reused.\<close> When the last lease of a live connection is
  dropped the entry drains at once, and the next \<open>acquire\<close>, however soon and although the
  process is alive and within its idle grace, kills that process and spawns another one.
\<close>

theorem last_release_discards_process:
  assumes "cs_entries st k = Some e" "e_state e = L_Connected" "e_leases e = 1"
    "e_child e = Some c"
  shows "c \<in> set (cs_killed (snd (acquire exited now sp k (release t k st))))
    \<and> spawns k (snd (acquire exited now sp k (release t k st))) = e_spawn_count e + 1"
proof -
  let ?e = "e\<lparr>e_leases := 0, e_last_active := t, e_state := L_Draining\<rparr>"
  have st: "release t k st = st\<lparr>cs_entries := (cs_entries st)(k \<mapsto> ?e)\<rparr>"
    using assms(1-3) by (simp add: release_def update_entry_def sat_sub_def)
  have "cs_entries (release t k st) k = Some ?e" by (simp add: st)
  from acquire_none_connected[OF this, of exited now sp] show ?thesis
    using assms(4)
    by (auto simp: list_of_option_def spawns_def installed_row_def spawning_row_def
             split: SpawnResult.split elim: failed_row.elims)
qed

text \<open>
  \<^emph>\<open>A recovered process is not reused either.\<close> When nobody holds a lease, \<open>recover\<close> reports
  \<open>ProcessRestarted\<close> after spawning a process whose only lease it drops at once, so that the
  entry drains and the next \<open>acquire\<close> kills the process that recovery started.
\<close>

theorem recovered_process_discarded:
  assumes "cs_entries st k = Some e" "e_connection e = None" "e_leases e = 0"
    "sp (e_spec e) (connect_protocol (e_compat e) (cs_options st)) = Spawns s"
  shows "let (out, st') = recover exited now sp cancelled resumed killed k st in
    out = Ok RO_ProcessRestarted \<and> sp_child s \<in> set (cs_killed (snd (acquire exited' t sp' k st')))"
proof -
  let ?e = "(installed_row now s e)\<lparr>e_leases := 0, e_state := L_Draining\<rparr>"
  let ?st = "snd (acquire_or_interrupt exited now sp k st)"
  have a: "fst (acquire_or_interrupt exited now sp k st) = RO_ProcessRestarted"
    "cs_entries ?st k = Some ?e"
    using assms(3,4)
    by (simp_all add: acquire_or_interrupt_def acquire_none_connected[OF assms(1) disjI1[OF assms(2)]]
        release_def update_entry_def installed_row_def sat_sub_def)
  have "sp_child s \<in> set (cs_killed (snd (acquire exited' t sp' k ?st)))"
    using acquire_none_connected[OF a(2), of exited' t sp']
    by (auto simp: installed_row_def list_of_option_def split: SpawnResult.split)
  then show ?thesis
    using a(1) assms(1,2) by (simp add: recover_def live_connection_def case_prod_beta Let_def)
qed

text \<open>
  C4. \<^emph>\<open>No orphaned agent process.\<close> Whatever the interleaving of acquires, releases, reaping,
  restarts, liveness checks and close notifications, every child process ever spawned is in
  exactly one place: it is the current child of one entry, it is in the hands of the single
  in-flight spawn, or it has been handed to a kill. In particular no live child is dropped,
  shared by two entries, or killed while an entry still owns it.
\<close>

theorem children_owned_once:
  assumes "conn_step\<^sup>*\<^sup>* (sys_new options) y" "c \<in> sys_spawned y"
  shows "\<exists>!s. c \<in> slots y s"
proof -
  have "owned_once (slots y) (sys_spawned y)"
    using connections.reach_inv[OF _ assms(1)] by (auto simp: conn_inv_def)
  with assms(2) show ?thesis by (auto simp: owned_once_def)
qed

text \<open>
  C5. \<^emph>\<open>Lifecycle and leases agree.\<close> In every reachable system the lease counter of an entry
  is the number of leases not yet dropped; a connected entry has a child, a connection and a
  lease, a draining one a child, a connection and no lease; an entry that is connecting or
  terminated has neither child nor connection, one in error no connection.
\<close>

theorem lifecycle_agrees_with_leases:
  assumes "conn_step\<^sup>*\<^sup>* (sys_new options) y" "cs_entries (sys_store y) k = Some e"
  shows "e_key e = k \<and> lifecycle_ok (sys_live y k) e"
  using connections.reach_inv[OF _ assms(1)] assms(2) by (auto simp: conn_inv_def rows_ok_def)

section \<open>Witnesses\<close>

definition ex_spec :: LaunchSpec where "ex_spec = launch_new ''codex'' ''codex-acp''"
definition ex_compat :: AgentCompat where
  "ex_compat = \<lparr>preferred_protocol = None, projection_target = None\<rparr>"
definition ex_key :: ConnectionKey where
  "ex_key = \<lparr>ck_profile_id = ''codex'', ck_host = ''local''\<rparr>"
definition ex_spawned :: Spawned where
  "ex_spawned = \<lparr>sp_child = 7, sp_connection = 9, sp_pid = 42,
     sp_info = \<lparr>ai_name = ''codex'', ai_version = ''1'', ai_title = None\<rparr>,
     sp_capabilities = \<lparr>nc_load_session = False, nc_resume = True,
       nc_mcp = \<lparr>mt_stdio = True, mt_http = False, mt_sse = False\<rparr>,
       nc_prompt_embedded_context = False\<rparr>,
     sp_protocol = V1\<rparr>"
definition ex_options :: StoreOptions where "ex_options = options_new V1"

definition ex_registered :: ConnectionStore where
  "ex_registered = snd (register 0 ex_spec ex_compat (store_new ex_options))"
definition ex_spawning :: "PendingSpawn \<times> ConnectionStore" where
  "ex_spawning = projr (begin_spawn ex_key ex_registered)"
definition ex_connected :: ConnectionStore where
  "ex_connected = snd (install 5 ex_key ex_spawned (snd ex_spawning))"

lemmas ex_defs = ex_spec_def ex_compat_def ex_key_def ex_spawned_def ex_options_def
  ex_registered_def ex_spawning_def ex_connected_def launch_new_def options_new_def
  store_new_def register_def begin_spawn_def install_def update_entry_def Let_def

lemma ex_reachable:
  "conn_step\<^sup>*\<^sup>* (sys_new ex_options)
     \<lparr>sys_store = ex_connected, sys_flight = None, sys_spawned = {7},
      sys_live = (\<lambda>_. 0)(ex_key := 1)\<rparr>" (is "conn_step\<^sup>*\<^sup>* ?y0 ?y4")
proof -
  let ?y1 = "\<lparr>sys_store = ex_registered, sys_flight = None, sys_spawned = {}, sys_live = (\<lambda>_. 0)\<rparr>"
  let ?y2 = "\<lparr>sys_store = snd ex_spawning, sys_flight = Some (FlightPending ex_key (fst ex_spawning)),
     sys_spawned = {}, sys_live = (\<lambda>_. 0)\<rparr>"
  let ?y3 = "\<lparr>sys_store = snd ex_spawning, sys_flight = Some (FlightLaunched ex_key ex_spawned),
     sys_spawned = {7}, sys_live = (\<lambda>_. 0)\<rparr>"
  have "conn_step ?y0 ?y1"
    using step_register[of ?y0 0 ex_spec ex_compat] by (simp add: sys_new_def ex_registered_def)
  moreover have "begin_spawn ex_key ex_registered = Ok (fst ex_spawning, snd ex_spawning)"
    by (simp add: ex_defs)
  then have "conn_step ?y1 ?y2" using step_begin[of ?y1 ex_key] by simp
  moreover have "ps_child (fst ex_spawning) = None" by (simp add: ex_defs)
  then have "conn_step ?y2 ?y3"
    using step_spawns[of ?y2 ex_key "fst ex_spawning" ex_spawned] by (simp add: ex_spawned_def)
  moreover have "conn_step ?y3 ?y4"
    using step_install[of ?y3 ex_key ex_spawned 5] by (simp add: ex_connected_def)
  ultimately show ?thesis
    by (meson converse_rtranclp_into_rtranclp rtranclp.rtrancl_refl)
qed

theorem children_owned_once_witness:
  "\<exists>!s. (7::nat) \<in> slots \<lparr>sys_store = ex_connected, sys_flight = None, sys_spawned = {7},
      sys_live = (\<lambda>_. 0)(ex_key := 1)\<rparr> s"
  using children_owned_once[OF ex_reachable, of 7] by simp

theorem lifecycle_agrees_with_leases_witness:
  "lifecycle_ok 1 (the (cs_entries ex_connected ex_key))"
proof -
  have e: "cs_entries ex_connected ex_key = Some (the (cs_entries ex_connected ex_key))"
    by (simp add: ex_defs)
  show ?thesis using lifecycle_agrees_with_leases[OF ex_reachable, of ex_key] e by simp
qed

theorem reap_idle_exact_witness:
  "fst (reap_idle 40000 [ex_key] (release 6000 ex_key ex_connected)) = 1"
proof -
  have "set [ex_key] = dom (cs_entries (release 6000 ex_key ex_connected))"
    by (auto simp: ex_defs release_def split: if_splits)
  from reap_idle_exact[OF _ this, of 40000] show ?thesis
    by (simp add: Let_def case_prod_beta)
       (simp add: ex_defs release_def sat_sub_def expired_def reap_candidate_def)
qed

theorem recover_ladder_witness:
  "\<exists>st'. recover (\<lambda>_. False) 9 (\<lambda>_ _. Spawns ex_spawned) (\<lambda>_. False) (\<lambda>c. c = 9) (Ok ()) ex_key ex_connected
     = (Ok RO_SessionResumed, st')"
proof -
  have e: "cs_entries ex_connected ex_key = Some (the (cs_entries ex_connected ex_key))"
    "e_connection (the (cs_entries ex_connected ex_key)) = Some 9"
    by (simp_all add: ex_defs)
  show ?thesis
    using recover_ladder[OF e(1), of "\<lambda>_. False" 9 "\<lambda>_ _. Spawns ex_spawned" "\<lambda>_. False"
        "\<lambda>c. c = 9" "Ok ()"] e(2) by auto
qed

theorem last_release_discards_process_witness:
  "7 \<in> set (cs_killed (snd (acquire (\<lambda>_. False) 11 (\<lambda>_ _. Spawns ex_spawned) ex_key
      (release 10 ex_key ex_connected))))"
  by (rule conjunct1[OF last_release_discards_process[where e = "the (cs_entries ex_connected ex_key)"]])
     (simp_all add: ex_defs)

theorem recovered_process_discarded_witness:
  "let (out, st') = recover (\<lambda>_. False) 9 (\<lambda>_ _. Spawns ex_spawned) (\<lambda>_. False) (\<lambda>_. False) (Ok ())
      ex_key ex_registered in
   out = Ok RO_ProcessRestarted
   \<and> sp_child ex_spawned \<in> set (cs_killed (snd (acquire (\<lambda>_. False) 10 (\<lambda>_ _. Spawns ex_spawned) ex_key st')))"
  by (rule recovered_process_discarded[where e = "the (cs_entries ex_registered ex_key)"])
     (simp_all add: ex_defs)

end
