(* ===== verification/Sync_Registry.thy ===== *)
theory Sync_Registry
  imports Sync_Schema Rust_Text
begin

text \<open>
  The canonical MCP registry and its session handoff: \<^verbatim>\<open>registry.rs\<close>, \<^verbatim>\<open>session.rs\<close>,
  \<^verbatim>\<open>secrets.rs\<close> and \<^verbatim>\<open>attachments.rs\<close> of \<^verbatim>\<open>crates/tethys-sync/src\<close>. Reading a file and parsing
  its JSON (serde) are arguments: a function from paths to the read result, and one from text
  to a registry file. The theorems say which entries a session or a provider sees, that
  secret resolution is all-or-nothing, and that the attachment grid tells the truth about the
  session handoff.
\<close>

section \<open>Errors\<close>

datatype SyncError =
  RegistryError string
| ParseError string string
| UnsupportedError string
| UnsupportedSource string
| StalePlan string
| ConflictError string
| MissingSecrets "string list"
| SecretStoreError string
| UnsafeArchive string
| SyncGitError string
| GitMissing
| NetworkError string
| SkillNotFound string
| NotFoundError string
| IoError string
| JsonError string
| StoreFailure string

fun join_comma :: "string list \<Rightarrow> string" where
  "join_comma [] = []"
| "join_comma [x] = x"
| "join_comma (x # xs) = x @ '', '' @ join_comma xs"

fun sync_error_text :: "SyncError \<Rightarrow> string" where
  "sync_error_text (RegistryError m) = ''invalid registry: '' @ m"
| "sync_error_text (ParseError path m) = ''invalid config '' @ path @ '': '' @ m"
| "sync_error_text (UnsupportedError m) = ''unsupported: '' @ m"
| "sync_error_text (UnsupportedSource m) = ''unsupported source: '' @ m"
| "sync_error_text (StalePlan path) = ''stale plan for '' @ path @ '': the file changed after the plan was created''"
| "sync_error_text (ConflictError m) = ''conflict: '' @ m"
| "sync_error_text (MissingSecrets refs) = ''missing secret reference(s): '' @ join_comma refs"
| "sync_error_text (SecretStoreError m) = ''secret store: '' @ m"
| "sync_error_text (UnsafeArchive m) = ''archive rejected: '' @ m"
| "sync_error_text (SyncGitError m) = ''git: '' @ m"
| "sync_error_text GitMissing = ''git binary not found''"
| "sync_error_text (NetworkError m) = ''network: '' @ m"
| "sync_error_text (SkillNotFound n) = ''skill not found: '' @ n"
| "sync_error_text (NotFoundError m) = ''not found: '' @ m"
| "sync_error_text (IoError m) = ''I/O error: '' @ m"
| "sync_error_text (JsonError m) = ''json error: '' @ m"
| "sync_error_text (StoreFailure m) = ''store error: '' @ m"

section \<open>The registry\<close>

definition REGISTRY_VERSION :: nat where "REGISTRY_VERSION = 2"

record RegistryFile =
  rf_version :: nat
  rf_servers :: "(string, RegistryEntry) btree"

definition registry_default :: RegistryFile where
  "registry_default = \<lparr>rf_version = REGISTRY_VERSION, rf_servers = []\<rparr>"

text \<open>\<open>Err None\<close> is \<open>ErrorKind::NotFound\<close>.\<close>

type_synonym reader = "string \<Rightarrow> string option + string"
type_synonym registry_parser = "string \<Rightarrow> string + RegistryFile"

definition read_registry ::
  "reader \<Rightarrow> registry_parser \<Rightarrow> string \<Rightarrow> SyncError + RegistryFile option" where
  "read_registry fs from_str path =
     (case fs path of
        Inr text \<Rightarrow>
          if blank text then Ok (Some registry_default)
          else (case from_str text of
                  Inr file \<Rightarrow> Ok (Some file)
                | Inl message \<Rightarrow> Err (ParseError path message))
      | Inl None \<Rightarrow> Ok None
      | Inl (Some message) \<Rightarrow> Err (IoError message))"

definition load_or_default ::
  "reader \<Rightarrow> registry_parser \<Rightarrow> string option \<Rightarrow> SyncError + RegistryFile" where
  "load_or_default fs from_str path =
     (case path of
        None \<Rightarrow> Ok registry_default
      | Some path \<Rightarrow>
          (case read_registry fs from_str path of
             Inl e \<Rightarrow> Err e
           | Inr None \<Rightarrow> Ok registry_default
           | Inr (Some file) \<Rightarrow> Ok file))"

record Registry =
  reg_global :: RegistryFile
  reg_workspace :: RegistryFile

definition registry_load ::
  "reader \<Rightarrow> registry_parser \<Rightarrow> string option \<Rightarrow> string option \<Rightarrow> SyncError + Registry" where
  "registry_load fs from_str global workspace =
     (case load_or_default fs from_str global of
        Inl e \<Rightarrow> Err e
      | Inr g \<Rightarrow>
          (case load_or_default fs from_str workspace of
             Inl e \<Rightarrow> Err e
           | Inr w \<Rightarrow> Ok \<lparr>reg_global = g, reg_workspace = w\<rparr>))"

definition merged_entries :: "Registry \<Rightarrow> (string, RegistryEntry) btree" where
  "merged_entries reg = bt_extend (rf_servers (reg_global reg)) (rf_servers (reg_workspace reg))"

definition effective ::
  "Registry \<Rightarrow> TargetId \<Rightarrow> string set \<Rightarrow> (string \<times> RegistryEntry) list" where
  "effective reg target disabled =
     filter (\<lambda>(name, entry). em_enabled (re_meta entry) \<and> allows (re_meta entry) target
               \<and> name \<notin> disabled) (merged_entries reg)"

definition effective_for_provider ::
  "Registry \<Rightarrow> string option \<Rightarrow> string set \<Rightarrow> (string \<times> RegistryEntry) list" where
  "effective_for_provider reg provider_id disabled =
     filter (\<lambda>(name, entry).
       (let allowed = (case provider_id of Some pid \<Rightarrow> allows_provider (re_meta entry) pid
                       | None \<Rightarrow> True) in
        em_enabled (re_meta entry) \<and> allowed \<and> name \<notin> disabled)) (merged_entries reg)"

definition merged :: "Registry \<Rightarrow> (string, Scope \<times> RegistryEntry) btree" where
  "merged reg =
     bt_extend (bt_of_list (map (\<lambda>(n, e). (n, (Global, e))) (rf_servers (reg_global reg))))
       (map (\<lambda>(n, e). (n, (Workspace, e))) (rf_servers (reg_workspace reg)))"

section \<open>Secrets\<close>

definition SECRET_REF_PREFIX :: string where "SECRET_REF_PREFIX = ''keychain:tethys/''"

definition parse_secret_ref :: "string \<Rightarrow> string option" where
  "parse_secret_ref reference =
     (case strip_prefix SECRET_REF_PREFIX reference of
        None \<Rightarrow> None | Some account \<Rightarrow> if account = [] then None else Some account)"

text \<open>\<open>MemorySecrets\<close>; the keychain store is the platform's and enters as \<open>store.get\<close>.\<close>

type_synonym MemorySecrets = "(string, string) btree"

definition memory_get :: "MemorySecrets \<Rightarrow> string \<Rightarrow> SyncError + string option" where
  "memory_get m account = Ok (map_of m account)"

definition memory_set :: "MemorySecrets \<Rightarrow> string \<Rightarrow> string \<Rightarrow> MemorySecrets" where
  "memory_set m account v = bt_insert account v m"

definition memory_delete :: "MemorySecrets \<Rightarrow> string \<Rightarrow> MemorySecrets" where
  "memory_delete m account = bt_remove account m"

section \<open>Session handoff\<close>

definition transport_supported :: "McpTransports \<Rightarrow> TransportKind \<Rightarrow> bool" where
  "transport_supported ts k =
     (case k of Stdio \<Rightarrow> mt_stdio ts | Http \<Rightarrow> mt_http ts | Sse \<Rightarrow> mt_sse ts)"

definition session_server :: "string \<times> RegistryEntry \<Rightarrow> SessionServer" where
  "session_server ne =
     \<lparr>ss_name = fst ne, ss_transport = re_transport (snd ne), ss_command = re_command (snd ne),
      ss_args = re_args (snd ne), ss_env = re_env (snd ne), ss_url = re_url (snd ne),
      ss_headers = re_headers (snd ne)\<rparr>"

definition session_servers ::
  "(string \<times> RegistryEntry) list \<Rightarrow> McpTransports \<Rightarrow> SessionServer list" where
  "session_servers entries transports =
     map session_server (filter (\<lambda>(_, entry). transport_supported transports (re_transport entry)) entries)"

type_synonym secret_get = "string \<Rightarrow> SyncError + string option"

text \<open>The loop over the values of one map: the values, and the missing references so far.\<close>

fun resolve_values ::
  "secret_get \<Rightarrow> (string, RegistryValue) btree \<Rightarrow> string list
    \<Rightarrow> SyncError + ((string, RegistryValue) btree \<times> string list)" where
  "resolve_values get [] missing = Ok ([], missing)"
| "resolve_values get ((k, Plain v) # kvs) missing =
     (case resolve_values get kvs missing of
        Inl e \<Rightarrow> Err e | Inr (rest, m) \<Rightarrow> Ok ((k, Plain v) # rest, m))"
| "resolve_values get ((k, Secret r) # kvs) missing =
     (case parse_secret_ref r of
        None \<Rightarrow>
          (case resolve_values get kvs (missing @ [r]) of
             Inl e \<Rightarrow> Err e | Inr (rest, m) \<Rightarrow> Ok ((k, Secret r) # rest, m))
      | Some account \<Rightarrow>
          (case get account of
             Inl e \<Rightarrow> Err e
           | Inr (Some secret) \<Rightarrow>
               (case resolve_values get kvs missing of
                  Inl e \<Rightarrow> Err e | Inr (rest, m) \<Rightarrow> Ok ((k, Plain secret) # rest, m))
           | Inr None \<Rightarrow>
               (case resolve_values get kvs (missing @ [r]) of
                  Inl e \<Rightarrow> Err e | Inr (rest, m) \<Rightarrow> Ok ((k, Secret r) # rest, m))))"

fun resolve_loop ::
  "secret_get \<Rightarrow> SessionServer list \<Rightarrow> string list \<Rightarrow> SyncError + (SessionServer list \<times> string list)" where
  "resolve_loop get [] missing = Ok ([], missing)"
| "resolve_loop get (s # servers) missing =
     (case resolve_values get (ss_env s) missing of
        Inl e \<Rightarrow> Err e
      | Inr (env, m1) \<Rightarrow>
          (case resolve_values get (ss_headers s) m1 of
             Inl e \<Rightarrow> Err e
           | Inr (headers, m2) \<Rightarrow>
               (case resolve_loop get servers m2 of
                  Inl e \<Rightarrow> Err e
                | Inr (rest, m3) \<Rightarrow> Ok (s\<lparr>ss_env := env, ss_headers := headers\<rparr> # rest, m3))))"

definition resolve_secrets ::
  "secret_get \<Rightarrow> SessionServer list \<Rightarrow> SyncError + SessionServer list" where
  "resolve_secrets get servers =
     (case resolve_loop get servers [] of
        Inl e \<Rightarrow> Err e
      | Inr (resolved, missing) \<Rightarrow>
          if missing = [] then Ok resolved else Err (MissingSecrets missing))"

definition registry_path :: "string \<Rightarrow> string" where
  "registry_path root = root @ ''/.tethys/mcp.json''"

definition spawn_servers_for_provider ::
  "reader \<Rightarrow> registry_parser \<Rightarrow> secret_get \<Rightarrow> string \<Rightarrow> string \<Rightarrow> string option \<Rightarrow> string set
    \<Rightarrow> McpTransports \<Rightarrow> SyncError + SessionServer list" where
  "spawn_servers_for_provider fs from_str get home root provider_id disabled transports =
     (case registry_load fs from_str (Some (registry_path home)) (Some (registry_path root)) of
        Inl e \<Rightarrow> Err e
      | Inr reg \<Rightarrow>
          resolve_secrets get
            (session_servers (effective_for_provider reg provider_id disabled) transports))"

section \<open>Attachment grid\<close>

record ProviderInput =
  pi_id :: string
  pi_name :: string
  pi_connected :: bool
  pi_capabilities :: "NormalizedCapabilities option"
  pi_projection_target :: "ProjectionTarget option"
  pi_projection_states :: "string \<rightharpoonup> EntryState"

definition cell_state :: "string \<Rightarrow> RegistryEntry \<Rightarrow> ProviderInput \<Rightarrow> AttachmentState" where
  "cell_state server_name server provider =
     (if \<not> allows_provider (re_meta server) (pi_id provider) then Excluded
      else case pi_capabilities provider of
        None \<Rightarrow> NotNegotiated
      | Some caps \<Rightarrow>
          if \<not> pi_connected provider then NotNegotiated
          else
            (let mcp = nc_mcp caps in
             if \<not> (mt_stdio mcp \<or> mt_http mcp \<or> mt_sse mcp)
             then (case pi_projection_target provider of
                     Some target \<Rightarrow> FileProjection target
                       (case pi_projection_states provider server_name of
                          None \<Rightarrow> Pending | Some s \<Rightarrow> s)
                   | None \<Rightarrow> UnsupportedTransport (re_transport server))
             else if transport_supported mcp (re_transport server) then Attached
             else UnsupportedTransport (re_transport server)))"

definition compute_attachment_grid ::
  "(string \<times> RegistryEntry \<times> Scope) list \<Rightarrow> ProviderInput list \<Rightarrow> AttachmentGrid" where
  "compute_attachment_grid servers providers =
     \<lparr>grid_servers = map (\<lambda>(n, e, s). \<lparr>sr_name = n, sr_transport = re_transport e, sr_scope = s\<rparr>) servers,
      grid_providers = map (\<lambda>p. \<lparr>pc_id = pi_id p, pc_name = pi_name p, pc_connected = pi_connected p,
        pc_target = pi_projection_target p\<rparr>) providers,
      grid_cells = concat (map (\<lambda>(n, e, s). map (\<lambda>p.
        \<lparr>cell_server_name = n, cell_provider_id = pi_id p, cell_status = cell_state n e p\<rparr>) providers) servers)\<rparr>"

section \<open>Properties\<close>

lemma bt_wf_merged_entries [wf_intros]: "bt_wf (rf_servers (reg_global reg)) \<Longrightarrow> bt_wf (merged_entries reg)"
  by (simp add: merged_entries_def bt_wf_extend)

lemma map_of_merged_entries:
  assumes "bt_wf (rf_servers (reg_global reg))" "bt_wf (rf_servers (reg_workspace reg))"
  shows "map_of (merged_entries reg) name =
    (case map_of (rf_servers (reg_workspace reg)) name of
       Some e \<Rightarrow> Some e | None \<Rightarrow> map_of (rf_servers (reg_global reg)) name)"
  using assms by (simp add: merged_entries_def map_of_bt_extend map_of_rev_wf map_add_def)

text \<open>
  \<^emph>\<open>What a target and a provider see.\<close> The entry visible under a name is the workspace's if
  the workspace defines the name, else the global one, and it is visible exactly if it is
  enabled, admits the target (or provider) and is not disabled for the workspace: a disabled or
  excluding workspace entry hides a global one of the same name. The result is sorted by name.
\<close>

theorem effective_visibility:
  assumes "bt_wf (rf_servers (reg_global reg))" "bt_wf (rf_servers (reg_workspace reg))"
  shows "let winner = (case map_of (rf_servers (reg_workspace reg)) name of
           Some e \<Rightarrow> Some e | None \<Rightarrow> map_of (rf_servers (reg_global reg)) name) in
    bt_wf (effective reg target disabled) \<and> bt_wf (effective_for_provider reg (Some p) disabled)
    \<and> map_of (effective reg target disabled) name =
        (case winner of None \<Rightarrow> None
         | Some e \<Rightarrow> if em_enabled (re_meta e) \<and> allows (re_meta e) target \<and> name \<notin> disabled
             then Some e else None)
    \<and> map_of (effective_for_provider reg (Some p) disabled) name =
        (case winner of None \<Rightarrow> None
         | Some e \<Rightarrow> if em_enabled (re_meta e) \<and> allows_provider (re_meta e) p \<and> name \<notin> disabled
             then Some e else None)"
  using bt_wf_merged_entries[OF assms(1)] map_of_merged_entries[OF assms, of name]
  by (simp add: effective_def effective_for_provider_def map_of_filter_wf bt_wf_filter Let_def)

theorem effective_visibility_witness:
  "let e = \<lparr>re_transport = Stdio, re_command = Some ''g'', re_args = [], re_env = [], re_url = None,
             re_headers = [], re_meta = default_meta\<rparr>;
       off = e\<lparr>re_meta := default_meta\<lparr>em_enabled := False\<rparr>\<rparr>;
       reg = \<lparr>reg_global = \<lparr>rf_version = 2, rf_servers = [(''a'', e)]\<rparr>,
              reg_workspace = \<lparr>rf_version = 2, rf_servers = [(''a'', off)]\<rparr>\<rparr> in
   map_of (effective reg T_Codex {}) ''a'' = None"
proof -
  let ?e = "\<lparr>re_transport = Stdio, re_command = Some ''g'', re_args = [], re_env = [], re_url = None,
             re_headers = [], re_meta = default_meta\<rparr>"
  let ?reg = "\<lparr>reg_global = \<lparr>rf_version = 2, rf_servers = [(''a'', ?e)]\<rparr>,
              reg_workspace = \<lparr>rf_version = 2,
                rf_servers = [(''a'', ?e\<lparr>re_meta := default_meta\<lparr>em_enabled := False\<rparr>\<rparr>)]\<rparr>\<rparr>"
  show ?thesis
    using effective_visibility[of ?reg "''a''" T_Codex "{}" "''x''"] by (simp add: bt_wf_Cons Let_def)
qed

subsection \<open>Secrets\<close>

fun value_refs :: "(string, RegistryValue) btree \<Rightarrow> string list" where
  "value_refs [] = []"
| "value_refs ((k, Plain v) # kvs) = value_refs kvs"
| "value_refs ((k, Secret r) # kvs) = r # value_refs kvs"

definition server_refs :: "SessionServer \<Rightarrow> string list" where
  "server_refs s = value_refs (ss_env s) @ value_refs (ss_headers s)"

text \<open>The value of a reference in a store that answers: \<open>None\<close> when it cannot be resolved.\<close>

definition lookup_ref :: "(string \<rightharpoonup> string) \<Rightarrow> string \<Rightarrow> string option" where
  "lookup_ref keychain r = (case parse_secret_ref r of None \<Rightarrow> None | Some a \<Rightarrow> keychain a)"

fun plain_value :: "(string \<rightharpoonup> string) \<Rightarrow> RegistryValue \<Rightarrow> RegistryValue" where
  "plain_value keychain (Plain v) = Plain v"
| "plain_value keychain (Secret r) =
     (case lookup_ref keychain r of None \<Rightarrow> Secret r | Some s \<Rightarrow> Plain s)"

definition plain_server :: "(string \<rightharpoonup> string) \<Rightarrow> SessionServer \<Rightarrow> SessionServer" where
  "plain_server keychain s =
     s\<lparr>ss_env := map (\<lambda>(k, v). (k, plain_value keychain v)) (ss_env s),
       ss_headers := map (\<lambda>(k, v). (k, plain_value keychain v)) (ss_headers s)\<rparr>"

lemma resolve_values_eq:
  assumes "\<And>a. get a = Ok (keychain a)"
  shows "resolve_values get kvs missing =
    Ok (map (\<lambda>(k, v). (k, plain_value keychain v)) kvs,
        missing @ filter (\<lambda>r. lookup_ref keychain r = None) (value_refs kvs))"
proof (induction kvs arbitrary: missing)
  case (Cons kv kvs)
  obtain k v where kv: "kv = (k, v)" by fastforce
  show ?case
  proof (cases v)
    case (Secret r)
    then show ?thesis
      using kv Cons.IH
      by (cases "parse_secret_ref r"; cases "keychain (the (parse_secret_ref r))")
         (simp_all add: assms lookup_ref_def)
  qed (simp add: kv Cons.IH)
qed simp

lemma resolve_loop_eq:
  assumes "\<And>a. get a = Ok (keychain a)"
  shows "resolve_loop get servers missing =
    Ok (map (plain_server keychain) servers,
        missing @ filter (\<lambda>r. lookup_ref keychain r = None) (concat (map server_refs servers)))"
  by (induction servers arbitrary: missing)
     (simp_all add: resolve_values_eq[OF assms] plain_server_def server_refs_def)

lemma no_secrets_left:
  "(\<And>r. r \<in> set (value_refs kvs) \<Longrightarrow> lookup_ref keychain r \<noteq> None)
    \<Longrightarrow> value_refs (map (\<lambda>(k, v). (k, plain_value keychain v)) kvs) = []"
  by (induction kvs rule: value_refs.induct) (auto split: option.splits)

text \<open>
  \<^emph>\<open>Secret resolution is all or nothing.\<close> With a keychain that answers, resolution fails
  with exactly the list of references it cannot resolve, in the order of the servers, their
  environment and their headers; when there is none, every server keeps its place, name and
  plain values, every reference is replaced by its secret and no reference is left.
\<close>

theorem resolve_secrets_all_or_nothing:
  assumes "\<And>a. get a = Ok (keychain a)"
  shows "let missing = filter (\<lambda>r. lookup_ref keychain r = None) (concat (map server_refs servers)) in
    resolve_secrets get servers =
      (if missing = [] then Ok (map (plain_server keychain) servers) else Err (MissingSecrets missing))
    \<and> (missing = [] \<longrightarrow> concat (map server_refs (map (plain_server keychain) servers)) = [])"
proof -
  let ?missing = "filter (\<lambda>r. lookup_ref keychain r = None) (concat (map server_refs servers))"
  have "server_refs (plain_server keychain s) = []" if "?missing = []" "s \<in> set servers" for s
  proof -
    have "lookup_ref keychain r \<noteq> None" if "r \<in> set (server_refs s)" for r
      using that \<open>?missing = []\<close> \<open>s \<in> set servers\<close> by (auto simp: filter_empty_conv)
    then show ?thesis by (simp add: server_refs_def plain_server_def no_secrets_left)
  qed
  then show ?thesis by (auto simp: resolve_secrets_def resolve_loop_eq[OF assms] Let_def)
qed

definition ex_server :: SessionServer where
  "ex_server = \<lparr>ss_name = ''s'', ss_transport = Stdio, ss_command = Some ''c'', ss_args = [],
     ss_env = [(''A'', Plain ''1''), (''K'', Secret ''keychain:tethys/gh'')], ss_url = None,
     ss_headers = [(''H'', Secret ''no-prefix'')]\<rparr>"

theorem resolve_secrets_all_or_nothing_witness:
  "resolve_secrets (memory_get [(''gh'', ''tok'')]) [ex_server] = Err (MissingSecrets [''no-prefix''])"
  using resolve_secrets_all_or_nothing[of "memory_get [(''gh'', ''tok'')]" "map_of [(''gh'', ''tok'')]" "[ex_server]"]
  by (simp add: memory_get_def ex_server_def server_refs_def lookup_ref_def parse_secret_ref_def
      SECRET_REF_PREFIX_def strip_prefix_def)

interpretation secrets: keyed_store
  "\<lambda>m a. map_option (Pair a) (map_of m a)" "\<lambda>m (a, v). memory_set m a v" fst bt_wf
  by unfold_locales (auto simp: memory_set_def map_of_bt_insert fun_eq_iff intro: bt_wf_insert)

subsection \<open>The attachment grid\<close>

lemma session_names:
  "name \<in> ss_name ` set (session_servers (effective_for_provider reg (Some pid) disabled) ts) \<longleftrightarrow>
     (\<exists>e. (name, e) \<in> set (merged_entries reg) \<and> em_enabled (re_meta e)
        \<and> allows_provider (re_meta e) pid \<and> name \<notin> disabled \<and> transport_supported ts (re_transport e))"
proof -
  have "ss_name ` set (session_servers es ts)
      = {n. \<exists>e. (n, e) \<in> set es \<and> transport_supported ts (re_transport e)}" for es
    by (force simp: session_servers_def session_server_def)
  then show ?thesis by (auto simp: effective_for_provider_def Let_def)
qed

text \<open>
  C16. \<^emph>\<open>The grid tells the truth.\<close> For a connected provider with negotiated capabilities and
  any enabled registry entry that is not disabled, the grid shows \<open>Attached\<close> exactly when the
  session handoff for that provider contains a server of that name, \<open>Excluded\<close> exactly when the
  entry excludes the provider; the handoff never contains an entry that needs another
  transport.
\<close>

theorem attachment_grid_agrees_with_session:
  assumes "bt_wf (rf_servers (reg_global reg))" "(name, entry) \<in> set (merged_entries reg)"
    "em_enabled (re_meta entry)" "name \<notin> disabled"
    "pi_connected p" "pi_capabilities p = Some caps"
  shows "(cell_state name entry p = Attached \<longleftrightarrow>
      name \<in> ss_name ` set (session_servers (effective_for_provider reg (Some (pi_id p)) disabled) (nc_mcp caps)))
    \<and> (cell_state name entry p = Excluded \<longleftrightarrow> \<not> allows_provider (re_meta entry) (pi_id p))"
proof -
  have uniq: "e = entry" if "(name, e) \<in> set (merged_entries reg)" for e
    using that assms(2) bt_wf_merged_entries[OF assms(1)] by (auto simp: in_set_bt)
  have "name \<in> ss_name ` set (session_servers (effective_for_provider reg (Some (pi_id p)) disabled) (nc_mcp caps))
    \<longleftrightarrow> allows_provider (re_meta entry) (pi_id p) \<and> transport_supported (nc_mcp caps) (re_transport entry)"
    unfolding session_names using assms(2-4) uniq by blast
  moreover have "transport_supported mcp k \<Longrightarrow> mt_stdio mcp \<or> mt_http mcp \<or> mt_sse mcp" for mcp k
    by (cases k) (simp_all add: transport_supported_def)
  ultimately show ?thesis
    using assms(5,6) by (auto simp: cell_state_def Let_def split: option.splits)
qed

theorem attachment_grid_agrees_with_session_witness:
  "let e = \<lparr>re_transport = Http, re_command = None, re_args = [], re_env = [], re_url = Some ''u'',
             re_headers = [], re_meta = default_meta\<rparr>;
       reg = \<lparr>reg_global = \<lparr>rf_version = 2, rf_servers = [(''a'', e)]\<rparr>, reg_workspace = registry_default\<rparr>;
       caps = \<lparr>nc_load_session = True, nc_resume = True,
               nc_mcp = \<lparr>mt_stdio = True, mt_http = False, mt_sse = False\<rparr>, nc_prompt_embedded_context = False\<rparr> in
   ''a'' \<notin> ss_name ` set (session_servers (effective_for_provider reg (Some ''p'') {}) (nc_mcp caps))"
proof -
  let ?e = "\<lparr>re_transport = Http, re_command = None, re_args = [], re_env = [], re_url = Some ''u'',
             re_headers = [], re_meta = default_meta\<rparr>"
  let ?reg = "\<lparr>reg_global = \<lparr>rf_version = 2, rf_servers = [(''a'', ?e)]\<rparr>, reg_workspace = registry_default\<rparr>"
  let ?caps = "\<lparr>nc_load_session = True, nc_resume = True,
     nc_mcp = \<lparr>mt_stdio = True, mt_http = False, mt_sse = False\<rparr>, nc_prompt_embedded_context = False\<rparr>"
  let ?p = "\<lparr>pi_id = ''p'', pi_name = ''P'', pi_connected = True, pi_capabilities = Some ?caps,
     pi_projection_target = None, pi_projection_states = Map.empty\<rparr>"
  have "cell_state ''a'' ?e ?p \<noteq> Attached"
    by (simp add: cell_state_def transport_supported_def)
  then show ?thesis
    using attachment_grid_agrees_with_session[of ?reg "''a''" ?e "{}" ?p ?caps]
    by (simp add: bt_wf_Cons merged_entries_def registry_default_def default_meta_def Let_def)
qed

end
