(* ===== verification/Event_Store.thy ===== *)
theory Event_Store
  imports Tethys_Prelude "HOL-Library.List_Lexorder" "HOL-Library.Char_ord" "HOL-Library.Product_Lexorder"
begin

text \<open>
  The event log and its tables: \<^verbatim>\<open>schema.rs\<close>, \<^verbatim>\<open>entries.rs\<close>, \<^verbatim>\<open>sync_state.rs\<close> and \<^verbatim>\<open>blobs.rs\<close> of
  \<^verbatim>\<open>crates/tethys-store/src\<close>, with the row types of \<^verbatim>\<open>crates/tethys-schema/src/store.rs\<close> and the keys
  and constraints of \<^verbatim>\<open>migrations.rs\<close>. The database is its tables as lists of rows in insertion
  order; each operation is the SQL it runs: a failing statement of a transaction rolls the
  whole transaction back, which returns the old database with the error. Sequence numbers are
  natural numbers (SQLite integers far below \<open>2^63\<close>). The invariant says that each thread's
  log is the contiguous sequence from 1 to its \<open>latest_seq\<close>.
\<close>

section \<open>Rows\<close>

datatype EntryKind = EK_Message | EK_ToolCall | EK_Plan | EK_Terminal

fun kind_as_str :: "EntryKind \<Rightarrow> string" where
  "kind_as_str EK_Message = ''message''"
| "kind_as_str EK_ToolCall = ''tool_call''"
| "kind_as_str EK_Plan = ''plan''"
| "kind_as_str EK_Terminal = ''terminal''"

definition kind_from_str :: "string \<Rightarrow> string + EntryKind" where
  "kind_from_str s =
     (if s = ''message'' then Ok EK_Message
      else if s = ''tool_call'' then Ok EK_ToolCall
      else if s = ''plan'' then Ok EK_Plan
      else if s = ''terminal'' then Ok EK_Terminal
      else Err (''unknown entry kind: '' @ s))"

record EntryUpsert =
  eu_kind :: EntryKind
  eu_entry_id :: string
  eu_turn_index :: "nat option"
  eu_payload :: string

record NewEvent =
  ne_kind :: string
  ne_payload :: string
  ne_entry :: "EntryUpsert option"

record SeqRange =
  sq_first :: nat
  sq_last :: nat

record StoredEvent =
  ev_id :: nat
  ev_thread_id :: string
  ev_seq :: nat
  ev_type :: string
  ev_payload :: string
  ev_created_at :: nat

record StoreEntry =
  se_thread_id :: string
  se_kind :: EntryKind
  se_entry_id :: string
  se_first_seq :: nat
  se_last_seq :: nat
  se_turn_index :: "nat option"
  se_payload :: string

text \<open>A row of the \<open>entries\<close> table: the kind is text.\<close>

record EntryRow =
  er_thread_id :: string
  er_kind :: string
  er_entry_id :: string
  er_first_seq :: nat
  er_last_seq :: nat
  er_turn_index :: "nat option"
  er_payload :: string

record EntryPage =
  pg_before_first_seq :: "nat option"
  pg_limit :: nat

record ThreadView =
  tv_entries :: "StoreEntry list"
  tv_latest_seq :: nat
  tv_has_more :: bool

record WorkspaceRow =
  ws_id :: string
  ws_root_path :: string
  ws_isolation :: string

record ThreadRow =
  tr_id :: string
  tr_workspace_id :: string
  tr_latest_seq :: nat

record SkillRow =
  skr_skill_id :: string
  skr_scope :: string
  skr_name :: string
  skr_source :: string
  skr_pinned_sha :: "string option"
  skr_content_hash :: string
  skr_trusted_hash :: "string option"
  skr_enabled :: bool
  skr_requires_trust :: bool

datatype DbError = NoRows | ForeignKey | UniqueViolation | BadKind string

record Db =
  db_workspaces :: "WorkspaceRow list"
  db_threads :: "ThreadRow list"
  db_events :: "StoredEvent list"
  db_next_id :: nat
  db_entries :: "EntryRow list"
  db_skills :: "SkillRow list"

definition db_new :: Db where
  "db_new = \<lparr>db_workspaces = [], db_threads = [], db_events = [], db_next_id = 1,
     db_entries = [], db_skills = []\<rparr>"

section \<open>Operations\<close>

definition get_workspace :: "Db \<Rightarrow> string \<Rightarrow> WorkspaceRow option" where
  "get_workspace db workspace_id = table_get ws_id (db_workspaces db) workspace_id"

definition ensure_workspace :: "string \<Rightarrow> string \<Rightarrow> string \<Rightarrow> Db \<Rightarrow> Db" where
  "ensure_workspace workspace_id root_path isolation db =
     db\<lparr>db_workspaces := table_ensure ws_id (db_workspaces db)
          \<lparr>ws_id = workspace_id, ws_root_path = root_path, ws_isolation = isolation\<rparr>\<rparr>"

text \<open>\<open>INSERT OR IGNORE\<close> does not ignore a missing workspace: foreign keys are on.\<close>

definition ensure_thread :: "string \<Rightarrow> string \<Rightarrow> Db \<Rightarrow> DbError + Db" where
  "ensure_thread thread_id workspace_id db =
     (if table_get tr_id (db_threads db) thread_id \<noteq> None then Ok db
      else if get_workspace db workspace_id = None then Err ForeignKey
      else Ok (db\<lparr>db_threads := db_threads db
             @ [\<lparr>tr_id = thread_id, tr_workspace_id = workspace_id, tr_latest_seq = 0\<rparr>]\<rparr>))"

definition latest_seq_of :: "Db \<Rightarrow> string \<Rightarrow> DbError + nat" where
  "latest_seq_of db thread_id =
     (case table_get tr_id (db_threads db) thread_id of
        None \<Rightarrow> Err NoRows | Some t \<Rightarrow> Ok (tr_latest_seq t))"

definition insert_event :: "string \<Rightarrow> nat \<Rightarrow> nat \<Rightarrow> NewEvent \<Rightarrow> Db \<Rightarrow> DbError + Db" where
  "insert_event thread_id seq now event db =
     (if list_ex (\<lambda>e. ev_thread_id e = thread_id \<and> ev_seq e = seq) (db_events db)
      then Err UniqueViolation
      else Ok (db\<lparr>db_events := db_events db @ [\<lparr>ev_id = db_next_id db, ev_thread_id = thread_id,
               ev_seq = seq, ev_type = ne_kind event, ev_payload = ne_payload event,
               ev_created_at = now\<rparr>],
             db_next_id := db_next_id db + 1\<rparr>))"

definition er_key :: "EntryRow \<Rightarrow> string \<times> string \<times> string" where
  "er_key r = (er_thread_id r, er_kind r, er_entry_id r)"

definition merge_entry :: "EntryRow \<Rightarrow> EntryRow \<Rightarrow> EntryRow" where
  "merge_entry old excluded = old\<lparr>er_last_seq := er_last_seq excluded,
     er_turn_index := (case er_turn_index excluded of None \<Rightarrow> er_turn_index old | Some t \<Rightarrow> Some t),
     er_payload := er_payload excluded\<rparr>"

definition new_entry_row :: "string \<Rightarrow> nat \<Rightarrow> EntryUpsert \<Rightarrow> EntryRow" where
  "new_entry_row thread_id seq entry =
     \<lparr>er_thread_id = thread_id, er_kind = kind_as_str (eu_kind entry), er_entry_id = eu_entry_id entry,
      er_first_seq = seq, er_last_seq = seq, er_turn_index = eu_turn_index entry,
      er_payload = eu_payload entry\<rparr>"

definition upsert_entry :: "string \<Rightarrow> nat \<Rightarrow> EntryUpsert option \<Rightarrow> Db \<Rightarrow> Db" where
  "upsert_entry thread_id seq entry db =
     (case entry of None \<Rightarrow> db
      | Some e \<Rightarrow> db\<lparr>db_entries := table_upsert er_key merge_entry (db_entries db) (new_entry_row thread_id seq e)\<rparr>)"

fun append_loop :: "string \<Rightarrow> nat \<Rightarrow> NewEvent list \<Rightarrow> nat \<Rightarrow> Db \<Rightarrow> DbError + (nat \<times> Db)" where
  "append_loop thread_id now [] seq db = Ok (seq, db)"
| "append_loop thread_id now (event # events) seq db =
     (case insert_event thread_id (seq + 1) now event db of
        Inl e \<Rightarrow> Err e
      | Inr db' \<Rightarrow>
          append_loop thread_id now events (seq + 1) (upsert_entry thread_id (seq + 1) (ne_entry event) db'))"

definition append_batch ::
  "string \<Rightarrow> nat \<Rightarrow> NewEvent list \<Rightarrow> Db \<Rightarrow> (DbError + SeqRange) \<times> Db" where
  "append_batch thread_id now events db =
     (case latest_seq_of db thread_id of
        Inl e \<Rightarrow> (Err e, db)
      | Inr current \<Rightarrow>
          if events = [] then (Ok \<lparr>sq_first = current, sq_last = current\<rparr>, db)
          else
            (case append_loop thread_id now events current db of
               Inl e \<Rightarrow> (Err e, db)
             | Inr (seq, db') \<Rightarrow>
                 (Ok \<lparr>sq_first = current + 1, sq_last = seq\<rparr>,
                  db'\<lparr>db_threads := map (\<lambda>t. if tr_id t = thread_id then t\<lparr>tr_latest_seq := seq\<rparr> else t)
                        (db_threads db')\<rparr>)))"

definition read_events_since :: "Db \<Rightarrow> string \<Rightarrow> nat \<Rightarrow> nat \<Rightarrow> StoredEvent list" where
  "read_events_since db thread_id since_seq limit =
     take limit (sort_key ev_seq (filter (\<lambda>e. ev_thread_id e = thread_id \<and> since_seq < ev_seq e) (db_events db)))"

definition read_events_inclusive :: "Db \<Rightarrow> string \<Rightarrow> nat \<Rightarrow> nat \<Rightarrow> StoredEvent list" where
  "read_events_inclusive db thread_id since_seq limit =
     take limit (sort_key ev_seq (filter (\<lambda>e. ev_thread_id e = thread_id \<and> since_seq \<le> ev_seq e) (db_events db)))"

definition count_events :: "Db \<Rightarrow> string \<Rightarrow> nat" where
  "count_events db thread_id = length (filter (\<lambda>e. ev_thread_id e = thread_id) (db_events db))"

definition row_to_entry :: "EntryRow \<Rightarrow> DbError + StoreEntry" where
  "row_to_entry r =
     (case kind_from_str (er_kind r) of
        Inl e \<Rightarrow> Err (BadKind e)
      | Inr k \<Rightarrow> Ok \<lparr>se_thread_id = er_thread_id r, se_kind = k, se_entry_id = er_entry_id r,
          se_first_seq = er_first_seq r, se_last_seq = er_last_seq r,
          se_turn_index = er_turn_index r, se_payload = er_payload r\<rparr>)"

fun rows_to_entries :: "EntryRow list \<Rightarrow> DbError + StoreEntry list" where
  "rows_to_entries [] = Ok []"
| "rows_to_entries (r # rs) =
     (case row_to_entry r of Inl e \<Rightarrow> Err e
      | Inr x \<Rightarrow> (case rows_to_entries rs of Inl e \<Rightarrow> Err e | Inr xs \<Rightarrow> Ok (x # xs)))"

definition open_thread :: "Db \<Rightarrow> string \<Rightarrow> EntryPage \<Rightarrow> DbError + ThreadView" where
  "open_thread db thread_id page =
     (case latest_seq_of db thread_id of
        Inl e \<Rightarrow> Err e
      | Inr latest \<Rightarrow>
          (let query_limit = min (pg_limit page + 1) (2 ^ 32 - 1);
               rows = filter (\<lambda>r. er_thread_id r = thread_id
                  \<and> (case pg_before_first_seq page of None \<Rightarrow> True | Some b \<Rightarrow> er_first_seq r < b))
                  (db_entries db);
               desc = take query_limit (rev (sort_key er_first_seq rows)) in
           case rows_to_entries desc of
             Inl e \<Rightarrow> Err e
           | Inr entries_desc \<Rightarrow>
               (let has_more = length entries_desc > pg_limit page in
                Ok \<lparr>tv_entries = rev (if has_more then take (pg_limit page) entries_desc else entries_desc),
                    tv_latest_seq = latest, tv_has_more = has_more\<rparr>)))"

definition upsert_skill :: "SkillRow \<Rightarrow> Db \<Rightarrow> DbError + Db" where
  "upsert_skill row db =
     (if list_ex (\<lambda>r. skr_skill_id r \<noteq> skr_skill_id row \<and> skr_scope r = skr_scope row
                    \<and> skr_name r = skr_name row) (db_skills db)
      then Err UniqueViolation
      else Ok (db\<lparr>db_skills := table_upsert skr_skill_id (\<lambda>_ new. new) (db_skills db) row\<rparr>))"

definition get_skill :: "Db \<Rightarrow> string \<Rightarrow> SkillRow option" where
  "get_skill db skill_id = table_get skr_skill_id (db_skills db) skill_id"

section \<open>Blobs\<close>

text \<open>The files under \<open>blobs/\<close>, by hash; \<open>hash\<close> is the hexadecimal BLAKE3 digest.\<close>

datatype BlobError = BlobHashMismatch string string | InvalidHashLength

type_synonym 'b blobs = "string \<rightharpoonup> 'b"

definition blob_put :: "('b \<Rightarrow> string) \<Rightarrow> 'b \<Rightarrow> 'b blobs \<Rightarrow> (BlobError + string) \<times> 'b blobs" where
  "blob_put hash bytes fs =
     (let h = hash bytes in
      if length h < 2 then (Err InvalidHashLength, fs)
      else if fs h \<noteq> None then (Ok h, fs)
      else (Ok h, fs(h \<mapsto> bytes)))"

definition blob_path :: "string \<Rightarrow> 'b blobs \<Rightarrow> string option" where
  "blob_path h fs = (if length h < 2 then None else if fs h \<noteq> None then Some h else None)"

definition blob_has :: "string \<Rightarrow> 'b blobs \<Rightarrow> bool" where
  "blob_has h fs \<longleftrightarrow> blob_path h fs \<noteq> None"

definition blob_get :: "('b \<Rightarrow> string) \<Rightarrow> string \<Rightarrow> 'b blobs \<Rightarrow> BlobError + 'b option" where
  "blob_get hash h fs =
     (case blob_path h fs of
        None \<Rightarrow> Ok None
      | Some p \<Rightarrow>
          (case fs p of
             None \<Rightarrow> Ok None
           | Some bytes \<Rightarrow>
               let computed = hash bytes in
               if computed \<noteq> h then Err (BlobHashMismatch h computed) else Ok (Some bytes)))"

section \<open>The invariant\<close>

definition thread_events :: "Db \<Rightarrow> string \<Rightarrow> StoredEvent list" where
  "thread_events db tid = filter (\<lambda>e. ev_thread_id e = tid) (db_events db)"

definition thread_entries :: "Db \<Rightarrow> string \<Rightarrow> EntryRow list" where
  "thread_entries db tid = filter (\<lambda>r. er_thread_id r = tid) (db_entries db)"

definition latest :: "Db \<Rightarrow> string \<Rightarrow> nat" where
  "latest db tid = (case table_get tr_id (db_threads db) tid of None \<Rightarrow> 0 | Some t \<Rightarrow> tr_latest_seq t)"

definition entry_ok :: "nat \<Rightarrow> EntryRow \<Rightarrow> bool" where
  "entry_ok n r \<longleftrightarrow> 1 \<le> er_first_seq r \<and> er_first_seq r \<le> er_last_seq r \<and> er_last_seq r \<le> n
     \<and> er_kind r \<in> range kind_as_str"

definition entries_wf :: "(string \<Rightarrow> nat) \<Rightarrow> EntryRow list \<Rightarrow> bool" where
  "entries_wf lat es \<longleftrightarrow> distinct (map er_key es)
     \<and> (\<forall>tid. distinct (map er_first_seq (filter (\<lambda>r. er_thread_id r = tid) es)))
     \<and> (\<forall>r \<in> set es. entry_ok (lat (er_thread_id r)) r)"

definition wf_with :: "(string \<Rightarrow> nat) \<Rightarrow> Db \<Rightarrow> bool" where
  "wf_with lat db \<longleftrightarrow>
     distinct (map ws_id (db_workspaces db)) \<and> distinct (map tr_id (db_threads db))
     \<and> (\<forall>t \<in> set (db_threads db). tr_workspace_id t \<in> ws_id ` set (db_workspaces db))
     \<and> (\<forall>tid. map ev_seq (thread_events db tid) = [1..<Suc (lat tid)])
     \<and> entries_wf lat (db_entries db)"

text \<open>
  Each thread's log is contiguous from 1 to its \<open>latest_seq\<close>, and the materialized entries lie
  within it, one per key and at most one per first sequence number.
\<close>

definition db_wf :: "Db \<Rightarrow> bool" where
  "db_wf db \<longleftrightarrow> wf_with (latest db) db"

lemma merge_entry_simps [simp]:
  "er_key (merge_entry old new) = er_key old" "er_first_seq (merge_entry old new) = er_first_seq old"
  "er_thread_id (merge_entry old new) = er_thread_id old" "er_kind (merge_entry old new) = er_kind old"
  "er_last_seq (merge_entry old new) = er_last_seq new"
  by (simp_all add: merge_entry_def er_key_def)

lemma entries_wf_upsert:
  assumes "entries_wf lat es"
  shows "entries_wf (lat(tid := Suc (lat tid)))
    (table_upsert er_key merge_entry es (new_entry_row tid (Suc (lat tid)) e))"
proof -
  let ?row = "new_entry_row tid (Suc (lat tid)) e"
  have ok: "entry_ok ((lat(tid := Suc (lat tid))) (er_thread_id r)) r" if "r \<in> set es" for r
    using assms that by (auto simp: entries_wf_def entry_ok_def le_Suc_eq)
  have below: "er_first_seq r \<le> lat tid" if "r \<in> set es" "er_thread_id r = tid" for r
    using assms that by (fastforce simp: entries_wf_def entry_ok_def)
  show ?thesis
  proof (cases "table_get er_key es (er_key ?row)")
    case None
    then have "er_key ?row \<notin> er_key ` set es" by (simp add: table_get_None)
    moreover have "er_first_seq ?row \<notin> er_first_seq ` set (filter (\<lambda>r. er_thread_id r = tid) es)"
      using below by (auto simp: new_entry_row_def) (metis Suc_n_not_le_n)
    ultimately show ?thesis
      using assms ok None
      by (auto simp: entries_wf_def table_upsert_def new_entry_row_def entry_ok_def image_iff)
  next
    case (Some old)
    let ?es = "modify_first (\<lambda>r. er_key r = er_key ?row) (\<lambda>old. merge_entry old ?row) es"
    have es: "table_upsert er_key merge_entry es ?row = ?es" using Some by (simp add: table_upsert_def)
    have "map er_key ?es = map er_key es" by (rule map_modify_first) simp
    moreover have "map er_first_seq (filter (\<lambda>r. er_thread_id r = t) ?es)
        = map er_first_seq (filter (\<lambda>r. er_thread_id r = t) es)" for t
      by (rule map_filter_modify_first) simp
    moreover have "entry_ok ((lat(tid := Suc (lat tid))) (er_thread_id r)) r" if "r \<in> set ?es" for r
    proof (cases "r \<in> set es")
      case False
      with set_modify_first[OF that] obtain x where
        "x \<in> set es" "er_key x = er_key ?row" "r = merge_entry x ?row" by auto
      then show ?thesis
        using ok[of x] below[of x] by (auto simp: entry_ok_def er_key_def new_entry_row_def)
    qed (rule ok)
    ultimately show ?thesis unfolding es using assms by (simp add: entries_wf_def)
  qed
qed

lemma thread_events_append:
  "thread_events (db\<lparr>db_events := db_events db @ [e], db_next_id := n\<rparr>) tid
     = thread_events db tid @ (if ev_thread_id e = tid then [e] else [])"
  by (simp add: thread_events_def)

lemma upsert_entry_frame [simp]:
  "thread_events (upsert_entry tid s e db) = thread_events db"
  "db_threads (upsert_entry tid s e db) = db_threads db"
  "db_workspaces (upsert_entry tid s e db) = db_workspaces db"
  "db_skills (upsert_entry tid s e db) = db_skills db"
  by (simp_all add: upsert_entry_def thread_events_def fun_eq_iff split: option.split)

lemma entries_wf_mono:
  "entries_wf lat es \<Longrightarrow> entries_wf (lat(tid := Suc (lat tid))) es"
  by (auto simp: entries_wf_def entry_ok_def le_Suc_eq)

lemma event_step:
  assumes "wf_with lat db" "seq = lat tid"
  shows "\<exists>db' ev. insert_event tid (seq + 1) now event db = Ok db'
    \<and> wf_with (lat(tid := Suc (lat tid))) (upsert_entry tid (seq + 1) (ne_entry event) db')
    \<and> thread_events db' = (thread_events db)(tid := thread_events db tid @ [ev])
    \<and> ev_seq ev = seq + 1 \<and> ev_type ev = ne_kind event \<and> ev_payload ev = ne_payload event
    \<and> db_threads db' = db_threads db \<and> db_workspaces db' = db_workspaces db \<and> db_skills db' = db_skills db"
proof -
  have seqs: "map ev_seq (thread_events db t) = [1..<Suc (lat t)]" for t
    using assms(1) by (simp add: wf_with_def del: upt_Suc)
  have "ev_seq e \<le> lat tid" if "e \<in> set (db_events db)" "ev_thread_id e = tid" for e
  proof -
    have "ev_seq e \<in> set (map ev_seq (thread_events db tid))" using that by (auto simp: thread_events_def)
    then show ?thesis unfolding seqs by auto
  qed
  then have free: "\<not> list_ex (\<lambda>e. ev_thread_id e = tid \<and> ev_seq e = seq + 1) (db_events db)"
    using assms(2) by (fastforce simp: list_ex_iff)
  define ev where "ev = \<lparr>ev_id = db_next_id db, ev_thread_id = tid, ev_seq = seq + 1,
    ev_type = ne_kind event, ev_payload = ne_payload event, ev_created_at = now\<rparr>"
  define db' where "db' = db\<lparr>db_events := db_events db @ [ev], db_next_id := db_next_id db + 1\<rparr>"
  have ins: "insert_event tid (seq + 1) now event db = Ok db'"
    using free by (simp add: insert_event_def db'_def ev_def)
  have te: "thread_events db' = (thread_events db)(tid := thread_events db tid @ [ev])"
    unfolding db'_def by (auto simp: thread_events_append fun_eq_iff ev_def)
  have "entries_wf (lat(tid := Suc (lat tid))) (db_entries (upsert_entry tid (seq + 1) (ne_entry event) db'))"
  proof (cases "ne_entry event")
    case None
    then show ?thesis
      using assms(1) by (auto simp: upsert_entry_def db'_def wf_with_def intro: entries_wf_mono)
  next
    case (Some e)
    then show ?thesis
      using assms entries_wf_upsert[of lat "db_entries db" tid e]
      by (simp add: upsert_entry_def db'_def wf_with_def)
  qed
  moreover have frame: "db_threads db' = db_threads db" "db_workspaces db' = db_workspaces db"
    by (simp_all add: db'_def)
  moreover have "map ev_seq (thread_events db' t) = [1..<Suc ((lat(tid := Suc (lat tid))) t)]" for t
    using seqs assms(2) by (cases "t = tid") (simp_all add: te ev_def)
  ultimately have "wf_with (lat(tid := Suc (lat tid))) (upsert_entry tid (seq + 1) (ne_entry event) db')"
    using assms(1) unfolding wf_with_def upsert_entry_frame by simp
  then show ?thesis using ins te by (auto simp: ev_def db'_def)
qed

lemma append_loop_ok:
  assumes "wf_with lat db" "seq = lat tid"
  shows "\<exists>db' new. append_loop tid now events seq db = Ok (seq + length events, db')
    \<and> wf_with (lat(tid := seq + length events)) db'
    \<and> thread_events db' = (thread_events db)(tid := thread_events db tid @ new)
    \<and> map (\<lambda>e. (ev_type e, ev_payload e)) new = map (\<lambda>e. (ne_kind e, ne_payload e)) events
    \<and> db_threads db' = db_threads db \<and> db_workspaces db' = db_workspaces db \<and> db_skills db' = db_skills db"
  using assms
proof (induction events arbitrary: seq db lat)
  case Nil
  then show ?case by (auto intro!: exI[of _ "[]"])
next
  case (Cons event events)
  obtain db1 ev where s: "insert_event tid (seq + 1) now event db = Ok db1"
    "wf_with (lat(tid := Suc (lat tid))) (upsert_entry tid (seq + 1) (ne_entry event) db1)"
    "thread_events db1 = (thread_events db)(tid := thread_events db tid @ [ev])"
    "ev_type ev = ne_kind event" "ev_payload ev = ne_payload event"
    "db_threads db1 = db_threads db" "db_workspaces db1 = db_workspaces db" "db_skills db1 = db_skills db"
    using event_step[OF Cons.prems, of now event] by blast
  obtain db' new where t: "append_loop tid now events (seq + 1) (upsert_entry tid (seq + 1) (ne_entry event) db1)
      = Ok (seq + 1 + length events, db')"
    "wf_with ((lat(tid := Suc (lat tid)))(tid := seq + 1 + length events)) db'"
    "thread_events db' = (thread_events db1)(tid := thread_events db1 tid @ new)"
    "map (\<lambda>e. (ev_type e, ev_payload e)) new = map (\<lambda>e. (ne_kind e, ne_payload e)) events"
    "db_threads db' = db_threads db1" "db_workspaces db' = db_workspaces db1" "db_skills db' = db_skills db1"
  proof -
    have "seq + 1 = (lat(tid := Suc (lat tid))) tid" using Cons.prems(2) by simp
    from Cons.IH[OF s(2) this, unfolded upsert_entry_frame] that show ?thesis by blast
  qed
  have "thread_events db' = (thread_events db)(tid := thread_events db tid @ (ev # new))"
    unfolding t(3) s(3) by simp
  moreover have "map (\<lambda>e. (ev_type e, ev_payload e)) (ev # new)
      = map (\<lambda>e. (ne_kind e, ne_payload e)) (event # events)"
    using s(4,5) t(4) by simp
  moreover have "wf_with (lat(tid := seq + length (event # events))) db'" using t(2) by simp
  ultimately show ?case using s t
    by (intro exI[of _ db'] exI[of _ "ev # new"] conjI) (simp_all add: fun_upd_def)
qed


section \<open>Appending\<close>

lemma latest_known: "table_get tr_id (db_threads db) tid = Some t \<Longrightarrow> latest db tid = tr_latest_seq t"
  by (simp add: latest_def)

lemma table_get_map_update:
  "table_get tr_id (map (\<lambda>t. if tr_id t = tid then t\<lparr>tr_latest_seq := n\<rparr> else t) ts) k =
    (if k = tid then map_option (\<lambda>t. t\<lparr>tr_latest_seq := n\<rparr>) (table_get tr_id ts k) else table_get tr_id ts k)"
  by (induction ts) (auto simp: table_get_def)

lemma wf_with_threads:
  assumes "wf_with lat db"
  shows "wf_with lat (db\<lparr>db_threads := map (\<lambda>t. if tr_id t = tid then t\<lparr>tr_latest_seq := n\<rparr> else t) (db_threads db)\<rparr>)"
proof -
  have "tr_id \<circ> (\<lambda>t :: ThreadRow. if tr_id t = tid then t\<lparr>tr_latest_seq := n\<rparr> else t) = tr_id"
    by (auto simp: fun_eq_iff)
  then show ?thesis
    using assms by (auto simp: wf_with_def thread_events_def simp del: upt_Suc)
qed

lemma append_batch_ok:
  assumes "db_wf db" "table_get tr_id (db_threads db) tid = Some t"
  shows "\<exists>db' new. append_batch tid now events db =
      (Ok \<lparr>sq_first = (if events = [] then latest db tid else latest db tid + 1),
           sq_last = latest db tid + length events\<rparr>, db')
    \<and> db_wf db' \<and> latest db' = (latest db)(tid := latest db tid + length events)
    \<and> thread_events db' = (thread_events db)(tid := thread_events db tid @ new)
    \<and> map (\<lambda>e. (ev_type e, ev_payload e)) new = map (\<lambda>e. (ne_kind e, ne_payload e)) events"
proof (cases "events = []")
  case True
  then show ?thesis
    using assms by (auto simp: append_batch_def latest_seq_of_def latest_known intro!: exI[of _ "[]"])
next
  case False
  have n: "latest_seq_of db tid = Ok (latest db tid)" using assms(2) by (simp add: latest_seq_of_def latest_def)
  obtain db1 new where l: "append_loop tid now events (latest db tid) db = Ok (latest db tid + length events, db1)"
    "wf_with ((latest db)(tid := latest db tid + length events)) db1"
    "thread_events db1 = (thread_events db)(tid := thread_events db tid @ new)"
    "map (\<lambda>e. (ev_type e, ev_payload e)) new = map (\<lambda>e. (ne_kind e, ne_payload e)) events"
    "db_threads db1 = db_threads db"
    using append_loop_ok[OF assms(1)[unfolded db_wf_def] refl, of tid now events] by blast
  define db' where "db' = db1\<lparr>db_threads := map (\<lambda>t. if tr_id t = tid
      then t\<lparr>tr_latest_seq := latest db tid + length events\<rparr> else t) (db_threads db1)\<rparr>"
  have lat: "latest db' = (latest db)(tid := latest db tid + length events)"
    using assms(2) l(5) by (auto simp: db'_def latest_def table_get_map_update fun_eq_iff)
  have "wf_with (latest db') db'" unfolding lat unfolding db'_def by (rule wf_with_threads[OF l(2)])
  moreover have "thread_events db' = thread_events db1" by (simp add: db'_def thread_events_def fun_eq_iff)
  ultimately show ?thesis
    using False n l lat by (auto simp: append_batch_def db_wf_def db'_def)
qed

lemma sort_key_id: "sorted (map f xs) \<Longrightarrow> sort_key f xs = xs"
  by (induction xs) (auto simp: insort_is_Cons)

lemma db_wf_seqs: "db_wf db \<Longrightarrow> map ev_seq (thread_events db tid) = [1..<Suc (latest db tid)]"
  by (simp add: db_wf_def wf_with_def del: upt_Suc)

lemma read_events_eq:
  assumes "db_wf db"
  shows "read_events_since db tid since limit
    = take limit (filter (\<lambda>e. since < ev_seq e) (thread_events db tid))"
proof -
  have seqs: "map ev_seq (thread_events db tid) = [1..<Suc (latest db tid)]"
    by (rule db_wf_seqs[OF assms])
  have "filter (\<lambda>e. ev_thread_id e = tid \<and> since < ev_seq e) (db_events db)
      = filter (\<lambda>e. since < ev_seq e) (thread_events db tid)"
    by (simp add: thread_events_def conj_commute)
  moreover have "sorted (map ev_seq (filter (\<lambda>e. since < ev_seq e) (thread_events db tid)))"
    using sorted_filter[of ev_seq "thread_events db tid" "\<lambda>e. since < ev_seq e"] seqs
    by (simp del: upt_Suc)
  ultimately show ?thesis by (simp add: read_events_since_def sort_key_id)
qed

text \<open>
  \<^emph>\<open>Appending a batch.\<close> On a well-formed database a batch for a known thread never fails: it
  gets the next sequence numbers, contiguous and in order, and is exactly what a reader
  positioned at the previous \<open>latest_seq\<close> gets back; the thread's earlier events and the logs
  of all other threads are untouched, and the database stays well-formed.
\<close>

theorem append_batch_contiguous:
  assumes "db_wf db" "table_get tr_id (db_threads db) tid = Some t"
    "append_batch tid now events db = (res, db')"
  shows "res = Ok \<lparr>sq_first = (if events = [] then latest db tid else latest db tid + 1),
        sq_last = latest db tid + length events\<rparr>
    \<and> db_wf db' \<and> latest db' tid = latest db tid + length events
    \<and> map (\<lambda>e. (ev_seq e, ev_type e, ev_payload e))
        (read_events_since db' tid (latest db tid) (length events))
      = zip [latest db tid + 1..<latest db tid + 1 + length events]
          (map (\<lambda>e. (ne_kind e, ne_payload e)) events)
    \<and> take (latest db tid) (thread_events db' tid) = thread_events db tid
    \<and> (\<forall>u. u \<noteq> tid \<longrightarrow> thread_events db' u = thread_events db u)"
proof -
  let ?n = "latest db tid"
  obtain new where a: "res = Ok \<lparr>sq_first = (if events = [] then ?n else ?n + 1), sq_last = ?n + length events\<rparr>"
    "db_wf db'" "latest db' = (latest db)(tid := ?n + length events)"
    "thread_events db' = (thread_events db)(tid := thread_events db tid @ new)"
    "map (\<lambda>e. (ev_type e, ev_payload e)) new = map (\<lambda>e. (ne_kind e, ne_payload e)) events"
    using append_batch_ok[OF assms(1,2), of now events] assms(3) by auto
  have old: "map ev_seq (thread_events db tid) = [1..<Suc ?n]" by (rule db_wf_seqs[OF assms(1)])
  have "map ev_seq (thread_events db tid @ new) = [1..<Suc (?n + length events)]"
    using db_wf_seqs[OF a(2), of tid] a(3,4) by (simp del: upt_Suc)
  also have "\<dots> = [1..<Suc ?n] @ [Suc ?n..<Suc (?n + length events)]"
    by (metis add_Suc le_add1 plus_1_eq_Suc upt_add_eq_append)
  finally have seqs: "map ev_seq new = [Suc ?n..<Suc (?n + length events)]" using old by simp
  have len: "length new = length events" "length (thread_events db tid) = ?n"
    using a(5) old by (metis length_map, metis diff_Suc_1 length_map length_upt)
  have "filter (\<lambda>e. ?n < ev_seq e) (thread_events db tid) = []"
  proof -
    have "ev_seq e \<le> ?n" if "e \<in> set (thread_events db tid)" for e
    proof -
      have "ev_seq e \<in> set (map ev_seq (thread_events db tid))" using that by simp
      then show ?thesis unfolding old by auto
    qed
    then show ?thesis by (auto simp: filter_empty_conv not_less)
  qed
  moreover have "filter (\<lambda>e. ?n < ev_seq e) new = new"
  proof -
    have "?n < ev_seq e" if "e \<in> set new" for e
    proof -
      have "ev_seq e \<in> set (map ev_seq new)" using that by simp
      then show ?thesis unfolding seqs by auto
    qed
    then show ?thesis by (auto simp: filter_id_conv)
  qed
  ultimately have "read_events_since db' tid ?n (length events) = new"
    using a(4) len by (simp add: read_events_eq[OF a(2)])
  moreover have "map (\<lambda>e. (ev_seq e, ev_type e, ev_payload e)) new
      = zip (map ev_seq new) (map (\<lambda>e. (ev_type e, ev_payload e)) new)"
    by (simp add: zip_map_map zip_same_conv_map)
  ultimately show ?thesis using a seqs len(2) by simp
qed


section \<open>The store's operations keep the invariant\<close>

datatype StoreOp =
  EnsureWorkspace string string string
| EnsureThread string string
| AppendBatch string nat "NewEvent list"
| UpsertSkill SkillRow

fun store_step :: "Db \<Rightarrow> StoreOp \<Rightarrow> Db" where
  "store_step db (EnsureWorkspace w root isol) = ensure_workspace w root isol db"
| "store_step db (EnsureThread t w) = (case ensure_thread t w db of Inl _ \<Rightarrow> db | Inr db' \<Rightarrow> db')"
| "store_step db (AppendBatch t now events) = snd (append_batch t now events db)"
| "store_step db (UpsertSkill row) = (case upsert_skill row db of Inl _ \<Rightarrow> db | Inr db' \<Rightarrow> db')"

lemma wf_with_cong:
  "wf_with lat db \<Longrightarrow> db_workspaces db' = db_workspaces db \<Longrightarrow> db_threads db' = db_threads db
    \<Longrightarrow> db_events db' = db_events db \<Longrightarrow> db_entries db' = db_entries db \<Longrightarrow> wf_with lat db'"
  by (simp add: wf_with_def thread_events_def del: upt_Suc)

lemma ensure_workspace_wf: "db_wf db \<Longrightarrow> db_wf (ensure_workspace w root isol db)"
proof -
  assume wf: "db_wf db"
  have "latest (ensure_workspace w root isol db) = latest db"
    by (simp add: latest_def ensure_workspace_def fun_eq_iff)
  moreover have "ws_id ` set (db_workspaces db) \<subseteq> ws_id ` set (db_workspaces (ensure_workspace w root isol db))"
    by (auto simp: ensure_workspace_def table_ensure_def)
  moreover have "distinct (map ws_id (db_workspaces (ensure_workspace w root isol db)))"
    using wf by (auto simp: ensure_workspace_def db_wf_def wf_with_def intro: table_ensure_distinct)
  ultimately show ?thesis
    using wf unfolding db_wf_def wf_with_def
    by (auto simp: ensure_workspace_def thread_events_def simp del: upt_Suc)
qed

lemma ensure_thread_wf:
  assumes "db_wf db" "ensure_thread t w db = Ok db'"
  shows "db_wf db'"
proof (cases "table_get tr_id (db_threads db) t")
  case None
  then have db': "db' = db\<lparr>db_threads := db_threads db @ [\<lparr>tr_id = t, tr_workspace_id = w, tr_latest_seq = 0\<rparr>]\<rparr>"
    and w: "w \<in> ws_id ` set (db_workspaces db)"
    using assms(2) by (auto simp: ensure_thread_def get_workspace_def table_get_None split: if_splits)
  have "latest db' = latest db"
    using None by (auto simp: db' latest_def table_get_append fun_eq_iff split: option.split)
  moreover have "t \<notin> tr_id ` set (db_threads db)" using None by (simp add: table_get_None)
  ultimately show ?thesis
    using assms(1) w by (auto simp: db_wf_def wf_with_def db' thread_events_def simp del: upt_Suc)
qed (use assms in \<open>auto simp: ensure_thread_def split: if_splits\<close>)

lemma append_batch_wf: "db_wf db \<Longrightarrow> db_wf (snd (append_batch t now events db))"
proof (cases "table_get tr_id (db_threads db) t")
  case None
  then show "db_wf db \<Longrightarrow> ?thesis" by (simp add: append_batch_def latest_seq_of_def)
next
  case (Some r)
  then show "db_wf db \<Longrightarrow> ?thesis" using append_batch_ok[of db t r now events] by auto
qed

lemma upsert_skill_wf: "db_wf db \<Longrightarrow> upsert_skill row db = Ok db' \<Longrightarrow> db_wf db'"
  by (auto simp: upsert_skill_def db_wf_def latest_def[abs_def] intro: wf_with_cong split: if_splits)

lemma db_new_wf: "db_wf db_new"
  by (simp add: db_wf_def wf_with_def db_new_def entries_wf_def thread_events_def latest_def table_get_def)

interpretation store: step_invariant db_new store_step db_wf
proof
  fix db op assume "db_wf db"
  then show "db_wf (store_step db op)"
    by (cases op) (auto intro: ensure_workspace_wf ensure_thread_wf append_batch_wf upsert_skill_wf
        split: sum.split)
qed (rule db_new_wf)


interpretation skills: keyed_store "\<lambda>rows. table_get skr_skill_id rows"
  "\<lambda>rows row. table_upsert skr_skill_id (\<lambda>_ new. new) rows row" skr_skill_id "\<lambda>_. True"
  by unfold_locales (auto simp: table_upsert_replace dest: table_get_key)

section \<open>Paging\<close>

text \<open>Following \<open>before_first_seq\<close> from the newest page until there is no more.\<close>

fun pages :: "nat \<Rightarrow> Db \<Rightarrow> string \<Rightarrow> nat \<Rightarrow> nat option \<Rightarrow> StoreEntry list option" where
  "pages 0 db tid limit before = None"
| "pages (Suc fuel) db tid limit before =
     (case open_thread db tid \<lparr>pg_before_first_seq = before, pg_limit = limit\<rparr> of
        Inl _ \<Rightarrow> None
      | Inr v \<Rightarrow>
          if tv_has_more v
          then (case tv_entries v of [] \<Rightarrow> None
                | e # _ \<Rightarrow> map_option (\<lambda>older. older @ tv_entries v)
                    (pages fuel db tid limit (Some (se_first_seq e))))
          else Some (tv_entries v))"

definition the_entry :: "EntryRow \<Rightarrow> StoreEntry" where
  "the_entry r = projr (row_to_entry r)"

lemma rows_to_entries_ok:
  "(\<And>r. r \<in> set rs \<Longrightarrow> er_kind r \<in> range kind_as_str) \<Longrightarrow> rows_to_entries rs = Ok (map the_entry rs)"
proof (induction rs)
  case (Cons r rs)
  obtain k where "er_kind r = kind_as_str k" using Cons.prems[of r] by auto
  moreover have "kind_from_str (kind_as_str k) = Ok k" by (cases k) (simp_all add: kind_from_str_def)
  ultimately show ?case using Cons by (simp add: row_to_entry_def the_entry_def)
qed simp

lemma the_entry_seq: "er_kind r \<in> range kind_as_str \<Longrightarrow> se_first_seq (the_entry r) = er_first_seq r"
proof -
  assume "er_kind r \<in> range kind_as_str"
  then obtain k where "er_kind r = kind_as_str k" by auto
  moreover have "kind_from_str (kind_as_str k) = Ok k" by (cases k) (simp_all add: kind_from_str_def)
  ultimately show ?thesis by (simp add: the_entry_def row_to_entry_def)
qed

lemma strict_prefix_filter:
  "sorted_wrt (\<lambda>a b. f a < (f b :: nat)) xs \<Longrightarrow> m < length xs
    \<Longrightarrow> filter (\<lambda>r. f r < f (xs ! m)) xs = take m xs"
proof -
  assume s: "sorted_wrt (\<lambda>a b. f a < f b) xs" and m: "m < length xs"
  have xs: "xs = take m xs @ drop m xs" by simp
  have "\<forall>a \<in> set (take m xs). f a < f (xs ! m)"
    using s m by (auto simp: in_set_conv_nth sorted_wrt_iff_nth_less)
  moreover have "\<forall>a \<in> set (drop m xs). \<not> f a < f (xs ! m)"
    using s m by (auto simp: in_set_conv_nth sorted_wrt_iff_nth_less)
       (metis add.right_neutral add_less_cancel_left less_diff_conv2 nat_less_le nless_le not_gr_zero
          add.commute less_diff_conv order.asym)
  ultimately have "filter (\<lambda>r. f r < f (xs ! m)) (take m xs) = take m xs"
    "filter (\<lambda>r. f r < f (xs ! m)) (drop m xs) = []"
    by (simp_all add: filter_id_conv filter_empty_conv)
  then show ?thesis using filter_append[of "\<lambda>r. f r < f (xs ! m)" "take m xs" "drop m xs"] by simp
qed

definition sorted_entries :: "Db \<Rightarrow> string \<Rightarrow> EntryRow list" where
  "sorted_entries db tid = sort_key er_first_seq (thread_entries db tid)"

lemma sorted_entries_strict:
  assumes "db_wf db"
  shows "sorted_wrt (\<lambda>a b. er_first_seq a < er_first_seq b) (sorted_entries db tid)"
proof -
  have "distinct (map er_first_seq (thread_entries db tid))"
    using assms by (simp add: db_wf_def wf_with_def entries_wf_def thread_entries_def)
  then have "distinct (map er_first_seq (sorted_entries db tid))"
    by (simp add: sorted_entries_def distinct_map)
  moreover have "sorted (map er_first_seq (sorted_entries db tid))" by (simp add: sorted_entries_def)
  ultimately have "sorted_wrt (<) (map er_first_seq (sorted_entries db tid))"
    by (simp add: strict_sorted_iff)
  then show ?thesis by (simp add: sorted_wrt_map)
qed

lemma sorted_entries_kind:
  "db_wf db \<Longrightarrow> r \<in> set (sorted_entries db tid) \<Longrightarrow> er_kind r \<in> range kind_as_str"
  by (auto simp: sorted_entries_def thread_entries_def db_wf_def wf_with_def entries_wf_def entry_ok_def)

definition before_ok :: "nat option \<Rightarrow> EntryRow \<Rightarrow> bool" where
  "before_ok before r \<longleftrightarrow> (case before of None \<Rightarrow> True | Some b \<Rightarrow> er_first_seq r < b)"

lemma open_page:
  assumes "db_wf db" "table_get tr_id (db_threads db) tid = Some t" "limit + 1 < 2 ^ 32"
    "filter (before_ok before) (sorted_entries db tid) = take k (sorted_entries db tid)"
    "k \<le> length (sorted_entries db tid)"
  shows "open_thread db tid \<lparr>pg_before_first_seq = before, pg_limit = limit\<rparr> =
    Ok \<lparr>tv_entries = map the_entry (drop (k - limit) (take k (sorted_entries db tid))),
        tv_latest_seq = latest db tid, tv_has_more = (limit < k)\<rparr>"
proof -
  let ?S = "take k (sorted_entries db tid)"
  have "filter (\<lambda>r. er_thread_id r = tid \<and> (case before of None \<Rightarrow> True | Some b \<Rightarrow> er_first_seq r < b)) (db_entries db)
      = filter (before_ok before) (thread_entries db tid)"
    by (simp add: thread_entries_def before_ok_def[abs_def] conj_commute)
  then have rows: "sort_key er_first_seq (filter (\<lambda>r. er_thread_id r = tid
      \<and> (case before of None \<Rightarrow> True | Some b \<Rightarrow> er_first_seq r < b)) (db_entries db)) = ?S"
    using assms(4) by (simp add: sorted_entries_def filter_sort)
  have "er_kind r \<in> range kind_as_str" if "r \<in> set (take (limit + 1) (rev ?S))" for r
  proof -
    have "r \<in> set (sorted_entries db tid)" using that by (auto dest!: in_set_takeD)
    then show ?thesis by (rule sorted_entries_kind[OF assms(1)])
  qed
  from rows_to_entries_ok[OF this]
  have conv: "rows_to_entries (take (limit + 1) (rev ?S)) = Ok (map the_entry (take (limit + 1) (rev ?S)))" .
  have "rev (if limit < k then take limit (map the_entry (take (limit + 1) (rev ?S)))
        else map the_entry (take (limit + 1) (rev ?S))) = map the_entry (drop (k - limit) ?S)"
  proof -
    have tail: "rev (take n (rev xs)) = drop (length xs - n) xs" for n and xs :: "EntryRow list"
      by (simp add: rev_take)
    have "take limit (map the_entry (take (limit + 1) (rev ?S))) = map the_entry (take limit (rev ?S))"
      by (simp add: take_map)
    then show ?thesis using assms(5) tail[of limit ?S] tail[of "limit + 1" ?S]
      by (cases "limit < k") (simp_all add: rev_map del: rev_take)
  qed
  moreover have "limit < length (map the_entry (take (limit + 1) (rev ?S))) \<longleftrightarrow> limit < k"
    using assms(5) by auto
  moreover have "min (limit + 1) (2 ^ 32 - 1) = limit + 1" using assms(3) by simp
  moreover have "latest_seq_of db tid = Ok (latest db tid)"
    using assms(2) by (simp add: latest_seq_of_def latest_def)
  ultimately show ?thesis
    by (simp only: open_thread_def sum.case EntryPage.simps Let_def rows conv)
qed

lemma pages_prefix:
  assumes "db_wf db" "table_get tr_id (db_threads db) tid = Some t" "0 < limit" "limit + 1 < 2 ^ 32"
    "filter (before_ok before) (sorted_entries db tid) = take k (sorted_entries db tid)"
    "k \<le> length (sorted_entries db tid)" "k < fuel"
  shows "pages fuel db tid limit before = Some (map the_entry (take k (sorted_entries db tid)))"
  using assms(5-7)
proof (induction k arbitrary: fuel before rule: less_induct)
  case (less k)
  let ?S = "sorted_entries db tid"
  obtain f where f: "fuel = Suc f" using less.prems(3) by (cases fuel) auto
  note page = open_page[OF assms(1,2,4) less.prems(1,2)]
  show ?case
  proof (cases "limit < k")
    case False
    then show ?thesis using f page by simp
  next
    case True
    define m where "m = k - limit"
    have m: "m < k" "m < length ?S" using True assms(3) less.prems(2) by (simp_all add: m_def)
    have d: "drop m (take k ?S) = ?S ! m # drop (Suc m) (take k ?S)"
      using m by (simp add: Cons_nth_drop_Suc[symmetric])
    have hd: "se_first_seq (the_entry (?S ! m)) = er_first_seq (?S ! m)"
      by (rule the_entry_seq[OF sorted_entries_kind[OF assms(1) nth_mem[OF m(2)]]])
    have "filter (before_ok (Some (er_first_seq (?S ! m)))) ?S = take m ?S"
      using strict_prefix_filter[OF sorted_entries_strict[OF assms(1)] m(2)]
      by (simp add: before_ok_def[abs_def])
    then have "pages f db tid limit (Some (er_first_seq (?S ! m))) = Some (map the_entry (take m ?S))"
      using less.IH[OF m(1)] m less.prems(3) f by simp
    moreover have "take m ?S @ drop m (take k ?S) = take k ?S"
      using m by (metis append_take_drop_id le_eq_less_or_eq min.absorb1 take_take)
    then have "map the_entry (take m ?S) @ map the_entry (drop m (take k ?S)) = map the_entry (take k ?S)"
      by (metis map_append)
    ultimately show ?thesis using f page True d hd by (simp add: m_def[symmetric])
  qed
qed

text \<open>
  \<^emph>\<open>Paging is complete.\<close> Following the pages of a thread from the newest one backwards, with
  any positive page size, terminates and yields every materialized entry of the thread exactly
  once, in order of first sequence number.
\<close>

theorem paging_complete:
  assumes "db_wf db" "table_get tr_id (db_threads db) tid = Some t" "0 < limit" "limit + 1 < 2 ^ 32"
    "length (thread_entries db tid) < fuel"
  shows "pages fuel db tid limit None = Some (map the_entry (sorted_entries db tid))"
proof -
  have "filter (before_ok None) (sorted_entries db tid)
      = take (length (sorted_entries db tid)) (sorted_entries db tid)"
    by (simp add: before_ok_def)
  from pages_prefix[OF assms(1-4) this, of fuel] assms(5) show ?thesis
    by (simp add: sorted_entries_def)
qed

section \<open>Blob round trip\<close>

text \<open>Only \<open>put\<close> writes: every stored blob is under its own hash.\<close>

definition blobs_ok :: "('b \<Rightarrow> string) \<Rightarrow> 'b blobs \<Rightarrow> bool" where
  "blobs_ok hash fs \<longleftrightarrow> (\<forall>h b. fs h = Some b \<longrightarrow> hash b = h)"

interpretation blobs: step_invariant Map.empty "\<lambda>fs b. snd (blob_put hash b fs)" "blobs_ok hash" for hash
  by unfold_locales (auto simp: blobs_ok_def blob_put_def Let_def)

text \<open>
  \<^emph>\<open>Blobs are content-addressed.\<close> For an injective digest of at least two characters,
  whatever is stored before and after, \<open>get\<close> of the hash that \<open>put\<close> returned gives back the
  bytes, and a damaged file is reported as a mismatch instead of being returned.
\<close>

theorem blob_roundtrip:
  assumes "inj hash" "\<And>b. 2 \<le> length (hash b)"
  shows "let fs = run_steps (\<lambda>fs b. snd (blob_put hash b fs)) Map.empty before;
             (r, fs') = blob_put hash bytes fs;
             fs'' = run_steps (\<lambda>fs b. snd (blob_put hash b fs)) fs' after in
    r = Ok (hash bytes) \<and> blob_get hash (hash bytes) fs'' = Ok (Some bytes)
    \<and> (bad \<noteq> bytes \<longrightarrow> blob_get hash (hash bytes) (fs''(hash bytes \<mapsto> bad))
         = Err (BlobHashMismatch (hash bytes) (hash bad)))"
proof -
  have len: "\<not> length (hash b) < 2" for b using assms(2)[of b] by simp
  have keep: "fs h = Some b \<Longrightarrow> run_steps (\<lambda>fs b. snd (blob_put hash b fs)) fs bs h = Some b" for fs bs h b
  proof (induction bs arbitrary: fs)
    case (Cons a bs)
    have "snd (blob_put hash a fs) h = Some b"
      using Cons.prems by (auto simp: blob_put_def Let_def)
    then show ?case using Cons.IH by simp
  qed simp
  define fs where "fs = run_steps (\<lambda>fs b. snd (blob_put hash b fs)) Map.empty before"
  have ok: "blobs_ok hash fs" unfolding fs_def by (rule blobs.inv_run)
  obtain r fs' where p: "blob_put hash bytes fs = (r, fs')" by fastforce
  have r: "r = Ok (hash bytes)" and at: "fs' (hash bytes) = Some bytes"
    using p ok len assms(1)
    by (auto simp: blob_put_def Let_def blobs_ok_def split: if_splits dest: injD)
  have "run_steps (\<lambda>fs b. snd (blob_put hash b fs)) fs' after (hash bytes) = Some bytes"
    using at by (rule keep[of fs' "hash bytes" bytes])
  then show ?thesis
    unfolding fs_def[symmetric] Let_def p prod.case
    using r len assms(1) by (auto simp: blob_get_def blob_path_def Let_def inj_eq)
qed


section \<open>Witnesses\<close>

definition ex_event :: "string \<Rightarrow> NewEvent" where
  "ex_event m = \<lparr>ne_kind = ''chunk'', ne_payload = m,
     ne_entry = Some \<lparr>eu_kind = EK_Message, eu_entry_id = m, eu_turn_index = None, eu_payload = m\<rparr>\<rparr>"

definition ex_db :: Db where
  "ex_db = run_steps store_step db_new [EnsureWorkspace ''w'' ''/w'' ''none'', EnsureThread ''t'' ''w'',
     AppendBatch ''t'' 0 [ex_event ''a'', ex_event ''b'']]"

lemma ex_db_wf: "db_wf ex_db"
  unfolding ex_db_def by (rule store.inv_run)

lemmas ex_db_defs = ex_db_def db_new_def ensure_workspace_def table_ensure_def table_get_def
  ensure_thread_def get_workspace_def append_batch_def latest_seq_of_def insert_event_def
  upsert_entry_def table_upsert_def new_entry_row_def er_key_def ex_event_def merge_entry_def

lemma ex_db_thread: "table_get tr_id (db_threads ex_db) ''t''
    = Some \<lparr>tr_id = ''t'', tr_workspace_id = ''w'', tr_latest_seq = 2\<rparr>"
  by (simp add: ex_db_defs)

theorem append_batch_contiguous_witness:
  "fst (append_batch ''t'' 5 [ex_event ''c''] ex_db) = Ok \<lparr>sq_first = 3, sq_last = 3\<rparr>"
proof -
  obtain res db' where "append_batch ''t'' 5 [ex_event ''c''] ex_db = (res, db')" by fastforce
  moreover have "latest ex_db ''t'' = 2" using ex_db_thread by (simp add: latest_def)
  ultimately show ?thesis
    using append_batch_contiguous[OF ex_db_wf ex_db_thread, of 5 "[ex_event ''c'']" res db'] by simp
qed

theorem paging_complete_witness:
  "pages 3 ex_db ''t'' 1 None = Some (map the_entry (sorted_entries ex_db ''t''))"
proof -
  have "length (thread_entries ex_db ''t'') < 3" by (simp add: ex_db_defs thread_entries_def)
  from paging_complete[OF ex_db_wf ex_db_thread _ _ this, of 1] show ?thesis by simp
qed

theorem blob_roundtrip_witness:
  "blob_get (\<lambda>b. ''h:'' @ b) ''h:x'' (run_steps (\<lambda>fs b. snd (blob_put (\<lambda>b. ''h:'' @ b) b fs))
     (snd (blob_put (\<lambda>b. ''h:'' @ b) ''x'' Map.empty)) [''y'', ''x'']) = Ok (Some ''x'')"
proof -
  have "inj (\<lambda>b. ''h:'' @ b)" by (rule injI) simp
  from blob_roundtrip[OF this, of "[]" "''x''" "[''y'', ''x'']" "[]"] show ?thesis
    by (simp add: Let_def case_prod_beta del: run_steps.simps(2))
qed

end
