(* ===== verification/Tethys_Api.thy ===== *)
theory Tethys_Api
  imports Event_Store
begin

text \<open>
  The error type of \<^verbatim>\<open>crates/tethys-api/src/lib.rs\<close>, which every operation of the core returns,
  and the resolution of workspace identifiers to directories in
  \<^verbatim>\<open>crates/tethys-core/src/workspace_roots.rs\<close>, from the database or from a fixed table.
\<close>

datatype ApiError =
  Internal string
| NotFound string
| Unimplemented string
| IndexWarming string
| GitFailure string
| InvalidConfig string
| ApiConflict string
| CapabilitiesNotNegotiated
| DeleteBlocked "string list" "string list" bool

text \<open>A resolver of workspace roots is the function \<open>WorkspaceRoots::root\<close>.\<close>

type_synonym workspace_roots = "string \<Rightarrow> ApiError + string"

definition store_root :: "(string \<Rightarrow> string + WorkspaceRow option) \<Rightarrow> workspace_roots" where
  "store_root workspace i =
     (case workspace i of
        Inl e \<Rightarrow> Err (Internal e)
      | Inr (Some w) \<Rightarrow> Ok (ws_root_path w)
      | Inr None \<Rightarrow> Err (NotFound (''workspace not found: '' @ i)))"

type_synonym StaticWorkspaces = "string \<rightharpoonup> string"

definition static_insert :: "string \<Rightarrow> string \<Rightarrow> StaticWorkspaces \<Rightarrow> StaticWorkspaces" where
  "static_insert i path roots = roots(i \<mapsto> path)"

definition static_root :: "StaticWorkspaces \<Rightarrow> workspace_roots" where
  "static_root roots i =
     (case roots i of
        Some p \<Rightarrow> Ok p
      | None \<Rightarrow> Err (NotFound (''workspace not found: '' @ i)))"

text \<open>Both resolvers agree on a table that holds the rows of the database.\<close>

lemma static_store_root:
  "(\<And>i. roots i = map_option ws_root_path (get_workspace db i)) \<Longrightarrow>
   static_root roots = store_root (\<lambda>i. Ok (get_workspace db i))"
  by (auto simp: static_root_def store_root_def split: option.split)

end
