(* ===== verification/Thread_Sessions.thy ===== *)
theory Thread_Sessions
  imports Thread_Machine Connection_Store Sync_Registry Tethys_Api "HOL-Library.AList"
begin

text \<open>
  \<^verbatim>\<open>crates/tethys-core/src/thread_session.rs\<close>: the threads of the core. A thread handle is an object
  shared by the thread table, the operations in flight and its reader task, so handles live in a
  heap of addresses and the table maps thread ids to addresses. A handle owns its state machine,
  its event log, its connection lease and the reader slot; the connection store is the one of
  \<open>Connection_Store\<close>, the MCP servers come from \<open>Sync_Registry\<close>. The answers of agents, the clock
  and the file system are arguments (\<open>SessionEnv\<close>).
\<close>

section \<open>Data\<close>

record PermissionDecision =
  pd_outcome :: PermOutcome
  pd_option_id :: "string option"
  pd_decided_by :: Decider

definition permission_cancelled :: PermissionDecision where
  "permission_cancelled = \<lparr>pd_outcome = PermCancelled, pd_option_id = None, pd_decided_by = Decider_Policy\<rparr>"

definition deny_resolve :: "PermissionRequest \<Rightarrow> PermissionDecision" where
  "deny_resolve request = permission_cancelled"

record ConnectionEvent =
  cev_body :: TurnEventBody
  cev_replayed :: bool

record CreateThread =
  ct_workspace_id :: string
  ct_agent_profile_id :: string
  ct_workdir :: string

record ThreadSummary =
  ts_id :: string
  ts_workspace_id :: string
  ts_agent_profile_id :: string
  ts_title :: string
  ts_workdir :: string
  ts_state :: ThreadState
  ts_session_id :: "string option"

record ThreadDetail =
  td_thread :: ThreadSummary
  td_entries :: "Entry list"
  td_latest_seq :: u32

record ThreadInner =
  ti_machine :: ThreadMachine
  ti_workspace_id :: string
  ti_agent_profile_id :: string
  ti_workdir :: string
  ti_workspace_root :: string
  ti_session :: "string option"
  ti_lease :: "ConnectionLease option"
  ti_events :: "EventEnvelope list"
  ti_next_seq :: u32

text \<open>
  A subscription is the backlog taken under the lock followed by a broadcast receiver, which
  holds the last 1024 events sent and not yet received. \<open>th_reader\<close> is the reader slot, \<open>th_tasks\<close>
  the reader tasks still running on the handle.
\<close>

record Subscriber =
  sub_backlog :: "EventEnvelope list"
  sub_pending :: "EventEnvelope list"

record ThreadHandle =
  th_inner :: ThreadInner
  th_subscribers :: "Subscriber list"
  th_reader :: bool
  th_tasks :: "(conn \<times> string) list"

type_synonym addr = nat

record ThreadSessions =
  tss_store :: ConnectionStore
  tss_profiles :: "(string \<times> ConnectionKey \<times> AgentCompat) list"
  tss_threads :: "(string \<times> addr) list"
  tss_heap :: "(addr \<times> ThreadHandle) list"
  tss_next :: addr

record SessionEnv =
  env_now :: nat
  env_exited :: "child \<Rightarrow> bool"
  env_spawner :: spawner
  env_home :: string
  env_disabled :: "string set"
  env_reader :: reader
  env_parser :: registry_parser
  env_secrets :: secret_get
  env_new_session :: "conn \<Rightarrow> string \<Rightarrow> SessionServer list \<Rightarrow> string + string"
  env_resume_session :: "conn \<Rightarrow> string \<Rightarrow> string \<Rightarrow> SessionServer list \<Rightarrow> string + unit"
  env_prompt :: "conn \<Rightarrow> string \<Rightarrow> ContentBlock list \<Rightarrow> string + unit"
  env_cancel :: "conn \<Rightarrow> string \<Rightarrow> string + unit"
  env_killed :: "string + unit"

fun store_error_text :: "StoreError \<Rightarrow> string" where
  "store_error_text (UnknownProfile m) = ''unknown profile: '' @ m"
| "store_error_text (SpawnError m) = ''spawn failed: '' @ m"
| "store_error_text (ConnectError m) = ''connect failed: '' @ m"
| "store_error_text (RecoveryError m) = ''recovery failed: '' @ m"

section \<open>One thread\<close>

definition summary :: "ThreadInner \<Rightarrow> ThreadSummary" where
  "summary inner = \<lparr>ts_id = tm_id (ti_machine inner), ts_workspace_id = ti_workspace_id inner,
     ts_agent_profile_id = ti_agent_profile_id inner,
     ts_title = (case tm_title (ti_machine inner) of None \<Rightarrow> ''Untitled'' | Some t \<Rightarrow> t),
     ts_workdir = ti_workdir inner, ts_state = tm_state (ti_machine inner),
     ts_session_id = ti_session inner\<rparr>"

definition new_inner :: "string \<Rightarrow> CreateThread \<Rightarrow> string \<Rightarrow> ThreadInner" where
  "new_inner i request root = \<lparr>ti_machine = tm_new i, ti_workspace_id = ct_workspace_id request,
     ti_agent_profile_id = ct_agent_profile_id request, ti_workdir = ct_workdir request,
     ti_workspace_root = root, ti_session = None, ti_lease = None, ti_events = [], ti_next_seq = 0\<rparr>"

definition handle_live :: "ThreadHandle \<Rightarrow> (conn \<times> string) option" where
  "handle_live h =
     (case (ti_lease (th_inner h), ti_session (th_inner h)) of
        (Some lease, Some session) \<Rightarrow> Some (snd lease, session)
      | _ \<Rightarrow> None)"

definition envelope_of :: "ThreadInner \<Rightarrow> ConnectionEvent \<Rightarrow> EventEnvelope" where
  "envelope_of inner ev = \<lparr>env_thread_id = tm_id (ti_machine inner), env_seq = ti_next_seq inner,
     env_event = cev_body ev\<rparr>"

definition inner_event :: "ConnectionEvent \<Rightarrow> ThreadInner \<Rightarrow> ThreadInner" where
  "inner_event ev inner =
     inner\<lparr>ti_next_seq := ti_next_seq inner + 1,
       ti_machine := tm_apply (ti_next_seq inner) (cev_body ev)
         (if cev_replayed ev then Replay else Live) (ti_machine inner),
       ti_events := ti_events inner @ [envelope_of inner ev]\<rparr>"

definition subscriber_send :: "EventEnvelope \<Rightarrow> Subscriber \<Rightarrow> Subscriber" where
  "subscriber_send e sub = sub\<lparr>sub_pending := last_n 1024 (sub_pending sub @ [e])\<rparr>"

definition subscriber_next :: "Subscriber \<Rightarrow> EventEnvelope option \<times> Subscriber" where
  "subscriber_next sub =
     (case sub_backlog sub of
        e # es \<Rightarrow> (Some e, sub\<lparr>sub_backlog := es\<rparr>)
      | [] \<Rightarrow> (case sub_pending sub of
                 [] \<Rightarrow> (None, sub)
               | e # es \<Rightarrow> (Some e, sub\<lparr>sub_pending := es\<rparr>)))"

definition reader_event :: "ConnectionEvent \<Rightarrow> ThreadHandle \<Rightarrow> ThreadHandle" where
  "reader_event ev h =
     h\<lparr>th_inner := inner_event ev (th_inner h),
       th_subscribers := map (subscriber_send (envelope_of (th_inner h) ev)) (th_subscribers h)\<rparr>"

definition interrupt_if_active :: "ThreadMachine \<Rightarrow> ThreadMachine" where
  "interrupt_if_active m =
     (if tm_state m = TS_Running \<or> tm_state m = TS_AwaitingApproval then mark_interrupted m else m)"

text \<open>\<open>start_reader\<close> in its two steps: spawning the task, and storing its handle in the slot.\<close>

definition spawn_reader :: "conn \<Rightarrow> string \<Rightarrow> ThreadHandle \<Rightarrow> ThreadHandle" where
  "spawn_reader c session h = h\<lparr>th_tasks := th_tasks h @ [(c, session)]\<rparr>"

definition start_reader :: "conn \<Rightarrow> string \<Rightarrow> ThreadHandle \<Rightarrow> ThreadHandle" where
  "start_reader c session h =
     (if th_reader h then h else (spawn_reader c session h)\<lparr>th_reader := True\<rparr>)"

definition subscribe_handle :: "u32 \<Rightarrow> ThreadHandle \<Rightarrow> Subscriber \<times> ThreadHandle" where
  "subscribe_handle since_seq h =
     (let sub = \<lparr>sub_backlog = filter (\<lambda>e. since_seq \<le> env_seq e) (ti_events (th_inner h)),
                 sub_pending = []\<rparr> in
      (sub, h\<lparr>th_subscribers := th_subscribers h @ [sub]\<rparr>))"

section \<open>The table of threads\<close>

definition sessions_new :: "ConnectionStore \<Rightarrow> ThreadSessions" where
  "sessions_new store = \<lparr>tss_store = store, tss_profiles = [], tss_threads = [], tss_heap = [],
     tss_next = 0\<rparr>"

definition the_handle :: "ThreadSessions \<Rightarrow> addr \<Rightarrow> ThreadHandle" where
  "the_handle s a = the (map_of (tss_heap s) a)"

definition put_handle :: "addr \<Rightarrow> ThreadHandle \<Rightarrow> ThreadSessions \<Rightarrow> ThreadSessions" where
  "put_handle a h s = s\<lparr>tss_heap := AList.update a h (tss_heap s)\<rparr>"

definition find_handle :: "ThreadSessions \<Rightarrow> string \<Rightarrow> ApiError + addr" where
  "find_handle s i =
     (case map_of (tss_threads s) i of
        None \<Rightarrow> Err (NotFound (''thread '' @ i)) | Some a \<Rightarrow> Ok a)"

definition profile_key :: "ThreadSessions \<Rightarrow> string \<Rightarrow> ApiError + ConnectionKey" where
  "profile_key s profile_id =
     (case map_of (tss_profiles s) profile_id of
        None \<Rightarrow> Err (NotFound (''agent profile '' @ profile_id)) | Some (k, _) \<Rightarrow> Ok k)"

definition register_profile ::
  "nat \<Rightarrow> LaunchSpec \<Rightarrow> AgentCompat \<Rightarrow> ThreadSessions \<Rightarrow> string \<times> ThreadSessions" where
  "register_profile now spec cmpt s =
     (case register now spec cmpt (tss_store s) of
        (k, st) \<Rightarrow> (ls_profile_id spec, s\<lparr>tss_store := st,
           tss_profiles := AList.update (ls_profile_id spec) (k, cmpt) (tss_profiles s)\<rparr>))"

definition profiles_compat :: "ThreadSessions \<Rightarrow> (string \<times> ConnectionKey \<times> AgentCompat) list" where
  "profiles_compat s = sort_key fst (tss_profiles s)"

text \<open>Dropping a lease releases it in the store.\<close>

definition drop_lease :: "nat \<Rightarrow> ConnectionLease option \<Rightarrow> ConnectionStore \<Rightarrow> ConnectionStore" where
  "drop_lease now lease st = (case lease of None \<Rightarrow> st | Some (k, _) \<Rightarrow> release now k st)"

definition set_lease :: "nat \<Rightarrow> addr \<Rightarrow> ConnectionLease option \<Rightarrow> ThreadSessions \<Rightarrow> ThreadSessions" where
  "set_lease now a lease s =
     (let h = the_handle s a in
      put_handle a (h\<lparr>th_inner := (th_inner h)\<lparr>ti_lease := lease\<rparr>\<rparr>)
        (s\<lparr>tss_store := drop_lease now (ti_lease (th_inner h)) (tss_store s)\<rparr>))"

definition update_machine :: "addr \<Rightarrow> (ThreadMachine \<Rightarrow> ThreadMachine) \<Rightarrow> ThreadSessions \<Rightarrow> ThreadSessions" where
  "update_machine a f s =
     (let h = the_handle s a in
      put_handle a (h\<lparr>th_inner := (th_inner h)\<lparr>ti_machine := f (ti_machine (th_inner h))\<rparr>\<rparr>) s)"

text \<open>A handle that is out of the table is freed unless a reader task still holds it.\<close>

definition free_handle :: "nat \<Rightarrow> addr \<Rightarrow> ThreadSessions \<Rightarrow> ThreadSessions" where
  "free_handle now a s =
     (case map_of (tss_heap s) a of
        None \<Rightarrow> s
      | Some h \<Rightarrow>
          s\<lparr>tss_store := drop_lease now (ti_lease (th_inner h)) (tss_store s),
            tss_heap := AList.delete a (tss_heap s)\<rparr>)"

definition unlink :: "nat \<Rightarrow> addr \<Rightarrow> ThreadSessions \<Rightarrow> ThreadSessions" where
  "unlink now a s =
     (if th_tasks (the_handle s a) = [] then free_handle now a s else s)"

definition thread_name :: "nat \<Rightarrow> string" where
  "thread_name n = ''thread-'' @ show_nat n"

definition create ::
  "nat \<Rightarrow> workspace_roots \<Rightarrow> CreateThread \<Rightarrow> ThreadSessions \<Rightarrow> (ApiError + ThreadSummary) \<times> ThreadSessions" where
  "create now roots request s =
     (if map_of (tss_profiles s) (ct_agent_profile_id request) = None
      then (Err (NotFound (''agent profile '' @ ct_agent_profile_id request)), s)
      else case roots (ct_workspace_id request) of
          Inl e \<Rightarrow> (Err e, s)
        | Inr root \<Rightarrow>
            let i = thread_name (length (tss_threads s) + 1);
                inner = new_inner i request root;
                h = \<lparr>th_inner = inner, th_subscribers = [], th_reader = False, th_tasks = []\<rparr>;
                s' = s\<lparr>tss_threads := AList.update i (tss_next s) (tss_threads s),
                       tss_heap := (tss_next s, h) # tss_heap s, tss_next := tss_next s + 1\<rparr> in
            (Ok (summary inner),
             case map_of (tss_threads s) i of None \<Rightarrow> s' | Some old \<Rightarrow> unlink now old s'))"

definition thread_workspace_root :: "ThreadSessions \<Rightarrow> string \<Rightarrow> ApiError + string" where
  "thread_workspace_root s i =
     (case find_handle s i of Inl e \<Rightarrow> Err e
      | Inr a \<Rightarrow> Ok (ti_workspace_root (th_inner (the_handle s a))))"

definition threads_list :: "ThreadSessions \<Rightarrow> ThreadSummary list" where
  "threads_list s = map (\<lambda>(i, a). summary (th_inner (the_handle s a))) (tss_threads s)"

definition get_thread :: "ThreadSessions \<Rightarrow> string \<Rightarrow> ApiError + ThreadDetail" where
  "get_thread s i =
     (case find_handle s i of Inl e \<Rightarrow> Err e
      | Inr a \<Rightarrow>
          let inner = th_inner (the_handle s a) in
          Ok \<lparr>td_thread = summary inner, td_entries = tm_entries (ti_machine inner),
              td_latest_seq = ti_next_seq inner\<rparr>)"

definition archive :: "string \<Rightarrow> ThreadSessions \<Rightarrow> (ApiError + unit) \<times> ThreadSessions" where
  "archive i s =
     (case find_handle s i of Inl e \<Rightarrow> (Err e, s)
      | Inr a \<Rightarrow> (Ok (), update_machine a tm_archive s))"

text \<open>Deleting takes the thread out of the table and aborts its reader, which frees the handle.\<close>

definition delete_thread :: "nat \<Rightarrow> string \<Rightarrow> ThreadSessions \<Rightarrow> (ApiError + unit) \<times> ThreadSessions" where
  "delete_thread now i s =
     (Ok (), case map_of (tss_threads s) i of
        None \<Rightarrow> s
      | Some a \<Rightarrow> free_handle now a (s\<lparr>tss_threads := AList.delete i (tss_threads s)\<rparr>))"

definition subscribe ::
  "string \<Rightarrow> u32 \<Rightarrow> ThreadSessions \<Rightarrow> (ApiError + Subscriber) \<times> ThreadSessions" where
  "subscribe i since_seq s =
     (case find_handle s i of Inl e \<Rightarrow> (Err e, s)
      | Inr a \<Rightarrow> (case subscribe_handle since_seq (the_handle s a) of
                    (sub, h) \<Rightarrow> (Ok sub, put_handle a h s)))"

section \<open>Connections\<close>

definition transports_for ::
  "SessionEnv \<Rightarrow> ConnectionKey \<Rightarrow> ThreadSessions \<Rightarrow> (ApiError + McpTransports) \<times> ThreadSessions" where
  "transports_for env k s =
     (case store_entry (env_exited env) k (tss_store s) of
        (None, st) \<Rightarrow> (Err (NotFound (''connection for '' @ ck_profile_id k)), s\<lparr>tss_store := st\<rparr>)
      | (Some entry, st) \<Rightarrow>
          (case ce_capabilities entry of
             None \<Rightarrow> Err CapabilitiesNotNegotiated
           | Some caps \<Rightarrow>
               Ok (if ce_protocol entry = Some V1 then (nc_mcp caps)\<lparr>mt_stdio := True\<rparr> else nc_mcp caps),
           s\<lparr>tss_store := st\<rparr>))"

definition mcp_servers ::
  "SessionEnv \<Rightarrow> string \<Rightarrow> ConnectionKey \<Rightarrow> ThreadSessions \<Rightarrow> (ApiError + SessionServer list) \<times> ThreadSessions" where
  "mcp_servers env workspace_root k s =
     (case transports_for env k s of
        (Inl e, s') \<Rightarrow> (Err e, s')
      | (Inr transports, s') \<Rightarrow>
          (case spawn_servers_for_provider (env_reader env) (env_parser env) (env_secrets env)
                  (env_home env) workspace_root (Some (ck_profile_id k)) (env_disabled env) transports of
             Inl e \<Rightarrow> Err (Internal (sync_error_text e))
           | Inr servers \<Rightarrow> Ok servers, s'))"

definition mcp_servers_for_thread ::
  "SessionEnv \<Rightarrow> string \<Rightarrow> ThreadSessions \<Rightarrow> (ApiError + SessionServer list) \<times> ThreadSessions" where
  "mcp_servers_for_thread env i s =
     (case find_handle s i of Inl e \<Rightarrow> (Err e, s)
      | Inr a \<Rightarrow>
          let inner = th_inner (the_handle s a) in
          (case profile_key s (ti_agent_profile_id inner) of
             Inl e \<Rightarrow> (Err e, s)
           | Inr k \<Rightarrow> mcp_servers env (ti_workspace_root inner) k s))"

definition open_session ::
  "SessionEnv \<Rightarrow> conn \<Rightarrow> ThreadInner \<Rightarrow> SessionServer list \<Rightarrow> ApiError + string" where
  "open_session env c inner servers =
     (case ti_session inner of
        Some session \<Rightarrow>
          (case env_resume_session env c session (ti_workdir inner) servers of
             Inl e \<Rightarrow> Err (Internal e) | Inr _ \<Rightarrow> Ok session)
      | None \<Rightarrow>
          (case env_new_session env c (ti_workdir inner) servers of
             Inl e \<Rightarrow> Err (Internal e) | Inr session \<Rightarrow> Ok session))"

definition attach :: "nat \<Rightarrow> addr \<Rightarrow> ConnectionLease \<Rightarrow> string \<Rightarrow> ThreadSessions \<Rightarrow> ThreadSessions" where
  "attach now a lease session s =
     (let s' = set_lease now a (Some lease) s; h = the_handle s' a in
      put_handle a (start_reader (snd lease) session
        (h\<lparr>th_inner := (th_inner h)\<lparr>ti_session := Some session\<rparr>\<rparr>)) s')"

definition ensure_connection ::
  "SessionEnv \<Rightarrow> addr \<Rightarrow> ThreadSessions \<Rightarrow> (ApiError + unit) \<times> ThreadSessions" where
  "ensure_connection env a s =
     (let inner = th_inner (the_handle s a) in
      case profile_key s (ti_agent_profile_id inner) of
        Inl e \<Rightarrow> (Err e, s)
      | Inr k \<Rightarrow>
          if handle_live (the_handle s a) \<noteq> None then (Ok (), s)
          else case acquire (env_exited env) (env_now env) (env_spawner env) k (tss_store s) of
              (Inl e, st) \<Rightarrow> (Err (Internal (store_error_text e)), s\<lparr>tss_store := st\<rparr>)
            | (Inr lease, st) \<Rightarrow>
                (case mcp_servers env (ti_workspace_root inner) k (s\<lparr>tss_store := st\<rparr>) of
                   (Inl e, s') \<Rightarrow> (Err e, s'\<lparr>tss_store := drop_lease (env_now env) (Some lease) (tss_store s')\<rparr>)
                 | (Inr servers, s') \<Rightarrow>
                     (case open_session env (snd lease) inner servers of
                        Inl e \<Rightarrow> (Err e, s'\<lparr>tss_store := drop_lease (env_now env) (Some lease) (tss_store s')\<rparr>)
                      | Inr session \<Rightarrow> (Ok (), attach (env_now env) a lease session s'))))"

definition mark_transport_lost :: "nat \<Rightarrow> addr \<Rightarrow> ThreadSessions \<Rightarrow> ThreadSessions" where
  "mark_transport_lost now a s = update_machine a mark_interrupted (set_lease now a None s)"

definition prompt ::
  "SessionEnv \<Rightarrow> string \<Rightarrow> ContentBlock list \<Rightarrow> ThreadSessions \<Rightarrow> (ApiError + unit) \<times> ThreadSessions" where
  "prompt env i blocks s =
     (case find_handle s i of Inl e \<Rightarrow> (Err e, s)
      | Inr a \<Rightarrow>
          (case ensure_connection env a s of
             (Inl e, s') \<Rightarrow> (Err e, s')
           | (Inr _, s') \<Rightarrow>
               (case handle_live (the_handle s' a) of
                  None \<Rightarrow> (Err (Internal ''thread has no live connection''), s')
                | Some (c, session) \<Rightarrow>
                    (case env_prompt env c session blocks of
                       Inr _ \<Rightarrow> (Ok (), s')
                     | Inl e \<Rightarrow> (Err (Internal e), mark_transport_lost (env_now env) a s')))))"

definition cancel :: "SessionEnv \<Rightarrow> string \<Rightarrow> ThreadSessions \<Rightarrow> ApiError + unit" where
  "cancel env i s =
     (case find_handle s i of Inl e \<Rightarrow> Err e
      | Inr a \<Rightarrow>
          (case handle_live (the_handle s a) of
             None \<Rightarrow> Ok ()
           | Some (c, session) \<Rightarrow>
               (case env_cancel env c session of Inl e \<Rightarrow> Err (Internal e) | Inr _ \<Rightarrow> Ok ())))"

definition resume :: "SessionEnv \<Rightarrow> string \<Rightarrow> ThreadSessions \<Rightarrow> (ApiError + unit) \<times> ThreadSessions" where
  "resume env i s =
     (case find_handle s i of Inl e \<Rightarrow> (Err e, s)
      | Inr a \<Rightarrow> ensure_connection env a
          (update_machine a mark_resumed (set_lease (env_now env) a None s)))"

definition restart_connection ::
  "SessionEnv \<Rightarrow> string \<Rightarrow> ThreadSessions \<Rightarrow> (ApiError + unit) \<times> ThreadSessions" where
  "restart_connection env profile_id s =
     (case profile_key s profile_id of
        Inl e \<Rightarrow> (Err e, s)
      | Inr k \<Rightarrow>
          (case restart k (env_killed env) (tss_store s) of
             (Inl e, st) \<Rightarrow> (Err (Internal (store_error_text e)), s\<lparr>tss_store := st\<rparr>)
           | (Inr _, st) \<Rightarrow> (Ok (), s\<lparr>tss_store := st\<rparr>)))"

section \<open>The reader task\<close>

definition task_event :: "addr \<Rightarrow> ConnectionEvent \<Rightarrow> ThreadSessions \<Rightarrow> ThreadSessions" where
  "task_event a ev s = put_handle a (reader_event ev (the_handle s a)) s"

text \<open>The stream ended or the connection closed; the task gives up its share of the handle.\<close>

definition task_exit :: "nat \<Rightarrow> addr \<Rightarrow> (conn \<times> string) \<Rightarrow> ThreadSessions \<Rightarrow> ThreadSessions" where
  "task_exit now a task s =
     (let s1 = set_lease now a None (update_machine a interrupt_if_active s);
          h = the_handle s1 a;
          s2 = put_handle a (h\<lparr>th_reader := False, th_tasks := remove1 task (th_tasks h)\<rparr>) s1 in
      if map_of (tss_threads s2) (tm_id (ti_machine (th_inner h))) = Some a then s2 else unlink now a s2)"

section \<open>Interleaving\<close>

text \<open>
  Requests to the core run one after the other; the events and the end of the reader tasks, the
  idle reaper, close notifications and liveness checks of the store come at any point between
  them. The guards bound the number of leases by the width of the counter.
\<close>

definition lease_key :: "ThreadHandle \<Rightarrow> ConnectionKey option" where
  "lease_key h = map_option fst (ti_lease (th_inner h))"

definition held :: "(addr \<rightharpoonup> ThreadHandle) \<Rightarrow> ConnectionKey \<Rightarrow> nat" where
  "held m k = card {a. map_option lease_key (m a) = Some (Some k)}"

abbreviation heap_of :: "ThreadSessions \<Rightarrow> addr \<rightharpoonup> ThreadHandle" where
  "heap_of s \<equiv> map_of (tss_heap s)"

definition room :: "ThreadSessions \<Rightarrow> bool" where
  "room s \<longleftrightarrow> (\<forall>k. held (heap_of s) k + 1 < 2 ^ 32)"

inductive session_step :: "ThreadSessions \<Rightarrow> ThreadSessions \<Rightarrow> bool" where
  ss_register: "session_step s (snd (register_profile now spec cmpt s))"
| ss_create: "session_step s (snd (create now roots request s))"
| ss_archive: "session_step s (snd (archive i s))"
| ss_delete: "session_step s (snd (delete_thread now i s))"
| ss_subscribe: "session_step s (snd (subscribe i since s))"
| ss_servers: "session_step s (snd (mcp_servers_for_thread env i s))"
| ss_prompt: "room s \<Longrightarrow> session_step s (snd (prompt env i blocks s))"
| ss_resume: "room s \<Longrightarrow> session_step s (snd (resume env i s))"
| ss_restart: "session_step s (snd (restart_connection env profile_id s))"
| ss_event: "heap_of s a = Some h \<Longrightarrow> task \<in> set (th_tasks h) \<Longrightarrow> session_step s (task_event a ev s)"
| ss_exit: "heap_of s a = Some h \<Longrightarrow> task \<in> set (th_tasks h) \<Longrightarrow> session_step s (task_exit now a task s)"
| ss_reap: "session_step s (s\<lparr>tss_store := snd (reap_one k (tss_store s))\<rparr>)"
| ss_closed: "session_step s (s\<lparr>tss_store := watch_closed k c (tss_store s)\<rparr>)"
| ss_refresh: "session_step s (s\<lparr>tss_store := update_entry k (refresh_liveness exited) (tss_store s)\<rparr>)"

section \<open>The log and the machine\<close>

definition materialize :: "(TurnEventBody \<times> bool) list \<Rightarrow> Entry list" where
  "materialize = run_steps (\<lambda>entries (event, replayed). fst (apply_event entries event replayed)) []"

definition log_ok :: "ThreadInner \<Rightarrow> bool" where
  "log_ok inner \<longleftrightarrow>
     map env_seq (ti_events inner) = map of_nat [0..<length (ti_events inner)]
     \<and> ti_next_seq inner = of_nat (length (ti_events inner))
     \<and> (\<forall>e \<in> set (ti_events inner). env_thread_id e = tm_id (ti_machine inner))
     \<and> (\<exists>replayed. length replayed = length (ti_events inner)
          \<and> tm_entries (ti_machine inner) = materialize (zip (map env_event (ti_events inner)) replayed))"

lemma tm_apply_entries:
  "tm_entries (tm_apply seq event origin m) = fst (apply_event (tm_entries m) event (origin = Replay))"
proof -
  have "tm_entries (apply_live seq event m) = fst (apply_event (tm_entries m) event False)" for m
    by (cases "(seq, event, m)" rule: apply_live.cases) (simp_all add: Let_def frame_simps apply_entry_def)
  then show ?thesis by (cases origin) (simp_all add: tm_apply_def Let_def apply_entry_def)
qed

lemma tm_apply_id: "tm_id (tm_apply seq event origin m) = tm_id m"
  by (simp add: tm_apply_def Let_def frame_simps)

lemma inner_event_frame:
  "ti_lease (inner_event ev inner) = ti_lease inner"
  "tm_id (ti_machine (inner_event ev inner)) = tm_id (ti_machine inner)"
  by (simp_all add: inner_event_def tm_apply_id)

lemma log_ok_new: "log_ok (new_inner i request root)"
  by (simp add: log_ok_def new_inner_def tm_new_def materialize_def)

lemma log_ok_event:
  assumes "log_ok inner"
  shows "log_ok (inner_event ev inner)"
proof -
  obtain replayed where r: "length replayed = length (ti_events inner)"
    "tm_entries (ti_machine inner) = materialize (zip (map env_event (ti_events inner)) replayed)"
    using assms by (auto simp: log_ok_def)
  have "tm_entries (ti_machine (inner_event ev inner)) =
      materialize (zip (map env_event (ti_events inner @ [envelope_of inner ev])) (replayed @ [cev_replayed ev]))"
    using r by (simp add: inner_event_def tm_apply_entries materialize_def run_steps_append envelope_of_def)
  then have "\<exists>replayed. length replayed = Suc (length (ti_events inner)) \<and>
      tm_entries (ti_machine (inner_event ev inner)) =
      materialize (zip (map env_event (ti_events (inner_event ev inner))) replayed)"
    using r(1) by (intro exI[of _ "replayed @ [cev_replayed ev]"]) (simp add: inner_event_def)
  then show ?thesis
    using assms by (simp add: log_ok_def) (simp add: inner_event_def envelope_of_def tm_apply_id)
qed

lemma log_ok_updates [simp]:
  "log_ok (inner\<lparr>ti_lease := l\<rparr>) = log_ok inner"
  "log_ok (inner\<lparr>ti_session := x\<rparr>) = log_ok inner"
  by (simp_all add: log_ok_def)

lemma log_ok_machine:
  "log_ok inner \<Longrightarrow> tm_entries m = tm_entries (ti_machine inner) \<Longrightarrow> tm_id m = tm_id (ti_machine inner)
   \<Longrightarrow> log_ok (inner\<lparr>ti_machine := m\<rparr>)"
  by (simp add: log_ok_def)

lemma machine_marks:
  "tm_entries (mark_interrupted m) = tm_entries m" "tm_id (mark_interrupted m) = tm_id m"
  "tm_entries (mark_resumed m) = tm_entries m" "tm_id (mark_resumed m) = tm_id m"
  "tm_entries (tm_archive m) = tm_entries m" "tm_id (tm_archive m) = tm_id m"
  "tm_entries (interrupt_if_active m) = tm_entries m" "tm_id (interrupt_if_active m) = tm_id m"
  by (simp_all add: mark_interrupted_def mark_resumed_def tm_archive_def interrupt_if_active_def frame_simps)

section \<open>Leases\<close>

definition occ :: "ConnectionLease option \<Rightarrow> ConnectionKey \<Rightarrow> nat" where
  "occ l k = (if map_option fst l = Some k then 1 else 0)"

lemma occ_None [simp]: "occ None = (\<lambda>_. 0)"
  by (simp add: occ_def fun_eq_iff)

lemma held_upd:
  assumes "finite (dom m)"
  shows "held (m(a \<mapsto> h)) k = held (m(a := None)) k + occ (ti_lease (th_inner h)) k"
proof -
  let ?S = "{b. map_option lease_key ((m(a := None)) b) = Some (Some k)}"
  have "?S \<subseteq> dom m" by (auto split: if_splits)
  then have fin: "finite ?S" using assms finite_subset by blast
  have "{b. map_option lease_key ((m(a \<mapsto> h)) b) = Some (Some k)} =
      (if lease_key h = Some k then insert a ?S else ?S)" by (auto split: if_splits)
  moreover have "a \<notin> ?S" by simp
  ultimately show ?thesis using fin by (auto simp: held_def occ_def lease_key_def)
qed

lemma held_at: "finite (dom m) \<Longrightarrow> m a = Some h \<Longrightarrow>
    held m k = held (m(a := None)) k + occ (ti_lease (th_inner h)) k"
  using held_upd[of m a h k] by (simp add: map_upd_triv)

lemma held_none: "m a = None \<Longrightarrow> m(a := None) = m"
  by auto

lemma drop_lease_rows:
  assumes "rows_ok (\<lambda>k. f k + occ l k) st"
  shows "rows_ok f (drop_lease now l st)"
proof (cases l)
  case None
  then show ?thesis using assms by (simp add: drop_lease_def)
next
  case (Some kc)
  obtain k c where kc: "kc = (k, c)" by (cases kc)
  let ?g = "\<lambda>x. f x + occ l x"
  have "0 < ?g k" using Some kc by (simp add: occ_def)
  from rows_ok_release[where now = now, OF assms this]
  have "rows_ok (?g(k := ?g k - 1)) (release now k st)" .
  moreover have "?g(k := ?g k - 1) = f" using Some kc by (auto simp: occ_def fun_eq_iff)
  ultimately show ?thesis using Some kc by (simp add: drop_lease_def)
qed

lemma begin_spawn_known: "begin_spawn k st = Ok (p, st') \<Longrightarrow> cs_entries st' k \<noteq> None"
  by (auto simp: begin_spawn_def Let_def update_entry_def split: option.splits)

lemma spawn_connection_known:
  "spawn_connection sp k spec cmpt (kill c st) = (Ok s, st') \<Longrightarrow> cs_entries st' = cs_entries st"
  by (auto simp: spawn_connection_def kill_def split: SpawnResult.splits option.splits)

lemma acquire_rows:
  assumes ok: "rows_ok f st" and room: "f k + 1 < 2 ^ 32" and acq: "acquire exited now sp k st = (res, st')"
  shows "rows_ok (\<lambda>x. f x + (case res of Inl _ \<Rightarrow> 0 | Inr l \<Rightarrow> occ (Some l) x)) st'"
proof -
  obtain l st1 where r: "reuse exited now k st = (l, st1)" by fastforce
  note r1 = rows_ok_reuse[OF ok r]
  have plus: "(\<lambda>x. f x + occ (Some (k, c)) x) = f(k := f k + 1)" for c
    by (auto simp: occ_def fun_eq_iff)
  show ?thesis
  proof (cases l)
    case (Some lease)
    have "fst lease = k" using r Some by (auto simp: reuse_def Let_def split: option.splits if_splits)
    then have "lease = (k, snd lease)" by (metis prod.collapse)
    then show ?thesis using acq r Some r1 room plus[of "snd lease"] by (auto simp: acquire_def)
  next
    case None
    then have r2: "rows_ok f st1" using r1 by simp
    show ?thesis
    proof (cases "begin_spawn k st1")
      case (Inl e)
      then show ?thesis using acq r None r2 by (auto simp: acquire_def)
    next
      case (Inr ps)
      obtain p st2 where ps: "begin_spawn k st1 = Ok (p, st2)" using Inr by (cases ps) auto
      have r3: "rows_ok f (kill (ps_child p) st2)" using rows_ok_begin[OF r2 ps] by simp
      obtain res2 st3 where sp: "spawn_connection sp k (ps_spec p) (ps_compat p) (kill (ps_child p) st2) = (res2, st3)"
        by fastforce
      have r4: "rows_ok f st3" using rows_ok_spawn_connection[OF r3 sp] .
      show ?thesis
      proof (cases res2)
        case (Inl e)
        then show ?thesis using acq r None ps sp r4 by (auto simp: acquire_def)
      next
        case (Inr s)
        have "cs_entries st3 k \<noteq> None"
          using spawn_connection_known[of sp k _ _ _ st2] sp Inr begin_spawn_known[OF ps] by fastforce
        from rows_ok_install[OF r4 this room]
        have "rows_ok (f(k := f k + 1)) (snd (install now k s st3))" .
        then show ?thesis using acq r None ps sp Inr plus by (auto simp: acquire_def install_def)
      qed
    qed
  qed
qed

section \<open>The invariant\<close>

text \<open>\<open>extra\<close> counts the leases an operation in progress holds outside the handles.\<close>

definition sess_ok :: "(ConnectionKey \<Rightarrow> nat) \<Rightarrow> ThreadSessions \<Rightarrow> bool" where
  "sess_ok extra s \<longleftrightarrow>
     rows_ok (\<lambda>k. held (heap_of s) k + extra k) (tss_store s)
     \<and> (\<forall>a h. heap_of s a = Some h \<longrightarrow> a < tss_next s \<and> log_ok (th_inner h))
     \<and> (\<forall>i a. map_of (tss_threads s) i = Some a \<longrightarrow>
          (\<exists>h. heap_of s a = Some h \<and> tm_id (ti_machine (th_inner h)) = i))"

abbreviation sessions_inv :: "ThreadSessions \<Rightarrow> bool" where
  "sessions_inv \<equiv> sess_ok (\<lambda>_. 0)"

lemma finite_heap [simp]: "finite (dom (heap_of s))"
  by (rule finite_dom_map_of)

lemma sess_ok_table:
  "sess_ok x s \<Longrightarrow> find_handle s i = Ok a \<Longrightarrow> \<exists>h. heap_of s a = Some h \<and> tm_id (ti_machine (th_inner h)) = i"
  by (auto simp: sess_ok_def find_handle_def split: option.splits)

lemma sess_ok_store:
  "sess_ok x s \<Longrightarrow> (\<And>f. rows_ok f (tss_store s) \<Longrightarrow> rows_ok f st) \<Longrightarrow> sess_ok x (s\<lparr>tss_store := st\<rparr>)"
  by (simp add: sess_ok_def)

lemma heap_put [simp]: "heap_of (put_handle a h s) = (heap_of s)(a \<mapsto> h)"
  by (simp add: put_handle_def AList.update_conv')

lemma put_frame [simp]:
  "tss_threads (put_handle a h s) = tss_threads s" "tss_store (put_handle a h s) = tss_store s"
  "tss_profiles (put_handle a h s) = tss_profiles s" "tss_next (put_handle a h s) = tss_next s"
  by (simp_all add: put_handle_def)

lemma held_same:
  assumes "m a = Some h" "ti_lease (th_inner h') = ti_lease (th_inner h)" "finite (dom m)"
  shows "held (m(a \<mapsto> h')) = held m"
  using held_upd[OF assms(3), of a h'] held_at[OF assms(3,1)] assms(2) by (simp add: fun_eq_iff)

lemma sess_ok_put:
  assumes "sess_ok x s" "heap_of s a = Some h" "ti_lease (th_inner h') = ti_lease (th_inner h)"
    "log_ok (th_inner h')" "tm_id (ti_machine (th_inner h')) = tm_id (ti_machine (th_inner h))"
  shows "sess_ok x (put_handle a h' s)"
  using assms held_same[OF assms(2,3) finite_heap]
  unfolding sess_ok_def by (auto split: if_splits) force

lemma the_handle_eq: "heap_of s a = Some h \<Longrightarrow> the_handle s a = h"
  by (simp add: the_handle_def)

lemma sess_ok_log: "sess_ok x s \<Longrightarrow> heap_of s a = Some h \<Longrightarrow> log_ok (th_inner h)"
  by (auto simp: sess_ok_def)

lemma sess_ok_machine:
  assumes "sess_ok x s" "heap_of s a = Some h"
    "\<And>m. tm_entries (f m) = tm_entries m" "\<And>m. tm_id (f m) = tm_id m"
  shows "sess_ok x (update_machine a f s)"
  unfolding update_machine_def Let_def the_handle_eq[OF assms(2)]
  by (rule sess_ok_put[OF assms(1,2)]) (simp_all add: assms log_ok_machine sess_ok_log[OF assms(1,2)])

lemma update_machine_frame:
  assumes "heap_of s a = Some h"
  shows "heap_of (update_machine a f s) = (heap_of s)(a \<mapsto> h\<lparr>th_inner := (th_inner h)\<lparr>ti_machine := f (ti_machine (th_inner h))\<rparr>\<rparr>)"
    "tss_threads (update_machine a f s) = tss_threads s"
  using assms by (simp_all add: update_machine_def Let_def the_handle_eq)

lemma set_lease_frame:
  assumes "heap_of s a = Some h"
  shows "heap_of (set_lease now a l s) = (heap_of s)(a \<mapsto> h\<lparr>th_inner := (th_inner h)\<lparr>ti_lease := l\<rparr>\<rparr>)"
    "tss_threads (set_lease now a l s) = tss_threads s"
    "tss_profiles (set_lease now a l s) = tss_profiles s"
    "tss_next (set_lease now a l s) = tss_next s"
    "tss_store (set_lease now a l s) = drop_lease now (ti_lease (th_inner h)) (tss_store s)"
  using assms by (simp_all add: set_lease_def Let_def the_handle_eq)

lemma sess_ok_set_lease:
  assumes "sess_ok (\<lambda>k. x k + occ l k) s" "heap_of s a = Some h"
  shows "sess_ok x (set_lease now a l s)"
proof -
  let ?h = "h\<lparr>th_inner := (th_inner h)\<lparr>ti_lease := l\<rparr>\<rparr>" and ?m = "heap_of s"
  have at: "held ?m k = held (?m(a := None)) k + occ (ti_lease (th_inner h)) k" for k
    by (rule held_at[OF finite_heap assms(2)])
  have "rows_ok (\<lambda>k. held (?m(a := None)) k + occ l k + x k + occ (ti_lease (th_inner h)) k) (tss_store s)"
    using assms(1) by (simp add: sess_ok_def at ac_simps)
  from drop_lease_rows[OF this, of now]
  have "rows_ok (\<lambda>k. held (?m(a \<mapsto> ?h)) k + x k) (drop_lease now (ti_lease (th_inner h)) (tss_store s))"
    by (simp add: held_upd[OF finite_heap])
  then show ?thesis
    using assms unfolding sess_ok_def set_lease_frame[OF assms(2)] by (auto split: if_splits) force
qed

lemma sess_ok_free:
  assumes "sess_ok x s" "\<And>i. map_of (tss_threads s) i \<noteq> Some a"
  shows "sess_ok x (free_handle now a s)"
proof (cases "heap_of s a")
  case None
  then show ?thesis using assms by (simp add: free_handle_def)
next
  case (Some h)
  have "rows_ok (\<lambda>k. held ((heap_of s)(a := None)) k + x k + occ (ti_lease (th_inner h)) k) (tss_store s)"
    using assms(1) held_at[OF finite_heap Some] by (simp add: sess_ok_def ac_simps)
  from drop_lease_rows[OF this, of now] show ?thesis
    using assms Some by (auto simp: sess_ok_def free_handle_def AList.delete_conv' split: if_splits)
qed

lemma sess_ok_unlink:
  "sess_ok x s \<Longrightarrow> (\<And>i. map_of (tss_threads s) i \<noteq> Some a) \<Longrightarrow> sess_ok x (unlink now a s)"
  by (simp add: unlink_def sess_ok_free)

lemma sess_ok_mcp:
  assumes "sess_ok x s"
  shows "sess_ok x (snd (mcp_servers env root k s))"
    "heap_of (snd (mcp_servers env root k s)) = heap_of s"
    "tss_threads (snd (mcp_servers env root k s)) = tss_threads s"
proof -
  obtain row st where row: "store_entry (env_exited env) k (tss_store s) = (row, st)" by fastforce
  have st: "\<And>f. rows_ok f (tss_store s) \<Longrightarrow> rows_ok f st"
  proof -
    fix f assume f: "rows_ok f (tss_store s)"
    have "st = update_entry k (refresh_liveness (env_exited env)) (tss_store s)"
      using row by (auto simp: store_entry_def Let_def update_entry_def split: option.splits)
    then show "rows_ok f st" using rows_ok_refresh[OF f] by simp
  qed
  have "snd (transports_for env k s) = s\<lparr>tss_store := st\<rparr>"
    using row by (auto simp: transports_for_def split: option.splits)
  then have "snd (mcp_servers env root k s) = s\<lparr>tss_store := st\<rparr>"
    by (auto simp: mcp_servers_def split: prod.splits sum.splits)
  then show "sess_ok x (snd (mcp_servers env root k s))"
    "heap_of (snd (mcp_servers env root k s)) = heap_of s"
    "tss_threads (snd (mcp_servers env root k s)) = tss_threads s"
    using sess_ok_store[OF assms st] by simp_all
qed

lemma sess_ok_attach:
  assumes "sess_ok (\<lambda>k. x k + occ (Some lease) k) s" "heap_of s a = Some h"
  shows "sess_ok x (attach now a lease session s)"
proof -
  let ?s = "set_lease now a (Some lease) s"
  note ok = sess_ok_set_lease[OF assms, of now]
  let ?h = "h\<lparr>th_inner := (th_inner h)\<lparr>ti_lease := Some lease\<rparr>\<rparr>"
  have h: "heap_of ?s a = Some ?h" by (simp add: set_lease_frame[OF assms(2)])
  have log: "log_ok (th_inner ?h)" using sess_ok_log[OF assms] by simp
  show ?thesis
    unfolding attach_def Let_def the_handle_eq[OF h]
    by (rule sess_ok_put[OF ok h]) (use log in \<open>simp_all add: start_reader_def spawn_reader_def\<close>)
qed

lemma sess_ok_ensure:
  assumes ok: "sess_ok (\<lambda>_. 0) s" and h: "heap_of s a = Some h" and room: "room s"
  shows "sess_ok (\<lambda>_. 0) (snd (ensure_connection env a s))"
proof (cases "profile_key s (ti_agent_profile_id (th_inner h))")
  case (Inl e)
  then show ?thesis using ok h by (simp add: ensure_connection_def the_handle_eq)
next
  case k: (Inr k)
  obtain res st where acq: "acquire (env_exited env) (env_now env) (env_spawner env) k (tss_store s) = (res, st)"
    by fastforce
  have rows: "rows_ok (\<lambda>x. held (heap_of s) x + (case res of Inl _ \<Rightarrow> 0 | Inr l \<Rightarrow> occ (Some l) x)) st"
    using acquire_rows[OF _ _ acq, of "held (heap_of s)"] ok room by (simp add: sess_ok_def room_def)
  show ?thesis
  proof (cases res)
    case (Inl e)
    then have "sess_ok (\<lambda>_. 0) (s\<lparr>tss_store := st\<rparr>)" using ok rows by (simp add: sess_ok_def)
    then show ?thesis using ok h k acq Inl by (simp add: ensure_connection_def the_handle_eq Let_def)
  next
    case (Inr lease)
    let ?s1 = "s\<lparr>tss_store := st\<rparr>"
    have s1: "sess_ok (occ (Some lease)) ?s1" using ok rows Inr by (simp add: sess_ok_def)
    obtain res2 s2 where mcp: "mcp_servers env (ti_workspace_root (th_inner h)) k ?s1 = (res2, s2)" by fastforce
    have s2: "sess_ok (occ (Some lease)) s2" "heap_of s2 a = Some h"
      using sess_ok_mcp[OF s1, of env "ti_workspace_root (th_inner h)" k] mcp h by simp_all
    have drop: "sess_ok (\<lambda>_. 0) (s2\<lparr>tss_store := drop_lease (env_now env) (Some lease) (tss_store s2)\<rparr>)"
      using s2(1) drop_lease_rows[of "held (heap_of s2)" "Some lease" "tss_store s2" "env_now env"]
      by (simp add: sess_ok_def)
    have att: "sess_ok (\<lambda>_. 0) (attach (env_now env) a lease session s2)" for session
      using sess_ok_attach[of "\<lambda>_. 0" lease s2 a h] s2 by simp
    show ?thesis
      using ok h k acq Inr mcp drop att
      by (auto simp: ensure_connection_def the_handle_eq Let_def split: sum.splits)
  qed
qed

lemma sess_ok_inj:
  "sess_ok x s \<Longrightarrow> map_of (tss_threads s) i = Some a \<Longrightarrow> map_of (tss_threads s) j = Some a \<Longrightarrow> i = j"
  unfolding sess_ok_def by (metis option.inject)

lemma ensure_threads:
  "heap_of s a = Some h \<Longrightarrow> tss_threads (snd (ensure_connection env a s)) = tss_threads s"
proof -
  assume h: "heap_of s a = Some h"
  have mcp: "tss_threads (snd (mcp_servers env r k s')) = tss_threads s'" for r k s'
    by (auto simp: mcp_servers_def transports_for_def split: prod.splits sum.splits option.splits)
  have att: "tss_threads (attach now a l x s') = tss_threads s'" for now l x s'
    by (simp add: attach_def Let_def set_lease_def)
  have "tss_threads s' = tss_threads s"
    if "mcp_servers env r k (s\<lparr>tss_store := st\<rparr>) = (res, s')" for r k st res s'
    using mcp[of r k "s\<lparr>tss_store := st\<rparr>"] that by simp
  then show ?thesis
    by (auto simp: ensure_connection_def Let_def att split: sum.splits prod.splits)
qed

lemma sess_ok_create: "sessions_inv s \<Longrightarrow> sessions_inv (snd (create now roots request s))"
proof -
  assume ok: "sessions_inv s"
  let ?i = "thread_name (length (tss_threads s) + 1)"
  { fix root
    let ?h = "\<lparr>th_inner = new_inner ?i request root, th_subscribers = [], th_reader = False, th_tasks = []\<rparr>"
    let ?s = "s\<lparr>tss_threads := AList.update ?i (tss_next s) (tss_threads s),
                 tss_heap := (tss_next s, ?h) # tss_heap s, tss_next := tss_next s + 1\<rparr>"
    have fresh: "heap_of s (tss_next s) = None"
      using ok by (auto simp: sess_ok_def) (metis less_irrefl not_None_eq)
    have id: "tm_id (ti_machine (new_inner ?i request root)) = ?i" "ti_lease (new_inner ?i request root) = None"
      by (simp_all add: new_inner_def tm_new_def)
    have "held (heap_of ?s) = held (heap_of s)"
      using held_upd[OF finite_heap, of s "tss_next s" ?h] id held_none[of "heap_of s" "tss_next s", OF fresh] by (simp add: fun_eq_iff)
    moreover have "a < tss_next s" if "map_of (tss_threads s) j = Some a" for j a
      using ok that by (force simp: sess_ok_def)
    ultimately have s': "sessions_inv ?s"
      using ok id log_ok_new by (fastforce simp: sess_ok_def AList.update_conv' split: if_splits)
    have "sessions_inv (unlink now old ?s)" if old: "map_of (tss_threads s) ?i = Some old" for old
    proof (rule sess_ok_unlink[OF s'])
      fix j
      have "old \<noteq> tss_next s" using old fresh ok by (force simp: sess_ok_def)
      then show "map_of (tss_threads ?s) j \<noteq> Some old"
        using sess_ok_inj[OF ok old, of j] by (auto simp: AList.update_conv')
    qed
    note s' this }
  note both = this
  show ?thesis using ok both by (auto simp: create_def Let_def split: option.splits sum.splits)
qed

lemma sess_ok_delete: "sessions_inv s \<Longrightarrow> sessions_inv (snd (delete_thread now i s))"
proof (cases "map_of (tss_threads s) i")
  case (Some a)
  assume ok: "sessions_inv s"
  let ?s = "s\<lparr>tss_threads := AList.delete i (tss_threads s)\<rparr>"
  have "sessions_inv ?s" using ok by (auto simp: sess_ok_def AList.delete_conv' split: if_splits)
  moreover have "map_of (tss_threads ?s) j \<noteq> Some a" for j
    using sess_ok_inj[OF ok Some, of j] by (auto simp: AList.delete_conv')
  ultimately show ?thesis using sess_ok_free Some by (simp add: delete_thread_def)
qed (simp add: delete_thread_def)

lemma sess_ok_prompt:
  assumes ok: "sessions_inv s" and room: "room s"
  shows "sessions_inv (snd (prompt env i blocks s))"
proof (cases "find_handle s i")
  case (Inr a)
  obtain h where h: "heap_of s a = Some h" using sess_ok_table[OF ok Inr] by blast
  obtain res s' where e: "ensure_connection env a s = (res, s')" by fastforce
  have ok': "sessions_inv s'" using sess_ok_ensure[OF ok h room, of env] e by simp
  have "find_handle s' i = Ok a" using ensure_threads[OF h, of env] e Inr by (simp add: find_handle_def)
  then obtain h' where h': "heap_of s' a = Some h'" using sess_ok_table[OF ok'] by blast
  have "sess_ok (\<lambda>k. 0 + occ None k) s'" using ok' by simp
  from sess_ok_set_lease[OF this h'] have "sessions_inv (set_lease now a None s')" for now .
  then have "sessions_inv (mark_transport_lost now a s')" for now
    unfolding mark_transport_lost_def
    by (rule sess_ok_machine) (simp_all add: set_lease_frame[OF h'] machine_marks)
  then show ?thesis using Inr e ok' by (auto simp: prompt_def split: sum.splits option.splits)
qed (simp add: prompt_def ok)

lemma room_held: "room s \<Longrightarrow> (\<And>k. held (heap_of s') k \<le> held (heap_of s) k) \<Longrightarrow> room s'"
  unfolding room_def by (meson add_le_mono1 le_less_trans)

lemma sess_ok_resume:
  assumes ok: "sessions_inv s" and room: "room s"
  shows "sessions_inv (snd (resume env i s))"
proof (cases "find_handle s i")
  case (Inr a)
  obtain h where h: "heap_of s a = Some h" using sess_ok_table[OF ok Inr] by blast
  let ?s1 = "set_lease (env_now env) a None s" let ?s2 = "update_machine a mark_resumed ?s1"
  let ?h1 = "h\<lparr>th_inner := (th_inner h)\<lparr>ti_lease := None\<rparr>\<rparr>"
  have "sess_ok (\<lambda>k. 0 + occ None k) s" using ok by simp
  from sess_ok_set_lease[OF this h] have s1: "sessions_inv ?s1" .
  have h1: "heap_of ?s1 a = Some ?h1" by (simp add: set_lease_frame[OF h])
  have s2: "sessions_inv ?s2" by (rule sess_ok_machine[OF s1 h1]) (simp_all add: machine_marks)
  note f2 = update_machine_frame[OF h1, of mark_resumed]
  have "held (heap_of ?s2) = held (heap_of ?s1)"
    unfolding f2 using held_same[of "heap_of ?s1" a, OF h1] by simp
  moreover have "held (heap_of ?s1) k \<le> held (heap_of s) k" for k
    unfolding set_lease_frame[OF h] using held_upd[OF finite_heap, of s a ?h1 k] held_at[OF finite_heap h, of k]
    by simp
  ultimately have "room ?s2" using room_held[OF room] by simp
  then have "sessions_inv (snd (ensure_connection env a ?s2))"
    using sess_ok_ensure[OF s2] f2 by simp
  then show ?thesis using Inr by (simp add: resume_def)
qed (simp add: resume_def ok)

lemma sess_ok_exit:
  assumes ok: "sessions_inv s" and h: "heap_of s a = Some h"
  shows "sessions_inv (task_exit now a task s)"
proof -
  let ?s0 = "update_machine a interrupt_if_active s" let ?s1 = "set_lease now a None ?s0"
  have s0: "sessions_inv ?s0" by (rule sess_ok_machine[OF ok h]) (simp_all add: machine_marks)
  note f0 = update_machine_frame[OF h, of interrupt_if_active]
  obtain h0 where h0: "heap_of ?s0 a = Some h0" using f0 by simp
  have "sess_ok (\<lambda>k. 0 + occ None k) ?s0" using s0 by simp
  from sess_ok_set_lease[OF this h0] have s1: "sessions_inv ?s1" .
  let ?h1 = "h0\<lparr>th_inner := (th_inner h0)\<lparr>ti_lease := None\<rparr>\<rparr>"
  have h1: "heap_of ?s1 a = Some ?h1" by (simp add: set_lease_frame[OF h0])
  let ?h2 = "?h1\<lparr>th_reader := False, th_tasks := remove1 task (th_tasks ?h1)\<rparr>"
  let ?s2 = "put_handle a ?h2 ?s1"
  have s2: "sessions_inv ?s2" by (rule sess_ok_put[OF s1 h1]) (use sess_ok_log[OF s1 h1] in simp_all)
  have "sessions_inv (unlink now a ?s2)"
    if "map_of (tss_threads ?s2) (tm_id (ti_machine (th_inner ?h1))) \<noteq> Some a"
  proof (rule sess_ok_unlink[OF s2])
    fix j show "map_of (tss_threads ?s2) j \<noteq> Some a"
      using s2 that by (force simp: sess_ok_def)
  qed
  then show ?thesis using s2 by (simp add: task_exit_def Let_def the_handle_eq[OF h1])
qed

lemma sess_ok_step: "session_step s s' \<Longrightarrow> sessions_inv s \<Longrightarrow> sessions_inv s'"
proof (induction rule: session_step.induct)
  case (ss_register s now spec cmpt)
  then have "sessions_inv (s\<lparr>tss_store := snd (register now spec cmpt (tss_store s))\<rparr>)"
    by (rule sess_ok_store) (rule rows_ok_register)
  then show ?case by (auto simp: register_profile_def sess_ok_def split: prod.split)
next
  case (ss_archive s i)
  show ?case
  proof (cases "find_handle s i")
    case (Inr a)
    then obtain h where "heap_of s a = Some h" using sess_ok_table[OF ss_archive] by blast
    then show ?thesis using sess_ok_machine[OF ss_archive, of a h tm_archive] Inr
      by (simp add: archive_def machine_marks)
  qed (simp add: archive_def ss_archive)
next
  case (ss_subscribe s i since)
  show ?case
  proof (cases "find_handle s i")
    case (Inr a)
    then obtain h where h: "heap_of s a = Some h" using sess_ok_table[OF ss_subscribe] by blast
    have "sessions_inv (put_handle a (h\<lparr>th_subscribers := x\<rparr>) s)" for x
      by (rule sess_ok_put[OF ss_subscribe h]) (use sess_ok_log[OF ss_subscribe h] in simp_all)
    then show ?thesis using Inr by (simp add: subscribe_def subscribe_handle_def Let_def the_handle_eq[OF h])
  qed (simp add: subscribe_def ss_subscribe)
next
  case (ss_servers s env i)
  then show ?case using sess_ok_mcp(1)[OF ss_servers]
    by (auto simp: mcp_servers_for_thread_def Let_def split: sum.splits)
next
  case (ss_restart s env profile_id)
  have "sessions_inv (s\<lparr>tss_store := snd (restart k (env_killed env) (tss_store s))\<rparr>)" for k
    by (rule sess_ok_store[OF ss_restart]) (rule rows_ok_restart)
  then have "sessions_inv (s\<lparr>tss_store := st\<rparr>)" if "restart k (env_killed env) (tss_store s) = (r, st)" for k r st
    using that by (metis snd_conv)
  then show ?case using ss_restart by (auto simp: restart_connection_def split: sum.splits prod.splits)
next
  case (ss_event s a h task ev)
  then show ?case unfolding task_event_def the_handle_eq[OF ss_event(1)]
    by (intro sess_ok_put[OF ss_event(3,1)])
       (simp_all add: reader_event_def log_ok_event sess_ok_log[OF ss_event(3,1)] inner_event_frame)
next
  case (ss_exit s a h task now)
  then show ?case by (intro sess_ok_exit) simp_all
qed (simp_all add: sess_ok_create sess_ok_delete sess_ok_prompt sess_ok_resume
      sess_ok_store rows_ok_reap rows_ok_watch rows_ok_refresh)

lemma sess_ok_new: "sessions_inv (sessions_new (store_new options))"
  by (simp add: sess_ok_def sessions_new_def store_new_def rows_ok_def held_def)

interpretation sessions: transition_invariant
  "\<lambda>s. \<exists>options. s = sessions_new (store_new options)" session_step sessions_inv
  by unfold_locales (auto simp: sess_ok_new intro: sess_ok_step)

section \<open>Properties of reachable sessions\<close>

text \<open>
  C18. \<^emph>\<open>The view is the log.\<close> After any requests, reader events and exits, reaps,
  closes and liveness checks, the entries \<open>get\<close> returns for a thread are the events of its log
  applied in order (each live or replayed), the log is numbered 0, 1, 2 and so on without a gap,
  every envelope carries the thread's id, and the reported \<open>latest_seq\<close> is the number of the next
  event, all modulo the 32 bits of the counter.
\<close>
theorem thread_view_is_log:
  assumes "session_step\<^sup>*\<^sup>* (sessions_new (store_new options)) s" "find_handle s i = Ok a" "get_thread s i = Ok d"
  shows "\<exists>events replayed. events = ti_events (th_inner (the_handle s a))
    \<and> length replayed = length events
    \<and> td_entries d = materialize (zip (map env_event events) replayed)
    \<and> map env_seq events = map of_nat [0..<length events]
    \<and> td_latest_seq d = of_nat (length events)
    \<and> (\<forall>e \<in> set events. env_thread_id e = i) \<and> ts_id (td_thread d) = i"
proof -
  have ok: "sessions_inv s" using sessions.reach_inv[OF _ assms(1)] by blast
  obtain h where h: "heap_of s a = Some h" "tm_id (ti_machine (th_inner h)) = i"
    using sess_ok_table[OF ok assms(2)] by blast
  have "log_ok (th_inner h)" using sess_ok_log[OF ok h(1)] .
  then show ?thesis
    using assms(2,3) h by (auto simp: get_thread_def Let_def log_ok_def the_handle_eq summary_def)
qed

text \<open>
  C19. \<^emph>\<open>Leases are held by threads.\<close> In every reachable state the lease counter of a
  connection is the number of thread handles that hold a lease on it: failed session setups,
  replaced leases, ended readers and deleted threads give theirs back. A connected entry is held
  by some thread, one that is draining by none, and a thread never holds a lease on an unknown
  connection.
\<close>
theorem leases_held_by_threads:
  assumes "session_step\<^sup>*\<^sup>* (sessions_new (store_new options)) s"
  shows "(case cs_entries (tss_store s) k of
      None \<Rightarrow> held (heap_of s) k = 0
    | Some e \<Rightarrow> unat (e_leases e) = held (heap_of s) k
        \<and> (e_state e = L_Connected \<longrightarrow> (\<exists>a h c. heap_of s a = Some h \<and> ti_lease (th_inner h) = Some (k, c)))
        \<and> (e_state e = L_Draining \<longrightarrow> held (heap_of s) k = 0))"
proof -
  have ok: "rows_ok (held (heap_of s)) (tss_store s)"
    using sessions.reach_inv[OF _ assms(1)] by (auto simp: sess_ok_def)
  have "\<exists>a h c. heap_of s a = Some h \<and> ti_lease (th_inner h) = Some (k, c)" if "0 < held (heap_of s) k"
  proof -
    have "{a. map_option lease_key (heap_of s a) = Some (Some k)} \<noteq> {}"
      using that by (auto simp: held_def card_gt_0_iff)
    then show ?thesis by (auto simp: lease_key_def)
  qed
  note some = this
  show ?thesis
  proof (cases "cs_entries (tss_store s) k")
    case None
    then show ?thesis using ok by (simp add: rows_ok_def)
  next
    case (Some e)
    then have "lifecycle_ok (held (heap_of s) k) e" using ok by (rule rows_okD[rotated])
    then show ?thesis using Some some by (auto simp: lifecycle_ok_def)
  qed
qed

section \<open>Subscriptions\<close>

text \<open>A handle under observation: events of the reader interleaved with reads of the subscriber.\<close>

datatype WatchOp = W_Event ConnectionEvent | W_Next

fun watch ::
  "WatchOp list \<Rightarrow> ThreadInner \<times> Subscriber \<times> EventEnvelope list \<Rightarrow> ThreadInner \<times> Subscriber \<times> EventEnvelope list" where
  "watch [] x = x"
| "watch (W_Event ev # ops) (inner, sub, got) =
     watch ops (inner_event ev inner, subscriber_send (envelope_of inner ev) sub, got)"
| "watch (W_Next # ops) (inner, sub, got) =
     (case subscriber_next sub of
        (None, sub') \<Rightarrow> watch ops (inner, sub', got)
      | (Some e, sub') \<Rightarrow> watch ops (inner, sub', got @ [e]))"

text \<open>The receiver never has 1024 events waiting when another one is sent (\<open>b\<close> backlog, \<open>p\<close> waiting).\<close>

fun keeps_up :: "WatchOp list \<Rightarrow> nat \<Rightarrow> nat \<Rightarrow> bool" where
  "keeps_up [] b p = True"
| "keeps_up (W_Event ev # ops) b p \<longleftrightarrow> p < 1024 \<and> keeps_up ops b (p + 1)"
| "keeps_up (W_Next # ops) b p \<longleftrightarrow> keeps_up ops (b - 1) (if b = 0 then p - 1 else p)"

lemma last_n_short: "length xs \<le> n \<Longrightarrow> last_n n xs = xs"
  by (simp add: last_n_def)

lemma watch_keeps_up:
  "keeps_up ops (length (sub_backlog sub)) (length (sub_pending sub)) \<Longrightarrow>
   watch ops (inner, sub, got) = (inner', sub', got') \<Longrightarrow>
   \<exists>new. ti_events inner' = ti_events inner @ new \<and>
     got' @ sub_backlog sub' @ sub_pending sub' = got @ sub_backlog sub @ sub_pending sub @ new"
proof (induction ops "(inner, sub, got)" arbitrary: inner sub got rule: watch.induct)
  case (2 ev ops inner sub got)
  let ?sub = "subscriber_send (envelope_of inner ev) sub"
  have sub: "sub_backlog ?sub = sub_backlog sub" "sub_pending ?sub = sub_pending sub @ [envelope_of inner ev]"
    using "2.prems"(1) by (simp_all add: subscriber_send_def last_n_short)
  obtain new where "ti_events inner' = ti_events (inner_event ev inner) @ new"
    "got' @ sub_backlog sub' @ sub_pending sub' = got @ sub_backlog ?sub @ sub_pending ?sub @ new"
    using "2.hyps"[OF _ ] "2.prems" sub by auto
  then show ?case using sub
    by (intro exI[of _ "envelope_of inner ev # new"]) (simp add: inner_event_def)
next
  case (3 ops inner sub got)
  then show ?case
    by (cases "sub_backlog sub"; cases "sub_pending sub") (auto simp: subscriber_next_def)
qed simp

lemma watch_events:
  "length (sub_pending sub) \<le> 1024 \<Longrightarrow> watch (map W_Event evs) (inner, sub, got) = (inner', sub', got') \<Longrightarrow>
   \<exists>new. ti_events inner' = ti_events inner @ new \<and> length new = length evs \<and> got' = got \<and>
     sub_backlog sub' = sub_backlog sub \<and> sub_pending sub' = last_n 1024 (sub_pending sub @ new)"
proof (induction evs arbitrary: inner sub)
  case (Cons ev evs)
  let ?e = "envelope_of inner ev" let ?sub = "subscriber_send ?e sub"
  have len: "length (sub_pending ?sub) \<le> 1024" by (simp add: subscriber_send_def length_last_n)
  obtain new where new: "ti_events inner' = ti_events (inner_event ev inner) @ new" "length new = length evs"
    "got' = got" "sub_backlog sub' = sub_backlog ?sub" "sub_pending sub' = last_n 1024 (sub_pending ?sub @ new)"
    using Cons.IH[OF len] Cons.prems(2) by auto
  have "last_n 1024 (sub_pending ?sub @ new) = last_n 1024 (sub_pending sub @ ?e # new)"
    by (simp add: subscriber_send_def last_n_append[symmetric])
  then show ?case using new
    by (intro exI[of _ "?e # new"]) (simp add: inner_event_def subscriber_send_def)
qed (simp add: last_n_short)

lemma backlog_since:
  assumes "map env_seq es = map of_nat [0..<length es]" "length es < 2 ^ 32" "since \<le> length es"
  shows "filter (\<lambda>e. (of_nat since :: u32) \<le> env_seq e) es = drop since es"
proof -
  have seq: "env_seq (es ! j) = of_nat j" if "j < length es" for j
    using arg_cong[OF assms(1), of "\<lambda>xs. xs ! j"] that by simp
  have le: "(of_nat since :: u32) \<le> of_nat j \<longleftrightarrow> since \<le> j" if "j < length es" for j
    using that assms(2,3) by (simp add: word_le_nat_alt unat_of_nat take_bit_nat_eq_self)
  have "filter (\<lambda>e. (of_nat since :: u32) \<le> env_seq e) (take since es) = []"
    using assms(3) by (auto simp: filter_empty_conv in_set_conv_nth seq le)
  moreover have "filter (\<lambda>e. (of_nat since :: u32) \<le> env_seq e) (drop since es) = drop since es"
    using assms(3) by (auto simp: filter_id_conv in_set_conv_nth seq le simp del: of_nat_add)
  ultimately show ?thesis by (metis append_Nil append_take_drop_id filter_append)
qed

text \<open>
  C20. \<^emph>\<open>Subscribing after a view loses nothing.\<close> A subscriber that starts at any
  position of the log and keeps within the 1024 events of its channel receives, in order and
  without gap or repetition, exactly the events from that position on, whether they were logged
  before or after it subscribed; the rest is waiting for it. A subscriber that does not read while
  more than 1024 events arrive silently loses all but the last 1024 of them.
\<close>
theorem subscription_complete:
  assumes "session_step\<^sup>*\<^sup>* (sessions_new (store_new options)) s" "heap_of s a = Some h"
    "subscribe_handle (of_nat since) h = (sub, h')"
    "since \<le> length (ti_events (th_inner h))" "length (ti_events (th_inner h)) < 2 ^ 32"
  shows "(case watch ops (th_inner h', sub, []) of (inner', sub', got) \<Rightarrow>
        keeps_up ops (length (ti_events (th_inner h)) - since) 0 \<longrightarrow>
        got @ sub_backlog sub' @ sub_pending sub' = drop since (ti_events inner'))
    \<and> (case watch (map W_Event evs) (th_inner h', sub, []) of (inner', sub', got) \<Rightarrow>
        sub_backlog sub' @ sub_pending sub' = drop since (ti_events (th_inner h))
          @ last_n 1024 (drop (length (ti_events (th_inner h))) (ti_events inner')))"
proof -
  have "log_ok (th_inner h)"
    using sess_ok_log[OF _ assms(2)] sessions.reach_inv[OF _ assms(1)] by blast
  then have seqs: "map env_seq (ti_events (th_inner h)) = map of_nat [0..<length (ti_events (th_inner h))]"
    by (simp add: log_ok_def)
  have sub: "sub_backlog sub = drop since (ti_events (th_inner h))" "sub_pending sub = []" "th_inner h' = th_inner h"
    using assms(3) backlog_since[OF seqs assms(5,4)] by (auto simp: subscribe_handle_def Let_def)
  show ?thesis
  proof (intro conjI)
    obtain inner' sub' got where w: "watch ops (th_inner h, sub, []) = (inner', sub', got)"
      by (cases "watch ops (th_inner h, sub, [])")
    show "case watch ops (th_inner h', sub, []) of (inner', sub', got) \<Rightarrow>
        keeps_up ops (length (ti_events (th_inner h)) - since) 0 \<longrightarrow>
        got @ sub_backlog sub' @ sub_pending sub' = drop since (ti_events inner')"
      using watch_keeps_up[OF _ w] w sub assms(4) by auto
    obtain inner' sub' got where w: "watch (map W_Event evs) (th_inner h, sub, []) = (inner', sub', got)"
      by (cases "watch (map W_Event evs) (th_inner h, sub, [])")
    show "case watch (map W_Event evs) (th_inner h', sub, []) of (inner', sub', got) \<Rightarrow>
        sub_backlog sub' @ sub_pending sub' = drop since (ti_events (th_inner h))
          @ last_n 1024 (drop (length (ti_events (th_inner h))) (ti_events inner'))"
      using watch_events[OF _ w] w sub by auto
  qed
qed

section \<open>Where the code falls short\<close>

lemma unlink_frame:
  assumes "heap_of s a = Some h"
  shows "heap_of (unlink now a s) = (if th_tasks h = [] then (heap_of s)(a := None) else heap_of s)"
    "tss_threads (unlink now a s) = tss_threads s"
  using assms by (simp_all add: unlink_def free_handle_def the_handle_eq AList.delete_conv')

lemma length_update_known: "k \<in> fst ` set xs \<Longrightarrow> length (AList.update k v xs) = length xs"
  by (induction xs) auto

lemma thread_name_inj: "thread_name m = thread_name n \<Longrightarrow> m = n"
  by (simp add: thread_name_def show_nat_inj)

text \<open>
  \<^emph>\<open>Thread ids are reused.\<close> The id of a new thread is computed from the number of
  threads. When \<open>n\<close> threads with distinct ids are left and one of them is number \<open>n + 1\<close> (which
  happens as soon as any other thread has been deleted), creating a thread succeeds under that
  taken id: the table does not grow, the old thread cannot be reached any more, and its
  handle, with its lease, stays allocated as long as its reader runs.
\<close>
theorem create_replaces_thread:
  assumes "map_of (tss_threads s) (thread_name (length (tss_threads s) + 1)) = Some old"
    "map_of (tss_profiles s) (ct_agent_profile_id request) \<noteq> None" "roots (ct_workspace_id request) = Ok root"
    "heap_of s old = Some h" "old \<noteq> tss_next s"
  shows "(case create now roots request s of (res, s') \<Rightarrow>
      (\<exists>d. res = Ok d \<and> ts_id d = thread_name (length (tss_threads s) + 1))
      \<and> length (tss_threads s') = length (tss_threads s)
      \<and> (\<exists>d. get_thread s' (thread_name (length (tss_threads s) + 1)) = Ok d \<and> td_entries d = [] \<and> td_latest_seq d = 0)
      \<and> (if th_tasks h = [] then heap_of s' old = None else heap_of s' old = Some h))"
proof -
  let ?i = "thread_name (length (tss_threads s) + 1)"
  have len: "length (AList.update ?i v (tss_threads s)) = length (tss_threads s)" for v
  proof -
    have "?i \<in> fst ` set (tss_threads s)" using assms(1) by (auto dest: map_of_SomeD intro: rev_image_eqI)
    then show ?thesis by (rule length_update_known)
  qed
  let ?inner = "new_inner ?i request root"
  let ?h = "\<lparr>th_inner = ?inner, th_subscribers = [], th_reader = False, th_tasks = []\<rparr>"
  let ?s = "s\<lparr>tss_threads := AList.update ?i (tss_next s) (tss_threads s),
               tss_heap := (tss_next s, ?h) # tss_heap s, tss_next := tss_next s + 1\<rparr>"
  have c: "create now roots request s = (Ok (summary ?inner), unlink now old ?s)"
    using assms(1-3) by (simp add: create_def Let_def)
  have old: "heap_of ?s old = Some h" using assms(4,5) by simp
  have heap: "heap_of (unlink now old ?s) = (if th_tasks h = [] then (heap_of ?s)(old := None) else heap_of ?s)"
    "tss_threads (unlink now old ?s) = tss_threads ?s"
    by (rule unlink_frame[OF old])+
  have new: "the_handle (unlink now old ?s) (tss_next s) = ?h"
    using heap(1) assms(5) by (simp add: the_handle_def)
  have "find_handle (unlink now old ?s) ?i = Ok (tss_next s)"
    using heap(2) by (simp add: find_handle_def AList.update_conv')
  then have get: "get_thread (unlink now old ?s) ?i =
      Ok \<lparr>td_thread = summary ?inner, td_entries = [], td_latest_seq = 0\<rparr>"
    using new by (simp add: get_thread_def new_inner_def tm_new_def)
  have "ts_id (summary ?inner) = ?i" by (simp add: summary_def new_inner_def tm_new_def)
  then show ?thesis using c get heap len old by simp
qed

text \<open>
  \<^emph>\<open>A stale reader takes the new lease.\<close> When a thread is resumed while its old
  reader task is still running (the task ends only once the closed connection is noticed), no
  reader is started for the resumed session, and the end of the old task drops the new lease: the
  thread is left with neither a lease nor a reader although \<open>resume\<close> reported success.
\<close>
theorem stale_reader_drops_lease:
  assumes "find_handle s i = Ok a" "heap_of s a = Some h" "th_reader h" "th_tasks h = [task]"
    "resume env i s = (Ok (), s')"
  shows "\<exists>h' h''. heap_of s' a = Some h' \<and> ti_lease (th_inner h') \<noteq> None \<and> th_tasks h' = [task]
    \<and> heap_of (task_exit now a task s') a \<in> {None, Some h''}
    \<and> ti_lease (th_inner h'') = None \<and> th_tasks h'' = [] \<and> \<not> th_reader h''"
proof -
  let ?s1 = "set_lease (env_now env) a None s" let ?s2 = "update_machine a mark_resumed ?s1"
  let ?h1 = "h\<lparr>th_inner := (th_inner h)\<lparr>ti_lease := None\<rparr>\<rparr>"
  have h1: "heap_of ?s1 a = Some ?h1" by (simp add: set_lease_frame[OF assms(2)])
  obtain h2 where h2: "heap_of ?s2 a = Some h2" "th_reader h2" "th_tasks h2 = [task]" "ti_lease (th_inner h2) = None"
    unfolding update_machine_frame[OF h1] using assms(3,4) by simp
  have ens: "ensure_connection env a ?s2 = (Ok (), s')" using assms(1,5) by (simp add: resume_def)
  have live: "handle_live h2 = None" using h2(4) by (simp add: handle_live_def)
  obtain lease session s3 where s3: "s' = attach (env_now env) a lease session s3" "heap_of s3 = heap_of ?s2"
  proof -
    have frame: "heap_of s3 = heap_of s0" if "mcp_servers env r k (s0\<lparr>tss_store := st\<rparr>) = (res, s3)" for r k s0 st res s3
      using that by (auto simp: mcp_servers_def transports_for_def split: prod.splits sum.splits option.splits)
    show ?thesis
      using ens that live h2(1) frame
      by (auto simp: ensure_connection_def Let_def the_handle_eq split: sum.splits prod.splits)
  qed
  have h3: "heap_of s3 a = Some h2" using s3(2) h2(1) by simp
  obtain h' where h': "heap_of s' a = Some h'" "ti_lease (th_inner h') = Some lease" "th_tasks h' = [task]" "th_reader h'"
    unfolding s3(1) attach_def Let_def using set_lease_frame[OF h3] h2
    by (simp add: the_handle_def start_reader_def)
  obtain h0 where h0: "heap_of (update_machine a interrupt_if_active s') a = Some h0" "th_tasks h0 = [task]"
    unfolding update_machine_frame[OF h'(1)] using h'(3) by simp
  let ?s4 = "set_lease now a None (update_machine a interrupt_if_active s')"
  let ?h4 = "h0\<lparr>th_inner := (th_inner h0)\<lparr>ti_lease := None\<rparr>\<rparr>"
  let ?h'' = "?h4\<lparr>th_reader := False, th_tasks := remove1 task (th_tasks ?h4)\<rparr>"
  have h4: "heap_of ?s4 a = Some ?h4" by (simp add: set_lease_frame[OF h0(1)])
  have "heap_of (task_exit now a task s') a \<in> {None, Some ?h''}"
    by (simp add: task_exit_def Let_def the_handle_eq[OF h4] unlink_def free_handle_def AList.delete_conv')
  then show ?thesis
    using h' h0(2) by (intro exI[of _ h'] exI[of _ ?h'']) simp
qed

section \<open>A concrete run\<close>

definition ex_env :: SessionEnv where
  "ex_env = \<lparr>env_now = 5, env_exited = (\<lambda>_. False), env_spawner = (\<lambda>_ _. Spawns ex_spawned),
     env_home = ''/h'', env_disabled = {}, env_reader = (\<lambda>_. Err None), env_parser = (\<lambda>_. Err []),
     env_secrets = (\<lambda>_. Ok None), env_new_session = (\<lambda>_ _ _. Ok ''sess''),
     env_resume_session = (\<lambda>_ _ _ _. Ok ()), env_prompt = (\<lambda>_ _ _. Ok ()),
     env_cancel = (\<lambda>_ _. Ok ()), env_killed = Ok ()\<rparr>"

definition ex_request :: CreateThread where
  "ex_request = \<lparr>ct_workspace_id = ''w'', ct_agent_profile_id = ''codex'', ct_workdir = ''/w''\<rparr>"

definition ex_s1 :: ThreadSessions where
  "ex_s1 = snd (register_profile 0 ex_spec ex_compat (sessions_new (store_new ex_options)))"
definition ex_s2 :: ThreadSessions where
  "ex_s2 = snd (create 1 (\<lambda>_. Ok ''/w'') ex_request ex_s1)"
definition ex_s3 :: ThreadSessions where
  "ex_s3 = snd (prompt ex_env ''thread-1'' [] ex_s2)"
definition ex_chunk :: ConnectionEvent where
  "ex_chunk = \<lparr>cev_body = Ev_TerminalOutputChunk ''t'' ''x'', cev_replayed = False\<rparr>"
definition ex_s4 :: ThreadSessions where
  "ex_s4 = task_event 0 ex_chunk ex_s3"

lemma digit_1: "digit 1 = CHR ''1''" "digit 2 = CHR ''2''"
  by code_simp+

lemma ex_name: "thread_name 1 = ''thread-1''" "thread_name 2 = ''thread-2''"
  by (simp_all add: thread_name_def show_nat.simps digit_1[simplified])

lemma ex_s1_eq: "ex_s1 = \<lparr>tss_store = ex_registered, tss_profiles = [(''codex'', ex_key, ex_compat)],
    tss_threads = [], tss_heap = [], tss_next = 0\<rparr>"
  by (simp add: ex_s1_def register_profile_def sessions_new_def ex_registered_def register_def Let_def
      ex_spec_def launch_new_def ex_key_def store_new_def)

definition ex_handle :: ThreadHandle where
  "ex_handle = \<lparr>th_inner = new_inner ''thread-1'' ex_request ''/w'', th_subscribers = [],
     th_reader = False, th_tasks = []\<rparr>"

lemma ex_s2_eq: "ex_s2 = \<lparr>tss_store = ex_registered, tss_profiles = [(''codex'', ex_key, ex_compat)],
    tss_threads = [(''thread-1'', 0)], tss_heap = [(0, ex_handle)], tss_next = 1\<rparr>"
  by (simp add: ex_s2_def ex_s1_eq create_def ex_request_def Let_def ex_name[simplified] ex_handle_def)

lemma ex_reach_s2: "session_step\<^sup>*\<^sup>* (sessions_new (store_new ex_options)) ex_s2"
proof -
  have "session_step (sessions_new (store_new ex_options)) ex_s1" unfolding ex_s1_def by (rule ss_register)
  moreover have "session_step ex_s1 ex_s2" unfolding ex_s2_def by (rule ss_create)
  ultimately show ?thesis by (meson converse_rtranclp_into_rtranclp r_into_rtranclp)
qed

lemma ex_acquire:
  "acquire (\<lambda>_. False) 5 (\<lambda>_ _. Spawns ex_spawned) ex_key ex_registered = (Ok (ex_key, 9), ex_connected)"
  by (simp add: acquire_def reuse_def refresh_liveness_def spawn_connection_def kill_def ex_defs)

lemma ex_servers: "mcp_servers ex_env ''/w'' ex_key (s\<lparr>tss_store := ex_connected\<rparr>)
    = (Ok [], s\<lparr>tss_store := ex_connected\<rparr>)"
proof -
  have "store_entry (\<lambda>_. False) ex_key ex_connected =
      (Some (entry_row (the (cs_entries ex_connected ex_key)) CS_Connected (Some V1)), ex_connected)"
    by (simp add: store_entry_def refresh_liveness_def ex_defs)
  then have "transports_for ex_env ex_key (s\<lparr>tss_store := ex_connected\<rparr>)
      = (Ok (nc_mcp (sp_capabilities ex_spawned)), s\<lparr>tss_store := ex_connected\<rparr>)"
    by (simp add: transports_for_def ex_env_def entry_row_def ex_defs)
  moreover have "registry_load (\<lambda>_. Err None) (\<lambda>_. Err []) (Some g) (Some w) =
      Ok \<lparr>reg_global = registry_default, reg_workspace = registry_default\<rparr>" for g w
    by (simp add: registry_load_def load_or_default_def read_registry_def)
  ultimately show ?thesis
    by (simp add: mcp_servers_def spawn_servers_for_provider_def ex_env_def effective_for_provider_def
        merged_entries_def registry_default_def session_servers_def resolve_secrets_def)
qed

definition ex_attached :: ThreadHandle where
  "ex_attached = \<lparr>th_inner = (new_inner ''thread-1'' ex_request ''/w'')\<lparr>ti_lease := Some (ex_key, 9),
     ti_session := Some ''sess''\<rparr>, th_subscribers = [], th_reader = True, th_tasks = [(9, ''sess'')]\<rparr>"

lemma ex_ensure: "ensure_connection ex_env 0 ex_s2 =
    (Ok (), ex_s2\<lparr>tss_store := ex_connected, tss_heap := [(0, ex_attached)]\<rparr>)"
proof -
  have k: "profile_key ex_s2 (ti_agent_profile_id (th_inner ex_handle)) = Ok ex_key"
    by (simp add: profile_key_def ex_s2_eq ex_handle_def new_inner_def ex_request_def)
  have h: "the_handle ex_s2 0 = ex_handle" by (simp add: the_handle_def ex_s2_eq)
  have acq: "acquire (env_exited ex_env) (env_now ex_env) (env_spawner ex_env) ex_key (tss_store ex_s2) = (Ok (ex_key, 9), ex_connected)"
    using ex_acquire by (simp add: ex_env_def ex_s2_eq)
  have live: "handle_live ex_handle = None" by (simp add: handle_live_def ex_handle_def new_inner_def)
  have root: "ti_workspace_root (th_inner ex_handle) = ''/w''" by (simp add: ex_handle_def new_inner_def)
  have opens: "open_session ex_env (snd (ex_key, 9 :: nat)) (th_inner ex_handle) [] = Ok ''sess''"
    by (simp add: open_session_def ex_handle_def new_inner_def ex_env_def)
  have att: "attach 5 0 (ex_key, 9) ''sess'' (ex_s2\<lparr>tss_store := ex_connected\<rparr>) =
      ex_s2\<lparr>tss_store := ex_connected, tss_heap := [(0, ex_attached)]\<rparr>"
    by (simp add: attach_def set_lease_def the_handle_def put_handle_def ex_s2_eq ex_handle_def
        ex_attached_def start_reader_def spawn_reader_def drop_lease_def new_inner_def)
  have now: "env_now ex_env = 5" by (simp add: ex_env_def)
  show ?thesis
    unfolding ensure_connection_def Let_def h k live root
    using acq ex_servers opens att now by simp
qed

lemma ex_s3_eq: "ex_s3 = ex_s2\<lparr>tss_store := ex_connected, tss_heap := [(0, ex_attached)]\<rparr>"
proof -
  have "find_handle ex_s2 ''thread-1'' = Ok 0" by (simp add: find_handle_def ex_s2_eq)
  moreover have "env_prompt ex_env c x b = Ok ()" for c x b by (simp add: ex_env_def)
  ultimately show ?thesis
    by (simp add: ex_s3_def prompt_def ex_ensure the_handle_def handle_live_def ex_attached_def new_inner_def)
qed

lemma ex_reach_s4: "session_step\<^sup>*\<^sup>* (sessions_new (store_new ex_options)) ex_s4"
proof -
  have "held (heap_of ex_s2) k = 0" for k
    by (simp add: held_def ex_s2_eq ex_handle_def lease_key_def new_inner_def)
  then have "room ex_s2" by (simp add: room_def)
  then have s3: "session_step ex_s2 ex_s3" unfolding ex_s3_def by (rule ss_prompt)
  have "session_step ex_s3 ex_s4" unfolding ex_s4_def
    by (rule ss_event[of ex_s3 0 ex_attached "(9, ''sess'')"]) (simp_all add: ex_s3_eq ex_attached_def)
  with s3 ex_reach_s2 show ?thesis by (meson rtranclp.rtrancl_into_rtrancl)
qed

lemma ex_s4_lookup: "find_handle ex_s4 ''thread-1'' = Ok 0"
  "heap_of ex_s4 0 = Some (reader_event ex_chunk ex_attached)"
  by (simp_all add: ex_s4_def task_event_def find_handle_def ex_s3_eq ex_s2_eq put_handle_def the_handle_def)

theorem thread_view_is_log_witness:
  "\<exists>d replayed. get_thread ex_s4 ''thread-1'' = Ok d \<and> length replayed = 1
     \<and> td_entries d = materialize (zip [Ev_TerminalOutputChunk ''t'' ''x''] replayed) \<and> td_latest_seq d = 1"
proof -
  obtain d where d: "get_thread ex_s4 ''thread-1'' = Ok d"
    by (simp add: get_thread_def ex_s4_lookup Let_def)
  have "ti_events (th_inner (the_handle ex_s4 0)) = [envelope_of (th_inner ex_attached) ex_chunk]"
    by (simp add: the_handle_eq[OF ex_s4_lookup(2)] reader_event_def inner_event_def ex_attached_def new_inner_def)
  then show ?thesis
    using thread_view_is_log[OF ex_reach_s4 ex_s4_lookup(1) d] d
    by (auto simp: envelope_of_def ex_chunk_def)
qed

theorem leases_held_by_threads_witness:
  "(case cs_entries (tss_store ex_s4) ex_key of None \<Rightarrow> False | Some e \<Rightarrow> unat (e_leases e) = held (heap_of ex_s4) ex_key)
   \<and> 0 < held (heap_of ex_s4) ex_key"
proof -
  have st: "tss_store ex_s4 = ex_connected" by (simp add: ex_s4_def task_event_def ex_s3_eq)
  obtain e where e: "cs_entries ex_connected ex_key = Some e" "e_leases e = 1" by (simp add: ex_defs)
  then show ?thesis using leases_held_by_threads[OF ex_reach_s4, of ex_key] st by auto
qed

theorem subscription_complete_witness:
  "case watch [W_Event ex_chunk, W_Next] (th_inner ex_handle, \<lparr>sub_backlog = [], sub_pending = []\<rparr>, []) of
     (inner', sub', got) \<Rightarrow> got @ sub_backlog sub' @ sub_pending sub' = ti_events inner' \<and> length got = 1"
proof -
  have h: "heap_of ex_s2 0 = Some ex_handle" by (simp add: ex_s2_eq)
  have s: "subscribe_handle (of_nat 0) ex_handle = (\<lparr>sub_backlog = [], sub_pending = []\<rparr>,
      ex_handle\<lparr>th_subscribers := [\<lparr>sub_backlog = [], sub_pending = []\<rparr>]\<rparr>)"
    by (simp add: subscribe_handle_def ex_handle_def new_inner_def Let_def)
  show ?thesis
    using subscription_complete[OF ex_reach_s2 h s, of "[W_Event ex_chunk, W_Next]" "[]"]
    by (simp add: ex_handle_def new_inner_def subscriber_send_def subscriber_next_def last_n_def inner_event_def)
qed

definition ex_two :: ThreadSessions where
  "ex_two = ex_s2\<lparr>tss_threads := [(''thread-2'', 0)]\<rparr>"

theorem create_replaces_thread_witness:
  "length (tss_threads (snd (create 1 (\<lambda>_. Ok ''/w'') ex_request ex_two))) = 1"
proof -
  have "map_of (tss_threads ex_two) (thread_name (length (tss_threads ex_two) + 1)) = Some 0"
    using ex_name(2) by (simp add: ex_two_def numeral_2_eq_2)
  then show ?thesis
    using create_replaces_thread[of ex_two 0 ex_request "\<lambda>_. Ok ''/w''" "''/w''" ex_handle 1]
    by (auto simp: ex_two_def ex_s2_eq ex_request_def split: prod.splits)
qed

definition ex_stale_handle :: ThreadHandle where
  "ex_stale_handle = ex_handle\<lparr>th_reader := True, th_tasks := [(3, ''old'')]\<rparr>"

definition ex_stale :: ThreadSessions where
  "ex_stale = ex_s2\<lparr>tss_heap := [(0, ex_stale_handle)]\<rparr>"

lemma ex_stale_resume: "\<exists>s'. resume ex_env ''thread-1'' ex_stale = (Ok (), s')"
proof -
  have s: "update_machine 0 mark_resumed (set_lease (env_now ex_env) 0 None ex_stale) = ex_stale"
    by (simp add: update_machine_def set_lease_def the_handle_def put_handle_def ex_stale_def ex_s2_eq
        ex_stale_handle_def ex_handle_def new_inner_def tm_new_def mark_resumed_def drop_lease_def)
  have h: "the_handle ex_stale 0 = ex_stale_handle" by (simp add: the_handle_def ex_stale_def)
  have k: "profile_key ex_stale (ti_agent_profile_id (th_inner ex_stale_handle)) = Ok ex_key"
    by (simp add: profile_key_def ex_stale_def ex_s2_eq ex_stale_handle_def ex_handle_def new_inner_def ex_request_def)
  have live: "handle_live ex_stale_handle = None"
    by (simp add: handle_live_def ex_stale_handle_def ex_handle_def new_inner_def)
  have root: "ti_workspace_root (th_inner ex_stale_handle) = ''/w''"
    by (simp add: ex_stale_handle_def ex_handle_def new_inner_def)
  have acq: "acquire (env_exited ex_env) (env_now ex_env) (env_spawner ex_env) ex_key (tss_store ex_stale) = (Ok (ex_key, 9), ex_connected)"
    using ex_acquire by (simp add: ex_env_def ex_stale_def ex_s2_eq)
  have opens: "open_session ex_env 9 (th_inner ex_stale_handle) [] = Ok ''sess''"
    by (simp add: open_session_def ex_stale_handle_def ex_handle_def new_inner_def ex_env_def)
  have "\<exists>s'. ensure_connection ex_env 0 ex_stale = (Ok (), s')"
    unfolding ensure_connection_def Let_def h k live root using acq ex_servers[of ex_stale] opens by simp
  moreover have "find_handle ex_stale ''thread-1'' = Ok 0" by (simp add: find_handle_def ex_stale_def ex_s2_eq)
  ultimately show ?thesis using s by (simp add: resume_def)
qed

theorem stale_reader_drops_lease_witness:
  "\<exists>s' h'. resume ex_env ''thread-1'' ex_stale = (Ok (), s') \<and> heap_of s' 0 = Some h'
     \<and> ti_lease (th_inner h') \<noteq> None \<and> th_tasks h' = [(3, ''old'')]"
proof -
  have f: "find_handle ex_stale ''thread-1'' = Ok 0" "heap_of ex_stale 0 = Some ex_stale_handle"
    by (simp_all add: find_handle_def ex_stale_def ex_s2_eq)
  have at: "th_reader ex_stale_handle" "th_tasks ex_stale_handle = [(3, ''old'')]"
    by (simp_all add: ex_stale_handle_def)
  obtain s' where s': "resume ex_env ''thread-1'' ex_stale = (Ok (), s')" using ex_stale_resume by blast
  from stale_reader_drops_lease[OF f at s'] s' show ?thesis by blast
qed

end
