(* ===== verification/Acp_Client.thy ===== *)
theory Acp_Client
  imports Acp_Map Thread_Sessions
begin

text \<open>
  \<^verbatim>\<open>crates/tethys-acp/src/client.rs\<close>: one agent connection. The state behind the handlers of the
  protocol library holds, per session, the event channel, the synthetic message ids and whether the
  agent is replaying a transcript. The agent is the parameter \<open>AcpAgent\<close>: for the n-th request it says
  which messages arrive before the answer, and the answer. A permission resolver runs as a task of
  its own, so its decision is a message as well.
\<close>

section \<open>Channels\<close>

text \<open>A broadcast receiver holds the last 1024 events sent since it subscribed and not yet received.\<close>

record SessionChannel =
  sc_receivers :: "ConnectionEvent list list"
  sc_buffer :: "ConnectionEvent list"
  sc_taken :: bool

definition channel_new :: SessionChannel where
  "channel_new = \<lparr>sc_receivers = [], sc_buffer = [], sc_taken = False\<rparr>"

definition channel_send :: "ConnectionEvent \<Rightarrow> SessionChannel \<Rightarrow> SessionChannel" where
  "channel_send e ch = ch\<lparr>sc_receivers := map (\<lambda>q. last_n 1024 (q @ [e])) (sc_receivers ch)\<rparr>"

record Shared =
  acs_sessions :: "(string \<times> SessionChannel) list"
  acs_synthetic :: "(string \<times> SyntheticMessageIds) list"
  acs_replaying :: "(string \<times> bool) list"
  acs_permission_seq :: u32

definition shared_new :: Shared where
  "shared_new = \<lparr>acs_sessions = [], acs_synthetic = [], acs_replaying = [], acs_permission_seq = 0\<rparr>"

definition channel_of :: "Shared \<Rightarrow> string \<Rightarrow> SessionChannel" where
  "channel_of s session_id = (case map_of (acs_sessions s) session_id of Some ch \<Rightarrow> ch | None \<Rightarrow> channel_new)"

definition put_channel :: "string \<Rightarrow> SessionChannel \<Rightarrow> Shared \<Rightarrow> Shared" where
  "put_channel session_id ch s = s\<lparr>acs_sessions := AList.update session_id ch (acs_sessions s)\<rparr>"

definition is_replaying :: "Shared \<Rightarrow> string \<Rightarrow> bool" where
  "is_replaying s session_id = (case map_of (acs_replaying s) session_id of Some b \<Rightarrow> b | None \<Rightarrow> False)"

definition emit :: "string \<Rightarrow> TurnEventBody \<Rightarrow> Shared \<Rightarrow> Shared" where
  "emit session_id body s =
     (let event = \<lparr>cev_body = body, cev_replayed = is_replaying s session_id\<rparr>; channel = channel_of s session_id in
      put_channel session_id
        (if sc_taken channel then channel_send event channel
         else channel\<lparr>sc_buffer := sc_buffer channel @ [event]\<rparr>) s)"

definition next_request_id :: "Shared \<Rightarrow> string \<times> Shared" where
  "next_request_id s =
     (''perm-'' @ show_nat (unat (acs_permission_seq s + 1)), s\<lparr>acs_permission_seq := acs_permission_seq s + 1\<rparr>)"

definition register_session :: "string \<Rightarrow> Shared \<Rightarrow> Shared" where
  "register_session session_id s = put_channel session_id (channel_of s session_id) s"

definition set_replaying :: "string \<Rightarrow> bool \<Rightarrow> Shared \<Rightarrow> Shared" where
  "set_replaying session_id b s = s\<lparr>acs_replaying := AList.update session_id b (acs_replaying s)\<rparr>"

text \<open>A new receiver is the last one of the channel; its index is returned.\<close>

definition subscribe_session :: "string \<Rightarrow> Shared \<Rightarrow> nat \<times> Shared" where
  "subscribe_session session_id s =
     (let ch = channel_of s session_id;
          ch1 = ch\<lparr>sc_receivers := sc_receivers ch @ [[]]\<rparr>;
          ch2 = (if sc_taken ch1 then ch1
                 else (fold channel_send (sc_buffer ch1) ch1)\<lparr>sc_buffer := [], sc_taken := True\<rparr>) in
      (length (sc_receivers ch), put_channel session_id ch2 s))"

text \<open>One turn of the loop in \<open>events\<close>; a lagging receiver goes on with the oldest event it has.\<close>

definition receive :: "string \<Rightarrow> nat \<Rightarrow> Shared \<Rightarrow> ConnectionEvent option \<times> Shared" where
  "receive session_id k s =
     (let ch = channel_of s session_id in
      case sc_receivers ch ! k of
        [] \<Rightarrow> (None, s)
      | e # q \<Rightarrow> (Some e, put_channel session_id (ch\<lparr>sc_receivers := (sc_receivers ch)[k := q]\<rparr>) s))"

definition map_v1 :: "content_json \<Rightarrow> string \<Rightarrow> Acp1Update \<Rightarrow> Shared \<Rightarrow> TurnEventBody list \<times> Shared" where
  "map_v1 json session_id update s =
     (let ids = (case map_of (acs_synthetic s) session_id of Some i \<Rightarrow> i | None \<Rightarrow> smi_default) in
      case v1_update json update ids of (events, ids') \<Rightarrow>
        (events, s\<lparr>acs_synthetic := AList.update session_id ids' (acs_synthetic s)\<rparr>))"

section \<open>Content and answers\<close>

datatype ConnectionError =
  CE_Transport string | CE_Protocol string | CE_Unsupported string | CE_SessionNotFound string | CE_Cancelled

fun to_acp_block :: "ContentBlock \<Rightarrow> ConnectionError + AcpContent" where
  "to_acp_block (CB_Text t) = Ok (AC_Text t)"
| "to_acp_block (CB_ResourceLink _ _ _) = Err (CE_Unsupported ''prompt_resource_link'')"
| "to_acp_block (CB_Image _ _) = Err (CE_Unsupported ''prompt_image'')"
| "to_acp_block (CB_Unknown _) = Err (CE_Unsupported ''prompt_content_block'')"

fun to_acp_blocks :: "ContentBlock list \<Rightarrow> ConnectionError + AcpContent list" where
  "to_acp_blocks [] = Ok []"
| "to_acp_blocks (b # bs) =
     (case to_acp_block b of
        Inl e \<Rightarrow> Err e
      | Inr c \<Rightarrow> (case to_acp_blocks bs of Inl e \<Rightarrow> Err e | Inr cs \<Rightarrow> Ok (c # cs)))"

datatype AcpOutcome = Selected string | OutcomeCancelled

definition permission_response :: "PermissionDecision \<Rightarrow> AcpOutcome" where
  "permission_response decision =
     (case pd_outcome decision of
        Approved \<Rightarrow> (case pd_option_id decision of Some i \<Rightarrow> Selected i | None \<Rightarrow> OutcomeCancelled)
      | _ \<Rightarrow> OutcomeCancelled)"

record Acp1Capabilities =
  ac1_load_session :: bool
  ac1_mcp_http :: bool
  ac1_mcp_sse :: bool
  ac1_embedded_context :: bool

record Acp2Session =
  as2_mcp :: "(bool \<times> bool) option"
  as2_prompt :: bool

definition capabilities_v1 :: "Acp1Capabilities \<Rightarrow> NormalizedCapabilities" where
  "capabilities_v1 c =
     \<lparr>nc_load_session = ac1_load_session c, nc_resume = ac1_load_session c,
      nc_mcp = \<lparr>mt_stdio = True, mt_http = ac1_mcp_http c, mt_sse = ac1_mcp_sse c\<rparr>,
      nc_prompt_embedded_context = ac1_embedded_context c\<rparr>"

definition capabilities_v2 :: "Acp2Session option \<Rightarrow> NormalizedCapabilities" where
  "capabilities_v2 session =
     (let mcp = Option.bind session as2_mcp in
      \<lparr>nc_load_session = False, nc_resume = (session \<noteq> None),
       nc_mcp = \<lparr>mt_stdio = (case mcp of Some (stdio, _) \<Rightarrow> stdio | None \<Rightarrow> False),
                 mt_http = (case mcp of Some (_, http) \<Rightarrow> http | None \<Rightarrow> False), mt_sse = False\<rparr>,
       nc_prompt_embedded_context = (case session of Some s \<Rightarrow> as2_prompt s | None \<Rightarrow> False)\<rparr>)"

section \<open>MCP servers\<close>

datatype AcpMcpServer =
  AMS_Stdio string string "string list" "(string \<times> string) list"
| AMS_Http string string "(string \<times> string) list"
| AMS_Sse string string

definition parse_session_servers :: "(string \<Rightarrow> SessionServer option) \<Rightarrow> string list \<Rightarrow> SessionServer list" where
  "parse_session_servers parse values = List.map_filter parse values"

fun resolved_value :: "RegistryValue \<Rightarrow> string option" where
  "resolved_value (Plain t) = Some t"
| "resolved_value (Secret _) = None"

definition resolved_pairs :: "(string \<times> RegistryValue) list \<Rightarrow> (string \<times> string) list" where
  "resolved_pairs kvs = List.map_filter (\<lambda>(k, v). map_option (\<lambda>t. (k, t)) (resolved_value v)) kvs"

definition v1_mcp_server :: "McpTransports \<Rightarrow> SessionServer \<Rightarrow> AcpMcpServer option" where
  "v1_mcp_server ts server =
     (case ss_transport server of
        Stdio \<Rightarrow> if mt_stdio ts
          then map_option (\<lambda>command. AMS_Stdio (ss_name server) command (ss_args server) (resolved_pairs (ss_env server))) (ss_command server)
          else None
      | Http \<Rightarrow> if mt_http ts
          then map_option (\<lambda>url. AMS_Http (ss_name server) url (resolved_pairs (ss_headers server))) (ss_url server) else None
      | Sse \<Rightarrow> if mt_sse ts then map_option (\<lambda>url. AMS_Sse (ss_name server) url) (ss_url server) else None)"

definition v1_mcp_servers :: "(string \<Rightarrow> SessionServer option) \<Rightarrow> string list \<Rightarrow> McpTransports \<Rightarrow> AcpMcpServer list" where
  "v1_mcp_servers parse values ts = List.map_filter (v1_mcp_server ts) (parse_session_servers parse values)"

definition v2_mcp_server :: "McpTransports \<Rightarrow> SessionServer \<Rightarrow> AcpMcpServer option" where
  "v2_mcp_server ts server =
     (case ss_transport server of
        Stdio \<Rightarrow> if mt_stdio ts
          then map_option (\<lambda>command. AMS_Stdio (ss_name server) command (ss_args server) (resolved_pairs (ss_env server))) (ss_command server)
          else None
      | Http \<Rightarrow> if mt_http ts
          then map_option (\<lambda>url. AMS_Http (ss_name server) url (resolved_pairs (ss_headers server))) (ss_url server) else None
      | Sse \<Rightarrow> None)"

definition v2_mcp_servers :: "(string \<Rightarrow> SessionServer option) \<Rightarrow> string list \<Rightarrow> McpTransports \<Rightarrow> AcpMcpServer list" where
  "v2_mcp_servers parse values ts = List.map_filter (v2_mcp_server ts) (parse_session_servers parse values)"

section \<open>Messages of the agent\<close>

record Acp1PermissionRequest =
  ap1_session_id :: string
  ap1_tool_call_id :: string
  ap1_title :: "string option"
  ap1_options :: "AcpPermOption list"

text \<open>\<open>In_Decision k\<close>: the resolver task of the \<open>k\<close>-th undecided permission request finishes.\<close>

datatype Inbound =
  In_Update1 string Acp1Update
| In_Update2 string Acp2Update
| In_Permission1 Acp1PermissionRequest
| In_Permission2 Acp2PermissionRequest
| In_Decision nat

record AcpConnection =
  acp_info :: AgentInfo
  acp_capabilities :: NormalizedCapabilities
  acp_protocol :: AcpProtocol
  acp_shared :: Shared
  acp_undecided :: "(string \<times> PermissionRequest) list"
  acp_responses :: "(string \<times> AcpOutcome) list"
  acp_calls :: nat

record AcpEnv =
  ae_json1 :: content_json
  ae_json2 :: content_json
  ae_resolver :: "PermissionRequest \<Rightarrow> PermissionDecision"
  ae_parse :: "string \<Rightarrow> SessionServer option"
  ae_v2 :: bool

definition on_shared :: "(Shared \<Rightarrow> Shared) \<Rightarrow> AcpConnection \<Rightarrow> AcpConnection" where
  "on_shared f c = c\<lparr>acp_shared := f (acp_shared c)\<rparr>"

definition emit_all :: "string \<Rightarrow> TurnEventBody list \<Rightarrow> Shared \<Rightarrow> Shared" where
  "emit_all session_id events s = fold (emit session_id) events s"

definition on_update1 :: "AcpEnv \<Rightarrow> string \<Rightarrow> Acp1Update \<Rightarrow> Shared \<Rightarrow> Shared" where
  "on_update1 env session_id update s =
     (case map_v1 (ae_json1 env) session_id update s of (events, s') \<Rightarrow> emit_all session_id events s')"

definition on_update2 :: "AcpEnv \<Rightarrow> string \<Rightarrow> Acp2Update \<Rightarrow> Shared \<Rightarrow> Shared" where
  "on_update2 env session_id update s = emit_all session_id (v2_update (ae_json2 env) update) s"

definition v1_permission :: "Acp1PermissionRequest \<Rightarrow> string \<Rightarrow> PermissionRequest" where
  "v1_permission r req_id =
     \<lparr>pr_req_id = req_id, pr_title = (case ap1_title r of Some t \<Rightarrow> t | None \<Rightarrow> ap1_tool_call_id r), pr_description = None,
      pr_subject = Some (Subj_ToolCall (ap1_tool_call_id r)), pr_options = map perm_option (ap1_options r)\<rparr>"

definition ask :: "string \<Rightarrow> PermissionRequest \<Rightarrow> AcpConnection \<Rightarrow> AcpConnection" where
  "ask session_id permission c =
     (on_shared (emit session_id (Ev_PermissionRequested permission)) c)
       \<lparr>acp_undecided := acp_undecided c @ [(session_id, permission)]\<rparr>"

definition on_permission1 :: "Acp1PermissionRequest \<Rightarrow> AcpConnection \<Rightarrow> AcpConnection" where
  "on_permission1 r c =
     (case next_request_id (acp_shared c) of (req_id, s) \<Rightarrow>
        ask (ap1_session_id r) (v1_permission r req_id) (c\<lparr>acp_shared := s\<rparr>))"

definition on_permission2 :: "Acp2PermissionRequest \<Rightarrow> AcpConnection \<Rightarrow> AcpConnection" where
  "on_permission2 r c =
     (case next_request_id (acp_shared c) of (req_id, s) \<Rightarrow>
        ask (ap2_session_id r) ((permission_request r)\<lparr>pr_req_id := req_id\<rparr>) (c\<lparr>acp_shared := s\<rparr>))"

definition on_decision :: "AcpEnv \<Rightarrow> nat \<Rightarrow> AcpConnection \<Rightarrow> AcpConnection" where
  "on_decision env k c =
     (if k < length (acp_undecided c) then
        let (session_id, permission) = acp_undecided c ! k; decision = ae_resolver env permission in
        (on_shared (emit session_id
             (Ev_PermissionResolved (pr_req_id permission) (pd_outcome decision) (pd_decided_by decision))) c)
          \<lparr>acp_undecided := take k (acp_undecided c) @ drop (Suc k) (acp_undecided c),
           acp_responses := acp_responses c @ [(pr_req_id permission, permission_response decision)]\<rparr>
      else c)"

fun inbound :: "AcpEnv \<Rightarrow> Inbound \<Rightarrow> AcpConnection \<Rightarrow> AcpConnection" where
  "inbound env (In_Update1 session_id update) c = on_shared (on_update1 env session_id update) c"
| "inbound env (In_Update2 session_id update) c = on_shared (on_update2 env session_id update) c"
| "inbound env (In_Permission1 r) c = on_permission1 r c"
| "inbound env (In_Permission2 r) c = on_permission2 r c"
| "inbound env (In_Decision k) c = on_decision env k c"

section \<open>Connecting\<close>

record AcpAgent =
  ag_initialize1 :: "string + (string \<times> string \<times> string option) option \<times> Acp1Capabilities"
  ag_initialize2 :: "string + (string \<times> string \<times> string option) \<times> Acp2Session option"
  ag_ended :: bool
  ag_new :: "nat \<Rightarrow> string \<Rightarrow> string list \<Rightarrow> AcpMcpServer list \<Rightarrow> Inbound list \<times> (string + string \<times> AcpConfigOption list option)"
  ag_load :: "nat \<Rightarrow> string \<Rightarrow> string \<Rightarrow> AcpMcpServer list \<Rightarrow> Inbound list \<times> (string + AcpConfigOption list option)"
  ag_resume :: "nat \<Rightarrow> string \<Rightarrow> string \<Rightarrow> string list \<Rightarrow> AcpMcpServer list \<Rightarrow> bool \<Rightarrow> Inbound list \<times> (string + AcpConfigOption list)"
  ag_close :: "nat \<Rightarrow> string \<Rightarrow> Inbound list \<times> (string + unit)"
  ag_prompt :: "nat \<Rightarrow> string \<Rightarrow> AcpContent list \<Rightarrow> Inbound list \<times> (string + AcpStop)"
  ag_cancel :: "nat \<Rightarrow> string \<Rightarrow> string + unit"

definition agent_info :: "string \<times> string \<times> string option \<Rightarrow> AgentInfo" where
  "agent_info i = (case i of (name, version, title) \<Rightarrow> \<lparr>ai_name = name, ai_version = version, ai_title = title\<rparr>)"

definition new_connection :: "AgentInfo \<Rightarrow> NormalizedCapabilities \<Rightarrow> AcpProtocol \<Rightarrow> AcpConnection" where
  "new_connection info capabilities protocol =
     \<lparr>acp_info = info, acp_capabilities = capabilities, acp_protocol = protocol, acp_shared = shared_new,
      acp_undecided = [], acp_responses = [], acp_calls = 0\<rparr>"

definition connect_v1 :: "AcpAgent \<Rightarrow> ConnectionError + AcpConnection" where
  "connect_v1 agent =
     (if ag_ended agent then Err (CE_Transport ''connection ended before initialize'')
      else case ag_initialize1 agent of
          Inl e \<Rightarrow> Err (CE_Protocol e)
        | Inr (info, capabilities) \<Rightarrow>
            Ok (new_connection (case info of Some i \<Rightarrow> agent_info i | None \<Rightarrow> agent_info (''unknown'', [], None))
                 (capabilities_v1 capabilities) V1))"

definition connect_v2 :: "AcpAgent \<Rightarrow> ConnectionError + AcpConnection" where
  "connect_v2 agent =
     (if ag_ended agent then Err (CE_Transport ''connection ended before initialize'')
      else case ag_initialize2 agent of
          Inl e \<Rightarrow> Err (CE_Protocol e)
        | Inr (info, capabilities) \<Rightarrow> Ok (new_connection (agent_info info) (capabilities_v2 capabilities) V2))"

definition acp_connect :: "AcpEnv \<Rightarrow> AcpProtocol \<Rightarrow> AcpAgent \<Rightarrow> ConnectionError + AcpConnection" where
  "acp_connect env protocol agent =
     (case protocol of
        V1 \<Rightarrow> connect_v1 agent
      | V2 \<Rightarrow> if ae_v2 env then connect_v2 agent else Err (CE_Unsupported ''acp_v2''))"

section \<open>Requests\<close>

record NewSession =
  ns_cwd :: string
  ns_additional_directories :: "string list"
  ns_mcp_servers :: "string list"

record ResumeSession =
  rs_session_id :: string
  rs_cwd :: string
  rs_additional_directories :: "string list"
  rs_mcp_servers :: "string list"
  rs_replay :: bool

record SessionHandle =
  sh_id :: string
  sh_config_options :: "ConfigOption list"

text \<open>What arrives before the answer is handled first.\<close>

definition request :: "AcpEnv \<Rightarrow> (nat \<Rightarrow> Inbound list \<times> (string + 'a)) \<Rightarrow> AcpConnection \<Rightarrow> (ConnectionError + 'a) \<times> AcpConnection" where
  "request env answer c =
     (case answer (acp_calls c) of (messages, result) \<Rightarrow>
        (case result of Inl e \<Rightarrow> Err (CE_Protocol e) | Inr x \<Rightarrow> Ok x,
         fold (inbound env) messages (c\<lparr>acp_calls := acp_calls c + 1\<rparr>)))"

definition options_of :: "AcpConfigOption list option \<Rightarrow> ConfigOption list" where
  "options_of os = (case os of Some l \<Rightarrow> map config_option l | None \<Rightarrow> [])"

definition mcp_servers_of :: "AcpEnv \<Rightarrow> AcpConnection \<Rightarrow> string list \<Rightarrow> AcpMcpServer list" where
  "mcp_servers_of env c values =
     (case acp_protocol c of
        V1 \<Rightarrow> v1_mcp_servers (ae_parse env) values (nc_mcp (acp_capabilities c))
      | V2 \<Rightarrow> v2_mcp_servers (ae_parse env) values (nc_mcp (acp_capabilities c)))"

definition new_session :: "AcpEnv \<Rightarrow> AcpAgent \<Rightarrow> NewSession \<Rightarrow> AcpConnection \<Rightarrow> (ConnectionError + SessionHandle) \<times> AcpConnection" where
  "new_session env agent r c =
     (case request env (\<lambda>n. ag_new agent n (ns_cwd r) (ns_additional_directories r) (mcp_servers_of env c (ns_mcp_servers r))) c of
        (Inl e, c') \<Rightarrow> (Err e, c')
      | (Inr (i, options), c') \<Rightarrow> (Ok \<lparr>sh_id = i, sh_config_options = options_of options\<rparr>, on_shared (register_session i) c'))"

definition load_or_resume :: "AcpEnv \<Rightarrow> AcpAgent \<Rightarrow> ResumeSession \<Rightarrow> AcpConnection \<Rightarrow> (ConnectionError + AcpConfigOption list option) \<times> AcpConnection" where
  "load_or_resume env agent r c =
     (let servers = mcp_servers_of env c (rs_mcp_servers r) in
      case acp_protocol c of
        V1 \<Rightarrow> request env (\<lambda>n. ag_load agent n (rs_session_id r) (rs_cwd r) servers) c
      | V2 \<Rightarrow> (case request env (\<lambda>n. ag_resume agent n (rs_session_id r) (rs_cwd r) (rs_additional_directories r) servers (rs_replay r)) c of
                 (result, c') \<Rightarrow> (map_sum id Some result, c')))"

definition resume_session :: "AcpEnv \<Rightarrow> AcpAgent \<Rightarrow> ResumeSession \<Rightarrow> AcpConnection \<Rightarrow> (ConnectionError + SessionHandle) \<times> AcpConnection" where
  "resume_session env agent r c =
     (case load_or_resume env agent r (on_shared (set_replaying (rs_session_id r) True) c) of
        (result, c') \<Rightarrow>
          (map_sum id (\<lambda>options. \<lparr>sh_id = rs_session_id r, sh_config_options = options_of options\<rparr>) result,
           on_shared (set_replaying (rs_session_id r) False) c'))"

definition close_session :: "AcpEnv \<Rightarrow> AcpAgent \<Rightarrow> string \<Rightarrow> AcpConnection \<Rightarrow> (ConnectionError + unit) \<times> AcpConnection" where
  "close_session env agent i c =
     (case acp_protocol c of
        V1 \<Rightarrow> (Err (CE_Unsupported ''close_session_v1''), c)
      | V2 \<Rightarrow> request env (\<lambda>n. ag_close agent n i) c)"

definition acp_prompt :: "AcpEnv \<Rightarrow> AcpAgent \<Rightarrow> string \<Rightarrow> ContentBlock list \<Rightarrow> AcpConnection \<Rightarrow> (ConnectionError + unit) \<times> AcpConnection" where
  "acp_prompt env agent i blocks c =
     (case to_acp_blocks blocks of
        Inl e \<Rightarrow> (Err e, c)
      | Inr content \<Rightarrow>
          (case acp_protocol c of
             V1 \<Rightarrow>
               (case request env (\<lambda>n. ag_prompt agent n i content) (on_shared (emit i (Ev_StateChanged SS_Running)) c) of
                  (Inl e, c') \<Rightarrow> (Err e, c')
                | (Inr stop, c') \<Rightarrow>
                    (Ok (), on_shared (emit i (Ev_StateChanged (SS_Idle (Some (stop_reason_v1 stop))))) c'))
           | V2 \<Rightarrow>
               (case request env (\<lambda>n. ag_prompt agent n i content) c of
                  (Inl e, c') \<Rightarrow> (Err e, c') | (Inr _, c') \<Rightarrow> (Ok (), c'))))"

definition acp_cancel :: "AcpAgent \<Rightarrow> string \<Rightarrow> AcpConnection \<Rightarrow> ConnectionError + unit" where
  "acp_cancel agent i c = (case ag_cancel agent (acp_calls c) i of Inl e \<Rightarrow> Err (CE_Protocol e) | Inr u \<Rightarrow> Ok u)"

end
