(* ===== verification/Acp_Session.thy ===== *)
theory Acp_Session
  imports Acp_Client "HOL-Library.Multiset"
begin

text \<open>
  What the agent connection guarantees to the threads above it: which events a subscriber gets,
  which of them count as replayed, what a resumed transcript adds to a thread, that every permission
  request is answered once, and which MCP servers an agent is told about.
\<close>

section \<open>Emitting\<close>

lemma channel_of_put: "channel_of (put_channel i ch s) j = (if i = j then ch else channel_of s j)"
  by (simp add: channel_of_def put_channel_def update_conv')

lemma put_channel_rest [simp]:
  "acs_replaying (put_channel i ch s) = acs_replaying s" "acs_synthetic (put_channel i ch s) = acs_synthetic s"
  "acs_permission_seq (put_channel i ch s) = acs_permission_seq s" "is_replaying (put_channel i ch s) = is_replaying s"
  by (auto simp: put_channel_def is_replaying_def)

lemma emit_rest [simp]:
  "acs_replaying (emit i b s) = acs_replaying s" "acs_synthetic (emit i b s) = acs_synthetic s"
  "acs_permission_seq (emit i b s) = acs_permission_seq s" "is_replaying (emit i b s) = is_replaying s"
  by (simp_all add: emit_def Let_def)

lemma emit_all_rest [simp]:
  "acs_replaying (emit_all i bs s) = acs_replaying s" "acs_synthetic (emit_all i bs s) = acs_synthetic s"
  "acs_permission_seq (emit_all i bs s) = acs_permission_seq s" "is_replaying (emit_all i bs s) = is_replaying s"
  unfolding emit_all_def by (induction bs arbitrary: s) simp_all

definition event_in :: "Shared \<Rightarrow> string \<Rightarrow> TurnEventBody \<Rightarrow> ConnectionEvent" where
  "event_in s i b = \<lparr>cev_body = b, cev_replayed = is_replaying s i\<rparr>"

lemma emit_channel:
  "channel_of (emit i b s) j =
     (if i = j then (if sc_taken (channel_of s i) then channel_send (event_in s i b) (channel_of s i)
        else (channel_of s i)\<lparr>sc_buffer := sc_buffer (channel_of s i) @ [event_in s i b]\<rparr>)
      else channel_of s j)"
  by (simp add: emit_def Let_def channel_of_put event_in_def)

lemma emit_all_other: "i \<noteq> j \<Longrightarrow> channel_of (emit_all i bs s) j = channel_of s j"
  unfolding emit_all_def by (induction bs arbitrary: s) (simp_all add: emit_channel)

lemma emit_all_buffered:
  "\<not> sc_taken (channel_of s i) \<Longrightarrow> channel_of (emit_all i bs s) i =
     (channel_of s i)\<lparr>sc_buffer := sc_buffer (channel_of s i) @ map (event_in s i) bs\<rparr>"
  unfolding emit_all_def
proof (induction bs arbitrary: s)
  case (Cons b bs)
  have "event_in (emit i b s) i = event_in s i" by (simp add: event_in_def fun_eq_iff)
  with Cons show ?case by (simp add: emit_channel)
qed simp

lemma channel_send_receivers: "fold channel_send es ch = ch\<lparr>sc_receivers := map (\<lambda>q. fold (\<lambda>e q. last_n 1024 (q @ [e])) es q) (sc_receivers ch)\<rparr>"
  by (induction es arbitrary: ch) (simp_all add: channel_send_def comp_def)

lemma last_n_last_n: "last_n n (last_n n xs @ ys) = last_n n (xs @ ys)"
  by (rule last_n_append[symmetric])

lemma fold_last_n: "fold (\<lambda>e q. last_n n (q @ [e])) es (last_n n q) = last_n n (q @ es)"
  by (induction es arbitrary: q) (simp_all add: last_n_last_n)

lemma emit_all_sent:
  "sc_taken (channel_of s i) \<Longrightarrow> channel_of (emit_all i bs s) i = fold channel_send (map (event_in s i) bs) (channel_of s i)"
  unfolding emit_all_def
proof (induction bs arbitrary: s)
  case (Cons b bs)
  have "event_in (emit i b s) i = event_in s i" by (simp add: event_in_def fun_eq_iff)
  with Cons show ?case by (simp add: emit_channel channel_send_def)
qed simp

text \<open>
  C39. The first subscriber of a session gets what was emitted before and after it subscribed, in
  order, but only the last 1024 events of it that it has not received: the buffer that collects
  events before anyone subscribes is unbounded, the channel it is drained into is not. Threads
  subscribe after resuming, so a replayed transcript of more than 1024 events loses its beginning.
\<close>

theorem first_subscriber_window:
  assumes "\<not> sc_taken (channel_of s i)"
  shows "let (k, s') = subscribe_session i (emit_all i early s);
             q = sc_receivers (channel_of (emit_all i late s') i) ! k;
             all = sc_buffer (channel_of s i) @ map (event_in s i) early @ map (event_in s i) late in
    q = last_n 1024 all \<and> length q = min 1024 (length all) \<and> (length all \<le> 1024 \<longrightarrow> q = all)"
proof -
  define ch where "ch = channel_of (emit_all i early s) i"
  have ch: "ch = (channel_of s i)\<lparr>sc_buffer := sc_buffer (channel_of s i) @ map (event_in s i) early\<rparr>"
    unfolding ch_def by (rule emit_all_buffered) (rule assms)
  obtain k s' where sub: "subscribe_session i (emit_all i early s) = (k, s')" by fastforce
  have k: "k = length (sc_receivers ch)" and s': "event_in s' i = event_in s i"
    and ch': "channel_of s' i = (fold channel_send (sc_buffer ch) (ch\<lparr>sc_receivers := sc_receivers ch @ [[]]\<rparr>))\<lparr>sc_buffer := [], sc_taken := True\<rparr>"
    using sub assms ch by (auto simp: subscribe_session_def Let_def ch_def[symmetric] channel_of_put event_in_def fun_eq_iff)
  have q0: "sc_receivers (channel_of s' i) ! k = last_n 1024 (sc_buffer ch)"
    using fold_last_n[of 1024 "sc_buffer ch" "[]"] by (simp add: ch' channel_send_receivers k nth_append last_n_def)
  have "k < length (sc_receivers (channel_of s' i))" by (simp add: ch' channel_send_receivers k)
  hence "sc_receivers (channel_of (emit_all i late s') i) ! k = last_n 1024 (sc_buffer ch @ map (event_in s i) late)"
    using q0 fold_last_n[of 1024 "map (event_in s i) late" "sc_buffer ch"]
    by (subst emit_all_sent) (simp_all add: ch' channel_send_receivers[of "map _ _"] s')
  thus ?thesis using sub by (simp add: ch length_last_n Let_def) (simp add: last_n_def)
qed

theorem first_subscriber_window_witness:
  "let (k, s') = subscribe_session ''s'' (emit_all ''s'' (replicate 2000 (Ev_Unknown ''x'')) shared_new) in
   length (sc_receivers (channel_of (emit_all ''s'' [] s') ''s'') ! k) = 1024"
  using first_subscriber_window[of shared_new "''s''" "replicate 2000 (Ev_Unknown ''x'')" "[]"]
  by (simp add: Let_def channel_of_def shared_new_def channel_new_def length_last_n split: prod.splits)

section \<open>Replay\<close>

text \<open>What one message of the agent does to the channel of a session nobody has subscribed to.\<close>

definition grows :: "string \<Rightarrow> AcpConnection \<Rightarrow> AcpConnection \<Rightarrow> TurnEventBody list \<Rightarrow> bool" where
  "grows i c c' bs \<longleftrightarrow>
     acs_replaying (acp_shared c') = acs_replaying (acp_shared c)
     \<and> channel_of (acp_shared c') i =
       (channel_of (acp_shared c) i)\<lparr>sc_buffer := sc_buffer (channel_of (acp_shared c) i) @ map (event_in (acp_shared c) i) bs\<rparr>"

lemma event_in_replaying: "acs_replaying s = acs_replaying s' \<Longrightarrow> event_in s = event_in s'"
  by (simp add: event_in_def is_replaying_def fun_eq_iff)

lemma grows_refl: "acs_replaying (acp_shared c') = acs_replaying (acp_shared c) \<Longrightarrow>
    channel_of (acp_shared c') i = channel_of (acp_shared c) i \<Longrightarrow> grows i c c' []"
  by (simp add: grows_def)

lemma grows_trans: "grows i a b bs \<Longrightarrow> grows i b c cs \<Longrightarrow> grows i a c (bs @ cs)"
  unfolding grows_def using event_in_replaying[of "acp_shared b" "acp_shared a"] by simp

lemma grows_taken: "grows i a b bs \<Longrightarrow> sc_taken (channel_of (acp_shared b) i) = sc_taken (channel_of (acp_shared a) i)"
  by (simp add: grows_def)

lemma on_shared_simps [simp]:
  "acp_shared (on_shared f c) = f (acp_shared c)" "acp_undecided (on_shared f c) = acp_undecided c"
  "acp_responses (on_shared f c) = acp_responses c" "acp_protocol (on_shared f c) = acp_protocol c"
  "acp_calls (on_shared f c) = acp_calls c" "acp_capabilities (on_shared f c) = acp_capabilities c"
  by (simp_all add: on_shared_def)

lemma grows_emit_all:
  assumes "\<not> sc_taken (channel_of (acp_shared c) i)" "acp_shared c' = emit_all j bs s"
    and "acs_replaying s = acs_replaying (acp_shared c)" "acs_sessions s = acs_sessions (acp_shared c)"
  shows "grows i c c' (if i = j then bs else [])"
proof -
  have "channel_of s = channel_of (acp_shared c)" "event_in s = event_in (acp_shared c)"
    by (simp add: channel_of_def assms(4) fun_eq_iff) (rule event_in_replaying, rule assms(3))
  thus ?thesis using assms(1,3) emit_all_buffered[of s i bs] emit_all_other[of j i bs s]
    by (cases "i = j") (simp_all add: grows_def assms(2))
qed

text \<open>The events a message means for a session, given the connection it arrives on.\<close>

fun events_of :: "AcpEnv \<Rightarrow> string \<Rightarrow> Inbound \<Rightarrow> AcpConnection \<Rightarrow> TurnEventBody list" where
  "events_of env i (In_Update1 j u) c = (if i = j then fst (map_v1 (ae_json1 env) j u (acp_shared c)) else [])"
| "events_of env i (In_Update2 j u) c = (if i = j then v2_update (ae_json2 env) u else [])"
| "events_of env i (In_Permission1 r) c =
     (if i = ap1_session_id r then [Ev_PermissionRequested (v1_permission r (fst (next_request_id (acp_shared c))))] else [])"
| "events_of env i (In_Permission2 r) c =
     (if i = ap2_session_id r
      then [Ev_PermissionRequested ((permission_request r)\<lparr>pr_req_id := fst (next_request_id (acp_shared c))\<rparr>)] else [])"
| "events_of env i (In_Decision k) c =
     (if k < length (acp_undecided c) \<and> fst (acp_undecided c ! k) = i then
        let p = snd (acp_undecided c ! k); d = ae_resolver env p in
        [Ev_PermissionResolved (pr_req_id p) (pd_outcome d) (pd_decided_by d)] else [])"

lemma emit_as_all: "emit i b s = emit_all i [b] s"
  by (simp add: emit_all_def)

lemma inbound_grows:
  assumes "\<not> sc_taken (channel_of (acp_shared c) i)"
  shows "grows i c (inbound env m c) (events_of env i m c)"
proof (cases m)
  case (In_Update1 j u)
  obtain es s where m1: "map_v1 (ae_json1 env) j u (acp_shared c) = (es, s)" by fastforce
  have "acs_replaying s = acs_replaying (acp_shared c)" "acs_sessions s = acs_sessions (acp_shared c)"
    using m1 by (auto simp: map_v1_def Let_def split: prod.splits)
  from grows_emit_all[OF assms _ this, of "inbound env m c" j es] show ?thesis
    by (auto simp: In_Update1 on_update1_def m1)
next
  case (In_Update2 j u)
  from grows_emit_all[OF assms _ refl refl, of "inbound env m c" j "v2_update (ae_json2 env) u"] show ?thesis
    by (simp add: In_Update2 on_update2_def)
next
  case (In_Permission1 r)
  show ?thesis using grows_emit_all[OF assms, of "inbound env m c" "ap1_session_id r" _ "snd (next_request_id (acp_shared c))"]
    by (simp add: In_Permission1 on_permission1_def ask_def next_request_id_def emit_as_all)
next
  case (In_Permission2 r)
  show ?thesis using grows_emit_all[OF assms, of "inbound env m c" "ap2_session_id r" _ "snd (next_request_id (acp_shared c))"]
    by (simp add: In_Permission2 on_permission2_def ask_def next_request_id_def emit_as_all)
next
  case (In_Decision k)
  show ?thesis
  proof (cases "k < length (acp_undecided c)")
    case True
    obtain j p where jp: "acp_undecided c ! k = (j, p)" by fastforce
    show ?thesis using grows_emit_all[OF assms _ refl refl, of "inbound env m c" j
        "[Ev_PermissionResolved (pr_req_id p) (pd_outcome (ae_resolver env p)) (pd_decided_by (ae_resolver env p))]"]
      by (cases "i = j") (simp_all add: In_Decision on_decision_def True jp Let_def emit_as_all)
  qed (auto simp: In_Decision on_decision_def intro: grows_refl)
qed

fun all_events :: "AcpEnv \<Rightarrow> string \<Rightarrow> Inbound list \<Rightarrow> AcpConnection \<Rightarrow> TurnEventBody list" where
  "all_events env i [] c = []"
| "all_events env i (m # ms) c = events_of env i m c @ all_events env i ms (inbound env m c)"

lemma inbounds_grow:
  "\<not> sc_taken (channel_of (acp_shared c) i) \<Longrightarrow> grows i c (fold (inbound env) ms c) (all_events env i ms c)"
proof (induction ms arbitrary: c)
  case (Cons m ms)
  note step = inbound_grows[OF Cons.prems, of env m]
  from grows_trans[OF step Cons.IH] grows_taken[OF step] Cons.prems show ?case by simp
qed (simp add: grows_refl)


definition resume_messages :: "AcpEnv \<Rightarrow> AcpAgent \<Rightarrow> ResumeSession \<Rightarrow> AcpConnection \<Rightarrow> Inbound list" where
  "resume_messages env agent r c =
     (let servers = mcp_servers_of env c (rs_mcp_servers r) in
      case acp_protocol c of
        V1 \<Rightarrow> fst (ag_load agent (acp_calls c) (rs_session_id r) (rs_cwd r) servers)
      | V2 \<Rightarrow> fst (ag_resume agent (acp_calls c) (rs_session_id r) (rs_cwd r) (rs_additional_directories r) servers (rs_replay r)))"

definition replay_started :: "ResumeSession \<Rightarrow> AcpConnection \<Rightarrow> AcpConnection" where
  "replay_started r c = (on_shared (set_replaying (rs_session_id r) True) c)\<lparr>acp_calls := acp_calls c + 1\<rparr>"

lemma resume_session_state:
  "snd (resume_session env agent r c) =
     on_shared (set_replaying (rs_session_id r) False) (fold (inbound env) (resume_messages env agent r c) (replay_started r c))"
  by (simp add: resume_session_def load_or_resume_def request_def resume_messages_def replay_started_def Let_def
      mcp_servers_of_def split: AcpProtocol.split prod.split)

lemma replaying_set [simp]:
  "is_replaying (set_replaying i b s) j = (if i = j then b else is_replaying s j)"
  "channel_of (set_replaying i b s) = channel_of s"
  by (simp_all add: is_replaying_def set_replaying_def update_conv' channel_of_def fun_eq_iff)

text \<open>A message that says which message it belongs to, so that replaying it means the same event.\<close>

fun carries_ids :: "Inbound \<Rightarrow> bool" where
  "carries_ids (In_Update1 j u) = (case chunk_key u of Some (None, _) \<Rightarrow> False | _ \<Rightarrow> True)"
| "carries_ids (In_Update2 j u) = True"
| "carries_ids _ = False"

lemma carried_events: "carries_ids m \<Longrightarrow> events_of env i m c = events_of env i m c'"
proof (cases m)
  case (In_Update1 j u)
  assume "carries_ids m"
  hence "fst (v1_update json u s) = fst (v1_update json u s')" for json s s'
    by (cases u) (auto simp: In_Update1 one_def message_chunk_def smi_id_def split: option.splits)
  thus ?thesis by (simp add: In_Update1 map_v1_def Let_def split: prod.split) (metis fst_conv)
qed simp_all

lemma all_events_carried:
  "list_all carries_ids ms \<Longrightarrow> all_events env i ms c = concat (map (\<lambda>m. events_of env i m d) ms)"
  by (induction ms arbitrary: c) (auto intro: carried_events)

definition entries_of :: "ConnectionEvent list \<Rightarrow> Entry list" where
  "entries_of evs = fold (\<lambda>e es. fst (apply_event es (cev_body e) (cev_replayed e))) evs []"

lemma entries_of_append:
  assumes "\<And>b. cev_replayed (f b) = r" "\<And>b. cev_body (f b) = b"
  shows "entries_of (evs @ map f bs) = apply_all r (entries_of evs) bs"
proof -
  have "fold (\<lambda>e es. fst (apply_event es (cev_body e) (cev_replayed e))) (map f bs) es = apply_all r es bs" for es
    unfolding apply_all_def by (induction bs arbitrary: es) (simp_all add: assms)
  thus ?thesis by (simp add: entries_of_def)
qed



definition quiet_agent :: AcpAgent where
  "quiet_agent =
     \<lparr>ag_initialize1 = Ok (None, \<lparr>ac1_load_session = True, ac1_mcp_http = False, ac1_mcp_sse = False, ac1_embedded_context = False\<rparr>),
      ag_initialize2 = Err ''v1 only'', ag_ended = False,
      ag_new = (\<lambda>_ _ _ _. ([], Ok (''s'', None))), ag_load = (\<lambda>_ _ _ _. ([], Ok None)),
      ag_resume = (\<lambda>_ _ _ _ _ _. ([], Ok [])), ag_close = (\<lambda>_ _. ([], Ok ())),
      ag_prompt = (\<lambda>_ _ _. ([], Ok AST_EndTurn)), ag_cancel = (\<lambda>_ _. Ok ())\<rparr>"

definition plain_env :: AcpEnv where
  "plain_env = \<lparr>ae_json1 = (\<lambda>_. ''{}''), ae_json2 = (\<lambda>_. ''{}''), ae_resolver = deny_resolve, ae_parse = (\<lambda>_. None), ae_v2 = True\<rparr>"

definition fresh_v1 :: AcpConnection where
  "fresh_v1 = (case acp_connect plain_env V1 quiet_agent of Inr c \<Rightarrow> c)"

definition said :: "string option \<Rightarrow> string \<Rightarrow> Inbound" where
  "said i t = In_Update1 ''s'' (U1_AgentMessageChunk \<lparr>ach_message_id = i, ach_content = AC_Text t\<rparr>)"

definition asked :: "string option \<Rightarrow> string \<Rightarrow> Inbound" where
  "asked i t = In_Update1 ''s'' (U1_UserMessageChunk \<lparr>ach_message_id = i, ach_content = AC_Text t\<rparr>)"

definition replays :: "Inbound list \<Rightarrow> AcpAgent" where
  "replays ms = quiet_agent\<lparr>ag_load := (\<lambda>_ _ _ _. (ms, Ok None))\<rparr>"

definition resume_s :: ResumeSession where
  "resume_s = \<lparr>rs_session_id = ''s'', rs_cwd = ''/w'', rs_additional_directories = [], rs_mcp_servers = [], rs_replay = True\<rparr>"

definition thread_entries_of :: "AcpConnection \<Rightarrow> Entry list" where
  "thread_entries_of c = entries_of (sc_buffer (channel_of (acp_shared c) ''s''))"


text \<open>
  Without message ids, version 1 transcripts are mixed up. The answers of two prompts become one
  message, because nothing of the user is reported in between; and a transcript that is replayed with
  the prompt in it is not recognised: on the same connection the prompt and the answer are added
  again, on a new connection the prompt takes the id of the answer and is dropped and the answer is
  added a second time.
\<close>

theorem idless_transcripts_are_mixed_up:
  "let speaks = (\<lambda>t. quiet_agent\<lparr>ag_prompt := (\<lambda>_ _ _. ([said None t], Ok AST_EndTurn))\<rparr>);
       c1 = snd (acp_prompt plain_env (speaks ''one'') ''s'' [CB_Text ''q1''] fresh_v1);
       c2 = snd (acp_prompt plain_env (speaks ''two'') ''s'' [CB_Text ''q2''] c1);
       transcript = [asked None ''q1'', said None ''one'']; load = (\<lambda>c. snd (resume_session plain_env (replays transcript) resume_s c));
       history = sc_buffer (channel_of (acp_shared c1) ''s'');
       restarted = sc_buffer (channel_of (acp_shared (load fresh_v1)) ''s'') in
   thread_entries_of c2 = [E_Message ''v1-synthetic-1'' Role_Agent [CB_Text ''one'', CB_Text ''two'']]
   \<and> thread_entries_of (load c1) =
       [E_Message ''v1-synthetic-1'' Role_Agent [CB_Text ''one''], E_Message ''v1-synthetic-2'' Role_User [CB_Text ''q1''],
        E_Message ''v1-synthetic-3'' Role_Agent [CB_Text ''one'']]
   \<and> entries_of (history @ restarted) =
       [E_Message ''v1-synthetic-1'' Role_Agent [CB_Text ''one''], E_Message ''v1-synthetic-2'' Role_Agent [CB_Text ''one'']]"
  by code_simp

text \<open>
  Permission requests of two connections share their ids. Each connection numbers its requests
  from one, and a request with a known id replaces the request of that entry but keeps its outcome:
  in a thread that was reconnected, the first question of the new agent process is shown as already
  decided while the agent still waits for the answer.
\<close>

theorem reconnected_permission_shown_decided:
  "let ask = (\<lambda>title. In_Permission1 \<lparr>ap1_session_id = ''s'', ap1_tool_call_id = ''t'', ap1_title = Some title, ap1_options = []\<rparr>);
       c1 = fold (inbound plain_env) [ask ''read'', In_Decision 0] fresh_v1;
       c2 = fold (inbound plain_env) [ask ''delete''] fresh_v1;
       shown = entries_of (sc_buffer (channel_of (acp_shared c1) ''s'') @ sc_buffer (channel_of (acp_shared c2) ''s'')) in
   (case shown of [E_Permission i p outcome] \<Rightarrow> i = ''perm-1'' \<and> pr_title p = ''delete'' \<and> outcome = Some PermCancelled | _ \<Rightarrow> False)
   \<and> length (acp_undecided c2) = 1 \<and> acp_responses c2 = []"
  by code_simp


section \<open>Permissions\<close>

definition perm_name :: "nat \<Rightarrow> string" where
  "perm_name k = ''perm-'' @ show_nat k"

fun asks :: "Inbound \<Rightarrow> bool" where
  "asks (In_Permission1 _) = True"
| "asks (In_Permission2 _) = True"
| "asks _ = False"

definition request_ids :: "AcpConnection \<Rightarrow> string list" where
  "request_ids c = map fst (acp_responses c) @ map (pr_req_id \<circ> snd) (acp_undecided c)"

definition answered :: "AcpEnv \<Rightarrow> nat \<Rightarrow> AcpConnection \<Rightarrow> bool" where
  "answered env n c \<longleftrightarrow> acs_permission_seq (acp_shared c) = of_nat n
     \<and> mset (request_ids c) = mset (map perm_name [1..<Suc n])
     \<and> list_all (\<lambda>(i, outcome). \<exists>p. pr_req_id p = i \<and> outcome = permission_response (ae_resolver env p)) (acp_responses c)"

lemma unat_of_small: "n < 2 ^ 32 \<Longrightarrow> unat (word_of_nat n :: u32) = n"
  by (simp add: unsigned_of_nat take_bit_nat_eq_self)

lemma answered_ask:
  assumes "answered env n c" "Suc n < 2 ^ 32" "pr_req_id p = fst (next_request_id (acp_shared c))"
  shows "answered env (Suc n) (ask i p (c\<lparr>acp_shared := snd (next_request_id (acp_shared c))\<rparr>))"
proof -
  have "acs_permission_seq (acp_shared c) + 1 = word_of_nat (Suc n)" using assms(1) by (simp add: answered_def)
  moreover have "unat (word_of_nat (Suc n) :: u32) = Suc n" using assms(2) by (rule unat_of_small)
  ultimately have "pr_req_id p = perm_name (Suc n)" using assms(3) by (simp add: next_request_id_def perm_name_def add.commute)
  moreover have "acs_permission_seq (acp_shared c) + 1 = of_nat (Suc n)" using assms(1) by (simp add: answered_def)
  ultimately show ?thesis using assms(1) by (simp add: answered_def ask_def request_ids_def next_request_id_def)
qed

lemma mset_remove_nth: "k < length xs \<Longrightarrow> add_mset (xs ! k) (mset (take k xs @ drop (Suc k) xs)) = mset xs"
  by (metis append.assoc append_Cons append_Nil id_take_nth_drop mset_append mset.simps(2) union_mset_add_mset_right)

lemma answered_decision:
  assumes "answered env n c"
  shows "answered env n (on_decision env k c)"
proof (cases "k < length (acp_undecided c)")
  case True
  obtain i p where ip: "acp_undecided c ! k = (i, p)" by fastforce
  have "image_mset (pr_req_id \<circ> snd) (mset (acp_undecided c)) =
      add_mset (pr_req_id p) (image_mset (pr_req_id \<circ> snd) (mset (take k (acp_undecided c) @ drop (Suc k) (acp_undecided c))))"
    using arg_cong[OF mset_remove_nth[OF True], of "image_mset (pr_req_id \<circ> snd)"] by (simp add: ip)
  thus ?thesis using assms True by (auto simp: answered_def on_decision_def ip request_ids_def Let_def)
qed (simp add: on_decision_def assms)

lemma answered_inbound:
  assumes "answered env n c" "asks m \<Longrightarrow> Suc n < 2 ^ 32"
  shows "answered env (if asks m then Suc n else n) (inbound env m c)"
proof (cases m)
  case (In_Update1 i u)
  have "acs_permission_seq (on_update1 env i u s) = acs_permission_seq s" for s
    by (simp add: on_update1_def map_v1_def Let_def split: prod.split)
  thus ?thesis using assms by (simp add: In_Update1 answered_def request_ids_def)
next
  case (In_Update2 i u)
  thus ?thesis using assms by (simp add: answered_def request_ids_def on_update2_def)
next
  case (In_Permission1 r)
  thus ?thesis using answered_ask[OF assms(1)] assms(2)
    by (auto simp: on_permission1_def v1_permission_def split: prod.split)
next
  case (In_Permission2 r)
  thus ?thesis using answered_ask[OF assms(1)] assms(2)
    by (auto simp: on_permission2_def split: prod.split)
next
  case (In_Decision k)
  thus ?thesis using answered_decision[OF assms(1)] by simp
qed

lemma answered_inbounds:
  "answered env n c \<Longrightarrow> n + length (filter asks ms) < 2 ^ 32 \<Longrightarrow>
     answered env (n + length (filter asks ms)) (fold (inbound env) ms c)"
proof (induction ms arbitrary: n c)
  case (Cons m ms)
  have "answered env (if asks m then Suc n else n) (inbound env m c)"
    by (rule answered_inbound) (use Cons.prems in auto)
  from Cons.IH[OF this] Cons.prems show ?case by (cases "asks m") simp_all
qed simp

lemma distinct_perm_names: "n < 2 ^ 32 \<Longrightarrow> distinct (map perm_name [1..<Suc n])"
  unfolding distinct_map inj_on_def perm_name_def
  by (intro conjI ballI impI distinct_upt show_nat_inj) (simp_all del: upt.simps)




section \<open>MCP servers\<close>

fun mcp_name :: "AcpMcpServer \<Rightarrow> string" where
  "mcp_name (AMS_Stdio name _ _ _) = name"
| "mcp_name (AMS_Http name _ _) = name"
| "mcp_name (AMS_Sse name _) = name"

fun mcp_values :: "AcpMcpServer \<Rightarrow> (string \<times> string) list" where
  "mcp_values (AMS_Stdio _ _ _ env) = env"
| "mcp_values (AMS_Http _ _ headers) = headers"
| "mcp_values (AMS_Sse _ _) = []"

definition server_values :: "SessionServer \<Rightarrow> (string \<times> RegistryValue) list" where
  "server_values s = (case ss_transport s of Stdio \<Rightarrow> ss_env s | Http \<Rightarrow> ss_headers s | Sse \<Rightarrow> [])"

text \<open>A server that can be reached: a command for stdio, an address otherwise.\<close>

definition reachable_server :: "SessionServer \<Rightarrow> bool" where
  "reachable_server s \<longleftrightarrow> (case ss_transport s of Stdio \<Rightarrow> ss_command s \<noteq> None | _ \<Rightarrow> ss_url s \<noteq> None)"

definition told :: "AcpProtocol \<Rightarrow> McpTransports \<Rightarrow> SessionServer \<Rightarrow> AcpMcpServer option" where
  "told protocol ts = (case protocol of V1 \<Rightarrow> v1_mcp_server ts | V2 \<Rightarrow> v2_mcp_server ts)"

lemma told_server:
  assumes "reachable_server s" "transport_supported ts (ss_transport s)" "protocol = V2 \<Longrightarrow> \<not> mt_sse ts"
  shows "\<exists>m. told protocol ts s = Some m \<and> mcp_name m = ss_name s \<and> mcp_values m = resolved_pairs (server_values s)"
  using assms
  by (cases "ss_transport s"; cases protocol)
    (auto simp: told_def v1_mcp_server_def v2_mcp_server_def transport_supported_def reachable_server_def server_values_def
      resolved_pairs_def List.map_filter_simps)

lemma map_filter_all:
  assumes "\<And>x. x \<in> set xs \<Longrightarrow> f x = Some (g x)"
  shows "List.map_filter f xs = map g xs"
  using assms by (induction xs) (simp_all add: List.map_filter_simps)

lemma mcp_servers_of_told:
  "mcp_servers_of env c values = List.map_filter (told (acp_protocol c) (nc_mcp (acp_capabilities c))) (parse_session_servers (ae_parse env) values)"
  by (simp add: mcp_servers_of_def told_def v1_mcp_servers_def v2_mcp_servers_def split: AcpProtocol.split)


definition gh_entry :: RegistryEntry where
  "gh_entry = \<lparr>re_transport = Stdio, re_command = Some ''gh'', re_args = [], re_env = [(''T'', Secret ''keychain:x''), (''U'', Plain ''u'')],
     re_url = None, re_headers = [], re_meta = default_meta\<rparr>"


end
