(* ===== verification/Disk.thy ===== *)
theory Disk
  imports Rust_Text Tethys_Prelude
begin

text \<open>
  The part of \<open>std::fs\<close> that the skill library uses, over a disk of files, directories and other
  nodes (symbolic links, devices). A location is a canonical absolute path as a list of names; a
  directory lists its entries in the order of the disk. Every mutation first asks \<open>faults\<close>, by the
  number of mutations so far, whether the operating system refuses it. The structural errors
  (missing parents, full directories, a directory moved into itself) are those of POSIX.
\<close>

datatype Node = FileNode string bool | DirNode | OtherNode

type_synonym loc = "string list"
type_synonym disk = "(loc \<times> Node) list"

definition below :: "loc \<Rightarrow> loc \<Rightarrow> bool" where
  "below dir p \<longleftrightarrow> take (length dir) p = dir"

definition node_at :: "disk \<Rightarrow> loc \<Rightarrow> Node option" where
  "node_at d p = (if p = [] then Some DirNode else map_of d p)"

definition is_dir_at :: "disk \<Rightarrow> loc \<Rightarrow> bool" where
  "is_dir_at d p \<longleftrightarrow> node_at d p = Some DirNode"

definition is_file_at :: "disk \<Rightarrow> loc \<Rightarrow> bool" where
  "is_file_at d p \<longleftrightarrow> (case node_at d p of Some (FileNode _ _) \<Rightarrow> True | _ \<Rightarrow> False)"

definition read_dir :: "disk \<Rightarrow> loc \<Rightarrow> (string \<times> Node) list" where
  "read_dir d dir =
     map (\<lambda>(p, n). (last p, n)) (filter (\<lambda>(p, n). p \<noteq> [] \<and> butlast p = dir) d)"

definition read_at :: "disk \<Rightarrow> loc \<Rightarrow> string option" where
  "read_at d p = (case node_at d p of Some (FileNode bytes _) \<Rightarrow> Some bytes | _ \<Rightarrow> None)"

definition missing_dirs :: "disk \<Rightarrow> loc \<Rightarrow> loc list" where
  "missing_dirs d p = filter (\<lambda>q. node_at d q = None) (map (\<lambda>i. take i p) [1..<Suc (length p)])"

definition mkdirs :: "loc \<Rightarrow> disk \<Rightarrow> (string + disk)" where
  "mkdirs p d =
     (if list_all (\<lambda>i. node_at d (take i p) \<in> {None, Some DirNode}) [0..<Suc (length p)]
      then Ok (d @ map (\<lambda>q. (q, DirNode)) (missing_dirs d p)) else Err ''not a directory'')"

definition remove_tree :: "loc \<Rightarrow> disk \<Rightarrow> disk" where
  "remove_tree p d = filter (\<lambda>(q, n). \<not> below p q) d"

definition move_tree :: "loc \<Rightarrow> loc \<Rightarrow> disk \<Rightarrow> disk" where
  "move_tree a b d = map (\<lambda>(q, n). (if below a q then b @ drop (length a) q else q, n)) d"

definition rename_tree :: "loc \<Rightarrow> loc \<Rightarrow> disk \<Rightarrow> string + disk" where
  "rename_tree a b d =
     (if node_at d a = None \<or> a = [] \<or> b = [] then Err ''no such file or directory''
      else if a = b then Ok d
      else if below a b then Err ''invalid argument''
      else if \<not> is_dir_at d (butlast b) then Err ''no such file or directory''
      else case node_at d b of
          None \<Rightarrow> Ok (move_tree a b d)
        | Some DirNode \<Rightarrow>
            if \<not> is_dir_at d a then Err ''is a directory''
            else if read_dir d b \<noteq> [] then Err ''directory not empty''
            else Ok (move_tree a b (remove_tree b d))
        | Some _ \<Rightarrow>
            if is_dir_at d a then Err ''not a directory''
            else Ok (move_tree a b (remove_tree b d)))"

definition write_node :: "loc \<Rightarrow> string \<Rightarrow> bool \<Rightarrow> disk \<Rightarrow> string + disk" where
  "write_node p bytes exec d =
     (if p = [] \<or> \<not> is_dir_at d (butlast p) then Err ''no such file or directory''
      else if is_dir_at d p then Err ''is a directory''
      else Ok (filter (\<lambda>(q, n). q \<noteq> p) d @ [(p, FileNode bytes exec)]))"

end
