(* ===== verification/Skills.thy ===== *)
theory Skills
  imports Disk Sync_Registry Event_Store BTree_Map
begin

text \<open>
  The skill library: \<^verbatim>\<open>crates/tethys-sync/src/walk.rs\<close>, \<^verbatim>\<open>trust.rs\<close> and the listing, trust and enable
  operations of \<^verbatim>\<open>skills.rs\<close>. The state is the disk and the tables of the event store; \<open>SkillEnv\<close> holds
  what surrounds it: refused disk operations, the clock, BLAKE3, the JSON codec of sources, the
  remote git and the downloads. Paths are canonical, so the directory walk is the set of files
  below the directory.
\<close>

section \<open>State\<close>

record SkillWorld =
  sw_disk :: disk
  sw_ops :: nat
  sw_db :: Db

datatype TarKind = Tar_File | Tar_Dir | Tar_Link

record TarEntry =
  te_kind :: TarKind
  te_path :: string
  te_size :: "string + u64"
  te_bytes :: string
  te_exec :: bool

record ZipEntry =
  ze_name :: string
  ze_enclosed_name :: "loc option"
  ze_is_dir :: bool
  ze_unix_mode :: "nat option"
  ze_size :: u64
  ze_bytes :: string

datatype LsRemote = Ls_NotFound | Ls_Failed string | Ls_Exit bool string string

record SkillEnv =
  se_faults :: "nat \<Rightarrow> string option"
  se_now :: "nat \<Rightarrow> nat"
  se_hash :: "string \<Rightarrow> string"
  se_encode :: "SkillSource \<Rightarrow> string"
  se_decode :: "string \<Rightarrow> string + SkillSource"
  se_db_error :: "DbError \<Rightarrow> string"
  se_tar :: "string \<Rightarrow> string + (string + TarEntry) list"
  se_zip :: "string \<Rightarrow> string + (string + ZipEntry) list"
  se_ls_remote :: "string \<Rightarrow> string \<Rightarrow> LsRemote"
  se_get :: "string \<Rightarrow> SyncError + string"
  se_unified_diff :: "string \<Rightarrow> string \<Rightarrow> string"
  se_max_depth :: nat

type_synonym 'a sk_op = "SkillWorld \<Rightarrow> (SyncError + 'a) \<times> SkillWorld"

definition sk_ret :: "'a \<Rightarrow> 'a sk_op" where
  "sk_ret x w = (Ok x, w)"

definition sk_fail :: "SyncError \<Rightarrow> 'a sk_op" where
  "sk_fail e w = (Err e, w)"

definition sk_bind :: "'a sk_op \<Rightarrow> ('a \<Rightarrow> 'b sk_op) \<Rightarrow> 'b sk_op" where
  "sk_bind m f w = (case m w of (Inl e, w') \<Rightarrow> (Err e, w') | (Inr x, w') \<Rightarrow> f x w')"

definition sk_attempt :: "'a sk_op \<Rightarrow> (SyncError + 'a) sk_op" where
  "sk_attempt m w = (case m w of (r, w') \<Rightarrow> (Ok r, w'))"

definition sk_of :: "SyncError + 'a \<Rightarrow> 'a sk_op" where
  "sk_of x w = (x, w)"

definition sk_get :: "(SkillWorld \<Rightarrow> 'a) \<Rightarrow> 'a sk_op" where
  "sk_get f w = (Ok (f w), w)"

text \<open>A mutation of the disk.\<close>

definition sk_disk :: "SkillEnv \<Rightarrow> (disk \<Rightarrow> string + disk) \<Rightarrow> unit sk_op" where
  "sk_disk env f w =
     (let w' = w\<lparr>sw_ops := sw_ops w + 1\<rparr> in
      case se_faults env (sw_ops w) of
        Some e \<Rightarrow> (Err (IoError e), w')
      | None \<Rightarrow>
          (case f (sw_disk w) of
             Inl e \<Rightarrow> (Err (IoError e), w')
           | Inr d \<Rightarrow> (Ok (), w'\<lparr>sw_disk := d\<rparr>)))"

section \<open>Walking and inspecting\<close>

text \<open>\<open>Path::cmp\<close> compares by components.\<close>

definition walk_files :: "disk \<Rightarrow> loc \<Rightarrow> (loc \<times> loc) list" where
  "walk_files d dir =
     sort_key fst (map (\<lambda>(p, n). (drop (length dir) p, p))
       (filter (\<lambda>(p, n). below dir p \<and> (case n of FileNode _ _ \<Rightarrow> True | _ \<Rightarrow> False)) d))"

definition SCRIPT_EXTENSIONS :: "string list" where
  "SCRIPT_EXTENSIONS =
     [''sh'', ''bash'', ''zsh'', ''ps1'', ''bat'', ''cmd'', ''py'', ''js'', ''ts'', ''rb'', ''pl'', ''exe'', ''dll'']"

definition ascii_lower :: "char \<Rightarrow> char" where
  "ascii_lower c = (if byte_in 65 90 c then char_of (of_char c + 32 :: nat) else c)"

record SkillFacts =
  sf_content_hash :: string
  sf_requires_trust :: bool

definition executable :: "Node option \<Rightarrow> bool" where
  "executable n = (case n of Some (FileNode _ exec) \<Rightarrow> exec | _ \<Rightarrow> False)"

definition script_like :: "disk \<Rightarrow> loc \<Rightarrow> loc \<Rightarrow> string \<Rightarrow> bool" where
  "script_like d relative absolute bytes \<longleftrightarrow>
     (relative \<noteq> [] \<and> hd relative = ''scripts'')
     \<or> starts_with ''#!'' bytes
     \<or> \<not> utf8_valid bytes
     \<or> (case extension (last absolute) of
          Some e \<Rightarrow> utf8_valid e \<and> map ascii_lower e \<in> set SCRIPT_EXTENSIONS
        | None \<Rightarrow> False)
     \<or> executable (node_at d absolute)"

definition rel_text :: "loc \<Rightarrow> string" where
  "rel_text p = utf8_lossy (join_with (CHR ''/'') p)"

fun digest_text :: "(loc \<times> string) list \<Rightarrow> string" where
  "digest_text [] = []"
| "digest_text ((relative, bytes) # files) = rel_text relative @ [nul] @ bytes @ [nul] @ digest_text files"

definition file_contents :: "disk \<Rightarrow> loc \<Rightarrow> (loc \<times> string) list" where
  "file_contents d dir =
     map (\<lambda>(relative, absolute). (relative, case read_at d absolute of Some bytes \<Rightarrow> bytes | None \<Rightarrow> [])) (walk_files d dir)"

definition inspect :: "SkillEnv \<Rightarrow> disk \<Rightarrow> loc \<Rightarrow> SkillFacts" where
  "inspect env d dir =
     \<lparr>sf_content_hash = se_hash env (digest_text (file_contents d dir)),
      sf_requires_trust = list_ex (\<lambda>(relative, absolute).
        script_like d relative absolute (case read_at d absolute of Some bytes \<Rightarrow> bytes | None \<Rightarrow> [])) (walk_files d dir)\<rparr>"

section \<open>The library\<close>

record SkillHome =
  sh_root :: loc
  sh_home :: loc

definition skills_dir :: "SkillHome \<Rightarrow> Scope \<Rightarrow> loc" where
  "skills_dir home scope =
     (case scope of Global \<Rightarrow> sh_home home | Workspace \<Rightarrow> sh_root home) @ [''.agents'', ''skills'']"

definition skill_dir :: "SkillHome \<Rightarrow> Scope \<Rightarrow> string \<Rightarrow> loc" where
  "skill_dir home scope name = skills_dir home scope @ [name]"

definition skill_id :: "Scope \<Rightarrow> string \<Rightarrow> string" where
  "skill_id scope name = scope_as_str scope @ '':'' @ name"

definition loc_text :: "loc \<Rightarrow> string" where
  "loc_text p = CHR ''/'' # join_with (CHR ''/'') p"

definition record_skill :: "SkillEnv \<Rightarrow> SkillInfo \<Rightarrow> unit sk_op" where
  "record_skill env info w =
     (case upsert_skill \<lparr>skr_skill_id = skill_id (sinfo_scope info) (sinfo_name info),
         skr_scope = scope_as_str (sinfo_scope info), skr_name = sinfo_name info,
         skr_source = se_encode env (sinfo_source info), skr_pinned_sha = sinfo_pinned_sha info,
         skr_content_hash = sinfo_content_hash info,
         skr_trusted_hash = (if sinfo_trusted info then Some (sinfo_content_hash info) else None),
         skr_enabled = sinfo_enabled info, skr_requires_trust = sinfo_requires_trust info\<rparr> (sw_db w) of
        Inl e \<Rightarrow> (Err (StoreFailure (se_db_error env e)), w)
      | Inr db \<Rightarrow> (Ok (), w\<lparr>sw_db := db\<rparr>))"

definition info_from_row :: "SkillEnv \<Rightarrow> SkillRow \<Rightarrow> loc \<Rightarrow> SyncError + SkillInfo" where
  "info_from_row env row dir =
     (case se_decode env (skr_source row) of
        Inl e \<Rightarrow> Err (JsonError e)
      | Inr source \<Rightarrow>
          (case scope_parse (skr_scope row) of
             None \<Rightarrow> Err (RegistryError (''unknown scope '' @ skr_scope row))
           | Some scope \<Rightarrow>
               Ok \<lparr>sinfo_name = skr_name row, sinfo_scope = scope, sinfo_path = loc_text dir, sinfo_source = source,
                  sinfo_enabled = skr_enabled row, sinfo_requires_trust = skr_requires_trust row,
                  sinfo_trusted = (skr_trusted_hash row = Some (skr_content_hash row)),
                  sinfo_content_hash = skr_content_hash row, sinfo_pinned_sha = skr_pinned_sha row\<rparr>))"

definition folder_source :: SkillSource where
  "folder_source = \<lparr>sk_origin = SO_Folder, sk_repo = None, sk_reference = None, sk_subdir = None, sk_lock_hash = None, sk_url = None\<rparr>"

definition load_or_record :: "SkillEnv \<Rightarrow> SkillHome \<Rightarrow> Scope \<Rightarrow> string \<Rightarrow> SkillInfo sk_op" where
  "load_or_record env home scope name =
     (let dir = skill_dir home scope name in
      sk_bind (sk_get (\<lambda>w. inspect env (sw_disk w) dir)) (\<lambda>facts.
      sk_bind (sk_get (\<lambda>w. get_skill (sw_db w) (skill_id scope name))) (\<lambda>row.
      sk_bind (case row of
          Some row \<Rightarrow> sk_of (info_from_row env row dir)
        | None \<Rightarrow> sk_ret
            \<lparr>sinfo_name = name, sinfo_scope = scope, sinfo_path = loc_text dir, sinfo_source = folder_source,
             sinfo_enabled = True, sinfo_requires_trust = sf_requires_trust facts, sinfo_trusted = False,
             sinfo_content_hash = sf_content_hash facts, sinfo_pinned_sha = None\<rparr>) (\<lambda>existing.
      if sinfo_content_hash existing \<noteq> sf_content_hash facts
         \<or> sinfo_requires_trust existing \<noteq> sf_requires_trust facts
      then
        let refreshed = existing\<lparr>sinfo_content_hash := sf_content_hash facts,
              sinfo_requires_trust := sf_requires_trust facts, sinfo_trusted := False\<rparr> in
        sk_bind (record_skill env refreshed) (\<lambda>_. sk_ret refreshed)
      else sk_ret existing))))"

definition load_required :: "SkillEnv \<Rightarrow> SkillHome \<Rightarrow> Scope \<Rightarrow> string \<Rightarrow> SkillInfo sk_op" where
  "load_required env home scope name =
     sk_bind (sk_get (\<lambda>w. is_dir_at (sw_disk w) (skill_dir home scope name))) (\<lambda>present.
     if \<not> present then sk_fail (SkillNotFound name) else load_or_record env home scope name)"

definition discover_skills :: "disk \<Rightarrow> loc \<Rightarrow> string list" where
  "discover_skills d dir =
     sort (map (\<lambda>(n, k). utf8_lossy n) (filter (\<lambda>(n, k). k = DirNode \<and> \<not> starts_with ''.'' (utf8_lossy n)) (read_dir d dir)))"

fun list_scope ::
  "SkillEnv \<Rightarrow> SkillHome \<Rightarrow> Scope \<Rightarrow> string list \<Rightarrow> (string, SkillInfo) btree \<Rightarrow> (string, SkillInfo) btree sk_op" where
  "list_scope env home scope [] by_name = sk_ret by_name"
| "list_scope env home scope (name # names) by_name =
     sk_bind (load_or_record env home scope name) (\<lambda>info.
     list_scope env home scope names (if map_of by_name name = None then bt_insert name info by_name else by_name))"

definition list_skills :: "SkillEnv \<Rightarrow> SkillHome \<Rightarrow> SkillInfo list sk_op" where
  "list_skills env home =
     sk_bind (sk_get (\<lambda>w. discover_skills (sw_disk w) (skills_dir home Workspace))) (\<lambda>workspace.
     sk_bind (list_scope env home Workspace workspace []) (\<lambda>by_name.
     sk_bind (sk_get (\<lambda>w. discover_skills (sw_disk w) (skills_dir home Global))) (\<lambda>global.
     sk_bind (list_scope env home Global global by_name) (\<lambda>by_name.
     sk_ret (map snd by_name)))))"

definition trust_skill :: "SkillEnv \<Rightarrow> SkillHome \<Rightarrow> Scope \<Rightarrow> string \<Rightarrow> SkillInfo sk_op" where
  "trust_skill env home scope name =
     sk_bind (load_required env home scope name) (\<lambda>info.
     let trusted = info\<lparr>sinfo_trusted := True\<rparr> in
     sk_bind (record_skill env trusted) (\<lambda>_. sk_ret trusted))"

definition set_enabled :: "SkillEnv \<Rightarrow> SkillHome \<Rightarrow> Scope \<Rightarrow> string \<Rightarrow> bool \<Rightarrow> SkillInfo sk_op" where
  "set_enabled env home scope name enabled =
     sk_bind (load_required env home scope name) (\<lambda>info.
     let updated = info\<lparr>sinfo_enabled := enabled\<rparr> in
     sk_bind (record_skill env updated) (\<lambda>_. sk_ret updated))"

end
