(* ===== verification/Skill_Import.thy ===== *)
theory Skill_Import
  imports Skills
begin

text \<open>
  \<^verbatim>\<open>crates/tethys-sync/src/skill_import.rs\<close> and the update operations of \<^verbatim>\<open>skills.rs\<close>: skills from
  folders, zip archives, GitHub tarballs and lockfiles, staged beside their destination and moved
  into place. The archive readers, the network and the git binary are fields of \<open>SkillEnv\<close>; the
  loops of the extraction, with their caps, are the code's. Directory nesting is limited by
  \<open>se_max_depth\<close>, the point where the operating system refuses longer paths.
\<close>

section \<open>Specs and remotes\<close>

definition MAX_ARCHIVE_ENTRIES :: nat where "MAX_ARCHIVE_ENTRIES = 5000"
definition MAX_ARCHIVE_BYTES :: u64 where "MAX_ARCHIVE_BYTES = 100 * 1024 * 1024"

record GitHubSpec =
  gs_owner :: string
  gs_repo :: string
  gs_subdir :: "string option"
  gs_reference :: "string option"

definition spec_error :: "string \<Rightarrow> SyncError" where
  "spec_error spec = RegistryError (''github spec must be owner/repo[/subdir]@ref, got '' @ spec)"

definition github_url_spec :: "string \<Rightarrow> string \<Rightarrow> SyncError + GitHubSpec" where
  "github_url_spec spec rest =
     (let (host0, path) = (case split_once (CHR ''/'') rest of Some (h, p) \<Rightarrow> (h, p) | None \<Rightarrow> (rest, []));
          host = hd (split_on (CHR '':'') host0) in
      if host \<noteq> ''github.com'' \<and> host \<noteq> ''www.github.com'' then Err (UnsupportedSource spec)
      else case filter (\<lambda>s. s \<noteq> []) (split_on (CHR ''/'') path) of
          owner # repo0 # segs \<Rightarrow>
            let repo = (case strip_suffix ''.git'' repo0 of Some r \<Rightarrow> r | None \<Rightarrow> repo0) in
            (case segs of
               [] \<Rightarrow> Ok \<lparr>gs_owner = owner, gs_repo = repo, gs_subdir = None, gs_reference = None\<rparr>
             | seg # rest' \<Rightarrow>
                 if seg = ''tree''
                 then Ok \<lparr>gs_owner = owner, gs_repo = repo,
                     gs_subdir = (case rest' of _ # s # ss \<Rightarrow> Some (join_with (CHR ''/'') (s # ss)) | _ \<Rightarrow> None),
                     gs_reference = (case rest' of r # _ \<Rightarrow> Some r | [] \<Rightarrow> None)\<rparr>
                 else Ok \<lparr>gs_owner = owner, gs_repo = repo, gs_subdir = Some (join_with (CHR ''/'') segs),
                     gs_reference = None\<rparr>)
        | _ \<Rightarrow> Err (spec_error spec))"

definition parse_github_spec :: "string \<Rightarrow> SyncError + GitHubSpec" where
  "parse_github_spec spec =
     (let trimmed = trim spec in
      case (case strip_prefix ''https://'' trimmed of Some r \<Rightarrow> Some r | None \<Rightarrow> strip_prefix ''http://'' trimmed) of
        Some rest \<Rightarrow> github_url_spec spec rest
      | None \<Rightarrow>
          if contains ''://'' trimmed then Err (UnsupportedSource spec)
          else
            let (path_part, reference) = (case split_once (CHR ''@'') trimmed of
                  Some (path, r) \<Rightarrow> (path, Some r) | None \<Rightarrow> (trimmed, None)) in
            (case splitn 3 (CHR ''/'') path_part of
               owner # repo # subs \<Rightarrow>
                 if owner = [] \<or> repo = [] then Err (spec_error spec)
                 else Ok \<lparr>gs_owner = owner, gs_repo = repo,
                        gs_subdir = (case subs of s # _ \<Rightarrow> Some s | [] \<Rightarrow> None), gs_reference = reference\<rparr>
             | _ \<Rightarrow> Err (spec_error spec)))"

definition first_word :: "string \<Rightarrow> string option" where
  "first_word line =
     (let w = takeWhile (\<lambda>c. \<not> is_space c) (dropWhile is_space line) in if w = [] then None else Some w)"

fun first_some :: "('a \<Rightarrow> 'b option) \<Rightarrow> 'a list \<Rightarrow> 'b option" where
  "first_some f [] = None"
| "first_some f (x # xs) = (case f x of Some y \<Rightarrow> Some y | None \<Rightarrow> first_some f xs)"

definition resolve_remote :: "SkillEnv \<Rightarrow> string \<Rightarrow> string option \<Rightarrow> SyncError + string" where
  "resolve_remote env url reference =
     (let pattern = (case reference of Some r \<Rightarrow> r | None \<Rightarrow> ''HEAD'') in
      case se_ls_remote env url pattern of
        Ls_NotFound \<Rightarrow> Err GitMissing
      | Ls_Failed e \<Rightarrow> Err (SyncGitError e)
      | Ls_Exit ok out err \<Rightarrow>
          if \<not> ok then Err (SyncGitError (trim (utf8_lossy err)))
          else case first_some first_word (str_lines (utf8_lossy out)) of
              Some sha \<Rightarrow> Ok sha
            | None \<Rightarrow> Err (SyncGitError (''no ref '' @ pattern @ '' at '' @ url)))"

definition codeload_url :: "string \<Rightarrow> string \<Rightarrow> string \<Rightarrow> string" where
  "codeload_url owner repo sha = ''https://codeload.github.com/'' @ owner @ ''/'' @ repo @ ''/tar.gz/'' @ sha"

section \<open>Staging\<close>

definition sk_remove_tree :: "SkillEnv \<Rightarrow> loc \<Rightarrow> unit sk_op" where
  "sk_remove_tree env p = sk_bind (sk_attempt (sk_disk env (\<lambda>d. Ok (remove_tree p d)))) (\<lambda>_. sk_ret ())"

definition stage_dir :: "SkillEnv \<Rightarrow> SkillHome \<Rightarrow> Scope \<Rightarrow> string \<Rightarrow> loc sk_op" where
  "stage_dir env home scope hint =
     (let parent = skills_dir home scope in
      sk_bind (sk_disk env (mkdirs parent)) (\<lambda>_.
      sk_bind (sk_get (\<lambda>w. parent @ [''.staging-'' @ hint @ ''-'' @ show_nat (se_now env (sw_ops w))])) (\<lambda>staging.
      sk_bind (sk_disk env (mkdirs staging)) (\<lambda>_. sk_ret staging))))"

text \<open>\<open>copy_entries\<close> is the loop body of \<open>copy_dir\<close>, \<open>copy\<close> its recursive call.\<close>

fun copy_entries :: "SkillEnv \<Rightarrow> (loc \<Rightarrow> loc \<Rightarrow> unit sk_op) \<Rightarrow> loc \<Rightarrow> loc \<Rightarrow> (string \<times> Node) list \<Rightarrow> unit sk_op" where
  "copy_entries env copy source destination [] = sk_ret ()"
| "copy_entries env copy source destination ((name, node) # rest) =
     sk_bind (case node of
         DirNode \<Rightarrow>
           sk_bind (sk_disk env (mkdirs (destination @ [name]))) (\<lambda>_. copy (source @ [name]) (destination @ [name]))
       | FileNode bytes exec \<Rightarrow> sk_disk env (write_node (destination @ [name]) bytes exec)
       | OtherNode \<Rightarrow> sk_ret ()) (\<lambda>_.
     copy_entries env copy source destination rest)"

primrec copy_dir :: "SkillEnv \<Rightarrow> nat \<Rightarrow> loc \<Rightarrow> loc \<Rightarrow> unit sk_op" where
  "copy_dir env 0 = (\<lambda>source destination. sk_fail (IoError ''file name too long''))"
| "copy_dir env (Suc n) = (\<lambda>source destination.
     sk_bind (sk_get (\<lambda>w. (is_dir_at (sw_disk w) source, read_dir (sw_disk w) source))) (\<lambda>(present, entries).
     if \<not> present then sk_fail (IoError ''no such file or directory'')
     else copy_entries env (copy_dir env n) source destination entries))"

section \<open>Extraction\<close>

text \<open>\<open>unpack_in\<close> of the tar crate creates the directory or writes the file below the destination.\<close>

definition normal_names :: "string \<Rightarrow> loc" where
  "normal_names path = concat (map (\<lambda>c. case c of Normal n \<Rightarrow> [n] | _ \<Rightarrow> []) (components path))"

definition unsafe_path :: "string \<Rightarrow> bool" where
  "unsafe_path path \<longleftrightarrow> is_absolute path \<or> ParentDir \<in> set (components path)"

definition put_file :: "SkillEnv \<Rightarrow> loc \<Rightarrow> string \<Rightarrow> bool \<Rightarrow> unit sk_op" where
  "put_file env target bytes exec =
     sk_bind (sk_disk env (mkdirs (butlast target))) (\<lambda>_. sk_disk env (write_node target bytes exec))"

definition unpack_in :: "SkillEnv \<Rightarrow> TarEntry \<Rightarrow> loc \<Rightarrow> unit sk_op" where
  "unpack_in env e destination =
     (let names = normal_names (te_path e) in
      if names = [] then sk_ret ()
      else if te_kind e = Tar_Dir then sk_disk env (mkdirs (destination @ names))
      else put_file env (destination @ names) (te_bytes e) (te_exec e))"

definition io_as_archive :: "unit sk_op \<Rightarrow> unit sk_op" where
  "io_as_archive m w = (case m w of
     (Inl (IoError e), w') \<Rightarrow> (Err (UnsafeArchive e), w') | r \<Rightarrow> r)"

fun tar_loop :: "SkillEnv \<Rightarrow> loc \<Rightarrow> nat \<Rightarrow> u64 \<Rightarrow> (string + TarEntry) list \<Rightarrow> unit sk_op" where
  "tar_loop env destination count total_bytes [] = sk_ret ()"
| "tar_loop env destination count total_bytes (Inl e # rest) = sk_fail (UnsafeArchive e)"
| "tar_loop env destination count total_bytes (Inr e # rest) =
     (if te_kind e = Tar_Link then sk_fail (UnsafeArchive ''archive contains a link'')
      else if unsafe_path (te_path e) then sk_fail (UnsafeArchive (''unsafe path '' @ te_path e))
      else case te_size e of
          Inl err \<Rightarrow> sk_fail (UnsafeArchive err)
        | Inr len \<Rightarrow>
            if count + 1 > MAX_ARCHIVE_ENTRIES \<or> total_bytes + len > MAX_ARCHIVE_BYTES
            then sk_fail (UnsafeArchive ''archive exceeds entry or size cap'')
            else sk_bind (io_as_archive (unpack_in env e destination)) (\<lambda>_.
              tar_loop env destination (count + 1) (total_bytes + len) rest))"

definition extract_tar :: "SkillEnv \<Rightarrow> string \<Rightarrow> loc \<Rightarrow> unit sk_op" where
  "extract_tar env bytes destination =
     (case se_tar env bytes of
        Inl e \<Rightarrow> sk_fail (UnsafeArchive e)
      | Inr entries \<Rightarrow> tar_loop env destination 0 0 entries)"

definition is_symlink_mode :: "nat option \<Rightarrow> bool" where
  "is_symlink_mode mode = (case mode of Some m \<Rightarrow> m div 4096 mod 16 = 10 | None \<Rightarrow> False)"

fun zip_loop :: "SkillEnv \<Rightarrow> loc \<Rightarrow> u64 \<Rightarrow> (string + ZipEntry) list \<Rightarrow> unit sk_op" where
  "zip_loop env destination total_bytes [] = sk_ret ()"
| "zip_loop env destination total_bytes (Inl e # rest) = sk_fail (UnsafeArchive e)"
| "zip_loop env destination total_bytes (Inr e # rest) =
     (case ze_enclosed_name e of
        None \<Rightarrow> sk_fail (UnsafeArchive (''unsafe path '' @ ze_name e))
      | Some relative \<Rightarrow>
          if ze_is_dir e
          then sk_bind (sk_disk env (mkdirs (destination @ relative))) (\<lambda>_. zip_loop env destination total_bytes rest)
          else if is_symlink_mode (ze_unix_mode e)
          then sk_fail (UnsafeArchive (''symlink '' @ join_with (CHR ''/'') relative))
          else if total_bytes + ze_size e > MAX_ARCHIVE_BYTES
          then sk_fail (UnsafeArchive (''extracted size exceeds 104857600 bytes''))
          else sk_bind (put_file env (destination @ relative) (ze_bytes e) False) (\<lambda>_.
            zip_loop env destination (total_bytes + ze_size e) rest))"

definition extract_zip :: "SkillEnv \<Rightarrow> string \<Rightarrow> loc \<Rightarrow> unit sk_op" where
  "extract_zip env bytes destination =
     (case se_zip env bytes of
        Inl e \<Rightarrow> sk_fail (UnsafeArchive e)
      | Inr entries \<Rightarrow>
          if length entries > MAX_ARCHIVE_ENTRIES
          then sk_fail (UnsafeArchive (show_nat (length entries) @ '' entries exceeds the 5000 cap''))
          else zip_loop env destination 0 entries)"

section \<open>Moving into place\<close>

fun move_loop :: "SkillEnv \<Rightarrow> loc \<Rightarrow> loc \<Rightarrow> string list \<Rightarrow> unit sk_op" where
  "move_loop env source destination [] = sk_ret ()"
| "move_loop env source destination (name # names) =
     sk_bind (sk_disk env (rename_tree (source @ [name]) (destination @ [name]))) (\<lambda>_.
     move_loop env source destination names)"

definition move_contents :: "SkillEnv \<Rightarrow> loc \<Rightarrow> loc \<Rightarrow> unit sk_op" where
  "move_contents env source destination =
     sk_bind (sk_get (\<lambda>w. map fst (read_dir (sw_disk w) source))) (\<lambda>names.
     move_loop env source destination names)"

text \<open>\<open>join\<close> with a path that may hold \<open>..\<close>, resolved by the operating system.\<close>

fun step_loc :: "Component \<Rightarrow> loc \<Rightarrow> loc" where
  "step_loc RootDir loc = []"
| "step_loc CurDir loc = loc"
| "step_loc ParentDir loc = butlast loc"
| "step_loc (Normal n) loc = loc @ [n]"

definition join_loc :: "loc \<Rightarrow> string \<Rightarrow> loc" where
  "join_loc base path = fold step_loc (components path) base"

definition strip_wrapper :: "SkillEnv \<Rightarrow> loc \<Rightarrow> string \<Rightarrow> unit sk_op" where
  "strip_wrapper env staging subdir =
     sk_bind (sk_get (\<lambda>w. sort (map fst (filter (\<lambda>(n, k). k = DirNode) (read_dir (sw_disk w) staging))))) (\<lambda>entries.
     case entries of
       [] \<Rightarrow> sk_fail (RegistryError ''archive has no wrapper directory'')
     | wrapper # _ \<Rightarrow>
         let source = join_loc (staging @ [wrapper]) subdir in
         sk_bind (sk_get (\<lambda>w. is_dir_at (sw_disk w) source)) (\<lambda>present.
         if \<not> present then sk_fail (NotFoundError (subdir @ '' in archive''))
         else move_contents env source staging))"

definition strip_single_wrapper :: "SkillEnv \<Rightarrow> loc \<Rightarrow> unit sk_op" where
  "strip_single_wrapper env staging =
     sk_bind (sk_get (\<lambda>w. read_dir (sw_disk w) staging)) (\<lambda>entries.
     case entries of
       [(wrapper, DirNode)] \<Rightarrow> move_contents env (staging @ [wrapper]) staging
     | _ \<Rightarrow> sk_ret ())"

definition stage_tarball :: "SkillEnv \<Rightarrow> SkillHome \<Rightarrow> Scope \<Rightarrow> string \<Rightarrow> string option \<Rightarrow> loc sk_op" where
  "stage_tarball env home scope bytes subdir =
     sk_bind (stage_dir env home scope ''upstream'') (\<lambda>staging.
     sk_bind (sk_attempt (sk_bind (extract_tar env bytes staging) (\<lambda>_.
         case subdir of
           Some s \<Rightarrow> strip_wrapper env staging s
         | None \<Rightarrow> strip_single_wrapper env staging))) (\<lambda>r.
     case r of
       Inl e \<Rightarrow> sk_bind (sk_remove_tree env staging) (\<lambda>_. sk_fail e)
     | Inr _ \<Rightarrow> sk_ret staging))"

fun collect_skill_dirs :: "nat \<Rightarrow> disk \<Rightarrow> loc \<Rightarrow> loc list" where
  "collect_skill_dirs 0 d dir = []"
| "collect_skill_dirs (Suc n) d dir =
     concat (map (\<lambda>(name, k).
       if k \<noteq> DirNode then []
       else if is_file_at d (dir @ [name] @ [''SKILL.md'']) then [dir @ [name]]
       else collect_skill_dirs n d (dir @ [name])) (read_dir d dir))"

text \<open>Depths 0 to 4 are searched.\<close>

definition find_skill_root :: "disk \<Rightarrow> loc \<Rightarrow> SyncError + loc" where
  "find_skill_root d staging =
     (if is_file_at d (staging @ [''SKILL.md'']) then Ok staging
      else case sort (collect_skill_dirs 5 d staging) of
          root # _ \<Rightarrow> Ok root
        | [] \<Rightarrow> Err (RegistryError ''archive does not contain a SKILL.md''))"

definition trash_of :: "SkillEnv \<Rightarrow> SkillWorld \<Rightarrow> loc \<Rightarrow> loc" where
  "trash_of env w destination =
     butlast destination @ [''.trash-'' @ last destination @ ''-'' @ show_nat (se_now env (sw_ops w))]"

definition swap_existing :: "SkillEnv \<Rightarrow> loc \<Rightarrow> loc \<Rightarrow> unit sk_op" where
  "swap_existing env destination source =
     sk_bind (sk_get (\<lambda>w. trash_of env w destination)) (\<lambda>trash.
     sk_bind (sk_disk env (rename_tree destination trash)) (\<lambda>_.
     sk_bind (sk_attempt (sk_disk env (rename_tree source destination))) (\<lambda>r.
     case r of
       Inl e \<Rightarrow> sk_bind (sk_attempt (sk_disk env (rename_tree trash destination))) (\<lambda>_. sk_fail e)
     | Inr _ \<Rightarrow> sk_remove_tree env trash)))"

definition swap_into_place :: "SkillEnv \<Rightarrow> loc \<Rightarrow> loc \<Rightarrow> unit sk_op" where
  "swap_into_place env destination source =
     sk_bind (sk_disk env (mkdirs (butlast destination))) (\<lambda>_.
     sk_bind (sk_get (\<lambda>w. node_at (sw_disk w) destination \<noteq> None)) (\<lambda>present.
     if present then swap_existing env destination source
     else sk_disk env (rename_tree source destination)))"

section \<open>Installing\<close>

fun named_line :: "string list \<Rightarrow> string option" where
  "named_line [] = None"
| "named_line (line0 # lines) =
     (let line = trim line0 in
      if line = ''---'' then None
      else case strip_prefix ''name:'' line of
          Some value0 \<Rightarrow>
            let value = trim_matches (\<lambda>c. c = CHR 0x27) (trim_matches (\<lambda>c. c = CHR 0x22) (trim value0)) in
            if value \<noteq> [] then Some value else named_line lines
        | None \<Rightarrow> named_line lines)"

definition frontmatter_name :: "disk \<Rightarrow> loc \<Rightarrow> string option" where
  "frontmatter_name d dir =
     (case read_at d (dir @ [''SKILL.md'']) of
        None \<Rightarrow> None
      | Some bytes \<Rightarrow>
          if \<not> utf8_valid bytes then None
          else case str_lines bytes of
              first # lines \<Rightarrow> if trim first \<noteq> ''---'' then None else named_line lines
            | [] \<Rightarrow> None)"

definition validate_name :: "string \<Rightarrow> SyncError + unit" where
  "validate_name name =
     (if name = [] \<or> name = ''.'' \<or> name = ''..'' \<or> CHR ''/'' \<in> set name \<or> CHR 0x5C \<in> set name
      then Err (RegistryError (''invalid skill name '' @ name)) else Ok ())"

definition skill_name :: "disk \<Rightarrow> string option \<Rightarrow> loc \<Rightarrow> SyncError + string" where
  "skill_name d explicit_name root =
     (case explicit_name of
        Some n \<Rightarrow> Ok n
      | None \<Rightarrow>
          (case frontmatter_name d root of
             Some n \<Rightarrow> Ok n
           | None \<Rightarrow> if root = [] then Err (RegistryError ''cannot determine skill name'') else Ok (utf8_lossy (last root))))"

definition install_skill ::
  "SkillEnv \<Rightarrow> SkillHome \<Rightarrow> Scope \<Rightarrow> loc \<Rightarrow> string option \<Rightarrow> SkillSource \<Rightarrow> string option \<Rightarrow> SkillInfo sk_op" where
  "install_skill env home scope staging explicit_name source pinned_sha =
     sk_bind (sk_get sw_disk) (\<lambda>d.
     sk_bind (sk_of (find_skill_root d staging)) (\<lambda>root.
     sk_bind (sk_of (skill_name d explicit_name root)) (\<lambda>name.
     sk_bind (sk_of (validate_name name)) (\<lambda>_.
     let destination = skill_dir home scope name in
     sk_bind (sk_attempt (swap_into_place env destination root)) (\<lambda>swap.
     sk_bind (sk_remove_tree env staging) (\<lambda>_.
     sk_bind (sk_of swap) (\<lambda>_.
     sk_bind (sk_get (\<lambda>w. inspect env (sw_disk w) destination)) (\<lambda>facts.
     let info = \<lparr>sinfo_name = name, sinfo_scope = scope, sinfo_path = loc_text destination, sinfo_source = source,
           sinfo_enabled = True, sinfo_requires_trust = sf_requires_trust facts, sinfo_trusted = False,
           sinfo_content_hash = sf_content_hash facts, sinfo_pinned_sha = pinned_sha\<rparr> in
     sk_bind (record_skill env info) (\<lambda>_. sk_ret info)))))))))"

definition import_folder ::
  "SkillEnv \<Rightarrow> SkillHome \<Rightarrow> Scope \<Rightarrow> string option \<Rightarrow> loc \<Rightarrow> SkillInfo sk_op" where
  "import_folder env home scope name source_dir =
     sk_bind (stage_dir env home scope (case name of Some n \<Rightarrow> n | None \<Rightarrow> ''skill'')) (\<lambda>staging.
     sk_bind (copy_dir env (se_max_depth env) source_dir staging) (\<lambda>_.
     install_skill env home scope staging name
       \<lparr>sk_origin = SO_Folder, sk_repo = None, sk_reference = None, sk_subdir = None, sk_lock_hash = None,
        sk_url = Some (loc_text source_dir)\<rparr> None))"

definition import_zip :: "SkillEnv \<Rightarrow> SkillHome \<Rightarrow> Scope \<Rightarrow> string \<Rightarrow> SkillInfo sk_op" where
  "import_zip env home scope bytes =
     sk_bind (stage_dir env home scope ''skill'') (\<lambda>staging.
     sk_bind (sk_attempt (extract_zip env bytes staging)) (\<lambda>r.
     case r of
       Inl e \<Rightarrow> sk_bind (sk_remove_tree env staging) (\<lambda>_. sk_fail e)
     | Inr _ \<Rightarrow> install_skill env home scope staging None (folder_source\<lparr>sk_origin := SO_Archive\<rparr>) None))"

definition import_tarball ::
  "SkillEnv \<Rightarrow> SkillHome \<Rightarrow> Scope \<Rightarrow> string \<Rightarrow> string option \<Rightarrow> SkillSource \<Rightarrow> string option \<Rightarrow> SkillInfo sk_op" where
  "import_tarball env home scope bytes subdir source pinned_sha =
     sk_bind (stage_tarball env home scope bytes subdir) (\<lambda>staging.
     install_skill env home scope staging None source pinned_sha)"

definition import_github :: "SkillEnv \<Rightarrow> SkillHome \<Rightarrow> Scope \<Rightarrow> string \<Rightarrow> SkillInfo sk_op" where
  "import_github env home scope spec0 =
     sk_bind (sk_of (parse_github_spec spec0)) (\<lambda>spec.
     let repo = gs_owner spec @ ''/'' @ gs_repo spec in
     sk_bind (sk_of (resolve_remote env (''https://github.com/'' @ repo @ ''.git'') (gs_reference spec))) (\<lambda>sha.
     sk_bind (sk_of (se_get env (codeload_url (gs_owner spec) (gs_repo spec) sha))) (\<lambda>bytes.
     import_tarball env home scope bytes (gs_subdir spec)
       \<lparr>sk_origin = SO_GitHub, sk_repo = Some repo, sk_reference = gs_reference spec, sk_subdir = gs_subdir spec,
        sk_lock_hash = None, sk_url = None\<rparr> (Some sha))))"

section \<open>Updates\<close>

record SkillUpdateCheck =
  suc_name :: string
  suc_pinned_sha :: "string option"
  suc_upstream_sha :: "string option"
  suc_update_available :: bool
  suc_error :: "string option"

record SkillUpdatePlan =
  sup_name :: string
  sup_upstream_sha :: string
  sup_changed_files :: "string list"
  sup_diff :: string

record SkillUpdateApplied =
  sua_name :: string
  sua_pinned_sha :: string
  sua_content_hash :: string

definition github_url :: "string \<Rightarrow> string" where
  "github_url repo = ''https://github.com/'' @ repo @ ''.git''"

definition remote_url :: "SkillInfo \<Rightarrow> string option" where
  "remote_url info =
     (case sk_url (sinfo_source info) of
        Some u \<Rightarrow> Some u | None \<Rightarrow> map_option github_url (sk_repo (sinfo_source info)))"

definition skills_codeload_url :: "string \<Rightarrow> string \<Rightarrow> string" where
  "skills_codeload_url repo sha = ''https://codeload.github.com/'' @ repo @ ''/tar.gz/'' @ sha"

definition update_check :: "SkillEnv \<Rightarrow> SkillHome \<Rightarrow> Scope \<Rightarrow> string \<Rightarrow> SkillUpdateCheck sk_op" where
  "update_check env home scope name =
     sk_bind (load_required env home scope name) (\<lambda>info.
     sk_ret (case remote_url info of
        None \<Rightarrow> \<lparr>suc_name = sinfo_name info, suc_pinned_sha = sinfo_pinned_sha info, suc_upstream_sha = None,
            suc_update_available = False, suc_error = Some ''skill has no upstream repository''\<rparr>
      | Some remote \<Rightarrow>
          (case resolve_remote env remote (sk_reference (sinfo_source info)) of
             Inr sha \<Rightarrow> \<lparr>suc_name = sinfo_name info, suc_pinned_sha = sinfo_pinned_sha info, suc_upstream_sha = Some sha,
                suc_update_available = (sinfo_pinned_sha info \<noteq> Some sha), suc_error = None\<rparr>
           | Inl e \<Rightarrow> \<lparr>suc_name = sinfo_name info, suc_pinned_sha = sinfo_pinned_sha info, suc_upstream_sha = None,
                suc_update_available = False, suc_error = Some (sync_error_text e)\<rparr>)))"

text \<open>What both update operations do before they differ: the info, the commit, the staged tree.\<close>

definition fetch_upstream :: "SkillEnv \<Rightarrow> SkillHome \<Rightarrow> Scope \<Rightarrow> string \<Rightarrow> (SkillInfo \<times> string \<times> loc \<times> loc) sk_op" where
  "fetch_upstream env home scope name =
     sk_bind (load_required env home scope name) (\<lambda>info.
     sk_bind (case sk_repo (sinfo_source info) of
         None \<Rightarrow> sk_fail (RegistryError ''skill has no upstream repository'') | Some repo \<Rightarrow> sk_ret repo) (\<lambda>repo.
     let remote = (case remote_url info of Some u \<Rightarrow> u | None \<Rightarrow> github_url repo) in
     sk_bind (sk_of (resolve_remote env remote (sk_reference (sinfo_source info)))) (\<lambda>sha.
     sk_bind (sk_of (se_get env (skills_codeload_url repo sha))) (\<lambda>bytes.
     sk_bind (stage_tarball env home scope bytes (sk_subdir (sinfo_source info))) (\<lambda>staging.
     sk_bind (sk_get sw_disk) (\<lambda>d.
     sk_bind (sk_of (find_skill_root d staging)) (\<lambda>upstream_root.
     sk_ret (info, sha, staging, upstream_root))))))))"

definition read_dir_files :: "disk \<Rightarrow> loc \<Rightarrow> (string, string) btree" where
  "read_dir_files d root = bt_of_list (map (\<lambda>(p, bytes). (rel_text p, bytes)) (file_contents d root))"

definition diff_dirs :: "SkillEnv \<Rightarrow> disk \<Rightarrow> loc \<Rightarrow> loc \<Rightarrow> string list \<times> string" where
  "diff_dirs env d installed upstream =
     (let old = read_dir_files d installed; new = read_dir_files d upstream;
          names = remdups_adj (sort (map fst old @ map fst new));
          changed = filter (\<lambda>n. map_of old n \<noteq> map_of new n) names;
          side = (\<lambda>m n. case map_of m n of Some bytes \<Rightarrow> utf8_lossy bytes | None \<Rightarrow> []) in
      (changed, concat (map (\<lambda>n. ''--- a/'' @ n @ [newline] @ ''+++ b/'' @ n @ [newline]
         @ se_unified_diff env (side old n) (side new n)) changed)))"

definition update_plan :: "SkillEnv \<Rightarrow> SkillHome \<Rightarrow> Scope \<Rightarrow> string \<Rightarrow> SkillUpdatePlan sk_op" where
  "update_plan env home scope name =
     sk_bind (fetch_upstream env home scope name) (\<lambda>(info, sha, staging, upstream_root).
     sk_bind (sk_get (\<lambda>w. diff_dirs env (sw_disk w) (skill_dir home scope name) upstream_root)) (\<lambda>(changed, diff).
     sk_bind (sk_remove_tree env staging) (\<lambda>_.
     sk_ret \<lparr>sup_name = sinfo_name info, sup_upstream_sha = sha, sup_changed_files = changed, sup_diff = diff\<rparr>)))"

definition update_apply :: "SkillEnv \<Rightarrow> SkillHome \<Rightarrow> Scope \<Rightarrow> string \<Rightarrow> SkillUpdateApplied sk_op" where
  "update_apply env home scope name =
     sk_bind (fetch_upstream env home scope name) (\<lambda>(info, sha, staging, upstream_root).
     let destination = skill_dir home scope name in
     sk_bind (sk_attempt (swap_into_place env destination upstream_root)) (\<lambda>swap.
     sk_bind (sk_remove_tree env staging) (\<lambda>_.
     sk_bind (sk_of swap) (\<lambda>_.
     sk_bind (sk_get (\<lambda>w. inspect env (sw_disk w) destination)) (\<lambda>facts.
     let updated = info\<lparr>sinfo_content_hash := sf_content_hash facts, sinfo_requires_trust := sf_requires_trust facts,
           sinfo_trusted := False, sinfo_pinned_sha := Some sha\<rparr> in
     sk_bind (record_skill env updated) (\<lambda>_.
     sk_ret \<lparr>sua_name = sinfo_name updated, sua_pinned_sha = sha, sua_content_hash = sf_content_hash facts\<rparr>))))))"

end
