(* ===== verification/Skill_Trust.thy ===== *)
theory Skill_Trust
  imports Skill_Import
begin

text \<open>
  What trusting a skill means. The invariant of the skill rows is kept by every operation of the
  library and every import, whatever happens to the disk in between, and gives that a skill is
  only shown as trusted while it has the content it was trusted with. The digest that pins the
  content is analysed at the end.
\<close>

section \<open>Triples\<close>

text \<open>\<open>I\<close> holds after errors, \<open>Q\<close> after results.\<close>

definition sk_triple :: "(SkillWorld \<Rightarrow> bool) \<Rightarrow> (SkillWorld \<Rightarrow> bool) \<Rightarrow> 'a sk_op \<Rightarrow> ('a \<Rightarrow> SkillWorld \<Rightarrow> bool) \<Rightarrow> bool" where
  "sk_triple I P m Q \<longleftrightarrow> (\<forall>w. P w \<longrightarrow> (case m w of (Inl e, w') \<Rightarrow> I w' | (Inr x, w') \<Rightarrow> Q x w'))"

definition sk_keeps :: "(SkillWorld \<Rightarrow> bool) \<Rightarrow> 'a sk_op \<Rightarrow> bool" where
  "sk_keeps I m \<longleftrightarrow> sk_triple I I m (\<lambda>_. I)"

named_theorems sk_intros \<open>operations that keep an invariant\<close>

lemma sk_tripleD: "sk_triple I P m Q \<Longrightarrow> P w \<Longrightarrow> m w = (Ok x, w') \<Longrightarrow> Q x w'"
  unfolding sk_triple_def by fastforce

lemma sk_keepsD: "sk_keeps I m \<Longrightarrow> I w \<Longrightarrow> I (snd (m w))"
  unfolding sk_keeps_def sk_triple_def by (cases "m w") (auto split: prod.splits sum.splits)

lemma sk_triple_bind:
  assumes "sk_triple I P m R" "\<And>x. sk_triple I (R x) (f x) Q"
  shows "sk_triple I P (sk_bind m f) Q"
  unfolding sk_triple_def
proof (intro allI impI)
  fix w assume "P w"
  with assms show "case sk_bind m f w of (Inl e, w') \<Rightarrow> I w' | (Inr x, w') \<Rightarrow> Q x w'"
    unfolding sk_triple_def sk_bind_def by (cases "m w"; cases "fst (m w)") fastforce+
qed

lemma sk_triple_weaken:
  assumes "sk_triple I P m Q" "\<And>x w. Q x w \<Longrightarrow> R x w"
  shows "sk_triple I P m R"
  unfolding sk_triple_def
proof (intro allI impI)
  fix w assume "P w"
  with assms show "case m w of (Inl e, w') \<Rightarrow> I w' | (Inr x, w') \<Rightarrow> R x w'"
    unfolding sk_triple_def by (cases "m w"; cases "fst (m w)") fastforce+
qed

lemma sk_keeps_bind [sk_intros]: "sk_keeps I m \<Longrightarrow> (\<And>x. sk_keeps I (f x)) \<Longrightarrow> sk_keeps I (sk_bind m f)"
  unfolding sk_keeps_def by (rule sk_triple_bind)

lemma sk_keeps_basic [sk_intros]:
  "sk_keeps I (sk_ret x)" "sk_keeps I (sk_fail e)" "sk_keeps I (sk_of y)" "sk_keeps I (sk_get f)"
  by (simp_all add: sk_keeps_def sk_triple_def sk_ret_def sk_fail_def sk_of_def sk_get_def split: sum.split)

lemma sk_keeps_attempt [sk_intros]: "sk_keeps I m \<Longrightarrow> sk_keeps I (sk_attempt m)"
  using sk_keepsD[of I m] by (auto simp: sk_keeps_def sk_triple_def sk_attempt_def split: prod.split)

lemma sk_keeps_if [sk_intros]:
  "(b \<Longrightarrow> sk_keeps I m) \<Longrightarrow> (\<not> b \<Longrightarrow> sk_keeps I n) \<Longrightarrow> sk_keeps I (if b then m else n)"
  by simp

lemma sk_keeps_cases [sk_intros]:
  "(\<And>a b. sk_keeps I (f a b)) \<Longrightarrow> sk_keeps I (case y of (a, b) \<Rightarrow> f a b)"
  "sk_keeps I m \<Longrightarrow> (\<And>v. sk_keeps I (g v)) \<Longrightarrow> sk_keeps I (case z of None \<Rightarrow> m | Some v \<Rightarrow> g v)"
  "(\<And>e. sk_keeps I (h e)) \<Longrightarrow> (\<And>v. sk_keeps I (k v)) \<Longrightarrow> sk_keeps I (case u of Inl e \<Rightarrow> h e | Inr v \<Rightarrow> k v)"
  "sk_keeps I m \<Longrightarrow> (\<And>x xs. sk_keeps I (l x xs)) \<Longrightarrow> sk_keeps I (case v of [] \<Rightarrow> m | x # xs \<Rightarrow> l x xs)"
  by (cases y, simp, cases z, simp, simp, cases u, simp, simp, cases v, simp, simp)

section \<open>Operations that only touch the disk\<close>

definition of_db :: "(Db \<Rightarrow> bool) \<Rightarrow> SkillWorld \<Rightarrow> bool" where
  "of_db J w = J (sw_db w)"

lemma keeps_sk_disk [sk_intros]: "sk_keeps (of_db J) (sk_disk env f)"
  by (simp add: sk_keeps_def sk_triple_def sk_disk_def of_db_def Let_def split: option.split sum.split)

lemma keeps_io_as_archive [sk_intros]: "sk_keeps I m \<Longrightarrow> sk_keeps I (io_as_archive m)"
  using sk_keepsD[of I m] unfolding sk_keeps_def sk_triple_def io_as_archive_def
  by (auto split: prod.splits sum.splits SyncError.splits)

lemma keeps_staging [sk_intros]:
  "sk_keeps (of_db J) (sk_remove_tree env p)" "sk_keeps (of_db J) (stage_dir env home scope hint)"
  "sk_keeps (of_db J) (put_file env target bytes exec)" "sk_keeps (of_db J) (unpack_in env e destination)"
  unfolding sk_remove_tree_def stage_dir_def put_file_def unpack_in_def Let_def by (intro sk_intros)+

lemma keeps_copy_entries:
  "(\<And>a b. sk_keeps (of_db J) (copy a b)) \<Longrightarrow> sk_keeps (of_db J) (copy_entries env copy source destination es)"
  by (induction env copy source destination es rule: copy_entries.induct)
    (auto intro!: sk_intros split: Node.split)

lemma keeps_copy_dir [sk_intros]: "sk_keeps (of_db J) (copy_dir env n source destination)"
proof (induction n arbitrary: source destination)
  case (Suc n)
  show ?case unfolding copy_dir.simps by (intro sk_intros keeps_copy_entries Suc)
qed (auto intro: sk_intros)

lemma keeps_tar_loop [sk_intros]: "sk_keeps (of_db J) (tar_loop env destination count acc entries)"
  by (induction env destination count acc entries rule: tar_loop.induct) (auto intro!: sk_intros split: sum.split)

lemma keeps_zip_loop [sk_intros]: "sk_keeps (of_db J) (zip_loop env destination acc entries)"
  by (induction env destination acc entries rule: zip_loop.induct) (auto intro!: sk_intros split: option.split)

lemma keeps_move_loop [sk_intros]: "sk_keeps (of_db J) (move_loop env source destination names)"
  by (induction env source destination names rule: move_loop.induct) (auto intro!: sk_intros)

lemma keeps_strip_single [sk_intros]: "sk_keeps (of_db J) (strip_single_wrapper env staging)"
  unfolding strip_single_wrapper_def move_contents_def
  by (rule sk_intros, rule sk_intros) (auto intro!: sk_intros split: list.split prod.split Node.split)

lemma keeps_extraction [sk_intros]:
  "sk_keeps (of_db J) (extract_tar env bytes staging)" "sk_keeps (of_db J) (extract_zip env bytes staging)"
  "sk_keeps (of_db J) (strip_wrapper env staging subdir)" "sk_keeps (of_db J) (swap_into_place env destination source)"
  unfolding extract_tar_def extract_zip_def strip_wrapper_def move_contents_def swap_into_place_def swap_existing_def Let_def
  by (intro sk_intros)+

lemma keeps_stage_tarball [sk_intros]: "sk_keeps (of_db J) (stage_tarball env home scope bytes subdir)"
  unfolding stage_tarball_def by (intro sk_intros)
section \<open>The rows\<close>

text \<open>
  A row is stored under the id of its scope and name; and for the skill in question, a row that
  counts as trusted carries the digest and the script flag it was trusted with.
\<close>

definition rows_named :: "Db \<Rightarrow> bool" where
  "rows_named db \<longleftrightarrow> (\<forall>i row. get_skill db i = Some row \<longrightarrow>
     (\<exists>scope. skr_scope row = scope_as_str scope \<and> i = skill_id scope (skr_name row)))"

definition pinned :: "string \<Rightarrow> SkillFacts \<Rightarrow> Db \<Rightarrow> bool" where
  "pinned i facts db \<longleftrightarrow> rows_named db \<and> (\<forall>row. get_skill db i = Some row \<longrightarrow>
     skr_trusted_hash row = Some (skr_content_hash row) \<longrightarrow>
     skr_content_hash row = sf_content_hash facts \<and> skr_requires_trust row = sf_requires_trust facts)"

definition info_id :: "SkillInfo \<Rightarrow> string" where
  "info_id info = skill_id (sinfo_scope info) (sinfo_name info)"

definition info_pinned :: "string \<Rightarrow> SkillFacts \<Rightarrow> SkillInfo \<Rightarrow> bool" where
  "info_pinned i facts info \<longleftrightarrow> info_id info = i \<longrightarrow> sinfo_trusted info \<longrightarrow>
     sinfo_content_hash info = sf_content_hash facts \<and> sinfo_requires_trust info = sf_requires_trust facts"

lemma scope_parse_str [simp]: "scope_parse (scope_as_str s) = Some s"
  by (cases s) (simp_all add: scope_parse_def)

lemma scope_as_str_inj: "scope_as_str s = scope_as_str t \<longleftrightarrow> s = t"
  by (cases s; cases t) simp_all

lemma record_skill_get:
  "record_skill env info w = (r, w') \<Longrightarrow> sw_disk w' = sw_disk w \<and>
   (w' = w \<and> (\<exists>e. r = Err e) \<or> (\<exists>row. r = Ok () \<and> get_skill (sw_db w') = (get_skill (sw_db w))(info_id info \<mapsto> row)
      \<and> skr_scope row = scope_as_str (sinfo_scope info) \<and> skr_name row = sinfo_name info
      \<and> skr_content_hash row = sinfo_content_hash info \<and> skr_requires_trust row = sinfo_requires_trust info
      \<and> skr_trusted_hash row = (if sinfo_trusted info then Some (sinfo_content_hash info) else None)
      \<and> skr_enabled row = sinfo_enabled info))"
  by (auto simp: record_skill_def upsert_skill_def get_skill_def table_upsert_replace info_id_def fun_eq_iff
      split: sum.splits if_splits)

lemma keeps_record:
  assumes "info_pinned i facts info"
  shows "sk_keeps (of_db (pinned i facts)) (record_skill env info)"
  unfolding sk_keeps_def sk_triple_def
proof (intro allI impI)
  fix w assume inv: "of_db (pinned i facts) w"
  obtain r w' where run: "record_skill env info w = (r, w')" by fastforce
  have "pinned i facts (sw_db w')"
    using record_skill_get[OF run] inv assms
    by (auto simp: of_db_def pinned_def rows_named_def info_pinned_def info_id_def split: if_splits)
  thus "case record_skill env info w of (Inl e, w') \<Rightarrow> of_db (pinned i facts) w' | (Inr x, w') \<Rightarrow> of_db (pinned i facts) w'"
    by (simp add: run of_db_def split: sum.split)
qed

lemma row_info:
  assumes "pinned i facts db" "get_skill db k = Some row" "info_from_row env row dir = Ok x"
  shows "info_id x = k \<and> info_pinned i facts x"
proof -
  obtain scope where s: "skr_scope row = scope_as_str scope" "k = skill_id scope (skr_name row)"
    using assms(1,2) unfolding pinned_def rows_named_def by blast
  have x: "sinfo_scope x = scope" "sinfo_name x = skr_name row" "sinfo_content_hash x = skr_content_hash row"
    "sinfo_requires_trust x = skr_requires_trust row" "sinfo_trusted x = (skr_trusted_hash row = Some (skr_content_hash row))"
    using assms(3) by (auto simp: info_from_row_def s(1) split: sum.splits)
  have "info_id x = k" by (simp add: info_id_def x s(2))
  moreover have "info_pinned i facts x"
    unfolding info_pinned_def \<open>info_id x = k\<close> using assms(1,2) unfolding x pinned_def by blast
  ultimately show ?thesis ..
qed

text \<open>Loading refreshes a stale row, so what it returns agrees with the disk.\<close>

definition loaded :: "SkillEnv \<Rightarrow> SkillHome \<Rightarrow> Scope \<Rightarrow> string \<Rightarrow> string \<Rightarrow> SkillFacts \<Rightarrow> SkillInfo \<Rightarrow> SkillWorld \<Rightarrow> bool" where
  "loaded env home scope name i facts info w \<longleftrightarrow> of_db (pinned i facts) w \<and> info_pinned i facts info \<and>
     info_id info = skill_id scope name \<and>
     \<lparr>sf_content_hash = sinfo_content_hash info, sf_requires_trust = sinfo_requires_trust info\<rparr>
       = inspect env (sw_disk w) (skill_dir home scope name)"

lemma triple_load:
  "sk_triple (of_db (pinned i facts)) (of_db (pinned i facts)) (load_or_record env home scope name)
     (loaded env home scope name i facts)"
  unfolding sk_triple_def
proof (intro allI impI)
  fix w assume inv: "of_db (pinned i facts) w"
  let ?f = "inspect env (sw_disk w) (skill_dir home scope name)"
  let ?fresh = "\<lparr>sinfo_name = name, sinfo_scope = scope, sinfo_path = loc_text (skill_dir home scope name), sinfo_source = folder_source,
     sinfo_enabled = True, sinfo_requires_trust = sf_requires_trust ?f, sinfo_trusted = False,
     sinfo_content_hash = sf_content_hash ?f, sinfo_pinned_sha = None\<rparr>"
  define existing where "existing = (case get_skill (sw_db w) (skill_id scope name) of
     Some row \<Rightarrow> info_from_row env row (skill_dir home scope name) | None \<Rightarrow> Ok ?fresh)"
  have run: "load_or_record env home scope name w =
    (case existing of Inl e \<Rightarrow> (Err e, w)
     | Inr x \<Rightarrow> if sinfo_content_hash x \<noteq> sf_content_hash ?f \<or> sinfo_requires_trust x \<noteq> sf_requires_trust ?f
         then sk_bind (record_skill env (x\<lparr>sinfo_content_hash := sf_content_hash ?f,
              sinfo_requires_trust := sf_requires_trust ?f, sinfo_trusted := False\<rparr>)) (\<lambda>_. sk_ret (x\<lparr>sinfo_content_hash := sf_content_hash ?f,
              sinfo_requires_trust := sf_requires_trust ?f, sinfo_trusted := False\<rparr>)) w
         else (Ok x, w))"
    by (auto simp: load_or_record_def existing_def sk_bind_def sk_get_def sk_of_def sk_ret_def Let_def
        split: option.split sum.split)
  show "case load_or_record env home scope name w of (Inl e, w') \<Rightarrow> of_db (pinned i facts) w'
     | (Inr x, w') \<Rightarrow> loaded env home scope name i facts x w'"
  proof (cases existing)
    case (Inl e)
    thus ?thesis using inv by (simp add: run)
  next
    case (Inr x)
    have x: "info_pinned i facts x" "info_id x = skill_id scope name"
      using Inr inv row_info[of i facts "sw_db w" "skill_id scope name"] unfolding existing_def of_db_def
      by (auto simp: info_pinned_def info_id_def split: option.splits)
    let ?y = "x\<lparr>sinfo_content_hash := sf_content_hash ?f, sinfo_requires_trust := sf_requires_trust ?f, sinfo_trusted := False\<rparr>"
    have y: "info_pinned i facts ?y" by (simp add: info_pinned_def)
    obtain r w' where rec: "record_skill env ?y w = (r, w')" by fastforce
    have "of_db (pinned i facts) w'" using sk_keepsD[OF keeps_record[OF y] inv, of env] by (simp add: rec)
    moreover have "sw_disk w' = sw_disk w" using record_skill_get[OF rec] by simp
    ultimately show ?thesis
      using inv x y by (auto simp: run Inr rec sk_bind_def sk_ret_def loaded_def info_id_def split: sum.split)
  qed
qed

lemma triple_load_required:
  "sk_triple (of_db (pinned i facts)) (of_db (pinned i facts)) (load_required env home scope name)
     (loaded env home scope name i facts)"
  unfolding load_required_def
  by (rule sk_triple_bind[where R = "\<lambda>_. of_db (pinned i facts)"])
    (use triple_load in \<open>auto simp: sk_triple_def sk_get_def sk_fail_def\<close>)

lemma triple_keeps: "sk_triple I P m Q \<Longrightarrow> (\<And>x w. Q x w \<Longrightarrow> I w) \<Longrightarrow> sk_triple I P m (\<lambda>_. I)"
  by (rule sk_triple_weaken)

lemma keeps_load [sk_intros]:
  "sk_keeps (of_db (pinned i facts)) (load_or_record env home scope name)"
  "sk_keeps (of_db (pinned i facts)) (load_required env home scope name)"
  unfolding sk_keeps_def
  by (auto intro!: triple_keeps[OF triple_load] triple_keeps[OF triple_load_required] simp: loaded_def)

lemma keeps_list_scope [sk_intros]: "sk_keeps (of_db (pinned i facts)) (list_scope env home scope names by_name)"
  by (induction env home scope names by_name rule: list_scope.induct) (auto intro!: sk_intros)

lemma keeps_list_skills [sk_intros]: "sk_keeps (of_db (pinned i facts)) (list_skills env home)"
  unfolding list_skills_def by (intro sk_intros)

lemma keeps_record_loaded:
  assumes "\<And>info. info_pinned i facts info \<Longrightarrow> info_id info = skill_id scope name \<Longrightarrow> info_pinned i facts (f info)"
  shows "sk_keeps (of_db (pinned i facts)) (sk_bind (load_required env home scope name) (\<lambda>info.
     let x = f info in sk_bind (record_skill env x) (\<lambda>_. sk_ret x)))"
  unfolding sk_keeps_def
proof (rule sk_triple_bind[OF triple_load_required])
  fix info
  show "sk_triple (of_db (pinned i facts)) (loaded env home scope name i facts info)
     (let x = f info in sk_bind (record_skill env x) (\<lambda>_. sk_ret x)) (\<lambda>_. of_db (pinned i facts))"
    unfolding sk_triple_def
  proof (intro allI impI)
    fix w assume l: "loaded env home scope name i facts info w"
    have "info_pinned i facts (f info)" using l assms by (simp add: loaded_def)
    from sk_keepsD[OF keeps_record[OF this, of env]] l
    show "case (let x = f info in sk_bind (record_skill env x) (\<lambda>_. sk_ret x)) w of
        (Inl e, w') \<Rightarrow> of_db (pinned i facts) w' | (Inr x, w') \<Rightarrow> of_db (pinned i facts) w'"
      by (auto simp: Let_def sk_bind_def sk_ret_def loaded_def split: prod.split sum.split) (metis snd_conv)+
  qed
qed

lemma keeps_set_enabled [sk_intros]: "sk_keeps (of_db (pinned i facts)) (set_enabled env home scope name b)"
  unfolding set_enabled_def by (rule keeps_record_loaded) (simp add: info_pinned_def info_id_def)

lemma keeps_trust_other:
  "skill_id scope name \<noteq> i \<Longrightarrow> sk_keeps (of_db (pinned i facts)) (trust_skill env home scope name)"
  unfolding trust_skill_def by (rule keeps_record_loaded) (simp add: info_pinned_def info_id_def)

lemma keeps_record_untrusted [sk_intros]:
  "\<not> sinfo_trusted info \<Longrightarrow> sk_keeps (of_db (pinned i facts)) (record_skill env info)"
  by (rule keeps_record) (simp add: info_pinned_def)

lemma keeps_install [sk_intros]:
  "sk_keeps (of_db (pinned i facts)) (install_skill env home scope staging n source pinned_sha)"
  unfolding install_skill_def Let_def by (intro sk_intros) simp

lemma keeps_imports [sk_intros]:
  "sk_keeps (of_db (pinned i facts)) (import_folder env home scope n dir)"
  "sk_keeps (of_db (pinned i facts)) (import_zip env home scope bytes)"
  "sk_keeps (of_db (pinned i facts)) (import_tarball env home scope bytes subdir source sha)"
  unfolding import_folder_def import_zip_def import_tarball_def by (intro sk_intros)+

lemma keeps_import_github [sk_intros]: "sk_keeps (of_db (pinned i facts)) (import_github env home scope spec)"
  unfolding import_github_def Let_def by (intro sk_intros)

lemma keeps_fetch [sk_intros]: "sk_keeps (of_db (pinned i facts)) (fetch_upstream env home scope name)"
  unfolding fetch_upstream_def Let_def by (intro sk_intros)

lemma keeps_updates [sk_intros]:
  "sk_keeps (of_db (pinned i facts)) (update_check env home scope name)"
  "sk_keeps (of_db (pinned i facts)) (update_plan env home scope name)"
  "sk_keeps (of_db (pinned i facts)) (update_apply env home scope name)"
  unfolding update_check_def update_plan_def update_apply_def Let_def by ((intro sk_intros; simp)+)

section \<open>Trust means unchanged\<close>

text \<open>
  Everything that can happen between trusting a skill and looking at it again, without trusting
  it once more: requests for any workspace and skill, and changes of the disk from outside.
\<close>

inductive skill_step :: "SkillEnv \<Rightarrow> string \<Rightarrow> SkillWorld \<Rightarrow> SkillWorld \<Rightarrow> bool" for env i where
  "sw_db w' = sw_db w \<Longrightarrow> skill_step env i w w'"
| "skill_step env i w (snd (list_skills env home w))"
| "skill_step env i w (snd (set_enabled env home scope name b w))"
| "skill_id scope name \<noteq> i \<Longrightarrow> skill_step env i w (snd (trust_skill env home scope name w))"
| "skill_step env i w (snd (import_folder env home scope n dir w))"
| "skill_step env i w (snd (import_zip env home scope bytes w))"
| "skill_step env i w (snd (import_github env home scope spec w))"
| "skill_step env i w (snd (update_check env home scope name w))"
| "skill_step env i w (snd (update_plan env home scope name w))"
| "skill_step env i w (snd (update_apply env home scope name w))"

inductive_cases skill_stepE: "skill_step env i w w'"

lemma skill_step_pinned:
  assumes "skill_step env i w w'" "of_db (pinned i facts) w"
  shows "of_db (pinned i facts) w'"
  using assms(1)
proof (cases rule: skill_step.cases)
  case 1
  thus ?thesis using assms(2) by (simp only: of_db_def)
next
  case (4 scope name home)
  show ?thesis unfolding 4(1) by (rule sk_keepsD[OF keeps_trust_other[OF 4(2)] assms(2)])
qed (simp only:, rule sk_keepsD[where I = "of_db (pinned i facts)"], rule sk_intros, rule assms(2))+

lemma skill_steps_pinned:
  "(skill_step env i)\<^sup>*\<^sup>* w w' \<Longrightarrow> of_db (pinned i facts) w \<Longrightarrow> of_db (pinned i facts) w'"
  by (induction rule: rtranclp_induct) (auto intro: skill_step_pinned)

lemma keeps_disk_record [sk_intros]: "sk_keeps (\<lambda>w. sw_disk w = d) (record_skill env info)"
  by (auto simp: sk_keeps_def sk_triple_def split: prod.split sum.split dest!: record_skill_get)

lemma keeps_disk_load: "sk_keeps (\<lambda>w. sw_disk w = d) (load_required env home scope name)"
  unfolding load_required_def load_or_record_def Let_def by (intro sk_intros)

text \<open>After trusting, the row pins what was on disk.\<close>

lemma trust_pins:
  assumes "rows_named (sw_db w)" "trust_skill env home scope name w = (Ok info, w')"
  shows "of_db (pinned (skill_id scope name) (inspect env (sw_disk w) (skill_dir home scope name))) w'"
proof -
  let ?i = "skill_id scope name"
  obtain x w1 where load: "load_required env home scope name w = (Ok x, w1)"
    and rec: "record_skill env (x\<lparr>sinfo_trusted := True\<rparr>) w1 = (Ok (), w')"
    using assms(2) by (auto simp: trust_skill_def sk_bind_def sk_ret_def Let_def split: prod.splits sum.splits)
  define facts where "facts = (if \<exists>row. get_skill (sw_db w) ?i = Some row
     then \<lparr>sf_content_hash = skr_content_hash (the (get_skill (sw_db w) ?i)),
           sf_requires_trust = skr_requires_trust (the (get_skill (sw_db w) ?i))\<rparr> else undefined)"
  have "of_db (pinned ?i facts) w" using assms(1) by (auto simp: of_db_def pinned_def facts_def)
  from sk_tripleD[OF triple_load_required this load]
  have l: "loaded env home scope name ?i facts x w1" .
  have disk: "sw_disk w1 = sw_disk w"
    using sk_keepsD[OF keeps_disk_load refl, of env home scope name w] by (simp add: load)
  have i: "info_id (x\<lparr>sinfo_trusted := True\<rparr>) = ?i" using l by (simp add: loaded_def info_id_def)
  from record_skill_get[OF rec] obtain row where get: "get_skill (sw_db w') = (get_skill (sw_db w1))(?i \<mapsto> row)"
    and row: "skr_scope row = scope_as_str (sinfo_scope x)" "skr_name row = sinfo_name x"
      "skr_content_hash row = sinfo_content_hash x" "skr_requires_trust row = sinfo_requires_trust x"
    unfolding i by auto
  have "rows_named (sw_db w1)" using l by (simp add: loaded_def of_db_def pinned_def)
  moreover have "\<exists>scope'. skr_scope row = scope_as_str scope' \<and> ?i = skill_id scope' (skr_name row)"
    using l by (intro exI[of _ "sinfo_scope x"]) (simp add: row loaded_def info_id_def)
  ultimately have "rows_named (sw_db w')" unfolding rows_named_def get by simp
  moreover have "inspect env (sw_disk w) (skill_dir home scope name) =
      \<lparr>sf_content_hash = sinfo_content_hash x, sf_requires_trust = sinfo_requires_trust x\<rparr>"
    using l by (simp add: loaded_def disk)
  ultimately show ?thesis by (simp add: of_db_def pinned_def get row)
qed

section \<open>The digest\<close>

definition plain_file :: "loc \<times> string \<Rightarrow> bool" where
  "plain_file f \<longleftrightarrow> fst f \<noteq> [] \<and> nul \<notin> set (snd f) \<and>
     list_all (\<lambda>n. ascii n \<and> CHR ''/'' \<notin> set n \<and> nul \<notin> set n) (fst f)"

lemma set_join_with: "set (join_with c ls) \<subseteq> insert c (\<Union> (set ` set ls))"
  by (induction c ls rule: join_with.induct) auto

lemma ascii_join: "list_all ascii ls \<Longrightarrow> ascii (join_with (CHR ''/'') ls)"
  by (induction "CHR ''/''" ls rule: join_with.induct) (auto simp: ascii_def byte_in_def)

lemma rel_text_plain:
  assumes "plain_file f"
  shows "rel_text (fst f) = join_with (CHR ''/'') (fst f)" "nul \<notin> set (rel_text (fst f))"
proof -
  show *: "rel_text (fst f) = join_with (CHR ''/'') (fst f)"
    using assms by (simp add: rel_text_def plain_file_def utf8_lossy_ascii ascii_join list_all_iff)
  show "nul \<notin> set (rel_text (fst f))"
    unfolding * using assms set_join_with[of "CHR ''/''" "fst f"] by (auto simp: plain_file_def list_all_iff)
qed

lemma rel_text_inj:
  "plain_file f \<Longrightarrow> plain_file g \<Longrightarrow> rel_text (fst f) = rel_text (fst g) \<Longrightarrow> fst f = fst g"
  unfolding rel_text_plain
  using split_on_join[of "fst f" "CHR ''/''"] split_on_join[of "fst g" "CHR ''/''"]
  unfolding plain_file_def list_all_iff by metis

lemma separated_inj:
  "c \<notin> set xs \<Longrightarrow> c \<notin> set ys \<Longrightarrow> xs @ c # us = ys @ c # vs \<Longrightarrow> xs = ys \<and> us = vs"
proof (induction xs arbitrary: ys)
  case Nil thus ?case by (cases ys) auto
next
  case (Cons x xs) thus ?case by (cases ys) auto
qed

lemma digest_inj:
  "list_all plain_file fs \<Longrightarrow> list_all plain_file gs \<Longrightarrow> digest_text fs = digest_text gs \<Longrightarrow> fs = gs"
proof (induction fs arbitrary: gs)
  case Nil
  thus ?case by (cases gs) (auto)
next
  case (Cons f fs)
  from Cons.prems obtain g gs' where gs: "gs = g # gs'" by (cases gs; cases f) auto
  have plain: "plain_file f" "plain_file g" "nul \<notin> set (snd f)" "nul \<notin> set (snd g)"
    using Cons.prems by (auto simp: gs plain_file_def)
  have "rel_text (fst f) @ nul # (snd f @ nul # digest_text fs) = rel_text (fst g) @ nul # (snd g @ nul # digest_text gs')"
    using Cons.prems(3) by (cases f; cases g) (simp add: gs)
  hence "rel_text (fst f) = rel_text (fst g)" "snd f @ nul # digest_text fs = snd g @ nul # digest_text gs'"
    using separated_inj[OF rel_text_plain(2)[OF plain(1)] rel_text_plain(2)[OF plain(2)]] by blast+
  hence "fst f = fst g" "snd f = snd g" "digest_text fs = digest_text gs'"
    using separated_inj[OF plain(3,4)] rel_text_inj[OF plain(1,2)] by blast+
  moreover have "fs = gs'" using Cons.IH[of gs'] Cons.prems calculation(3) by (simp add: gs)
  ultimately show ?case by (simp add: gs prod_eq_iff)
qed

text \<open>
  The separators are not escaped: one file whose content holds zero bytes and two files can have
  the same digest.
\<close>

lemma digest_ambiguous:
  "digest_text [([''a.sh''], ''x'' @ [nul] @ ''b.sh'' @ [nul] @ ''y'')] =
     digest_text [([''a.sh''], ''x''), ([''b.sh''], ''y'')]"
  by (simp add: rel_text_def utf8_lossy_ascii ascii_def byte_in_def)



definition sample_env :: SkillEnv where
  "sample_env =
     \<lparr>se_faults = (\<lambda>_. None), se_now = (\<lambda>n. n), se_hash = (\<lambda>x. x), se_encode = (\<lambda>_. ''folder''),
      se_decode = (\<lambda>_. Ok folder_source), se_db_error = (\<lambda>_. ''db''), se_tar = (\<lambda>_. Ok []), se_zip = (\<lambda>_. Ok []),
      se_ls_remote = (\<lambda>_ _. Ls_NotFound), se_get = (\<lambda>_. Err (SkillNotFound ''x'')),
      se_unified_diff = (\<lambda>a b. b), se_max_depth = 10\<rparr>"

definition sample_home :: SkillHome where
  "sample_home = \<lparr>sh_root = [''w''], sh_home = [''h'']\<rparr>"

definition sample_world :: SkillWorld where
  "sample_world =
     \<lparr>sw_disk = map (\<lambda>n. (take n [''w'', ''.agents'', ''skills'', ''pdf''], DirNode)) [1..<5]
        @ [([''w'', ''.agents'', ''skills'', ''pdf'', ''SKILL.md''], FileNode ''Reads pdf'' False)],
      sw_ops = 0, sw_db = db_new\<rparr>"

lemma sample_inspect:
  "inspect sample_env (sw_disk sample_world) (skill_dir sample_home Workspace ''pdf'') =
     \<lparr>sf_content_hash = ''SKILL.md'' @ [nul] @ ''Reads pdf'' @ [nul], sf_requires_trust = False\<rparr>"
  by code_simp


end
