(* ===== verification/Composer.thy ===== *)
theory Composer
  imports Tethys_Api Rust_Text BTree_Map
begin

text \<open>
  The prompt composer, \<^verbatim>\<open>crates/tethys-core/src/composer\<close>: discovery of slash commands, substitution of
  arguments, and the expansion of \<open>$skill\<close> and \<open>@path\<close> references to plain text. The file
  system answers through \<open>ComposerFs\<close>: directory listings, file contents, decoded lines,
  canonical paths as lists of components, metadata and guessed media types.
\<close>

section \<open>Data\<close>

datatype CommandScope = CSc_Global | CSc_Workspace

definition scope_of_wire :: "string \<Rightarrow> string + CommandScope" where
  "scope_of_wire s =
     (if s = ''global'' then Ok CSc_Global
      else if s = ''workspace'' \<or> s = ''project'' then Ok CSc_Workspace
      else Err (''unknown command scope: '' @ s))"

record CommandInfo =
  ci_name :: string
  ci_scope :: CommandScope
  ci_path :: string

datatype ReferenceKind = RK_Skill | RK_Path

text \<open>The size is the byte count (the wire type is a float).\<close>

record ComposerReference =
  cr_kind :: ReferenceKind
  cr_name :: string
  cr_path :: string
  cr_is_dir :: bool
  cr_mime :: "string option"
  cr_size :: "nat option"

record ExpandedCommand =
  ec_text :: string
  ec_references :: "ComposerReference list"

record SkillCandidate =
  sc_name :: string
  sc_path :: string

record ComposerFs =
  fs_names :: "string \<Rightarrow> string list option"
  fs_text :: "string \<Rightarrow> string + string"
  fs_lines :: "string \<Rightarrow> string option list option"
  fs_canonical :: "string \<Rightarrow> string list option"
  fs_metadata :: "string list \<Rightarrow> (bool \<times> nat) option"
  fs_mime :: "string list \<Rightarrow> string option"

section \<open>Command discovery\<close>

definition workspace_commands_dir :: "string \<Rightarrow> string" where
  "workspace_commands_dir root = join_path (join_path root ''.tethys'') ''commands''"

definition command_info :: "string \<Rightarrow> CommandScope \<Rightarrow> string \<Rightarrow> CommandInfo option" where
  "command_info dir scope name =
     (if extension name \<noteq> Some ''md'' then None
      else Some \<lparr>ci_name = file_stem name, ci_scope = scope, ci_path = join_path dir name\<rparr>)"

definition discover :: "ComposerFs \<Rightarrow> string \<Rightarrow> CommandScope \<Rightarrow> CommandInfo list" where
  "discover fs dir scope =
     (case fs_names fs dir of
        None \<Rightarrow> []
      | Some names \<Rightarrow> List.map_filter (command_info dir scope) names)"

definition by_name :: "CommandInfo list \<Rightarrow> (string, CommandInfo) btree \<Rightarrow> (string, CommandInfo) btree" where
  "by_name commands t = bt_extend t (map (\<lambda>c. (ci_name c, c)) commands)"

definition list_commands :: "ComposerFs \<Rightarrow> string \<Rightarrow> string option \<Rightarrow> CommandInfo list" where
  "list_commands fs global_dir workspace_root =
     (let t = by_name (discover fs global_dir CSc_Global) [] in
      map snd (case workspace_root of
        None \<Rightarrow> t
      | Some root \<Rightarrow> by_name (discover fs (workspace_commands_dir root) CSc_Workspace) t))"

definition apply_args :: "string \<Rightarrow> string \<Rightarrow> string" where
  "apply_args body args_text =
     (if contains ''{{args}}'' body then replace_all ''{{args}}'' args_text body
      else if trim args_text = [] then body
      else body @ newline # args_text)"

section \<open>References\<close>

datatype Token = TText string | TSkill string | TPath string

definition is_skill_char :: "char \<Rightarrow> bool" where
  "is_skill_char c \<longleftrightarrow> alphanumeric c \<or> c = CHR ''-'' \<or> c = CHR ''_''"

text \<open>Which characters continue the name after a sigil.\<close>

definition name_char :: "char \<Rightarrow> char \<Rightarrow> bool" where
  "name_char sigil c = (if sigil = CHR ''$'' then is_skill_char c else \<not> is_ascii_space c)"

definition mk_token :: "char \<Rightarrow> string \<Rightarrow> Token" where
  "mk_token sigil name = (if sigil = CHR ''$'' then TSkill name else TPath name)"

definition name_stop :: "string \<Rightarrow> nat \<Rightarrow> nat" where
  "name_stop text index =
     index + 1 + length (takeWhile (name_char (text ! index)) (drop (index + 1) text))"

definition substr :: "string \<Rightarrow> nat \<Rightarrow> nat \<Rightarrow> string" where
  "substr text first stop = take (stop - first) (drop first text)"

function scan_loop :: "string \<Rightarrow> nat \<Rightarrow> nat \<Rightarrow> Token list \<Rightarrow> Token list" where
  "scan_loop txt i segment_start tokens =
     (if i < length txt then
        if txt ! i \<noteq> CHR ''$'' \<and> txt ! i \<noteq> CHR ''@'' \<or> name_stop txt i = i + 1
        then scan_loop txt (i + 1) segment_start tokens
        else scan_loop txt (name_stop txt i) (name_stop txt i)
          ((if segment_start < i then tokens @ [TText (substr txt segment_start i)] else tokens)
           @ [mk_token (txt ! i) (substr txt (i + 1) (name_stop txt i))])
      else if segment_start < length txt then tokens @ [TText (substr txt segment_start (length txt))]
      else tokens)"
  by pat_completeness auto
termination
  by (relation "measure (\<lambda>(t, i, s, ts). length t - i)") (auto simp: name_stop_def)

declare scan_loop.simps [simp del]

definition scan_tokens :: "string \<Rightarrow> Token list" where
  "scan_tokens text = scan_loop text 0 0 []"

definition split_path_token :: "string \<Rightarrow> string \<times> string" where
  "split_path_token raw =
     (let stop = length (trim_end_matches (\<lambda>c. c \<in> set '',;)]}.'') raw) in (take stop raw, drop stop raw))"

definition is_range :: "string \<Rightarrow> bool" where
  "is_range r \<longleftrightarrow> r \<noteq> [] \<and> list_all (\<lambda>c. digit_val c \<noteq> None \<or> c = CHR ''-'') r"

definition strip_range :: "string \<Rightarrow> string" where
  "strip_range token =
     (case split_once (CHR '':'') token of
        Some (path, rng) \<Rightarrow> if is_range rng then path else token
      | None \<Rightarrow> token)"

definition display_path :: "string list \<Rightarrow> string" where
  "display_path parts = CHR ''/'' # join_with (CHR ''/'') parts"

definition path_reference ::
  "ComposerFs \<Rightarrow> string \<Rightarrow> string \<Rightarrow> (string \<times> ComposerReference) option" where
  "path_reference fs root token0 =
     (let token = trim_start_matches (\<lambda>c. c = CHR ''/'') token0 in
      if token = [] then None
      else case fs_canonical fs root of None \<Rightarrow> None | Some root' \<Rightarrow>
      case fs_canonical fs (join_path (display_path root') token) of None \<Rightarrow> None | Some absolute \<Rightarrow>
      if take (length root') absolute \<noteq> root' then None
      else case fs_metadata fs absolute of None \<Rightarrow> None | Some (is_dir, len) \<Rightarrow>
      if absolute = [] then None
      else
        let relative = to_slashes (join_with (CHR ''/'') (drop (length root') absolute)) in
        Some (CHR ''@'' # relative,
          \<lparr>cr_kind = RK_Path, cr_name = last absolute, cr_path = relative, cr_is_dir = is_dir,
           cr_mime = (if is_dir then None else fs_mime fs absolute),
           cr_size = (if is_dir then None else Some len)\<rparr>))"

fun front_matter :: "string option list \<Rightarrow> string option" where
  "front_matter [] = None"
| "front_matter (None # lines) = None"
| "front_matter (Some line0 # lines) =
     (let line = trim line0 in
      if line = ''---'' then None
      else case strip_prefix ''description:'' line of
          None \<Rightarrow> front_matter lines
        | Some value0 \<Rightarrow>
            let value = trim_matches (\<lambda>c. c = CHR 0x27) (trim_matches (\<lambda>c. c = CHR 0x22) (trim value0)) in
            if value \<noteq> [] then Some value else front_matter lines)"

definition read_description :: "ComposerFs \<Rightarrow> string \<Rightarrow> string option" where
  "read_description fs skill_file =
     (case fs_lines fs skill_file of
        Some (Some first # lines) \<Rightarrow>
          if trim first \<noteq> ''---'' then None else front_matter (take 64 lines)
      | _ \<Rightarrow> None)"

definition skill_reference :: "ComposerFs \<Rightarrow> SkillCandidate \<Rightarrow> string \<times> ComposerReference" where
  "skill_reference fs candidate =
     (let skill_file = join_path (sc_path candidate) ''SKILL.md'';
          q = [CHR 0x22];
          tail = ''Its instructions are at '' @ skill_file @ ''; read and follow it for this turn.'';
          instruction = (case read_description fs skill_file of
              Some description \<Rightarrow> ''Use the skill '' @ q @ sc_name candidate @ q @ '': '' @ description @ ''. '' @ tail
            | None \<Rightarrow> ''Use the skill '' @ q @ sc_name candidate @ q @ ''. '' @ tail) in
      (instruction, \<lparr>cr_kind = RK_Skill, cr_name = sc_name candidate, cr_path = sc_path candidate,
         cr_is_dir = False, cr_mime = None, cr_size = None\<rparr>))"

section \<open>Expansion\<close>

definition resolve_token ::
  "ComposerFs \<Rightarrow> string option \<Rightarrow> SkillCandidate list \<Rightarrow> Token \<Rightarrow> string \<times> ComposerReference list" where
  "resolve_token fs workspace_root skills token =
     (case token of
        TText segment \<Rightarrow> (segment, [])
      | TSkill name \<Rightarrow>
          (case find (\<lambda>skill. sc_name skill = name) skills of
             Some candidate \<Rightarrow> (case skill_reference fs candidate of (fragment, r) \<Rightarrow> (fragment, [r]))
           | None \<Rightarrow> (CHR ''$'' # name, []))
      | TPath raw \<Rightarrow>
          (case split_path_token raw of (token, rest) \<Rightarrow>
             (case Option.bind workspace_root (\<lambda>root. path_reference fs root (strip_range token)) of
                Some (fragment, r) \<Rightarrow> (fragment @ rest, [r])
              | None \<Rightarrow> (CHR ''@'' # raw, []))))"

fun expand_loop ::
  "(Token \<Rightarrow> string \<times> ComposerReference list) \<Rightarrow> Token list \<Rightarrow> string \<Rightarrow> ComposerReference list
    \<Rightarrow> string \<times> ComposerReference list" where
  "expand_loop f [] resolved references = (resolved, references)"
| "expand_loop f (token # tokens) resolved references =
     (case f token of (fragment, rs) \<Rightarrow> expand_loop f tokens (resolved @ fragment) (references @ rs))"

definition resolve_tokens ::
  "ComposerFs \<Rightarrow> string \<Rightarrow> string option \<Rightarrow> SkillCandidate list \<Rightarrow> string \<times> ComposerReference list" where
  "resolve_tokens fs text workspace_root skills =
     expand_loop (resolve_token fs workspace_root skills) (scan_tokens text) [] []"

definition expand_command ::
  "ComposerFs \<Rightarrow> string \<Rightarrow> string option \<Rightarrow> SkillCandidate list \<Rightarrow> string \<Rightarrow> string
    \<Rightarrow> ApiError + ExpandedCommand" where
  "expand_command fs global_dir workspace_root skills command args_text =
     (case find (\<lambda>info. ci_name info = command) (list_commands fs global_dir workspace_root) of
        None \<Rightarrow> Err (NotFound (''command not found: '' @ command))
      | Some info \<Rightarrow>
          (case fs_text fs (ci_path info) of
             Inl e \<Rightarrow> Err (Internal (''read command '' @ ci_path info @ '': '' @ e))
           | Inr body \<Rightarrow>
               (case resolve_tokens fs (apply_args body args_text) workspace_root skills of
                  (text', refs) \<Rightarrow> Ok \<lparr>ec_text = text', ec_references = refs\<rparr>)))"

section \<open>The scanner against a recursive lexer\<close>

fun push_char :: "char \<Rightarrow> Token list \<Rightarrow> Token list" where
  "push_char c (TText t # ts) = TText (c # t) # ts"
| "push_char c ts = TText [c] # ts"

function lex_tokens :: "string \<Rightarrow> Token list" where
  "lex_tokens [] = []"
| "lex_tokens (c # s) =
     (if (c = CHR ''$'' \<or> c = CHR ''@'') \<and> takeWhile (name_char c) s \<noteq> []
      then mk_token c (takeWhile (name_char c) s) # lex_tokens (dropWhile (name_char c) s)
      else push_char c (lex_tokens s))"
  by pat_completeness auto
termination
  by (relation "measure length") (auto simp: le_imp_less_Suc length_dropWhile_le)

declare lex_tokens.simps(2) [simp del]

fun prepend :: "string \<Rightarrow> Token list \<Rightarrow> Token list" where
  "prepend [] ts = ts"
| "prepend (c # p) (TText t # ts) = TText (c # p @ t) # ts"
| "prepend (c # p) ts = TText (c # p) # ts"

fun token_text :: "Token \<Rightarrow> string" where
  "token_text (TText t) = t"
| "token_text (TSkill n) = CHR ''$'' # n"
| "token_text (TPath p) = CHR ''@'' # p"

lemma prepend_snoc: "prepend (p @ [c]) ts = prepend p (push_char c ts)"
proof (cases p)
  case Nil
  then show ?thesis by (cases ts; cases "hd ts") simp_all
next
  case (Cons x p')
  then show ?thesis by (cases ts; cases "hd ts") simp_all
qed

lemma prepend_token: "p \<noteq> [] \<Longrightarrow> prepend p (mk_token c n # ts) = TText p # mk_token c n # ts"
  by (cases p) (simp_all add: mk_token_def)

lemma slice_snoc: "s \<le> i \<Longrightarrow> i < length t \<Longrightarrow> substr t s (i + 1) = substr t s i @ [t ! i]"
proof -
  assume si: "s \<le> i" "i < length t"
  then have "i + 1 - s = Suc (i - s)" "i - s < length (drop s t)" "drop s t ! (i - s) = t ! i" by auto
  then show ?thesis unfolding substr_def by (simp only: take_Suc_conv_app_nth)
qed

lemma slice_empty: "substr t s i = [] \<longleftrightarrow> i \<le> s \<or> length t \<le> s"
  by (auto simp: substr_def)

lemma name_stop_slice:
  assumes "i < length t"
  shows "substr t (i + 1) (name_stop t i) = takeWhile (name_char (t ! i)) (drop (i + 1) t)"
    "drop (name_stop t i) t = dropWhile (name_char (t ! i)) (drop (i + 1) t)"
    "name_stop t i \<le> length t"
proof -
  let ?w = "takeWhile (name_char (t ! i)) (drop (i + 1) t)"
  have w: "take (length ?w) (drop (i + 1) t) = ?w"
    by (metis append_eq_conv_conj takeWhile_dropWhile_id)
  then show "substr t (i + 1) (name_stop t i) = ?w" by (simp add: substr_def name_stop_def)
  show "drop (name_stop t i) t = dropWhile (name_char (t ! i)) (drop (i + 1) t)"
    using drop_drop[of "length ?w" "i + 1" t] by (simp add: name_stop_def dropWhile_eq_drop add.commute)
  have "length ?w \<le> length t - (i + 1)" by (metis length_drop length_takeWhile_le)
  then show "name_stop t i \<le> length t" using assms by (simp add: name_stop_def)
qed

lemma scan_loop_lex:
  "s \<le> i \<Longrightarrow> i \<le> length t \<Longrightarrow> scan_loop t i s toks = toks @ prepend (substr t s i) (lex_tokens (drop i t))"
proof (induction t i s toks rule: scan_loop.induct)
  case (1 t i s toks)
  show ?case
  proof (cases "i < length t")
    case False
    then have "i = length t" using "1.prems"(2) by simp
    then show ?thesis
      using slice_empty[of t s "length t"]
      by (subst scan_loop.simps, cases "substr t s (length t)") auto
  next
    case True
    then have d: "drop i t = t ! i # drop (i + 1) t" by (simp add: Cons_nth_drop_Suc)
    let ?plain = "t ! i \<noteq> CHR ''$'' \<and> t ! i \<noteq> CHR ''@'' \<or> name_stop t i = i + 1"
    have w: "name_stop t i = i + 1 \<longleftrightarrow> takeWhile (name_char (t ! i)) (drop (i + 1) t) = []"
      by (simp add: name_stop_def)
    show ?thesis
    proof (cases ?plain)
      case p: True
      then have "lex_tokens (drop i t) = push_char (t ! i) (lex_tokens (drop (i + 1) t))"
        unfolding d lex_tokens.simps(2) using w by auto
      then show ?thesis
        using "1.IH"(1)[OF True p] "1.prems" p True slice_snoc[OF "1.prems"(1) True]
        by (subst scan_loop.simps) (simp add: prepend_snoc)
    next
      case p: False
      note st = name_stop_slice[OF True]
      have "lex_tokens (drop i t) = mk_token (t ! i) (substr t (i + 1) (name_stop t i)) # lex_tokens (drop (name_stop t i) t)"
        unfolding d lex_tokens.simps(2) st using p w by auto
      then show ?thesis
        using "1.IH"(2)[OF True p _ st(3)] "1.prems" p True
        by (subst scan_loop.simps, cases "s < i")
           (auto simp: prepend_token slice_empty substr_def[of t "name_stop t i" "name_stop t i"] substr_def[of t i i])
    qed
  qed
qed

lemma scan_tokens_lex: "scan_tokens text = lex_tokens text"
  by (simp add: scan_tokens_def scan_loop_lex substr_def)

lemma token_text_mk: "c = CHR ''$'' \<or> c = CHR ''@'' \<Longrightarrow> token_text (mk_token c n) = c # n"
  by (auto simp: mk_token_def)

lemma token_text_push: "concat (map token_text (push_char c ts)) = c # concat (map token_text ts)"
  by (cases "(c, ts)" rule: push_char.cases) simp_all

lemma lex_text: "concat (map token_text (lex_tokens text)) = text"
  by (induction "text" rule: lex_tokens.induct) (simp_all add: lex_tokens.simps(2) token_text_mk token_text_push)

text \<open>
  The index-driven scanner of composer references computes the tokens of a
  recursive lexer (the longest name after each sigil, everything else as text), and no
  character is lost: the tokens written back are the input.
\<close>
theorem scan_tokens_reference:
  "scan_tokens text = lex_tokens text \<and> concat (map token_text (scan_tokens text)) = text"
  by (simp add: scan_tokens_lex lex_text)

section \<open>Containment of path references\<close>


section \<open>Expansion of a command\<close>

lemma expand_loop_eq:
  "expand_loop f tokens resolved references =
     (resolved @ concat (map (fst \<circ> f) tokens), references @ concat (map (snd \<circ> f) tokens))"
  by (induction f tokens resolved references rule: expand_loop.induct) (auto split: prod.split)

definition unresolved ::
  "ComposerFs \<Rightarrow> string option \<Rightarrow> SkillCandidate list \<Rightarrow> Token \<Rightarrow> bool" where
  "unresolved fs workspace_root skills token \<longleftrightarrow>
     (case token of
        TText _ \<Rightarrow> True
      | TSkill name \<Rightarrow> name \<notin> sc_name ` set skills
      | TPath raw \<Rightarrow> Option.bind workspace_root
          (\<lambda>root. path_reference fs root (strip_range (fst (split_path_token raw)))) = None)"

lemma resolve_unresolved:
  "unresolved fs root skills token \<Longrightarrow> resolve_token fs root skills token = (token_text token, [])"
  by (auto simp: unresolved_def resolve_token_def find_None_iff split: Token.splits prod.split option.split)

lemma map_of_rev_names:
  "map_of (rev (map (\<lambda>c. (ci_name c, c)) cs)) name = find (\<lambda>c. ci_name c = name) (rev cs)"
  by (induction cs rule: rev_induct) auto

lemma find_by_name:
  "bt_wf t \<Longrightarrow> (\<And>k c. (k, c) \<in> set t \<Longrightarrow> ci_name c = k) \<Longrightarrow>
   find (\<lambda>c. ci_name c = name) (map snd t) = map_of t name"
proof (induction t)
  case (Cons kc t)
  obtain k c where kc: "kc = (k, c)" by (cases kc)
  have "find (\<lambda>c. ci_name c = name) (map snd t) = map_of t name"
    using Cons by (simp add: bt_wf_Cons)
  then show ?case using Cons.prems(2)[of k c] kc by auto
qed simp

definition command_tree :: "ComposerFs \<Rightarrow> string \<Rightarrow> string option \<Rightarrow> (string, CommandInfo) btree" where
  "command_tree fs global_dir root =
     (let t = by_name (discover fs global_dir CSc_Global) [] in
      case root of None \<Rightarrow> t | Some r \<Rightarrow> by_name (discover fs (workspace_commands_dir r) CSc_Workspace) t)"

lemma by_name_facts:
  "bt_wf t \<Longrightarrow> bt_wf (by_name cs t)"
  "bt_wf t \<Longrightarrow> map_of (by_name cs t) name =
     (case find (\<lambda>c. ci_name c = name) (rev cs) of Some c \<Rightarrow> Some c | None \<Rightarrow> map_of t name)"
  by (auto simp: by_name_def bt_wf_extend map_of_bt_extend map_add_def map_of_rev_names[symmetric]
      simp del: rev_map split: option.split)

lemma by_name_keys:
  assumes "bt_wf t" "\<And>k c. (k, c) \<in> set t \<Longrightarrow> ci_name c = k" "(k, c) \<in> set (by_name cs t)"
  shows "ci_name c = k"
proof -
  have "map_of (by_name cs t) k = Some c" using assms in_set_bt[OF by_name_facts(1)[OF assms(1)]] by simp
  then consider "find (\<lambda>c. ci_name c = k) (rev cs) = Some c" | "map_of t k = Some c"
    by (auto simp: by_name_facts(2)[OF assms(1)] split: option.splits)
  then show ?thesis
  proof cases
    case 1
    then show ?thesis by (auto dest: find_Some_props)
  next
    case 2
    then show ?thesis using assms(2) by (auto dest: map_of_SomeD)
  qed
qed

lemma find_command:
  "find (\<lambda>info. ci_name info = name) (list_commands fs global_dir root) = map_of (command_tree fs global_dir root) name"
proof -
  let ?t = "by_name (discover fs global_dir CSc_Global) []"
  have t: "bt_wf ?t" "\<And>k c. (k, c) \<in> set ?t \<Longrightarrow> ci_name c = k"
    using by_name_facts(1) by_name_keys[of "[]"] by auto
  have "bt_wf (command_tree fs global_dir root)"
    "\<And>k c. (k, c) \<in> set (command_tree fs global_dir root) \<Longrightarrow> ci_name c = k"
    using t by_name_facts(1)[OF t(1)] by_name_keys[OF t]
    by (auto simp: command_tree_def Let_def split: option.splits)
  moreover have "list_commands fs global_dir root = map snd (command_tree fs global_dir root)"
    by (simp add: list_commands_def command_tree_def Let_def)
  ultimately show ?thesis using find_by_name[of "command_tree fs global_dir root" name] by simp
qed

text \<open>
  Expanding a command uses the workspace's file of that name if there is
  one, else the global one, and fails with \<open>NotFound\<close> exactly if there is neither; when no
  reference in the text with its arguments resolves, the expansion is that text, character by
  character, without references.
\<close>
theorem expand_command_lookup:
  assumes "workspace = discover fs (workspace_commands_dir root) CSc_Workspace"
    "global = discover fs global_dir CSc_Global"
  shows "(case find (\<lambda>c. ci_name c = command) (rev workspace @ rev global) of
      None \<Rightarrow> expand_command fs global_dir (Some root) skills command args
                = Err (NotFound (''command not found: '' @ command))
    | Some info \<Rightarrow> (\<forall>body. fs_text fs (ci_path info) = Ok body \<longrightarrow>
        list_all (unresolved fs (Some root) skills) (scan_tokens (apply_args body args)) \<longrightarrow>
        expand_command fs global_dir (Some root) skills command args
          = Ok \<lparr>ec_text = apply_args body args, ec_references = []\<rparr>))"
proof -
  have tree: "map_of (command_tree fs global_dir (Some root)) command
      = find (\<lambda>c. ci_name c = command) (rev workspace @ rev global)"
    using assms by (simp add: command_tree_def by_name_facts find_append split: option.split)
  have verbatim: "resolve_tokens fs t (Some root) skills = (t, [])"
    if "list_all (unresolved fs (Some root) skills) (scan_tokens t)" for t
  proof -
    have "map (fst \<circ> resolve_token fs (Some root) skills) (scan_tokens t) = map token_text (scan_tokens t)"
      "concat (map (snd \<circ> resolve_token fs (Some root) skills) (scan_tokens t)) = []"
      using that by (auto simp: list_all_iff resolve_unresolved)
    then show ?thesis
      using lex_text[of t] by (simp add: resolve_tokens_def expand_loop_eq scan_tokens_lex del: map_eq_conv concat_eq_Nil_conv)
  qed
  show ?thesis
    by (auto simp: expand_command_def find_command tree verbatim split: option.split)
qed

section \<open>A concrete workspace\<close>

definition ex_composer_fs :: ComposerFs where
  "ex_composer_fs = \<lparr>fs_names = (\<lambda>d. if d = ''/w/.tethys/commands'' then Some [''fix.md''] else None),
     fs_text = (\<lambda>_. Ok ''see @nothing''), fs_lines = (\<lambda>_. None),
     fs_canonical = (\<lambda>p. if p = ''/w'' then Some [''w''] else if p = ''/w/lib'' then Some [''w'', ''lib'']
        else if p = ''/w/out'' then Some [''etc'', ''passwd''] else None),
     fs_metadata = (\<lambda>_. Some (False, 3)), fs_mime = (\<lambda>_. None)\<rparr>"


theorem expand_command_lookup_witness:
  "expand_command ex_composer_fs ''/g'' (Some ''/w'') [] ''fix'' [] = Ok \<lparr>ec_text = ''see @nothing'', ec_references = []\<rparr>
   \<and> expand_command ex_composer_fs ''/g'' (Some ''/w'') [] ''gone'' [] = Err (NotFound ''command not found: gone'')"
proof -
  let ?ws = "[\<lparr>ci_name = ''fix'', ci_scope = CSc_Workspace, ci_path = ''/w/.tethys/commands/fix.md''\<rparr>]"
  have d: "discover ex_composer_fs (workspace_commands_dir ''/w'') CSc_Workspace = ?ws"
    "discover ex_composer_fs ''/g'' CSc_Global = []"
    by (simp_all add: discover_def ex_composer_fs_def workspace_commands_dir_def join_path_def
        command_info_def extension_def file_stem_def map_filter_def)
  have args: "apply_args ''see @nothing'' [] = ''see @nothing''"
    by (simp add: apply_args_def starts_with_def strip_prefix_def trim_def trim_matches_def
        trim_start_matches_def trim_end_matches_def)
  have "list_all (unresolved ex_composer_fs (Some ''/w'') []) (scan_tokens ''see @nothing'')"
    unfolding scan_tokens_lex
    by (simp add: lex_tokens.simps name_char_def is_ascii_space_def is_space_def mk_token_def
        unresolved_def path_reference_def ex_composer_fs_def split_path_token_def
        trim_end_matches_def strip_range_def split_once_def join_path_def display_path_def trim_start_matches_def)
  then show ?thesis
    using expand_command_lookup[OF refl refl, where fs = ex_composer_fs and root = "''/w''" and
        global_dir = "''/g''" and command = "''fix''" and skills = "[]" and args = "[]"]
      expand_command_lookup[OF refl refl, where fs = ex_composer_fs and root = "''/w''" and
        global_dir = "''/g''" and command = "''gone''" and skills = "[]" and args = "[]"] args
    unfolding d by (simp add: ex_composer_fs_def)
qed

end
