(* ===== verification/Core_Skills.thy ===== *)
theory Core_Skills
  imports Skill_Trust Composer
begin

text \<open>
  The \<open>skills.*\<close> requests of the core in \<^verbatim>\<open>crates/tethys-core/src/skills.rs\<close>, the command requests of
  \<^verbatim>\<open>crates/tethys-core/src/lib.rs\<close> that hand skills to a prompt, and the scan of foreign lock files in
  \<^verbatim>\<open>crates/tethys-sync/src/skill_import.rs\<close>. The environment holds the workspace roots, the home
  directory, whether a store is attached and the view of the disk that the composer reads; lock
  files are parsed by a parameter.
\<close>

section \<open>Requests\<close>

record CoreSkillEnv =
  cse_roots :: workspace_roots
  cse_home :: string
  cse_store :: bool
  cse_skills :: SkillEnv
  cse_read_error :: "loc \<Rightarrow> string"
  cse_fs :: "disk \<Rightarrow> ComposerFs"

type_synonym 'a core_sk = "SkillWorld \<Rightarrow> (ApiError + 'a) \<times> SkillWorld"

definition skill_home :: "CoreSkillEnv \<Rightarrow> string \<Rightarrow> SkillHome" where
  "skill_home cenv root = \<lparr>sh_root = normal_names root, sh_home = normal_names (cse_home cenv)\<rparr>"

definition map_err :: "'a sk_op \<Rightarrow> 'a core_sk" where
  "map_err m w = (case m w of (Inl e, w') \<Rightarrow> (Err (Internal (sync_error_text e)), w') | (Inr x, w') \<Rightarrow> (Ok x, w'))"

definition with_skills :: "CoreSkillEnv \<Rightarrow> string \<Rightarrow> (SkillHome \<Rightarrow> 'a core_sk) \<Rightarrow> 'a core_sk" where
  "with_skills cenv i f w =
     (case cse_roots cenv i of
        Inl e \<Rightarrow> (Err e, w)
      | Inr root \<Rightarrow> if cse_store cenv then f (skill_home cenv root) w else (Err (Internal ''sync store not configured''), w))"

definition skills_list :: "CoreSkillEnv \<Rightarrow> string \<Rightarrow> SkillInfo list core_sk" where
  "skills_list cenv i = with_skills cenv i (\<lambda>home. map_err (list_skills (cse_skills cenv) home))"

datatype SkillImportSource = SI_Folder string | SI_Archive string | SI_GitHub string

definition skills_import :: "CoreSkillEnv \<Rightarrow> string \<Rightarrow> Scope \<Rightarrow> SkillImportSource \<Rightarrow> SkillInfo core_sk" where
  "skills_import cenv i scope source =
     with_skills cenv i (\<lambda>home.
       (case source of
          SI_Folder path \<Rightarrow> map_err (import_folder (cse_skills cenv) home scope None (normal_names path))
        | SI_Archive path \<Rightarrow> (\<lambda>w.
            (case read_at (sw_disk w) (normal_names path) of
               None \<Rightarrow> (Err (Internal (cse_read_error cenv (normal_names path))), w)
             | Some bytes \<Rightarrow> map_err (import_zip (cse_skills cenv) home scope bytes) w))
        | SI_GitHub spec \<Rightarrow> map_err (import_github (cse_skills cenv) home scope spec)))"

definition skills_update_check :: "CoreSkillEnv \<Rightarrow> string \<Rightarrow> Scope \<Rightarrow> string \<Rightarrow> SkillUpdateCheck core_sk" where
  "skills_update_check cenv i scope name = with_skills cenv i (\<lambda>home. map_err (update_check (cse_skills cenv) home scope name))"

definition skills_update_plan :: "CoreSkillEnv \<Rightarrow> string \<Rightarrow> Scope \<Rightarrow> string \<Rightarrow> SkillUpdatePlan core_sk" where
  "skills_update_plan cenv i scope name = with_skills cenv i (\<lambda>home. map_err (update_plan (cse_skills cenv) home scope name))"

definition skills_update_apply :: "CoreSkillEnv \<Rightarrow> string \<Rightarrow> Scope \<Rightarrow> string \<Rightarrow> SkillUpdateApplied core_sk" where
  "skills_update_apply cenv i scope name = with_skills cenv i (\<lambda>home. map_err (update_apply (cse_skills cenv) home scope name))"

definition skills_trust :: "CoreSkillEnv \<Rightarrow> string \<Rightarrow> Scope \<Rightarrow> string \<Rightarrow> SkillInfo core_sk" where
  "skills_trust cenv i scope name = with_skills cenv i (\<lambda>home. map_err (trust_skill (cse_skills cenv) home scope name))"

definition skills_enable :: "CoreSkillEnv \<Rightarrow> string \<Rightarrow> Scope \<Rightarrow> string \<Rightarrow> bool \<Rightarrow> SkillInfo core_sk" where
  "skills_enable cenv i scope name enabled =
     with_skills cenv i (\<lambda>home. map_err (set_enabled (cse_skills cenv) home scope name enabled))"

section \<open>Skills in prompts\<close>

definition skill_candidates :: "CoreSkillEnv \<Rightarrow> string option \<Rightarrow> SkillCandidate list core_sk" where
  "skill_candidates cenv root w =
     (if cse_store cenv
      then (case map_err (list_skills (cse_skills cenv)
                (skill_home cenv (case root of Some r \<Rightarrow> r | None \<Rightarrow> cse_home cenv))) w of
              (Inl e, w') \<Rightarrow> (Err e, w')
            | (Inr listed, w') \<Rightarrow>
                (Ok (map (\<lambda>s. \<lparr>sc_name = sinfo_name s, sc_path = sinfo_path s\<rparr>)
                   (filter (\<lambda>s. sinfo_enabled s \<and> sinfo_trusted s) listed)), w'))
      else (Ok [], w))"

definition global_commands_dir :: "string \<Rightarrow> string" where
  "global_commands_dir home = join_path (join_path home ''.tethys'') ''commands''"

definition optional_root :: "CoreSkillEnv \<Rightarrow> string option \<Rightarrow> ApiError + string option" where
  "optional_root cenv i =
     (case i of None \<Rightarrow> Ok None | Some i \<Rightarrow> (case cse_roots cenv i of Inl e \<Rightarrow> Err e | Inr root \<Rightarrow> Ok (Some root)))"

definition commands_list :: "CoreSkillEnv \<Rightarrow> string option \<Rightarrow> CommandInfo list core_sk" where
  "commands_list cenv i w =
     (case optional_root cenv i of
        Inl e \<Rightarrow> (Err e, w)
      | Inr root \<Rightarrow> (Ok (list_commands (cse_fs cenv (sw_disk w)) (global_commands_dir (cse_home cenv)) root), w))"

definition commands_expand :: "CoreSkillEnv \<Rightarrow> string \<Rightarrow> string \<Rightarrow> string option \<Rightarrow> ExpandedCommand core_sk" where
  "commands_expand cenv command args_text i w =
     (case optional_root cenv i of
        Inl e \<Rightarrow> (Err e, w)
      | Inr root \<Rightarrow>
          (case skill_candidates cenv root w of
             (Inl e, w') \<Rightarrow> (Err e, w')
           | (Inr skills, w') \<Rightarrow>
               (expand_command (cse_fs cenv (sw_disk w')) (global_commands_dir (cse_home cenv)) root skills command args_text, w')))"

section \<open>Lock files\<close>

record LockV1Skill =
  l1_source :: string
  l1_source_type :: string
  l1_skill_path :: string
  l1_computed_hash :: "string option"

record LockV3Skill =
  l3_source_url :: string
  l3_reference :: "string option"
  l3_skill_folder_hash :: "string option"

record LockCandidate =
  lc_name :: string
  lc_source :: SkillSource
  lc_installed :: bool
  lc_supported :: bool

record LockEnv =
  le_v1 :: "string \<Rightarrow> string + (string, LockV1Skill) btree"
  le_v3 :: "string \<Rightarrow> string + (string, LockV3Skill) btree"
  le_state_home :: "string option"

text \<open>\<open>Path::parent\<close> on the reversed text: separators and \<open>.\<close> parts at the end do not count.\<close>

fun strip_rev :: "string \<Rightarrow> string" where
  "strip_rev (c # d # r) =
     (if c = CHR ''/'' \<or> c = CHR ''.'' \<and> d = CHR ''/'' then strip_rev (d # r) else c # d # r)"
| "strip_rev s = s"

definition parent_text :: "string \<Rightarrow> string option" where
  "parent_text s =
     (let q = strip_rev (rev s) in
      if q = [] \<or> q = ''/'' then None else Some (rev (strip_rev (dropWhile (\<lambda>c. c \<noteq> CHR ''/'') q))))"

definition is_installed :: "disk \<Rightarrow> loc \<Rightarrow> loc \<Rightarrow> string \<Rightarrow> bool" where
  "is_installed d root home name \<longleftrightarrow>
     is_dir_at d (join_loc (root @ [''.agents'', ''skills'']) name) \<or> is_dir_at d (join_loc (home @ [''.agents'', ''skills'']) name)"

definition lock_v1_candidate :: "disk \<Rightarrow> loc \<Rightarrow> loc \<Rightarrow> string \<times> LockV1Skill \<Rightarrow> LockCandidate" where
  "lock_v1_candidate d root home ne =
     (case ne of (name, e) \<Rightarrow>
        \<lparr>lc_name = name,
         lc_source = \<lparr>sk_origin = SO_Lockfile, sk_repo = Some (l1_source e), sk_reference = None,
           sk_subdir = parent_text (l1_skill_path e), sk_lock_hash = l1_computed_hash e, sk_url = None\<rparr>,
         lc_installed = is_installed d root home name, lc_supported = (l1_source_type e = ''github'')\<rparr>)"

text \<open>\<open>trim_end_matches\<close> with a string removes it as often as it occurs at the end.\<close>

function trim_suffixes :: "string \<Rightarrow> string \<Rightarrow> string" where
  "trim_suffixes e s =
     (case strip_suffix e s of
        Some s' \<Rightarrow> if length s' < length s then trim_suffixes e s' else s
      | None \<Rightarrow> s)"
  by auto
termination by (relation "measure (length \<circ> snd)") auto

declare trim_suffixes.simps [simp del]

definition lock_v3_candidate :: "disk \<Rightarrow> loc \<Rightarrow> loc \<Rightarrow> string \<times> LockV3Skill \<Rightarrow> LockCandidate" where
  "lock_v3_candidate d root home ne =
     (case ne of (name, e) \<Rightarrow>
        let repo = map_option (trim_suffixes ''.git'') (strip_prefix ''https://github.com/'' (l3_source_url e)) in
        \<lparr>lc_name = name,
         lc_source = \<lparr>sk_origin = SO_Lockfile, sk_repo = repo, sk_reference = l3_reference e,
           sk_subdir = None, sk_lock_hash = l3_skill_folder_hash e, sk_url = Some (l3_source_url e)\<rparr>,
         lc_installed = is_installed d root home name, lc_supported = (repo \<noteq> None)\<rparr>)"

definition scan_lockfiles :: "LockEnv \<Rightarrow> disk \<Rightarrow> loc \<Rightarrow> loc \<Rightarrow> SyncError + LockCandidate list" where
  "scan_lockfiles lenv d root home =
     (let path1 = root @ [''skills-lock.json''];
          path3 = (case le_state_home lenv of
              Some state \<Rightarrow> normal_names state @ [''skills'', ''.skill-lock.json''] | None \<Rightarrow> home @ [''.agents'', ''.skill-lock.json'']) in
      case (case read_at d path1 of
              None \<Rightarrow> Ok []
            | Some t \<Rightarrow> (case le_v1 lenv t of
                Inl m \<Rightarrow> Err (ParseError (loc_text path1) m) | Inr lock \<Rightarrow> Ok (map (lock_v1_candidate d root home) lock))) of
        Inl e \<Rightarrow> Err e
      | Inr candidates \<Rightarrow>
          (case read_at d path3 of
             None \<Rightarrow> Ok candidates
           | Some t \<Rightarrow> (case le_v3 lenv t of
               Inl m \<Rightarrow> Err (ParseError (loc_text path3) m)
             | Inr lock \<Rightarrow> Ok (candidates @ map (lock_v3_candidate d root home) lock))))"

section \<open>Properties\<close>

text \<open>What a listing says of a skill, with the digest trusted for the skill \<open>i\<close>.\<close>

definition listed_ok :: "SkillEnv \<Rightarrow> SkillHome \<Rightarrow> string \<Rightarrow> SkillFacts \<Rightarrow> disk \<Rightarrow> SkillInfo \<Rightarrow> bool" where
  "listed_ok env home i facts d info \<longleftrightarrow> info_pinned i facts info \<and>
     \<lparr>sf_content_hash = sinfo_content_hash info, sf_requires_trust = sinfo_requires_trust info\<rparr>
       = inspect env d (skill_dir home (sinfo_scope info) (sinfo_name info))"

definition listing :: "string \<Rightarrow> SkillFacts \<Rightarrow> disk \<Rightarrow> SkillWorld \<Rightarrow> bool" where
  "listing i facts d w \<longleftrightarrow> of_db (pinned i facts) w \<and> sw_disk w = d"

lemma skill_id_inj: "skill_id s n = skill_id t m \<longleftrightarrow> s = t \<and> n = m"
  by (cases s; cases t) (simp_all add: skill_id_def)

lemma keeps_disk_load_or_record: "sk_keeps (\<lambda>w. sw_disk w = d) (load_or_record env home scope name)"
  unfolding load_or_record_def Let_def by (intro sk_intros)

lemma load_listed:
  assumes run: "load_or_record env home scope name w = (Ok info, w')" and w: "listing i facts d w"
  shows "listing i facts d w' \<and> listed_ok env home i facts d info"
proof -
  have "sw_disk w' = d" using sk_keepsD[OF keeps_disk_load_or_record, of w d env home scope name] w run by (simp add: listing_def)
  moreover from w have "of_db (pinned i facts) w" by (simp add: listing_def)
  from sk_tripleD[OF triple_load this run] have "loaded env home scope name i facts info w'" .
  ultimately show ?thesis by (auto simp: loaded_def listing_def listed_ok_def info_id_def skill_id_inj)
qed

lemma values_bt_insert: "snd ` set (bt_insert k v m) \<subseteq> insert v (snd ` set m)"
  by (induction k v m rule: bt_insert.induct) auto

lemma list_scope_listed:
  "list_scope env home scope names tbl w = (Ok res, w') \<Longrightarrow> listing i facts d w \<Longrightarrow>
     (\<And>info. info \<in> snd ` set tbl \<Longrightarrow> listed_ok env home i facts d info) \<Longrightarrow>
     listing i facts d w' \<and> (\<forall>info \<in> snd ` set res. listed_ok env home i facts d info)"
proof (induction env home scope names tbl arbitrary: w rule: list_scope.induct)
  case (1 env home scope tbl)
  thus ?case by (auto simp: sk_ret_def)
next
  case (2 env home scope name names tbl)
  from "2.prems"(1) obtain info w1 where load: "load_or_record env home scope name w = (Ok info, w1)"
    and rest: "list_scope env home scope names (if map_of tbl name = None then bt_insert name info tbl else tbl) w1 = (Ok res, w')"
    by (auto simp: sk_bind_def split: prod.splits sum.splits)
  from load_listed[OF load "2.prems"(2)] have l: "listing i facts d w1" "listed_ok env home i facts d info" by simp_all
  have "listed_ok env home i facts d x"
    if x: "x \<in> snd ` set (if map_of tbl name = None then bt_insert name info tbl else tbl)" for x
  proof (cases "x = info")
    case False
    with x values_bt_insert[of name info tbl] have "x \<in> snd ` set tbl" by (auto split: if_splits)
    thus ?thesis by (rule "2.prems"(3))
  qed (simp add: l(2))
  from "2.IH"[OF rest l(1) this] show ?case .
qed

lemma list_skills_listed:
  assumes run: "list_skills env home w = (Ok infos, w')" and w: "listing i facts d w" and info: "info \<in> set infos"
  shows "listed_ok env home i facts d info"
proof -
  from run obtain m1 w1 m2 where m: "list_scope env home Workspace (discover_skills (sw_disk w) (skills_dir home Workspace)) [] w = (Ok m1, w1)"
    "list_scope env home Global (discover_skills (sw_disk w1) (skills_dir home Global)) m1 w1 = (Ok m2, w')" "infos = map snd m2"
    by (auto simp: list_skills_def sk_bind_def sk_get_def sk_ret_def split: prod.splits sum.splits)
  from list_scope_listed[OF m(1) w] have "listing i facts d w1" "\<forall>info \<in> snd ` set m1. listed_ok env home i facts d info" by auto
  with list_scope_listed[OF m(2)] m(3) info show ?thesis by auto
qed

lemma expand_loop_refs:
  "expand_loop f tokens resolved refs = (t, refs') \<Longrightarrow> r \<in> set refs' \<Longrightarrow> r \<in> set refs \<or> (\<exists>token \<in> set tokens. r \<in> set (snd (f token)))"
  by (induction f tokens resolved refs rule: expand_loop.induct) (auto split: prod.splits)

lemma path_reference_kind: "path_reference fs root t = Some (f, r) \<Longrightarrow> cr_kind r = RK_Path"
  by (auto simp: path_reference_def Let_def split: if_splits option.splits prod.splits)

lemma resolve_token_skill:
  assumes "r \<in> set (snd (resolve_token fs root skills token))" "cr_kind r = RK_Skill"
  shows "\<exists>c \<in> set skills. cr_name r = sc_name c \<and> cr_path r = sc_path c"
proof (cases token)
  case (TSkill name)
  with assms show ?thesis
    by (auto simp: resolve_token_def skill_reference_def Let_def find_Some_iff split: option.splits prod.splits intro!: bexI[OF _ nth_mem])
next
  case (TPath raw)
  with assms show ?thesis
    by (auto simp: resolve_token_def bind_eq_Some_conv dest: path_reference_kind split: option.splits prod.splits)
qed (use assms in \<open>simp add: resolve_token_def\<close>)

lemma expand_command_skill:
  assumes "expand_command fs global root skills command args = Ok ec" "r \<in> set (ec_references ec)" "cr_kind r = RK_Skill"
  shows "\<exists>c \<in> set skills. cr_name r = sc_name c \<and> cr_path r = sc_path c"
proof -
  from assms(1) obtain body t where "resolve_tokens fs (apply_args body args) root skills = (t, ec_references ec)"
    by (auto simp: expand_command_def split: option.splits sum.splits prod.splits)
  with expand_loop_refs[of _ _ "[]" "[]" t "ec_references ec" r] assms(2,3) resolve_token_skill show ?thesis
    unfolding resolve_tokens_def by fastforce
qed

text \<open>
  C31. A prompt names only trusted skills, and what it names is what was trusted. Every skill that an
  expanded command refers to is listed as enabled and trusted under that name and path. If a skill
  was trusted, and whatever was listed, enabled, imported, updated or changed on the disk since then
  without trusting it again, a prompt that refers to it finds the files with the digest and the
  script flag they had when they were trusted.
\<close>

theorem prompt_skills_trusted:
  assumes run: "commands_expand cenv command args i w2 = (Ok ec, w3)" and r: "r \<in> set (ec_references ec)" "cr_kind r = RK_Skill"
  shows "\<exists>root infos w' info. optional_root cenv i = Ok root
    \<and> list_skills (cse_skills cenv) (skill_home cenv (case root of Some p \<Rightarrow> p | None \<Rightarrow> cse_home cenv)) w2 = (Ok infos, w')
    \<and> info \<in> set infos \<and> sinfo_name info = cr_name r \<and> sinfo_path info = cr_path r \<and> sinfo_enabled info \<and> sinfo_trusted info
    \<and> (\<forall>home w0 info0 w1. rows_named (sw_db w0)
         \<longrightarrow> trust_skill (cse_skills cenv) home (sinfo_scope info) (cr_name r) w0 = (Ok info0, w1)
         \<longrightarrow> (skill_step (cse_skills cenv) (skill_id (sinfo_scope info) (cr_name r)))\<^sup>*\<^sup>* w1 w2
         \<longrightarrow> inspect (cse_skills cenv) (sw_disk w2) (skill_dir (skill_home cenv (case root of Some p \<Rightarrow> p | None \<Rightarrow> cse_home cenv))
               (sinfo_scope info) (cr_name r))
             = inspect (cse_skills cenv) (sw_disk w0) (skill_dir home (sinfo_scope info) (cr_name r)))"
proof -
  let ?env = "cse_skills cenv"
  from run obtain root skills where root: "optional_root cenv i = Ok root" "skill_candidates cenv root w2 = (Ok skills, w3)"
    and ex: "expand_command (cse_fs cenv (sw_disk w3)) (global_commands_dir (cse_home cenv)) root skills command args = Ok ec"
    by (auto simp: commands_expand_def split: sum.splits prod.splits)
  let ?home = "skill_home cenv (case root of Some p \<Rightarrow> p | None \<Rightarrow> cse_home cenv)"
  from expand_command_skill[OF ex r] obtain c where c: "c \<in> set skills" "cr_name r = sc_name c" "cr_path r = sc_path c" by blast
  with root(2) obtain infos info where info: "list_skills ?env ?home w2 = (Ok infos, w3)" "info \<in> set infos"
    "sinfo_name info = cr_name r" "sinfo_path info = cr_path r" "sinfo_enabled info" "sinfo_trusted info"
    by (auto simp: skill_candidates_def map_err_def split: if_splits prod.splits sum.splits)
  have "inspect ?env (sw_disk w2) (skill_dir ?home (sinfo_scope info) (cr_name r))
      = inspect ?env (sw_disk w0) (skill_dir home (sinfo_scope info) (cr_name r))"
    if named: "rows_named (sw_db w0)" and trust: "trust_skill ?env home (sinfo_scope info) (cr_name r) w0 = (Ok info0, w1)"
      and steps: "(skill_step ?env (skill_id (sinfo_scope info) (cr_name r)))\<^sup>*\<^sup>* w1 w2" for home w0 info0 w1
  proof -
    let ?i = "skill_id (sinfo_scope info) (cr_name r)" and ?f = "inspect ?env (sw_disk w0) (skill_dir home (sinfo_scope info) (cr_name r))"
    have "listing ?i ?f (sw_disk w2) w2"
      using skill_steps_pinned[OF steps trust_pins[OF named trust]] by (simp add: listing_def)
    from list_skills_listed[OF info(1) this info(2)] info(3,6) show ?thesis
      by (auto simp: listed_ok_def info_pinned_def info_id_def dest: sym intro: SkillFacts.equality)
  qed
  with root(1) info show ?thesis by blast
qed

subsection \<open>Witness\<close>

definition prompt_fs :: ComposerFs where
  "prompt_fs = \<lparr>fs_names = (\<lambda>dir. if dir = ''/h/.tethys/commands'' then Some [''c.md''] else None), fs_text = (\<lambda>_. Ok ''$pdf''),
     fs_lines = (\<lambda>_. None), fs_canonical = (\<lambda>_. None), fs_metadata = (\<lambda>_. None), fs_mime = (\<lambda>_. None)\<rparr>"

definition prompt_env :: CoreSkillEnv where
  "prompt_env = \<lparr>cse_roots = (\<lambda>i. Ok ''/w''), cse_home = ''/h'', cse_store = True, cse_skills = sample_env,
     cse_read_error = (\<lambda>_. []), cse_fs = (\<lambda>_. prompt_fs)\<rparr>"

definition prompt_world :: SkillWorld where
  "prompt_world = snd (trust_skill sample_env sample_home Workspace ''pdf'' sample_world)"

lemma prompt_refs:
  "map_sum id (\<lambda>ec. map cr_name (ec_references ec)) (fst (commands_expand prompt_env ''c'' [] (Some ''w'') prompt_world)) = Ok [''pdf'']
   \<and> map_sum id (\<lambda>ec. map cr_kind (ec_references ec)) (fst (commands_expand prompt_env ''c'' [] (Some ''w'') prompt_world)) = Ok [RK_Skill]"
  by code_simp

lemma prompt_listed:
  "map_sum id (map sinfo_scope) (fst (list_skills sample_env sample_home prompt_world)) = Ok [Workspace]"
  by code_simp

lemma prompt_trust: "\<exists>info. trust_skill sample_env sample_home Workspace ''pdf'' sample_world = (Ok info, prompt_world)"
proof -
  have "isl (fst (trust_skill sample_env sample_home Workspace ''pdf'' sample_world)) = False" by code_simp
  thus ?thesis unfolding prompt_world_def by (metis isl_def obj_sumE prod.collapse sum.disc(2))
qed

lemma prompt_home: "skill_home prompt_env ''/w'' = sample_home"
  by code_simp

theorem prompt_skills_trusted_witness:
  "\<exists>ec w r. commands_expand prompt_env ''c'' [] (Some ''w'') prompt_world = (Ok ec, w) \<and> r \<in> set (ec_references ec) \<and> cr_name r = ''pdf''
     \<and> inspect sample_env (sw_disk prompt_world) (skill_dir sample_home Workspace ''pdf'')
       = inspect sample_env (sw_disk sample_world) (skill_dir sample_home Workspace ''pdf'')"
proof -
  obtain res w where run: "commands_expand prompt_env ''c'' [] (Some ''w'') prompt_world = (res, w)" by fastforce
  with prompt_refs obtain ec where ec: "res = Ok ec" "map cr_name (ec_references ec) = [''pdf'']" "map cr_kind (ec_references ec) = [RK_Skill]"
    by (cases res) auto
  then obtain r where r: "r \<in> set (ec_references ec)" "cr_kind r = RK_Skill" "cr_name r = ''pdf''" by (cases "ec_references ec") auto
  have env: "cse_skills prompt_env = sample_env" "optional_root prompt_env (Some ''w'') = Ok (Some ''/w'')"
    by (simp_all add: prompt_env_def optional_root_def)
  from prompt_skills_trusted[OF run[unfolded ec(1)] r(1,2)] obtain infos w' info where
    info: "list_skills sample_env sample_home prompt_world = (Ok infos, w')" "info \<in> set infos"
    and same: "\<And>home w0 info0 w1. rows_named (sw_db w0) \<Longrightarrow> trust_skill sample_env home (sinfo_scope info) ''pdf'' w0 = (Ok info0, w1)
         \<Longrightarrow> (skill_step sample_env (skill_id (sinfo_scope info) ''pdf''))\<^sup>*\<^sup>* w1 prompt_world
         \<Longrightarrow> inspect sample_env (sw_disk prompt_world) (skill_dir sample_home (sinfo_scope info) ''pdf'')
             = inspect sample_env (sw_disk w0) (skill_dir home (sinfo_scope info) ''pdf'')"
    unfolding env r(3) by (auto simp: prompt_home)
  from prompt_listed info have "sinfo_scope info = Workspace" by auto
  moreover have "rows_named (sw_db sample_world)" by (simp add: rows_named_def sample_world_def get_skill_def db_new_def table_get_def)
  ultimately show ?thesis using same prompt_trust run ec(1) r by (metis rtranclp.rtrancl_refl)
qed

end
