(* ===== verification/Git_Repo.thy ===== *)
theory Git_Repo
  imports Rust_Text
begin

text \<open>
  The git process layer: \<^verbatim>\<open>crates/tethys-git/src/error.rs\<close>, \<^verbatim>\<open>repo.rs\<close> and \<^verbatim>\<open>read.rs\<close>. The git
  binary and the file system are the parameter \<open>GitEnv\<close>, functions over an arbitrary disk
  state \<open>'r\<close>; an operation is a function from the world to a result and the next world. The
  world also keeps the temporary index counter of the program and, as a history, the commands
  that were run and whether they succeeded, so that properties can speak about what is run and
  in which order. The parsers of git's porcelain output are proved inverse to its documented
  format.
\<close>

section \<open>Errors, commands and the world\<close>

datatype GitError =
    NotARepo string
  | CommandFailed string "int option" string
  | IoError string
  | CheckpointNotFound string
  | DeleteBlocked "string list" "string list" bool
  | RestoreBlocked string
  | PatchFailed string
  | NothingToCommit
  | InvalidPath string
  | InvalidArgument string
  | WorktreeNotFound string

text \<open>
  A prepared \<open>Command::new("git")\<close>: its directory, \<open>GIT_INDEX_FILE\<close>, \<open>GIT_LITERAL_PATHSPECS\<close>,
  arguments and standard input.
\<close>

record GitCall =
  gc_cwd :: string
  gc_index :: "string option"
  gc_literal :: bool
  gc_args :: "string list"
  gc_stdin :: "string option"

record Output =
  out_code :: "int option"
  out_stdout :: string
  out_stderr :: string

record 'r GitEnv =
  ge_run :: "GitCall \<Rightarrow> 'r \<Rightarrow> (string + Output) \<times> 'r"
  ge_canonical :: "'r \<Rightarrow> string \<Rightarrow> string option"
  ge_is_file :: "'r \<Rightarrow> string \<Rightarrow> bool"
  ge_is_dir :: "'r \<Rightarrow> string \<Rightarrow> bool"
  ge_metadata :: "'r \<Rightarrow> string \<Rightarrow> (bool \<times> nat) option"
  ge_read_head :: "'r \<Rightarrow> string \<Rightarrow> nat \<Rightarrow> string option"
  ge_copy :: "string \<Rightarrow> string \<Rightarrow> 'r \<Rightarrow> (string + unit) \<times> 'r"
  ge_keep_mtime :: "string \<Rightarrow> string \<Rightarrow> 'r \<Rightarrow> 'r"
  ge_remove_file :: "string \<Rightarrow> 'r \<Rightarrow> 'r"
  ge_pid :: nat

record 'r World =
  w_counter :: u64
  w_disk :: 'r
  w_log :: "(GitCall \<times> bool) list"

type_synonym ('r, 'a) git_op = "'r World \<Rightarrow> (GitError + 'a) \<times> 'r World"

definition success :: "Output \<Rightarrow> bool" where
  "success out \<longleftrightarrow> out_code out = Some 0"

definition ret :: "'a \<Rightarrow> ('r, 'a) git_op" where
  "ret x w = (Ok x, w)"

definition fail :: "GitError \<Rightarrow> ('r, 'a) git_op" where
  "fail e w = (Err e, w)"

text \<open>The operator \<open>?\<close>: an error ends the function.\<close>

definition bind :: "('r, 'a) git_op \<Rightarrow> ('a \<Rightarrow> ('r, 'b) git_op) \<Rightarrow> ('r, 'b) git_op" where
  "bind m f w = (case m w of (Inl e, w') \<Rightarrow> (Err e, w') | (Inr x, w') \<Rightarrow> f x w')"

text \<open>A result that is inspected instead of propagated (\<open>let _ =\<close>, \<open>unwrap_or_else\<close>).\<close>

definition attempt :: "('r, 'a) git_op \<Rightarrow> ('r, GitError + 'a) git_op" where
  "attempt m w = (case m w of (x, w') \<Rightarrow> (Ok x, w'))"

definition ok_or :: "GitError \<Rightarrow> 'a option \<Rightarrow> ('r, 'a) git_op" where
  "ok_or e x = (case x of None \<Rightarrow> fail e | Some v \<Rightarrow> ret v)"

definition disk_get :: "('r \<Rightarrow> 'a) \<Rightarrow> ('r, 'a) git_op" where
  "disk_get f w = (Ok (f (w_disk w)), w)"

definition disk_do :: "('r \<Rightarrow> 'r) \<Rightarrow> ('r, unit) git_op" where
  "disk_do f w = (Ok (), w\<lparr>w_disk := f (w_disk w)\<rparr>)"

definition disk_try :: "('r \<Rightarrow> (string + unit) \<times> 'r) \<Rightarrow> ('r, unit) git_op" where
  "disk_try f w =
     (case f (w_disk w) of (Inl e, d) \<Rightarrow> (Err (IoError e), w\<lparr>w_disk := d\<rparr>)
      | (Inr _, d) \<Rightarrow> (Ok (), w\<lparr>w_disk := d\<rparr>))"

definition exec :: "'r GitEnv \<Rightarrow> GitCall \<Rightarrow> ('r, Output) git_op" where
  "exec env c w =
     (case ge_run env c (w_disk w) of
        (Inl e, d) \<Rightarrow> (Err (IoError e), w\<lparr>w_disk := d, w_log := w_log w @ [(c, False)]\<rparr>)
      | (Inr out, d) \<Rightarrow> (Ok out, w\<lparr>w_disk := d, w_log := w_log w @ [(c, success out)]\<rparr>))"

definition command_error :: "string list \<Rightarrow> Output \<Rightarrow> GitError" where
  "command_error args out =
     CommandFailed (join_with (CHR '' '') args) (out_code out) (trim (utf8_lossy (out_stderr out)))"

definition checked_as :: "string list \<Rightarrow> 'r GitEnv \<Rightarrow> GitCall \<Rightarrow> ('r, string) git_op" where
  "checked_as shown env c =
     bind (exec env c) (\<lambda>out. if success out then ret (out_stdout out) else fail (command_error shown out))"

definition checked :: "'r GitEnv \<Rightarrow> GitCall \<Rightarrow> ('r, string) git_op" where
  "checked env c = checked_as (gc_args c) env c"

section \<open>Repositories\<close>

record GitRepo =
  gr_worktree_root :: string
  gr_git_dir :: string
  gr_common_dir :: string
  gr_head_oid :: "string option"
  gr_branch :: string
  gr_is_main_worktree :: bool

definition EMPTY_TREE :: string where
  "EMPTY_TREE = ''4b825dc642cb6eb9a060e54bf8d69288fbee4904''"

definition plain_call :: "string \<Rightarrow> string list \<Rightarrow> GitCall" where
  "plain_call cwd args =
     \<lparr>gc_cwd = cwd, gc_index = None, gc_literal = False, gc_args = args, gc_stdin = None\<rparr>"

definition run_checked :: "'r GitEnv \<Rightarrow> string \<Rightarrow> string list \<Rightarrow> ('r, string) git_op" where
  "run_checked env cwd args = checked env (plain_call cwd args)"

definition git :: "'r GitEnv \<Rightarrow> GitRepo \<Rightarrow> string list \<Rightarrow> ('r, string) git_op" where
  "git env repo args = run_checked env (gr_worktree_root repo) args"

definition git_str :: "'r GitEnv \<Rightarrow> GitRepo \<Rightarrow> string list \<Rightarrow> ('r, string) git_op" where
  "git_str env repo args = bind (git env repo args) (\<lambda>out. ret (trim (utf8_lossy out)))"

definition git_literal :: "'r GitEnv \<Rightarrow> GitRepo \<Rightarrow> string list \<Rightarrow> ('r, string) git_op" where
  "git_literal env repo args =
     checked env ((plain_call (gr_worktree_root repo) args)\<lparr>gc_literal := True\<rparr>)"

definition git_ok :: "'r GitEnv \<Rightarrow> GitRepo \<Rightarrow> string list \<Rightarrow> ('r, unit) git_op" where
  "git_ok env repo args = bind (git env repo args) (\<lambda>_. ret ())"

definition rev_parse_opt :: "'r GitEnv \<Rightarrow> string \<Rightarrow> string \<Rightarrow> ('r, string option) git_op" where
  "rev_parse_opt env cwd rev' =
     bind (exec env (plain_call cwd [''rev-parse'', ''--verify'', ''-q'', rev'])) (\<lambda>out.
       if \<not> success out then ret None
       else let oid = trim (utf8_lossy (out_stdout out)) in
         ret (if oid = [] then None else Some oid))"

definition rev_parse :: "'r GitEnv \<Rightarrow> GitRepo \<Rightarrow> string \<Rightarrow> ('r, string option) git_op" where
  "rev_parse env repo rev' = rev_parse_opt env (gr_worktree_root repo) rev'"

definition rev_parse_string :: "'r GitEnv \<Rightarrow> string \<Rightarrow> string list \<Rightarrow> ('r, string) git_op" where
  "rev_parse_string env cwd args =
     bind (checked_as [''rev-parse''] env (plain_call cwd (''rev-parse'' # args)))
       (\<lambda>out. ret (trim (utf8_lossy out)))"

definition normalize :: "'r GitEnv \<Rightarrow> 'r \<Rightarrow> string \<Rightarrow> string" where
  "normalize env d path = (case ge_canonical env d path of Some p \<Rightarrow> p | None \<Rightarrow> path)"

definition discover_repo :: "'r GitEnv \<Rightarrow> string \<Rightarrow> ('r, GitRepo) git_op" where
  "discover_repo env root =
     bind (attempt (exec env (plain_call root
         [''rev-parse'', ''--absolute-git-dir'', ''--git-common-dir'', ''--show-toplevel'']))) (\<lambda>r.
     case r of
       Inl (IoError e) \<Rightarrow> fail (NotARepo (root @ '': '' @ e))
     | Inl e \<Rightarrow> fail e
     | Inr out \<Rightarrow>
         if \<not> success out then fail (NotARepo root)
         else case str_lines (utf8_lossy (out_stdout out)) of
           raw_git # raw_common # toplevel # _ \<Rightarrow>
             bind (disk_get (\<lambda>d.
               let worktree_root = normalize env d toplevel in
               (worktree_root, normalize env d raw_git,
                if is_absolute raw_common then normalize env d raw_common
                else normalize env d (join_path worktree_root raw_common))))
             (\<lambda>(worktree_root, git_dir, common_dir).
               bind (rev_parse_opt env worktree_root ''HEAD'') (\<lambda>head_oid.
               bind (attempt (rev_parse_string env worktree_root [''--abbrev-ref'', ''HEAD''])) (\<lambda>branch.
               ret \<lparr>gr_worktree_root = worktree_root, gr_git_dir = git_dir, gr_common_dir = common_dir,
                    gr_head_oid = head_oid,
                    gr_branch = (case branch of Inr b \<Rightarrow> b | Inl _ \<Rightarrow> ''HEAD''),
                    gr_is_main_worktree = (git_dir = common_dir)\<rparr>)))
         | _ \<Rightarrow> fail (NotARepo root))"

section \<open>Temporary indexes\<close>

text \<open>\<open>TempIndex\<close> is the path of its file; \<open>with_temp_index\<close> is its scope, \<open>Drop\<close> included.\<close>

definition safe_tag :: "string \<Rightarrow> string" where
  "safe_tag = map (\<lambda>c. if alphanumeric c then c else CHR ''_'')"

definition temp_index_path :: "nat \<Rightarrow> GitRepo \<Rightarrow> u64 \<Rightarrow> string \<Rightarrow> string" where
  "temp_index_path pid repo counter tag =
     join_path (gr_git_dir repo)
       (''tethys_index_'' @ show_nat pid @ ''_'' @ show_nat (unat counter) @ ''_'' @ safe_tag tag)"

definition temp_index_new :: "'r GitEnv \<Rightarrow> GitRepo \<Rightarrow> string \<Rightarrow> ('r, string) git_op" where
  "temp_index_new env repo tag w =
     (let path = temp_index_path (ge_pid env) repo (w_counter w) tag in
      (Ok path, w\<lparr>w_counter := w_counter w + 1, w_disk := ge_remove_file env path (w_disk w)\<rparr>))"

definition temp_index_drop :: "'r GitEnv \<Rightarrow> string \<Rightarrow> 'r World \<Rightarrow> 'r World" where
  "temp_index_drop env path w = w\<lparr>w_disk := ge_remove_file env path (w_disk w)\<rparr>"

definition with_temp_index ::
  "'r GitEnv \<Rightarrow> GitRepo \<Rightarrow> string \<Rightarrow> (string \<Rightarrow> ('r, 'a) git_op) \<Rightarrow> ('r, 'a) git_op" where
  "with_temp_index env repo tag body =
     bind (temp_index_new env repo tag) (\<lambda>path w.
       case body path w of (x, w') \<Rightarrow> (x, temp_index_drop env path w'))"

definition index_run :: "'r GitEnv \<Rightarrow> GitRepo \<Rightarrow> string \<Rightarrow> string list \<Rightarrow> ('r, string) git_op" where
  "index_run env repo path args =
     checked env ((plain_call (gr_worktree_root repo) args)\<lparr>gc_index := Some path\<rparr>)"

definition index_seed :: "'r GitEnv \<Rightarrow> GitRepo \<Rightarrow> string \<Rightarrow> ('r, unit) git_op" where
  "index_seed env repo path =
     (let real = join_path (gr_git_dir repo) ''index'' in
      bind (disk_get (\<lambda>d. ge_is_file env d real)) (\<lambda>present.
      if present then
        bind (disk_try (ge_copy env real path)) (\<lambda>_. disk_do (ge_keep_mtime env real path))
      else bind (index_run env repo path
          (if gr_head_oid repo \<noteq> None then [''read-tree'', ''HEAD''] else [''read-tree'', ''--empty'']))
        (\<lambda>_. ret ())))"

definition index_write_tree :: "'r GitEnv \<Rightarrow> GitRepo \<Rightarrow> string \<Rightarrow> ('r, string) git_op" where
  "index_write_tree env repo path =
     bind (index_run env repo path [''write-tree'']) (\<lambda>out. ret (trim (utf8_lossy out)))"

section \<open>Reading the repository\<close>

record StatusEntry =
  se_path :: string
  se_untracked :: bool
  se_staged :: bool
  se_worktree_changed :: bool

definition is_uncommitted :: "StatusEntry \<Rightarrow> bool" where
  "is_uncommitted e \<longleftrightarrow> se_untracked e \<or> se_staged e \<or> se_worktree_changed e"

definition nth_opt :: "'a list \<Rightarrow> nat \<Rightarrow> 'a option" where
  "nth_opt xs n = (if n < length xs then Some (xs ! n) else None)"

definition split_nth :: "string \<Rightarrow> nat \<Rightarrow> string option" where
  "split_nth text n = nth_opt (splitn n (CHR '' '') text) (n - 1)"

definition marked :: "string \<Rightarrow> nat \<Rightarrow> bool" where
  "marked xy n = (case nth_opt xy n of Some b \<Rightarrow> b \<noteq> CHR ''.'' | None \<Rightarrow> False)"

definition parse_status :: "string \<Rightarrow> StatusEntry option" where
  "parse_status chunk =
     (if chunk = [] then None
      else let text = utf8_lossy chunk in
      if hd chunk = CHR ''1'' then
        map_option (\<lambda>rest.
          let xy = (case nth_opt (split_on (CHR '' '') text) 1 of Some f \<Rightarrow> f | None \<Rightarrow> ''..'') in
          \<lparr>se_path = rest, se_untracked = False, se_staged = marked xy 0, se_worktree_changed = marked xy 1\<rparr>)
          (split_nth text 9)
      else if hd chunk = CHR ''u'' then
        map_option (\<lambda>rest.
          \<lparr>se_path = rest, se_untracked = False, se_staged = True, se_worktree_changed = True\<rparr>)
          (split_nth text 11)
      else if hd chunk = CHR ''?'' then
        map_option (\<lambda>rest.
          \<lparr>se_path = rest, se_untracked = True, se_staged = False, se_worktree_changed = True\<rparr>)
          (split_nth text 2)
      else None)"

definition parse_porcelain_v2 :: "string \<Rightarrow> StatusEntry list" where
  "parse_porcelain_v2 raw = List.map_filter parse_status (split_on nul raw)"

definition status_entries :: "'r GitEnv \<Rightarrow> GitRepo \<Rightarrow> ('r, StatusEntry list) git_op" where
  "status_entries env repo =
     bind (git env repo [''status'', ''--porcelain=v2'', ''-z'', ''-uall'', ''--no-renames''])
       (\<lambda>out. ret (parse_porcelain_v2 out))"

definition uncommitted_paths :: "'r GitEnv \<Rightarrow> GitRepo \<Rightarrow> ('r, string list) git_op" where
  "uncommitted_paths env repo =
     bind (status_entries env repo) (\<lambda>entries. ret (map se_path (filter is_uncommitted entries)))"

definition head_tree :: "'r GitEnv \<Rightarrow> GitRepo \<Rightarrow> ('r, string) git_op" where
  "head_tree env repo =
     bind (rev_parse env repo ''HEAD^{tree}'')
       (\<lambda>t. ret (case t of Some tree \<Rightarrow> tree | None \<Rightarrow> EMPTY_TREE))"

definition index_tree :: "'r GitEnv \<Rightarrow> GitRepo \<Rightarrow> ('r, string) git_op" where
  "index_tree env repo = git_str env repo [''write-tree'']"

definition rev_tree :: "'r GitEnv \<Rightarrow> GitRepo \<Rightarrow> string \<Rightarrow> ('r, string option) git_op" where
  "rev_tree env repo rev' = rev_parse env repo (rev' @ ''^{tree}'')"

definition blob :: "'r GitEnv \<Rightarrow> GitRepo \<Rightarrow> string \<Rightarrow> ('r, string) git_op" where
  "blob env repo oid = git env repo [''cat-file'', ''blob'', oid]"

definition run_with_stdin :: "'r GitEnv \<Rightarrow> GitRepo \<Rightarrow> string list \<Rightarrow> string \<Rightarrow> ('r, string) git_op" where
  "run_with_stdin env repo args input =
     checked env ((plain_call (gr_worktree_root repo) args)\<lparr>gc_stdin := Some input\<rparr>)"

definition size_line :: "string \<Rightarrow> (string \<rightharpoonup> nat) \<Rightarrow> (string \<rightharpoonup> nat)" where
  "size_line l sizes =
     (case split_on (CHR '' '') l of
        oid # size' # _ \<Rightarrow> (case parse_u64 size' of Some n \<Rightarrow> sizes(oid \<mapsto> n) | None \<Rightarrow> sizes)
      | _ \<Rightarrow> sizes)"

definition blob_sizes :: "'r GitEnv \<Rightarrow> GitRepo \<Rightarrow> string list \<Rightarrow> ('r, string \<rightharpoonup> nat) git_op" where
  "blob_sizes env repo oids =
     (if oids = [] then ret Map.empty
      else bind (run_with_stdin env repo
          [''cat-file'', ''--batch-check=%(objectname) %(objectsize)'']
          (concat (map (\<lambda>oid. oid @ [newline]) oids)))
        (\<lambda>out. ret (fold size_line (str_lines (utf8_lossy out)) Map.empty)))"

fun first_worktree :: "(string \<Rightarrow> bool) \<Rightarrow> string list \<Rightarrow> string option" where
  "first_worktree is_dir [] = None"
| "first_worktree is_dir (l # ls) =
     (case strip_prefix ''worktree '' l of
        Some path \<Rightarrow> if is_dir path then Some path else first_worktree is_dir ls
      | None \<Rightarrow> first_worktree is_dir ls)"

definition main_worktree_root :: "'r GitEnv \<Rightarrow> GitRepo \<Rightarrow> ('r, string) git_op" where
  "main_worktree_root env repo =
     bind (git_str env repo [''worktree'', ''list'', ''--porcelain'']) (\<lambda>out.
     bind (disk_get (\<lambda>d. first_worktree (ge_is_dir env d) (str_lines out))) (\<lambda>r.
     ret (case r of Some root \<Rightarrow> root | None \<Rightarrow> gr_worktree_root repo)))"

definition unpushed_commits :: "'r GitEnv \<Rightarrow> GitRepo \<Rightarrow> ('r, string list) git_op" where
  "unpushed_commits env repo =
     bind (rev_parse env repo (''@'' @ ''{u}'')) (\<lambda>upstream.
       if upstream = None then ret []
       else bind (git_str env repo [''rev-list'', (''@'' @ ''{u}..HEAD'')]) (\<lambda>out.
         ret (filter (\<lambda>l. l \<noteq> []) (map trim (str_lines out)))))"

section \<open>What an operation runs\<close>

text \<open>
  \<open>issues P m\<close>: whatever git answers, every command that \<open>m\<close> runs, with its outcome,
  satisfies \<open>P\<close>.
\<close>

definition issues :: "(GitCall \<times> bool \<Rightarrow> bool) \<Rightarrow> ('r, 'a) git_op \<Rightarrow> bool" where
  "issues P m \<longleftrightarrow> (\<forall>w. \<exists>cs. w_log (snd (m w)) = w_log w @ cs \<and> list_all P cs)"

named_theorems issues_intros \<open>which commands an operation runs\<close>

lemma issuesD: "issues P m \<Longrightarrow> \<exists>cs. w_log (snd (m w)) = w_log w @ cs \<and> list_all P cs"
  by (simp add: issues_def)

lemma issues_same_log: "(\<And>w. w_log (snd (m w)) = w_log w) \<Longrightarrow> issues P m"
  by (simp add: issues_def)

lemma issues_mono: "issues P m \<Longrightarrow> (\<And>c. P c \<Longrightarrow> Q c) \<Longrightarrow> issues Q m"
  unfolding issues_def by (metis list.pred_mono_strong)

lemma issues_ret [issues_intros]: "issues P (ret x)"
  and issues_fail [issues_intros]: "issues P (fail e)"
  and issues_disk_get [issues_intros]: "issues P (disk_get f)"
  and issues_disk_do [issues_intros]: "issues P (disk_do g)"
  by (rule issues_same_log, simp add: ret_def fail_def disk_get_def disk_do_def)+

lemma issues_disk_try [issues_intros]: "issues P (disk_try f)"
  by (rule issues_same_log) (auto simp: disk_try_def split: prod.split sum.split)

lemma issues_ok_or [issues_intros]: "issues P (ok_or e x)"
  by (auto simp: ok_or_def intro: issues_intros split: option.split)

lemma issues_bind [issues_intros]:
  assumes "issues P m" "\<And>x. issues P (f x)"
  shows "issues P (bind m f)"
  unfolding issues_def
proof
  fix w
  obtain x w' where m: "m w = (x, w')" by (cases "m w")
  obtain cs where cs: "w_log w' = w_log w @ cs" "list_all P cs"
    using issuesD[OF assms(1), of w] m by auto
  show "\<exists>cs. w_log (snd (bind m f w)) = w_log w @ cs \<and> list_all P cs"
  proof (cases x)
    case (Inl e)
    then show ?thesis using m cs by (auto simp: bind_def)
  next
    case (Inr v)
    obtain ds where "w_log (snd (f v w')) = w_log w' @ ds" "list_all P ds"
      using issuesD[OF assms(2)] by blast
    then show ?thesis using m cs Inr by (auto simp: bind_def)
  qed
qed

lemma issues_attempt [issues_intros]: "issues P m \<Longrightarrow> issues P (attempt m)"
  by (auto simp: issues_def attempt_def split: prod.split) (metis snd_conv)

lemma issues_exec [issues_intros]: "P (c, True) \<Longrightarrow> P (c, False) \<Longrightarrow> issues P (exec env c)"
  by (auto simp: issues_def exec_def split: prod.split sum.split) (metis (full_types))

lemma issues_if [issues_intros]: "(b \<Longrightarrow> issues P m) \<Longrightarrow> (\<not> b \<Longrightarrow> issues P n) \<Longrightarrow> issues P (if b then m else n)"
  by simp

lemma issues_option [issues_intros]:
  "(x = None \<Longrightarrow> issues P m) \<Longrightarrow> (\<And>v. x = Some v \<Longrightarrow> issues P (f v))
    \<Longrightarrow> issues P (case x of None \<Rightarrow> m | Some v \<Rightarrow> f v)"
  by (cases x) auto

lemma issues_checked [issues_intros]: "P (c, True) \<Longrightarrow> P (c, False) \<Longrightarrow> issues P (checked env c)"
  unfolding checked_def checked_as_def by (intro issues_intros) auto

lemma issues_with_temp_index [issues_intros]:
  assumes "\<And>path. issues P (body path)"
  shows "issues P (with_temp_index env repo tag body)"
  unfolding with_temp_index_def
proof (rule issues_bind)
  show "issues P (temp_index_new env repo tag)"
    by (rule issues_same_log) (simp add: temp_index_new_def Let_def)
  show "issues P (\<lambda>w. case body path w of (x, w') \<Rightarrow> (x, temp_index_drop env path w'))" for path
    using assms[of path] by (auto simp: issues_def temp_index_drop_def split: prod.split) (metis snd_conv)
qed

text \<open>Commands that are run in the worktree, on the real index.\<close>

definition plain :: "string list \<Rightarrow> GitCall \<times> bool \<Rightarrow> bool" where
  "plain args c \<longleftrightarrow> gc_index (fst c) = None \<and> gc_args (fst c) = args"

lemma issues_git [issues_intros]:
  "(\<And>b. P (plain_call (gr_worktree_root repo) args, b)) \<Longrightarrow> issues P (git env repo args)"
  unfolding git_def run_checked_def by (intro issues_intros)

lemma issues_git_str [issues_intros]:
  "(\<And>b. P (plain_call (gr_worktree_root repo) args, b)) \<Longrightarrow> issues P (git_str env repo args)"
  unfolding git_str_def by (intro issues_intros)

lemma issues_git_ok [issues_intros]:
  "(\<And>b. P (plain_call (gr_worktree_root repo) args, b)) \<Longrightarrow> issues P (git_ok env repo args)"
  unfolding git_ok_def by (intro issues_intros)

lemma issues_rev_parse [issues_intros]:
  "(\<And>b. P (plain_call (gr_worktree_root repo) [''rev-parse'', ''--verify'', ''-q'', rev'], b))
    \<Longrightarrow> issues P (rev_parse env repo rev')"
  unfolding rev_parse_def rev_parse_opt_def Let_def by (intro issues_intros)

lemma issues_index_run [issues_intros]:
  "(\<And>b. P ((plain_call (gr_worktree_root repo) args)\<lparr>gc_index := Some path\<rparr>, b))
    \<Longrightarrow> issues P (index_run env repo path args)"
  unfolding index_run_def by (intro issues_intros)

text \<open>\<open>raises E m\<close>: every error of \<open>m\<close> satisfies \<open>E\<close>.\<close>

definition raises :: "(GitError \<Rightarrow> bool) \<Rightarrow> ('r, 'a) git_op \<Rightarrow> bool" where
  "raises E m \<longleftrightarrow> (\<forall>w e. fst (m w) = Err e \<longrightarrow> E e)"

named_theorems raises_intros \<open>which errors an operation returns\<close>

definition process_error :: "GitError \<Rightarrow> bool" where
  "process_error e \<longleftrightarrow> (\<exists>x. e = IoError x) \<or> (\<exists>c n s. e = CommandFailed c n s)"

lemma raises_ret [raises_intros]: "raises E (ret x)"
  and raises_disk_get [raises_intros]: "raises E (disk_get f)"
  and raises_disk_do [raises_intros]: "raises E (disk_do g)"
  and raises_attempt [raises_intros]: "raises E (attempt m)"
  by (simp_all add: raises_def ret_def disk_get_def disk_do_def attempt_def split: prod.split)

lemma raises_fail [raises_intros]: "E e \<Longrightarrow> raises E (fail e)"
  by (simp add: raises_def fail_def)

lemma raises_bind [raises_intros]:
  "raises E m \<Longrightarrow> (\<And>x. raises E (f x)) \<Longrightarrow> raises E (bind m f)"
  by (auto simp: raises_def bind_def split: prod.splits sum.splits) (metis fst_conv)

lemma raises_if [raises_intros]:
  "(b \<Longrightarrow> raises E m) \<Longrightarrow> (\<not> b \<Longrightarrow> raises E n) \<Longrightarrow> raises E (if b then m else n)"
  by simp

lemma raises_disk_try [raises_intros]: "raises process_error (disk_try f)"
  by (auto simp: raises_def disk_try_def process_error_def split: prod.splits sum.splits)

lemma raises_exec [raises_intros]: "raises process_error (exec env c)"
  by (auto simp: raises_def exec_def process_error_def split: prod.splits sum.splits)

lemma raises_checked_as [raises_intros]: "raises process_error (checked_as shown env c)"
  unfolding checked_as_def by (intro raises_intros) (simp add: process_error_def command_error_def)

lemma raises_git [raises_intros]:
  "raises process_error (git env repo args)" "raises process_error (git_str env repo args)"
  "raises process_error (git_ok env repo args)" "raises process_error (index_run env repo path args)"
  "raises process_error (rev_parse env repo r)"
  unfolding git_def git_str_def git_ok_def run_checked_def index_run_def checked_def rev_parse_def
    rev_parse_opt_def Let_def
  by (intro raises_intros)+

lemma raises_with_temp_index [raises_intros]:
  assumes "\<And>path. raises E (body path)"
  shows "raises E (with_temp_index env repo tag body)"
  unfolding with_temp_index_def
proof (rule raises_bind)
  show "raises E (temp_index_new env repo tag)"
    by (simp add: raises_def temp_index_new_def Let_def)
  show "raises E (\<lambda>w. case body path w of (x, w') \<Rightarrow> (x, temp_index_drop env path w'))" for path
    using assms[of path] by (auto simp: raises_def split: prod.split) (metis fst_conv)
qed

lemma raises_split_pair [raises_intros]:
  "(\<And>a b. raises E (f a b)) \<Longrightarrow> raises E (case x of (a, b) \<Rightarrow> f a b)"
  by (cases x) auto

lemma issues_split_pair [issues_intros]:
  "(\<And>a b. issues P (f a b)) \<Longrightarrow> issues P (case x of (a, b) \<Rightarrow> f a b)"
  by (cases x) auto

lemma raisesD: "raises E m \<Longrightarrow> m w = (Err e, w') \<Longrightarrow> E e"
  unfolding raises_def by (metis fst_conv)

text \<open>A command that succeeded is the last one of the history.\<close>

lemma git_ok_log:
  "git_ok env repo args w = (Ok x, w') \<Longrightarrow>
    w_log w' = w_log w @ [(plain_call (gr_worktree_root repo) args, True)]"
  by (auto simp: git_ok_def git_def run_checked_def checked_def checked_as_def exec_def bind_def ret_def fail_def
      split: prod.splits sum.splits if_splits)

lemma bind_Ok: "bind m f w = (Ok y, w'') \<Longrightarrow> \<exists>x w'. m w = (Ok x, w') \<and> f x w' = (Ok y, w'')"
  by (auto simp: bind_def split: prod.splits sum.splits)

section \<open>The porcelain format\<close>

text \<open>
  What \<open>git status --porcelain=v2 -z\<close> prints, from its manual: changed, unmerged, untracked and
  ignored records with their space separated fields, each ended by a zero byte.
\<close>

datatype StatusLine =
    SL_Changed char char "string list" string
  | SL_Unmerged "string list" string
  | SL_Untracked string
  | SL_Ignored string

definition spaced :: "string list \<Rightarrow> string" where
  "spaced fs = concat (map (\<lambda>f. f @ '' '') fs)"

fun render_status :: "StatusLine \<Rightarrow> string" where
  "render_status (SL_Changed x y fs path) = spaced (''1'' # [x, y] # fs) @ path"
| "render_status (SL_Unmerged fs path) = spaced (''u'' # fs) @ path"
| "render_status (SL_Untracked path) = spaced [''?''] @ path"
| "render_status (SL_Ignored path) = spaced [''!''] @ path"

definition field_ok :: "string \<Rightarrow> bool" where
  "field_ok f \<longleftrightarrow> ascii f \<and> CHR '' '' \<notin> set f \<and> nul \<notin> set f"

definition path_ok :: "string \<Rightarrow> bool" where
  "path_ok p \<longleftrightarrow> nul \<notin> set p \<and> utf8_lossy p = p"

fun status_line_ok :: "StatusLine \<Rightarrow> bool" where
  "status_line_ok (SL_Changed x y fs path) \<longleftrightarrow>
     field_ok [x, y] \<and> length fs = 6 \<and> list_all field_ok fs \<and> path_ok path"
| "status_line_ok (SL_Unmerged fs path) \<longleftrightarrow> length fs = 9 \<and> list_all field_ok fs \<and> path_ok path"
| "status_line_ok (SL_Untracked path) \<longleftrightarrow> path_ok path"
| "status_line_ok (SL_Ignored path) \<longleftrightarrow> path_ok path"

fun status_of :: "StatusLine \<Rightarrow> StatusEntry option" where
  "status_of (SL_Changed x y fs path) = Some \<lparr>se_path = path, se_untracked = False,
     se_staged = (x \<noteq> CHR ''.''), se_worktree_changed = (y \<noteq> CHR ''.'')\<rparr>"
| "status_of (SL_Unmerged fs path) = Some \<lparr>se_path = path, se_untracked = False,
     se_staged = True, se_worktree_changed = True\<rparr>"
| "status_of (SL_Untracked path) = Some \<lparr>se_path = path, se_untracked = True,
     se_staged = False, se_worktree_changed = True\<rparr>"
| "status_of (SL_Ignored path) = None"

lemma spaced_simps [simp]: "spaced [] = []" "spaced (f # fs) = f @ CHR '' '' # spaced fs"
  by (simp_all add: spaced_def)

lemma splitn_spaced:
  "list_all field_ok fs \<Longrightarrow> splitn (Suc (length fs)) (CHR '' '') (spaced fs @ path) = fs @ [path]"
proof (induction fs)
  case (Cons f fs)
  have "split_once (CHR '' '') (f @ CHR '' '' # spaced fs @ path) = Some (f, spaced fs @ path)"
    using Cons.prems by (subst split_once_Some) (auto simp: field_ok_def)
  then show ?case using Cons by (cases fs) auto
qed simp

lemma split_nth_spaced:
  "list_all field_ok fs \<Longrightarrow> n = Suc (length fs) \<Longrightarrow> split_nth (spaced fs @ path) n = Some path"
  using splitn_spaced[of fs path] by (simp add: split_nth_def nth_opt_def nth_append)

lemma ascii_spaced: "list_all field_ok fs \<Longrightarrow> ascii (spaced fs)"
  by (induction fs) (auto simp: field_ok_def ascii_def byte_in_def)

lemma lossy_spaced:
  "list_all field_ok fs \<Longrightarrow> path_ok path \<Longrightarrow> utf8_lossy (spaced fs @ path) = spaced fs @ path"
  by (simp add: utf8_lossy_ascii_append ascii_spaced path_ok_def)

lemma split_on_spaced:
  "field_ok f \<Longrightarrow> field_ok g \<Longrightarrow>
    nth_opt (split_on (CHR '' '') (spaced (f # g # fs) @ path)) 1 = Some g"
  by (simp add: field_ok_def split_on_append nth_opt_def)

lemma tags_ok [simp]: "field_ok ''1''" "field_ok ''u''" "field_ok ''?''" "field_ok ''!''"
  by (simp_all add: field_ok_def ascii_def byte_in_def)

lemma parse_status_render: "status_line_ok l \<Longrightarrow> parse_status (render_status l) = status_of l"
proof (cases l)
  case (SL_Changed x y fs path)
  assume ok: "status_line_ok l"
  let ?fs = "''1'' # [x, y] # fs"
  have fs: "list_all field_ok ?fs" "path_ok path" "9 = Suc (length ?fs)"
    using ok SL_Changed by auto
  have 1: "split_nth (spaced ?fs @ path) 9 = Some path" by (rule split_nth_spaced[OF fs(1,3)])
  have 2: "utf8_lossy (spaced ?fs @ path) = spaced ?fs @ path" by (rule lossy_spaced[OF fs(1,2)])
  have 3: "nth_opt (split_on (CHR '' '') (spaced ?fs @ path)) 1 = Some [x, y]"
    using fs(1) by (intro split_on_spaced) auto
  have 4: "hd (spaced ?fs @ path) = CHR ''1''" "spaced ?fs @ path \<noteq> []" by simp_all
  show ?thesis unfolding SL_Changed render_status.simps parse_status_def Let_def 2 1 3
    using 4 by (simp add: marked_def nth_opt_def)
next
  case (SL_Unmerged fs path)
  assume ok: "status_line_ok l"
  let ?fs = "''u'' # fs"
  have fs: "list_all field_ok ?fs" "path_ok path" "11 = Suc (length ?fs)"
    using ok SL_Unmerged by auto
  have 1: "split_nth (spaced ?fs @ path) 11 = Some path" by (rule split_nth_spaced[OF fs(1,3)])
  have 2: "utf8_lossy (spaced ?fs @ path) = spaced ?fs @ path" by (rule lossy_spaced[OF fs(1,2)])
  have 4: "hd (spaced ?fs @ path) = CHR ''u''" "spaced ?fs @ path \<noteq> []" by simp_all
  show ?thesis unfolding SL_Unmerged render_status.simps parse_status_def Let_def 2 1
    using 4 by simp
next
  case (SL_Untracked path)
  assume ok: "status_line_ok l"
  have fs: "list_all field_ok [''?'']" "path_ok path" "2 = Suc (length [''?''])"
    using ok SL_Untracked by auto
  have 1: "split_nth (spaced [''?''] @ path) 2 = Some path" by (rule split_nth_spaced[OF fs(1,3)])
  have 2: "utf8_lossy (spaced [''?''] @ path) = spaced [''?''] @ path" by (rule lossy_spaced[OF fs(1,2)])
  have 4: "hd (spaced [''?''] @ path) = CHR ''?''" "spaced [''?''] @ path \<noteq> []" by simp_all
  show ?thesis unfolding SL_Untracked render_status.simps parse_status_def Let_def 2 1
    using 4 by simp
qed (simp add: parse_status_def)

text \<open>Records ended by a zero byte, and what the reader of each keeps.\<close>

definition zero_ended :: "string list \<Rightarrow> string" where
  "zero_ended chunks = concat (map (\<lambda>c. c @ [nul]) chunks)"

lemma split_zero_ended:
  "(\<And>c. c \<in> set chunks \<Longrightarrow> nul \<notin> set c) \<Longrightarrow> split_on nul (zero_ended chunks) = chunks @ [[]]"
  by (induction chunks) (auto simp: zero_ended_def split_on_append)

lemma nul_spaced: "list_all field_ok fs \<Longrightarrow> nul \<notin> set (spaced fs)"
  by (induction fs) (auto simp: field_ok_def)

lemma nul_render_status: "status_line_ok l \<Longrightarrow> nul \<notin> set (render_status l)"
  by (cases l) (auto simp: nul_spaced path_ok_def field_ok_def)

lemma map_filter_append: "List.map_filter f (xs @ ys) = List.map_filter f xs @ List.map_filter f ys"
  by (simp add: List.map_filter_def)

lemma porcelain_roundtrip:
  assumes "list_all status_line_ok ls"
  shows "parse_porcelain_v2 (zero_ended (map render_status ls)) = List.map_filter status_of ls"
proof -
  have "List.map_filter parse_status (map render_status ls) = List.map_filter status_of ls"
    using assms by (induction ls) (auto simp: List.map_filter_def parse_status_render)
  moreover have "split_on nul (zero_ended (map render_status ls)) = map render_status ls @ [[]]"
    using assms by (intro split_zero_ended) (auto simp: nul_render_status list_all_iff)
  ultimately show ?thesis
    by (simp add: parse_porcelain_v2_def map_filter_append List.map_filter_def[of _ "[[]]"] parse_status_def[of "[]"])
qed

end
