(* ===== verification/Git_Checkpoint.thy ===== *)
theory Git_Checkpoint
  imports Git_Repo "HOL-Library.Product_Lexorder"
begin

text \<open>
  \<^verbatim>\<open>crates/tethys-git/src/checkpoint.rs\<close>, \<^verbatim>\<open>archive.rs\<close> and \<^verbatim>\<open>commit.rs\<close>: checkpoints of a turn as
  commits under private refs, restoring with an undo capture, archiving and deleting a thread's
  refs. The properties speak about the ref names and about the commands that are run, whatever
  git answers.
\<close>

section \<open>Data\<close>

datatype CheckpointPhase = CP_Start | CP_End

record SetupOutcome =
  so_exit_code :: "int option"
  so_stderr :: string
  so_timed_out :: bool

record WorktreeInfo =
  wi_thread_id :: string
  wi_workspace_root :: string
  wi_path :: string
  wi_branch :: string
  wi_base :: string
  wi_head :: string
  wi_main_checkout :: bool
  wi_warnings :: "string list"
  wi_setup :: "SetupOutcome option"

text \<open>The floating point milliseconds are the integers they are computed from.\<close>

record CheckpointInfo =
  cpi_thread_id :: string
  cpi_turn :: u32
  cpi_phase :: CheckpointPhase
  cpi_commit_oid :: string
  cpi_tree_oid :: string
  cpi_created_at_ms :: int

record CheckpointResult =
  cpr_thread_id :: string
  cpr_turn :: u32
  cpr_phase :: CheckpointPhase
  cpr_ref_name :: string
  cpr_commit_oid :: string
  cpr_tree_oid :: string
  cpr_elapsed_ms :: int
  cpr_skipped :: "string list"

datatype RestorePolicy = RequireClean | Force

datatype RestoreTarget =
    RT_Checkpoint string u32 CheckpointPhase
  | RT_Trees string string string

record UndoCapture =
  uc_worktree_ref :: string
  uc_index_ref :: string
  uc_worktree_tree :: string
  uc_index_tree :: string

record RestoreOutcome =
  ro_restored_worktree_tree :: string
  ro_restored_index_tree :: string
  ro_undo :: UndoCapture

record CommitResult =
  cmr_oid :: string
  cmr_summary :: string

record Snapshot =
  sn_tree :: string
  sn_skipped :: "string list"

record RefEntry =
  re_refname :: string
  re_oid :: "string option"
  re_tree :: "string option"
  re_created_at_unix :: int

section \<open>Ref names\<close>

definition CHECKPOINT_PREFIX :: string where "CHECKPOINT_PREFIX = ''refs/tethys/checkpoints''"
definition ARCHIVED_PREFIX :: string where "ARCHIVED_PREFIX = ''refs/tethys/archived''"
definition RESTORE_SEGMENT :: string where "RESTORE_SEGMENT = ''restores''"
definition BINARY_SNIFF_BYTES :: nat where "BINARY_SNIFF_BYTES = 8 * 1024"

fun edge :: "CheckpointPhase \<Rightarrow> string" where
  "edge CP_Start = ''start''"
| "edge CP_End = ''end''"

fun phase_debug :: "CheckpointPhase \<Rightarrow> string" where
  "phase_debug CP_Start = ''Start''"
| "phase_debug CP_End = ''End''"

definition show_u32 :: "u32 \<Rightarrow> string" where
  "show_u32 n = show_nat (unat n)"

definition turn_ref :: "string \<Rightarrow> u32 \<Rightarrow> CheckpointPhase \<Rightarrow> string" where
  "turn_ref thread turn phase =
     CHECKPOINT_PREFIX @ ''/'' @ thread @ ''/'' @ show_u32 turn @ ''/'' @ edge phase"

definition restore_ref :: "string \<Rightarrow> u32 \<Rightarrow> string \<Rightarrow> string" where
  "restore_ref thread i kind =
     CHECKPOINT_PREFIX @ ''/'' @ thread @ ''/'' @ RESTORE_SEGMENT @ ''/'' @ show_u32 i @ ''/'' @ kind"

definition archived_ref :: "string \<Rightarrow> u32 \<Rightarrow> CheckpointPhase \<Rightarrow> string" where
  "archived_ref thread turn phase =
     ARCHIVED_PREFIX @ ''/'' @ thread @ ''/'' @ show_u32 turn @ ''/'' @ edge phase"

definition parse_index :: "string \<Rightarrow> u32 option" where
  "parse_index s = map_option of_nat (parse_u32 s)"

definition parse_checkpoint_ref :: "string \<Rightarrow> (u32 \<times> CheckpointPhase) option" where
  "parse_checkpoint_ref refname =
     (case strip_prefix CHECKPOINT_PREFIX refname of
        None \<Rightarrow> None
      | Some rest \<Rightarrow>
          (case split_on (CHR ''/'') (trim_start_matches (\<lambda>c. c = CHR ''/'') rest) of
             _ # turn # phase # _ \<Rightarrow>
               (case parse_index turn of
                  None \<Rightarrow> None
                | Some n \<Rightarrow>
                    if phase = ''start'' then Some (n, CP_Start)
                    else if phase = ''end'' then Some (n, CP_End)
                    else None)
           | _ \<Rightarrow> None))"

fun phase_rank :: "CheckpointPhase \<Rightarrow> nat" where
  "phase_rank CP_Start = 0"
| "phase_rank CP_End = 1"

section \<open>Snapshots and refs\<close>

definition validate_thread :: "'r GitEnv \<Rightarrow> GitRepo \<Rightarrow> string \<Rightarrow> ('r, unit) git_op" where
  "validate_thread env repo thread =
     (let invalid = InvalidArgument (''invalid thread id: '' @ debug_str thread) in
      if thread = [] \<or> length thread > 200 \<or> CHR ''/'' \<in> set thread \<or> CHR 0x5C \<in> set thread
      then fail invalid
      else bind (exec env (plain_call (gr_worktree_root repo)
          [''check-ref-format'', turn_ref thread 0 CP_End])) (\<lambda>out.
        if success out then ret () else fail invalid))"

definition should_skip_untracked :: "'r GitEnv \<Rightarrow> GitRepo \<Rightarrow> string \<Rightarrow> nat \<Rightarrow> 'r \<Rightarrow> bool" where
  "should_skip_untracked env repo path threshold d =
     (let absolute = join_path (gr_worktree_root repo) path in
      case ge_metadata env d absolute of
        None \<Rightarrow> False
      | Some (is_file, len) \<Rightarrow>
          if \<not> is_file \<or> len \<le> threshold then False
          else case ge_read_head env d absolute BINARY_SNIFF_BYTES of
              None \<Rightarrow> False
            | Some buffer \<Rightarrow> nul \<in> set buffer)"

definition add_pathspecs :: "'r GitEnv \<Rightarrow> GitRepo \<Rightarrow> string \<Rightarrow> string list \<Rightarrow> ('r, unit) git_op" where
  "add_pathspecs env repo path paths =
     bind (checked_as [''add'', ''-A'', ''--pathspec-from-file=-''] env
        ((plain_call (gr_worktree_root repo)
            [''add'', ''-A'', ''--pathspec-from-file=-'', ''--pathspec-file-nul''])
          \<lparr>gc_index := Some path, gc_stdin := Some (zero_ended paths)\<rparr>))
       (\<lambda>_. ret ())"

definition skips :: "'r GitEnv \<Rightarrow> GitRepo \<Rightarrow> nat \<Rightarrow> 'r \<Rightarrow> StatusEntry \<Rightarrow> bool" where
  "skips env repo limit d e \<longleftrightarrow>
     se_untracked e \<and> limit > 0 \<and> should_skip_untracked env repo (se_path e) limit d"

definition snapshot_worktree ::
  "'r GitEnv \<Rightarrow> GitRepo \<Rightarrow> string \<Rightarrow> nat \<Rightarrow> ('r, Snapshot) git_op" where
  "snapshot_worktree env repo tag limit =
     with_temp_index env repo tag (\<lambda>path.
       bind (index_seed env repo path) (\<lambda>_.
       bind (status_entries env repo) (\<lambda>entries.
       bind (disk_get (\<lambda>d. (map se_path (filter (\<lambda>e. \<not> skips env repo limit d e) entries),
                           map se_path (filter (skips env repo limit d) entries)))) (\<lambda>(paths, skipped).
       bind (if paths = [] then ret () else add_pathspecs env repo path paths) (\<lambda>_.
       bind (index_write_tree env repo path) (\<lambda>tree.
       ret \<lparr>sn_tree = tree, sn_skipped = skipped\<rparr>))))))"

definition commit_tree ::
  "'r GitEnv \<Rightarrow> GitRepo \<Rightarrow> string \<Rightarrow> string option \<Rightarrow> string \<Rightarrow> ('r, string) git_op" where
  "commit_tree env repo tree parent message =
     git_str env repo
       ([''-c'', ''user.name=tethys'', ''-c'', ''user.email=tethys@localhost'', ''commit-tree'', tree]
        @ (case parent of Some p \<Rightarrow> [''-p'', p] | None \<Rightarrow> [])
        @ [''-m'', message])"

definition write_ref :: "'r GitEnv \<Rightarrow> GitRepo \<Rightarrow> string \<Rightarrow> string \<Rightarrow> ('r, unit) git_op" where
  "write_ref env repo refname oid = git_ok env repo [''update-ref'', refname, oid]"

definition delete_ref :: "'r GitEnv \<Rightarrow> GitRepo \<Rightarrow> string \<Rightarrow> ('r, unit) git_op" where
  "delete_ref env repo refname = git_ok env repo [''update-ref'', ''-d'', refname]"

definition oid_field :: "string option \<Rightarrow> string option" where
  "oid_field f = (case f of Some s \<Rightarrow> if s \<noteq> [] \<and> length s = 40 then Some s else None | None \<Rightarrow> None)"

definition parse_ref_line :: "string \<Rightarrow> RefEntry option" where
  "parse_ref_line l =
     (let parts = split_on (CHR 0x09) l; refname = hd parts in
      if refname = [] then None
      else Some \<lparr>re_refname = refname, re_oid = oid_field (nth_opt parts 1), re_tree = oid_field (nth_opt parts 2),
        re_created_at_unix =
          (case Option.bind (nth_opt parts 3) (\<lambda>v. parse_i64 (trim v)) of Some t \<Rightarrow> t | None \<Rightarrow> 0)\<rparr>)"

definition list_refs :: "'r GitEnv \<Rightarrow> GitRepo \<Rightarrow> string \<Rightarrow> ('r, RefEntry list) git_op" where
  "list_refs env repo pre =
     bind (git env repo [''for-each-ref'',
        ''--format=%(refname)%09%(objectname)%09%(tree)%09%(creatordate:unix)'', pre])
       (\<lambda>out. ret (List.map_filter parse_ref_line (str_lines (utf8_lossy out))))"

section \<open>Listing, creating and restoring\<close>

fun checkpoint_infos :: "'r GitEnv \<Rightarrow> GitRepo \<Rightarrow> string \<Rightarrow> RefEntry list \<Rightarrow> ('r, CheckpointInfo list) git_op" where
  "checkpoint_infos env repo thread [] = ret []"
| "checkpoint_infos env repo thread (entry # entries) =
     (case (parse_checkpoint_ref (re_refname entry), re_oid entry) of
        (Some (turn, phase), Some commit_oid) \<Rightarrow>
          bind (case re_tree entry of
              Some tree \<Rightarrow> ret tree
            | None \<Rightarrow> bind (rev_tree env repo commit_oid) (\<lambda>t. ret (case t of Some tree \<Rightarrow> tree | None \<Rightarrow> [])))
          (\<lambda>tree_oid.
            bind (checkpoint_infos env repo thread entries) (\<lambda>infos.
            ret (\<lparr>cpi_thread_id = thread, cpi_turn = turn, cpi_phase = phase, cpi_commit_oid = commit_oid,
                 cpi_tree_oid = tree_oid, cpi_created_at_ms = re_created_at_unix entry * 1000\<rparr> # infos)))
      | _ \<Rightarrow> checkpoint_infos env repo thread entries)"

definition checkpoint_key :: "CheckpointInfo \<Rightarrow> nat \<times> nat" where
  "checkpoint_key info = (unat (cpi_turn info), phase_rank (cpi_phase info))"

definition checkpoint_list :: "'r GitEnv \<Rightarrow> GitRepo \<Rightarrow> string \<Rightarrow> ('r, CheckpointInfo list) git_op" where
  "checkpoint_list env repo thread =
     bind (validate_thread env repo thread) (\<lambda>_.
     bind (list_refs env repo (CHECKPOINT_PREFIX @ ''/'' @ thread @ ''/'')) (\<lambda>entries.
     bind (checkpoint_infos env repo thread entries) (\<lambda>infos.
     ret (sort_key checkpoint_key infos))))"

definition last_end :: "CheckpointInfo list \<Rightarrow> CheckpointInfo option" where
  "last_end infos = find (\<lambda>info. cpi_phase info = CP_End) (rev infos)"

definition latest_end :: "'r GitEnv \<Rightarrow> GitRepo \<Rightarrow> string \<Rightarrow> ('r, CheckpointInfo option) git_op" where
  "latest_end env repo thread = bind (checkpoint_list env repo thread) (\<lambda>infos. ret (last_end infos))"

definition latest_end_commit :: "'r GitEnv \<Rightarrow> GitRepo \<Rightarrow> string \<Rightarrow> ('r, string option) git_op" where
  "latest_end_commit env repo thread =
     bind (latest_end env repo thread) (\<lambda>info. ret (map_option cpi_commit_oid info))"

definition latest_end_tree :: "'r GitEnv \<Rightarrow> GitRepo \<Rightarrow> string \<Rightarrow> ('r, string option) git_op" where
  "latest_end_tree env repo thread =
     bind (latest_end env repo thread) (\<lambda>info. ret (map_option cpi_tree_oid info))"

definition checkpoint_parent ::
  "'r GitEnv \<Rightarrow> GitRepo \<Rightarrow> string \<Rightarrow> u32 \<Rightarrow> CheckpointPhase \<Rightarrow> ('r, string option) git_op" where
  "checkpoint_parent env repo thread turn phase =
     (case phase of
        CP_Start \<Rightarrow> latest_end_commit env repo thread
      | CP_End \<Rightarrow>
          bind (rev_parse env repo (turn_ref thread turn CP_Start)) (\<lambda>start.
            case start of
              Some oid \<Rightarrow> ret (Some oid)
            | None \<Rightarrow> latest_end_commit env repo thread))"

definition checkpoint_create ::
  "'r GitEnv \<Rightarrow> GitRepo \<Rightarrow> int \<Rightarrow> string \<Rightarrow> u32 \<Rightarrow> CheckpointPhase \<Rightarrow> nat \<Rightarrow> ('r, CheckpointResult) git_op" where
  "checkpoint_create env repo elapsed thread turn phase limit =
     bind (validate_thread env repo thread) (\<lambda>_.
     bind (checkpoint_parent env repo thread turn phase) (\<lambda>parent0.
     let parent = (case parent0 of Some p \<Rightarrow> Some p | None \<Rightarrow> gr_head_oid repo);
         tag = ''cp_'' @ thread @ ''_'' @ show_u32 turn @ ''_'' @ phase_debug phase;
         message = ''tethys checkpoint '' @ thread @ '' turn '' @ show_u32 turn @ '' '' @ phase_debug phase;
         ref_name = turn_ref thread turn phase in
     bind (snapshot_worktree env repo tag limit) (\<lambda>snapshot.
     bind (commit_tree env repo (sn_tree snapshot) parent message) (\<lambda>commit_oid.
     bind (write_ref env repo ref_name commit_oid) (\<lambda>_.
     ret \<lparr>cpr_thread_id = thread, cpr_turn = turn, cpr_phase = phase, cpr_ref_name = ref_name,
          cpr_commit_oid = commit_oid, cpr_tree_oid = sn_tree snapshot, cpr_elapsed_ms = elapsed,
          cpr_skipped = sn_skipped snapshot\<rparr>)))))"

text \<open>The loop of \<open>next_restore_index\<close>; \<open>current + 1\<close> wraps as in a release build.\<close>

definition restore_index :: "string \<Rightarrow> RefEntry \<Rightarrow> u32 option" where
  "restore_index pre entry =
     (case split_once (CHR ''/'') (trim_start_str pre (re_refname entry)) of
        None \<Rightarrow> None
      | Some (i, _) \<Rightarrow> parse_index i)"

definition max_index :: "u32 list \<Rightarrow> u32 option" where
  "max_index is = fold (\<lambda>i m. Some (case m of None \<Rightarrow> i | Some current \<Rightarrow> max current i)) is None"

definition next_restore_index :: "'r GitEnv \<Rightarrow> GitRepo \<Rightarrow> string \<Rightarrow> ('r, u32) git_op" where
  "next_restore_index env repo thread =
     (let pre = CHECKPOINT_PREFIX @ ''/'' @ thread @ ''/'' @ RESTORE_SEGMENT @ ''/'' in
      bind (list_refs env repo pre) (\<lambda>entries.
      ret (case max_index (List.map_filter (restore_index pre) entries) of None \<Rightarrow> 0 | Some m \<Rightarrow> m + 1)))"

definition resolve_target :: "'r GitEnv \<Rightarrow> GitRepo \<Rightarrow> RestoreTarget \<Rightarrow> ('r, string \<times> string \<times> string) git_op" where
  "resolve_target env repo target =
     (case target of
        RT_Checkpoint thread_id turn phase \<Rightarrow>
          bind (validate_thread env repo thread_id) (\<lambda>_.
          let ref_name = turn_ref thread_id turn phase in
          bind (rev_parse env repo ref_name) (\<lambda>c.
          bind (ok_or (CheckpointNotFound ref_name) c) (\<lambda>commit.
          bind (rev_tree env repo commit) (\<lambda>t.
          bind (ok_or (CheckpointNotFound ref_name) t) (\<lambda>tree.
          ret (thread_id, tree, tree))))))
      | RT_Trees thread_id worktree_tree index_tree' \<Rightarrow>
          bind (validate_thread env repo thread_id) (\<lambda>_. ret (thread_id, worktree_tree, index_tree')))"

definition require_clean :: "'r GitEnv \<Rightarrow> GitRepo \<Rightarrow> string \<Rightarrow> nat \<Rightarrow> ('r, unit) git_op" where
  "require_clean env repo thread limit =
     bind (latest_end_tree env repo thread) (\<lambda>t.
     bind (ok_or (RestoreBlocked ''no end checkpoint to compare against'') t) (\<lambda>reference.
     bind (snapshot_worktree env repo ''require_clean'' limit) (\<lambda>current.
     bind (index_tree env repo) (\<lambda>current_index.
     if sn_tree current \<noteq> reference \<or> current_index \<noteq> reference
     then fail (RestoreBlocked ''worktree or index differs from the latest end checkpoint'')
     else ret ()))))"

definition capture_undo :: "'r GitEnv \<Rightarrow> GitRepo \<Rightarrow> string \<Rightarrow> nat \<Rightarrow> ('r, UndoCapture) git_op" where
  "capture_undo env repo thread limit =
     bind (snapshot_worktree env repo ''restore_undo'' limit) (\<lambda>undo_worktree.
     bind (index_tree env repo) (\<lambda>undo_index.
     bind (next_restore_index env repo thread) (\<lambda>next.
     let undo = \<lparr>uc_worktree_ref = restore_ref thread next ''worktree'',
                 uc_index_ref = restore_ref thread next ''index'',
                 uc_worktree_tree = sn_tree undo_worktree, uc_index_tree = undo_index\<rparr> in
     bind (commit_tree env repo (sn_tree undo_worktree) None ''tethys restore undo (worktree)'') (\<lambda>worktree_commit.
     bind (commit_tree env repo undo_index None ''tethys restore undo (index)'') (\<lambda>index_commit.
     bind (write_ref env repo (uc_worktree_ref undo) worktree_commit) (\<lambda>_.
     bind (write_ref env repo (uc_index_ref undo) index_commit) (\<lambda>_.
     ret undo)))))))"

definition reset_trees :: "'r GitEnv \<Rightarrow> GitRepo \<Rightarrow> string \<Rightarrow> string \<Rightarrow> ('r, unit) git_op" where
  "reset_trees env repo worktree_tree index_tree' =
     bind (git env repo [''read-tree'', ''-u'', ''--reset'', worktree_tree]) (\<lambda>_.
     if index_tree' \<noteq> worktree_tree
     then bind (git env repo [''read-tree'', ''--reset'', index_tree']) (\<lambda>_. ret ())
     else ret ())"

definition restore :: "'r GitEnv \<Rightarrow> GitRepo \<Rightarrow> RestoreTarget \<Rightarrow> RestorePolicy \<Rightarrow> nat \<Rightarrow> ('r, RestoreOutcome) git_op" where
  "restore env repo target policy limit =
     bind (resolve_target env repo target) (\<lambda>(thread, worktree_tree, index_tree').
     bind (if policy = RequireClean then require_clean env repo thread limit else ret ()) (\<lambda>_.
     bind (capture_undo env repo thread limit) (\<lambda>undo.
     bind (reset_trees env repo worktree_tree index_tree') (\<lambda>_.
     ret \<lparr>ro_restored_worktree_tree = worktree_tree, ro_restored_index_tree = index_tree',
          ro_undo = undo\<rparr>))))"

section \<open>Archiving, deleting and committing\<close>

text \<open>
  The loop of \<open>archive\<close> over the refs of a thread: turn refs move, restore refs are collected with
  their index.
\<close>

fun archive_loop :: "'r GitEnv \<Rightarrow> GitRepo \<Rightarrow> string \<Rightarrow> string \<Rightarrow> RefEntry list \<Rightarrow> (u32 \<times> string) list
    \<Rightarrow> ('r, (u32 \<times> string) list) git_op" where
  "archive_loop env repo thread_id restore_prefix [] restore_refs = ret restore_refs"
| "archive_loop env repo thread_id restore_prefix (entry # entries) restore_refs =
     (case strip_prefix restore_prefix (re_refname entry) of
        Some remainder \<Rightarrow>
          archive_loop env repo thread_id restore_prefix entries
            (case split_once (CHR ''/'') remainder of
               Some (i, _) \<Rightarrow> (case parse_index i of
                   Some n \<Rightarrow> restore_refs @ [(n, re_refname entry)]
                 | None \<Rightarrow> restore_refs)
             | None \<Rightarrow> restore_refs)
      | None \<Rightarrow>
          bind (case (parse_checkpoint_ref (re_refname entry), re_oid entry) of
              (Some (turn, phase), Some oid) \<Rightarrow>
                bind (write_ref env repo (archived_ref thread_id turn phase) oid) (\<lambda>_.
                delete_ref env repo (re_refname entry))
            | _ \<Rightarrow> ret ())
          (\<lambda>_. archive_loop env repo thread_id restore_prefix entries restore_refs))"

fun delete_refs :: "'r GitEnv \<Rightarrow> GitRepo \<Rightarrow> string list \<Rightarrow> ('r, unit) git_op" where
  "delete_refs env repo [] = ret ()"
| "delete_refs env repo (r # rs) = bind (delete_ref env repo r) (\<lambda>_. delete_refs env repo rs)"

definition archive_refs :: "'r GitEnv \<Rightarrow> GitRepo \<Rightarrow> string \<Rightarrow> ('r, unit) git_op" where
  "archive_refs env repo thread_id =
     bind (validate_thread env repo thread_id) (\<lambda>_.
     let checkpoint_prefix = CHECKPOINT_PREFIX @ ''/'' @ thread_id @ ''/'';
         restore_prefix = checkpoint_prefix @ ''restores/'' in
     bind (list_refs env repo checkpoint_prefix) (\<lambda>entries.
     bind (archive_loop env repo thread_id restore_prefix entries []) (\<lambda>restore_refs.
     delete_refs env repo
       (map snd (filter (\<lambda>(i, _). Some i \<noteq> max_index (map fst restore_refs)) restore_refs)))))"

definition delete_thread_refs :: "'r GitEnv \<Rightarrow> GitRepo \<Rightarrow> string \<Rightarrow> ('r, unit) git_op" where
  "delete_thread_refs env repo thread_id =
     bind (validate_thread env repo thread_id) (\<lambda>_.
     bind (list_refs env repo (CHECKPOINT_PREFIX @ ''/'' @ thread_id @ ''/'')) (\<lambda>entries.
     bind (delete_refs env repo (map re_refname entries)) (\<lambda>_.
     bind (list_refs env repo (ARCHIVED_PREFIX @ ''/'' @ thread_id @ ''/'')) (\<lambda>archived.
     delete_refs env repo (map re_refname archived)))))"

definition delete_guard ::
  "'r GitEnv \<Rightarrow> GitRepo \<Rightarrow> WorktreeInfo \<Rightarrow> bool \<Rightarrow> bool \<Rightarrow> ('r, unit) git_op" where
  "delete_guard env repo info force leased =
     bind (attempt (discover_repo env (wi_path info))) (\<lambda>r.
     let worktree = (case r of Inr found \<Rightarrow> found | Inl _ \<Rightarrow> repo) in
     bind (uncommitted_paths env worktree) (\<lambda>uncommitted.
     bind (unpushed_commits env worktree) (\<lambda>unpushed.
     if leased \<or> (\<not> force \<and> (uncommitted \<noteq> [] \<or> unpushed \<noteq> []))
     then fail (DeleteBlocked uncommitted unpushed leased)
     else git_ok env repo
       ([''worktree'', ''remove''] @ (if force \<or> uncommitted \<noteq> [] then [''--force''] else []) @ [wi_path info]))))"

definition worktree_delete ::
  "'r GitEnv \<Rightarrow> GitRepo \<Rightarrow> WorktreeInfo \<Rightarrow> bool \<Rightarrow> bool \<Rightarrow> ('r, unit) git_op" where
  "worktree_delete env repo info force leased =
     (if wi_main_checkout info
      then fail (InvalidArgument ''the main checkout cannot be deleted'')
      else
        bind (disk_get (\<lambda>d. ge_is_dir env d (wi_path info))) (\<lambda>present.
        bind (if present then delete_guard env repo info force leased else ret ()) (\<lambda>_.
        bind (git_ok env repo [''worktree'', ''prune'']) (\<lambda>_.
        bind (if wi_branch info \<noteq> []
              then bind (attempt (git_ok env repo [''branch'', ''-D'', wi_branch info])) (\<lambda>_. ret ())
              else ret ()) (\<lambda>_.
        delete_thread_refs env repo (wi_thread_id info))))))"

definition commit_work :: "'r GitEnv \<Rightarrow> GitRepo \<Rightarrow> string \<Rightarrow> string list option \<Rightarrow> ('r, CommitResult) git_op" where
  "commit_work env repo message paths =
     (if trim message = [] then fail (InvalidArgument ''commit message is required'')
      else
        let args = [''commit'', ''-m'', message]
              @ (case paths of Some ps \<Rightarrow> if ps = [] then [] else ''--'' # ps | None \<Rightarrow> []) in
        bind (exec env ((plain_call (gr_worktree_root repo) args)\<lparr>gc_literal := True\<rparr>)) (\<lambda>out.
        if \<not> success out then
          (if contains ''nothing to commit'' (utf8_lossy (out_stderr out))
              \<or> contains ''nothing to commit'' (utf8_lossy (out_stdout out))
           then fail NothingToCommit else fail (command_error args out))
        else
          bind (git_str env repo [''rev-parse'', ''HEAD'']) (\<lambda>oid.
          bind (attempt (git_str env repo [''show'', ''--shortstat'', ''--format='', ''HEAD''])) (\<lambda>shown.
          ret \<lparr>cmr_oid = oid, cmr_summary = trim (case shown of Inr s \<Rightarrow> s | Inl _ \<Rightarrow> [])\<rparr>))))"

section \<open>Ref names are read back\<close>

definition thread_ok :: "string \<Rightarrow> bool" where
  "thread_ok thread \<longleftrightarrow> thread \<noteq> [] \<and> length thread \<le> 200 \<and> CHR ''/'' \<notin> set thread \<and> CHR 0x5C \<notin> set thread"

lemma slash_free [simp]:
  "CHR ''/'' \<notin> set (show_u32 n)" "CHR ''/'' \<notin> set (edge p)" "CHR ''/'' \<notin> set RESTORE_SEGMENT"
proof -
  show "CHR ''/'' \<notin> set (edge p)" by (cases p) auto
qed (simp_all add: show_u32_def show_nat_free RESTORE_SEGMENT_def)

lemma parse_index_show [simp]: "parse_index (show_u32 n) = Some n"
proof -
  have "unat n < 2 ^ 32" using unsigned_less[of n] by simp
  then show ?thesis by (simp add: parse_index_def show_u32_def parse_u32_show)
qed

lemma parse_index_restores [simp]: "parse_index RESTORE_SEGMENT = None"
  by (simp add: parse_index_def parse_u32_def RESTORE_SEGMENT_def digit_val_def)

lemma show_u32_inj: "show_u32 m = show_u32 n \<Longrightarrow> m = n"
  by (metis option.inject parse_index_show)

lemma trim_start_thread:
  "thread \<noteq> [] \<Longrightarrow> CHR ''/'' \<notin> set thread \<Longrightarrow>
    trim_start_matches (\<lambda>c. c = CHR ''/'') (CHR ''/'' # thread @ r) = thread @ r"
  by (cases thread) (auto simp: trim_start_matches_def)

lemma parse_checkpoint_segments:
  assumes "thread_ok thread" "CHR ''/'' \<notin> set a"
  shows "parse_checkpoint_ref (CHECKPOINT_PREFIX @ ''/'' @ thread @ ''/'' @ a @ ''/'' @ r) =
    (case parse_index a of None \<Rightarrow> None
     | Some n \<Rightarrow> (case hd (split_on (CHR ''/'') r) of e \<Rightarrow>
         if e = ''start'' then Some (n, CP_Start) else if e = ''end'' then Some (n, CP_End) else None))"
proof -
  obtain e es where e: "split_on (CHR ''/'') r = e # es" by (cases "split_on (CHR ''/'') r") auto
  have "split_on (CHR ''/'') (thread @ CHR ''/'' # a @ CHR ''/'' # r) = thread # a # e # es"
    using assms e by (simp add: thread_ok_def split_on_append)
  then show ?thesis
    using assms by (simp add: parse_checkpoint_ref_def trim_start_thread thread_ok_def e split: option.split)
qed

lemma parse_turn_ref [simp]:
  "thread_ok thread \<Longrightarrow> parse_checkpoint_ref (turn_ref thread n p) = Some (n, p)"
  using parse_checkpoint_segments[of thread "show_u32 n" "edge p"]
  by (cases p) (auto simp: turn_ref_def split_on_free)

lemma parse_restore_ref [simp]:
  "thread_ok thread \<Longrightarrow> parse_checkpoint_ref (restore_ref thread i kind) = None"
  using parse_checkpoint_segments[of thread RESTORE_SEGMENT "show_u32 i @ ''/'' @ kind"]
  by (simp add: restore_ref_def)

lemma parse_archived_ref [simp]: "parse_checkpoint_ref (archived_ref thread n p) = None"
  by (simp add: parse_checkpoint_ref_def archived_ref_def strip_prefix_def CHECKPOINT_PREFIX_def ARCHIVED_PREFIX_def)

lemma segments_inj:
  "c \<notin> set a \<Longrightarrow> c \<notin> set b \<Longrightarrow> a @ c # r = b @ c # s \<longleftrightarrow> a = b \<and> r = s" for c :: char
proof
  assume "c \<notin> set a" "c \<notin> set b" "a @ c # r = b @ c # s"
  then have "split_once c (a @ c # r) = Some (a, r)" "split_once c (a @ c # r) = Some (b, s)"
    by (simp_all add: split_once_Some)
  then show "a = b \<and> r = s" by simp
qed simp

lemma turn_ref_inj:
  "thread_ok t \<Longrightarrow> thread_ok t' \<Longrightarrow> turn_ref t n p = turn_ref t' n' p' \<longleftrightarrow> t = t' \<and> n = n' \<and> p = p'"
proof
  assume ok: "thread_ok t" "thread_ok t'" and eq: "turn_ref t n p = turn_ref t' n' p'"
  then have "t @ CHR ''/'' # show_u32 n @ ''/'' @ edge p = t' @ CHR ''/'' # show_u32 n' @ ''/'' @ edge p'"
    by (simp add: turn_ref_def)
  then have "t = t'" using ok by (subst (asm) segments_inj) (auto simp: thread_ok_def)
  moreover have "(n, p) = (n', p')"
    using parse_turn_ref[OF ok(1), of n p] parse_turn_ref[OF ok(2), of n' p'] eq by simp
  ultimately show "t = t' \<and> n = n' \<and> p = p'" by simp
qed auto

abbreviation restores_prefix :: "string \<Rightarrow> string" where
  "restores_prefix thread \<equiv> CHECKPOINT_PREFIX @ ''/'' @ thread @ ''/'' @ RESTORE_SEGMENT @ ''/''"

lemma restore_ref_prefix: "restore_ref thread i kind = restores_prefix thread @ show_u32 i @ ''/'' @ kind"
  by (simp add: restore_ref_def)

lemma show_u32_hd: "show_u32 i = c # cs \<Longrightarrow> c \<noteq> CHR ''r''"
  using show_nat_free[of "CHR ''r''" "unat i"] by (auto simp: show_u32_def)

lemma restore_index_ref [simp]:
  "re_refname e = restore_ref thread i kind \<Longrightarrow> restore_index (restores_prefix thread) e = Some i"
proof -
  assume e: "re_refname e = restore_ref thread i kind"
  have ne: "show_u32 i \<noteq> []" by (simp add: show_u32_def)
  have no: "\<not> starts_with (restores_prefix thread) (show_u32 i @ ''/'' @ kind)"
    using ne show_u32_hd[of i] by (cases "show_u32 i") (auto simp: starts_with_iff CHECKPOINT_PREFIX_def)
  have t: "trim_start_str (restores_prefix thread) (re_refname e) = show_u32 i @ ''/'' @ kind"
    unfolding e restore_ref_prefix using no by (intro trim_start_str_once) simp_all
  have s: "split_once (CHR ''/'') (show_u32 i @ ''/'' @ kind) = Some (show_u32 i, kind)"
    by (simp add: split_once_Some)
  show ?thesis by (simp only: restore_index_def t s option.case prod.case parse_index_show)
qed

text \<open>
  For a valid thread id the checkpoint refs are read back as the turn and phase they were
  written for, different turns, phases and threads never share a ref, and neither the undo refs
  of a restore nor archived refs are ever taken for a checkpoint.
\<close>

theorem checkpoint_refs_roundtrip:
  assumes "thread_ok thread"
  shows "parse_checkpoint_ref (turn_ref thread turn phase) = Some (turn, phase)
    \<and> parse_checkpoint_ref (restore_ref thread turn kind) = None
    \<and> parse_checkpoint_ref (archived_ref thread turn phase) = None
    \<and> restore_index (CHECKPOINT_PREFIX @ ''/'' @ thread @ ''/'' @ RESTORE_SEGMENT @ ''/'')
        \<lparr>re_refname = restore_ref thread turn kind, re_oid = oid, re_tree = tree, re_created_at_unix = at\<rparr> = Some turn
    \<and> (thread_ok thread' \<longrightarrow> turn_ref thread turn phase = turn_ref thread' turn' phase'
        \<longrightarrow> thread = thread' \<and> turn = turn' \<and> phase = phase')"
proof -
  have "restore_index (restores_prefix thread)
      \<lparr>re_refname = restore_ref thread turn kind, re_oid = oid, re_tree = tree, re_created_at_unix = at\<rparr> = Some turn"
    by (rule restore_index_ref) simp
  then show ?thesis using assms turn_ref_inj[OF assms] by simp
qed

lemma thread_ok_thread_1: "thread_ok ''thread-1''"
  by (simp add: thread_ok_def)

theorem checkpoint_refs_roundtrip_witness:
  "parse_checkpoint_ref (turn_ref ''thread-1'' 7 CP_End) = Some (7, CP_End)"
  using checkpoint_refs_roundtrip[OF thread_ok_thread_1] by blast

section \<open>Which commands the operations run\<close>

text \<open>
  Commands that only look (\<open>write-tree\<close> stores the index as a tree object and changes neither
  index, refs nor worktree), and commands that work on a temporary index.
\<close>

definition looks :: "GitCall \<times> bool \<Rightarrow> bool" where
  "looks c \<longleftrightarrow> (case gc_args (fst c) of [] \<Rightarrow> False
     | a # _ \<Rightarrow> a \<in> {''rev-parse'', ''rev-list'', ''for-each-ref'', ''check-ref-format'', ''status'', ''write-tree''})"

definition on_temp_index :: "GitCall \<times> bool \<Rightarrow> bool" where
  "on_temp_index c \<longleftrightarrow> gc_index (fst c) \<noteq> None"

definition commits_tree :: "GitCall \<times> bool \<Rightarrow> bool" where
  "commits_tree c \<longleftrightarrow> (\<exists>tree r. gc_args (fst c) =
     [''-c'', ''user.name=tethys'', ''-c'', ''user.email=tethys@localhost'', ''commit-tree'', tree] @ r)"

definition updates_ref :: "string \<Rightarrow> GitCall \<times> bool \<Rightarrow> bool" where
  "updates_ref r c \<longleftrightarrow> (\<exists>oid. gc_args (fst c) = [''update-ref'', r, oid])"

definition harmless :: "GitCall \<times> bool \<Rightarrow> bool" where
  "harmless c \<longleftrightarrow> looks c \<or> on_temp_index c \<or> commits_tree c"

lemma looks_plain [simp]:
  "looks (plain_call cwd (a # args), b) \<longleftrightarrow>
     a \<in> {''rev-parse'', ''rev-list'', ''for-each-ref'', ''check-ref-format'', ''status'', ''write-tree''}"
  by (simp add: looks_def plain_call_def)

lemma issues_validate_thread [issues_intros]: "issues looks (validate_thread env repo thread)"
  unfolding validate_thread_def Let_def by (intro issues_intros) simp_all

lemma issues_status_entries [issues_intros]: "issues looks (status_entries env repo)"
  unfolding status_entries_def by (intro issues_intros) simp

lemma issues_list_refs [issues_intros]: "issues looks (list_refs env repo pre)"
  unfolding list_refs_def by (intro issues_intros) simp

lemma issues_looks_rev_parse [issues_intros]: "issues looks (rev_parse env repo r)"
  by (intro issues_intros) simp

lemma issues_rev_tree [issues_intros]: "issues looks (rev_tree env repo r)"
  unfolding rev_tree_def by (intro issues_intros)

lemma issues_index_tree [issues_intros]: "issues looks (index_tree env repo)"
  unfolding index_tree_def by (intro issues_intros) simp

lemma issues_next_restore_index [issues_intros]: "issues looks (next_restore_index env repo thread)"
  unfolding next_restore_index_def Let_def by (intro issues_intros)

lemma issues_checkpoint_infos [issues_intros]: "issues looks (checkpoint_infos env repo thread entries)"
  by (induction entries)
     (auto intro!: issues_intros split: option.split)

lemma issues_latest_end [issues_intros]:
  "issues looks (latest_end env repo thread)"
  "issues looks (latest_end_commit env repo thread)"
  "issues looks (latest_end_tree env repo thread)"
  unfolding latest_end_def latest_end_commit_def latest_end_tree_def checkpoint_list_def
  by (intro issues_intros)+

lemma issues_checkpoint_parent [issues_intros]:
  "issues looks (checkpoint_parent env repo thread turn phase)"
  unfolding checkpoint_parent_def by (cases phase) (auto intro!: issues_intros)

lemma issues_resolve_target [issues_intros]: "issues looks (resolve_target env repo target)"
  unfolding resolve_target_def Let_def by (cases target) (auto intro!: issues_intros)

lemma issues_harmless: "issues looks m \<Longrightarrow> issues harmless m"
  by (erule issues_mono) (simp add: harmless_def)

lemma on_temp_indexI: "on_temp_index (c\<lparr>gc_index := Some path\<rparr>, b)"
  by (simp add: on_temp_index_def)

lemma harmless_temp: "harmless (c\<lparr>gc_index := Some path\<rparr>, b)"
  by (simp add: harmless_def on_temp_indexI)

lemma harmless_temp_stdin: "harmless (c\<lparr>gc_index := Some path, gc_stdin := s\<rparr>, b)"
  by (simp add: harmless_def on_temp_index_def)

lemma issues_index_seed [issues_intros]: "issues harmless (index_seed env repo path)"
  unfolding index_seed_def Let_def by (intro issues_intros harmless_temp)

lemma issues_index_write_tree [issues_intros]: "issues harmless (index_write_tree env repo path)"
  unfolding index_write_tree_def by (intro issues_intros harmless_temp)

lemma issues_add_pathspecs [issues_intros]: "issues harmless (add_pathspecs env repo path paths)"
  unfolding add_pathspecs_def checked_as_def by (intro issues_intros harmless_temp_stdin)

lemma issues_snapshot_worktree [issues_intros]: "issues harmless (snapshot_worktree env repo tag limit)"
proof -
  have *: "issues harmless (case x of (paths, skipped) \<Rightarrow> f paths skipped)"
    if "\<And>paths skipped. issues harmless (f paths skipped)" for x and f :: "_ \<Rightarrow> _ \<Rightarrow> ('a, 'b) git_op"
    using that by (cases x) auto
  show ?thesis
    unfolding snapshot_worktree_def
    by (intro issues_intros * issues_harmless)
qed

lemma issues_commit_tree [issues_intros]: "issues harmless (commit_tree env repo tree parent message)"
  unfolding commit_tree_def
  by (intro issues_intros) (auto simp: harmless_def commits_tree_def plain_call_def)


section \<open>Restoring\<close>

definition updates_undo_ref :: "GitCall \<times> bool \<Rightarrow> bool" where
  "updates_undo_ref c \<longleftrightarrow> (\<exists>thread i kind. updates_ref (restore_ref thread i kind) c)"

definition resets_tree :: "GitCall \<times> bool \<Rightarrow> bool" where
  "resets_tree c \<longleftrightarrow> gc_index (fst c) = None \<and>
     (\<exists>tree. gc_args (fst c) = [''read-tree'', ''-u'', ''--reset'', tree]
       \<or> gc_args (fst c) = [''read-tree'', ''--reset'', tree])"

definition undo_written :: "GitRepo \<Rightarrow> UndoCapture \<Rightarrow> (GitCall \<times> bool) list \<Rightarrow> bool" where
  "undo_written repo undo cs \<longleftrightarrow> (\<exists>oid oid'.
     (plain_call (gr_worktree_root repo) [''update-ref'', uc_worktree_ref undo, oid], True) \<in> set cs \<and>
     (plain_call (gr_worktree_root repo) [''update-ref'', uc_index_ref undo, oid'], True) \<in> set cs)"

lemma issues_require_clean: "issues harmless (require_clean env repo thread limit)"
  unfolding require_clean_def by (intro issues_intros issues_harmless)

lemma issues_write_undo: "issues updates_undo_ref (write_ref env repo (restore_ref thread i kind) oid)"
  unfolding write_ref_def
  by (intro issues_intros) (auto simp: updates_undo_ref_def updates_ref_def plain_call_def)

lemma issues_capture_undo:
  "issues (\<lambda>c. harmless c \<or> updates_undo_ref c) (capture_undo env repo thread limit)"
proof -
  let ?P = "\<lambda>c. harmless c \<or> updates_undo_ref c"
  have s: "issues ?P (snapshot_worktree env repo tag limit)" for tag
    by (rule issues_mono[OF issues_snapshot_worktree]) simp
  have i: "issues ?P (index_tree env repo)"
    by (rule issues_mono[OF issues_index_tree]) (simp add: harmless_def)
  have n: "issues ?P (next_restore_index env repo thread)"
    by (rule issues_mono[OF issues_next_restore_index]) (simp add: harmless_def)
  have c: "issues ?P (commit_tree env repo tree parent message)" for tree parent message
    by (rule issues_mono[OF issues_commit_tree]) simp
  have w: "issues ?P (write_ref env repo (restore_ref thread i kind) oid)" for i kind oid
    by (rule issues_mono[OF issues_write_undo]) simp
  show ?thesis
    unfolding capture_undo_def Let_def UndoCapture.simps
    by (rule issues_bind[OF s] issues_bind[OF i] issues_bind[OF n] issues_bind[OF c] issues_bind[OF w] issues_ret)+
qed

lemma issues_reset_trees: "issues resets_tree (reset_trees env repo worktree_tree index_tree')"
  unfolding reset_trees_def by (intro issues_intros) (simp_all add: resets_tree_def plain_call_def)

lemma raises_capture_undo: "raises process_error (capture_undo env repo thread limit)"
  unfolding capture_undo_def snapshot_worktree_def index_seed_def status_entries_def add_pathspecs_def
    index_write_tree_def index_tree_def next_restore_index_def list_refs_def commit_tree_def write_ref_def Let_def
  by (intro raises_intros)

lemma raises_reset_trees: "raises process_error (reset_trees env repo worktree_tree index_tree')"
  unfolding reset_trees_def by (intro raises_intros)

lemma issues_log: "issues P m \<Longrightarrow> m w = (x, w') \<Longrightarrow> \<exists>cs. w_log w' = w_log w @ cs \<and> list_all P cs"
  using issuesD[of P m w] by simp

lemma capture_undo_phases:
  assumes "capture_undo env repo thread limit w = (Ok undo, w')"
  obtains ps wc ic w1 w2 where "w_log w1 = w_log w @ ps"
    "write_ref env repo (uc_worktree_ref undo) wc w1 = (Ok (), w2)"
    "write_ref env repo (uc_index_ref undo) ic w2 = (Ok (), w')"
proof -
  obtain sn i n wc ic v1 v2 v3 v4 v5 v6 v7 where
    b: "snapshot_worktree env repo ''restore_undo'' limit w = (Ok sn, v1)"
      "index_tree env repo v1 = (Ok i, v2)" "next_restore_index env repo thread v2 = (Ok n, v3)"
      "commit_tree env repo (sn_tree sn) None ''tethys restore undo (worktree)'' v3 = (Ok wc, v4)"
      "commit_tree env repo i None ''tethys restore undo (index)'' v4 = (Ok ic, v5)"
      "write_ref env repo (restore_ref thread n ''worktree'') wc v5 = (Ok (), v6)"
      "write_ref env repo (restore_ref thread n ''index'') ic v6 = (Ok (), v7)"
    and r: "ret \<lparr>uc_worktree_ref = restore_ref thread n ''worktree'', uc_index_ref = restore_ref thread n ''index'',
          uc_worktree_tree = sn_tree sn, uc_index_tree = i\<rparr> v7 = (Ok undo, w')"
    using assms unfolding capture_undo_def by (auto simp: Let_def dest!: bind_Ok)
  have "\<exists>cs. w_log v5 = w_log w @ cs"
    using issues_log[OF issues_snapshot_worktree b(1)] issues_log[OF issues_index_tree b(2)]
      issues_log[OF issues_next_restore_index b(3)] issues_log[OF issues_commit_tree b(4)]
      issues_log[OF issues_commit_tree b(5)] by auto
  then show thesis using b(6,7) r that by (auto simp: ret_def)
qed

lemma capture_undo_written:
  assumes "capture_undo env repo thread limit w = (Ok undo, w')" "w_log w' = w_log w @ cs"
  shows "undo_written repo undo cs"
proof -
  obtain ps wc ic w1 w2 where ps: "w_log w1 = w_log w @ ps"
    and r1: "write_ref env repo (uc_worktree_ref undo) wc w1 = (Ok (), w2)"
    and r2: "write_ref env repo (uc_index_ref undo) ic w2 = (Ok (), w')"
    by (rule capture_undo_phases[OF assms(1)])
  have "cs = ps @ [(plain_call (gr_worktree_root repo) [''update-ref'', uc_worktree_ref undo, wc], True),
      (plain_call (gr_worktree_root repo) [''update-ref'', uc_index_ref undo, ic], True)]"
    using assms(2) ps git_ok_log[OF r1[unfolded write_ref_def]] git_ok_log[OF r2[unfolded write_ref_def]] by simp
  then show ?thesis unfolding undo_written_def by auto
qed

definition restore_trace ::
  "GitRepo \<Rightarrow> (GitError + RestoreOutcome) \<Rightarrow> (GitCall \<times> bool) list \<Rightarrow> (GitCall \<times> bool) list \<Rightarrow> bool" where
  "restore_trace repo x checks resets \<longleftrightarrow>
     list_all (\<lambda>c. harmless c \<or> updates_undo_ref c) checks
     \<and> list_all resets_tree resets
     \<and> (resets \<noteq> [] \<longrightarrow> (\<exists>undo. undo_written repo undo checks))
     \<and> (\<forall>reason. x = Err (RestoreBlocked reason) \<longrightarrow> resets = [] \<and> list_all harmless checks)
     \<and> (\<forall>outcome. x = Ok outcome \<longrightarrow> resets \<noteq> [] \<and> undo_written repo (ro_undo outcome) checks)"

lemma restore_trace_harmless: "list_all harmless cs \<Longrightarrow> restore_trace repo (Err e) cs []"
  by (auto simp: restore_trace_def list_all_iff)

lemma restore_trace_prepend:
  "list_all harmless cs \<Longrightarrow> restore_trace repo x checks resets \<Longrightarrow> restore_trace repo x (cs @ checks) resets"
  by (auto simp: restore_trace_def list_all_iff undo_written_def)

lemma reset_trees_runs: "reset_trees env repo wt it w = (Ok v, w') \<Longrightarrow> w_log w' \<noteq> w_log w"
  by (auto simp: reset_trees_def bind_def git_def run_checked_def checked_def checked_as_def exec_def ret_def
      fail_def split: prod.splits sum.splits if_splits)

lemma not_process_error [simp]: "\<not> process_error (RestoreBlocked r)" "\<not> process_error (DeleteBlocked u v l)"
  by (simp_all add: process_error_def)

lemma capture_then_reset_trace:
  assumes "bind (capture_undo env repo thread limit) (\<lambda>undo. bind (reset_trees env repo wt it) (\<lambda>_.
      ret \<lparr>ro_restored_worktree_tree = wt, ro_restored_index_tree = it, ro_undo = undo\<rparr>)) w = (x, w')"
  shows "\<exists>checks resets. w_log w' = w_log w @ checks @ resets \<and> restore_trace repo x checks resets"
proof -
  obtain x3 w3 where 3: "capture_undo env repo thread limit w = (x3, w3)" by fastforce
  obtain c3 where c3: "w_log w3 = w_log w @ c3" "list_all (\<lambda>c. harmless c \<or> updates_undo_ref c) c3"
    using issues_log[OF issues_capture_undo 3] by blast
  show ?thesis
  proof (cases x3)
    case (Inl e)
    then have "x = Err e" "w' = w3" "process_error e"
      using assms 3 raisesD[OF raises_capture_undo, of env repo thread limit w e w3] by (simp_all add: bind_def)
    then show ?thesis using c3 by (intro exI[of _ c3] exI[of _ "[]"]) (auto simp: restore_trace_def)
  next
    case (Inr undo)
    have uw: "undo_written repo undo c3" by (rule capture_undo_written[OF 3[unfolded Inr] c3(1)])
    obtain x4 w4 where 4: "reset_trees env repo wt it w3 = (x4, w4)" by fastforce
    obtain c4 where c4: "w_log w4 = w_log w3 @ c4" "list_all resets_tree c4"
      using issues_log[OF issues_reset_trees 4] by blast
    show ?thesis
    proof (cases x4)
      case (Inl e)
      then have "x = Err e" "w' = w4" "process_error e"
        using assms 3 4 Inr raisesD[OF raises_reset_trees, of env repo wt it w3 e w4] by (simp_all add: bind_def)
      then show ?thesis using c3 c4 uw by (intro exI[of _ c3] exI[of _ c4]) (auto simp: restore_trace_def)
    next
      case (Inr v)
      then have "x = Ok \<lparr>ro_restored_worktree_tree = wt, ro_restored_index_tree = it, ro_undo = undo\<rparr>" "w' = w4" "c4 \<noteq> []"
        using assms 3 4 \<open>x3 = Inr undo\<close> reset_trees_runs[of env repo wt it w3 v w4] c4(1)
        by (auto simp: bind_def ret_def)
      then show ?thesis using c3 c4 uw by (intro exI[of _ c3] exI[of _ c4]) (auto simp: restore_trace_def)
    qed
  qed
qed

text \<open>
  C23. A restore captures its undo state before it writes: whatever git answers, the commands of
  a restore are first a group that looks, works on temporary indexes, writes commit objects and
  updates undo refs, and then a group that resets index and worktree; a command of the second
  group is only run after both undo refs were written successfully. A restore that is blocked
  by the clean policy has run no command that changes anything, and a restore that succeeds has
  reset the trees and written the undo refs it returns.
\<close>

theorem restore_captures_undo_first:
  "\<exists>checks resets. w_log (snd (restore env repo target policy limit w)) = w_log w @ checks @ resets
    \<and> list_all (\<lambda>c. harmless c \<or> updates_undo_ref c) checks
    \<and> list_all resets_tree resets
    \<and> (resets \<noteq> [] \<longrightarrow> (\<exists>undo. undo_written repo undo checks))
    \<and> (\<forall>reason. fst (restore env repo target policy limit w) = Err (RestoreBlocked reason)
        \<longrightarrow> resets = [] \<and> list_all harmless checks)
    \<and> (\<forall>outcome. fst (restore env repo target policy limit w) = Ok outcome
        \<longrightarrow> resets \<noteq> [] \<and> undo_written repo (ro_undo outcome) checks)"
proof -
  let ?guard = "\<lambda>thread. if policy = RequireClean then require_clean env repo thread limit else ret ()"
  have g: "issues harmless (?guard thread)" for thread
    by (intro issues_intros issues_require_clean)
  obtain x1 w1 where 1: "resolve_target env repo target w = (x1, w1)" by fastforce
  obtain c1 where c1: "w_log w1 = w_log w @ c1" "list_all harmless c1"
    using issues_log[OF issues_harmless[OF issues_resolve_target] 1] by blast
  obtain x w' where r: "restore env repo target policy limit w = (x, w')" by fastforce
  have "\<exists>checks resets. w_log w' = w_log w @ checks @ resets \<and> restore_trace repo x checks resets"
  proof (cases x1)
    case (Inl e)
    then show ?thesis using 1 c1 r restore_trace_harmless[OF c1(2)]
      by (intro exI[of _ c1] exI[of _ "[]"]) (auto simp: restore_def bind_def)
  next
    case (Inr t)
    obtain thread wt it where t: "t = (thread, wt, it)" by (cases t)
    obtain x2 w2 where 2: "?guard thread w1 = (x2, w2)" by fastforce
    obtain c2 where c2: "w_log w2 = w_log w1 @ c2" "list_all harmless c2"
      using issues_log[OF g 2] by blast
    show ?thesis
    proof (cases x2)
      case (Inl e)
      then show ?thesis using 1 2 Inr t c1 c2 r restore_trace_harmless[of "c1 @ c2"]
        by (intro exI[of _ "c1 @ c2"] exI[of _ "[]"]) (auto simp: restore_def bind_def)
    next
      case (Inr u)
      have "bind (capture_undo env repo thread limit) (\<lambda>undo. bind (reset_trees env repo wt it) (\<lambda>_.
          ret \<lparr>ro_restored_worktree_tree = wt, ro_restored_index_tree = it, ro_undo = undo\<rparr>)) w2 = (x, w')"
        using 1 2 r Inr \<open>x1 = Inr t\<close> t by (simp add: restore_def bind_def[of "resolve_target env repo target"] bind_def[of "?guard thread"])
      from capture_then_reset_trace[OF this] obtain checks resets where
        "w_log w' = w_log w2 @ checks @ resets" "restore_trace repo x checks resets" by blast
      then show ?thesis using c1 c2 restore_trace_prepend[of "c1 @ c2"]
        by (intro exI[of _ "(c1 @ c2) @ checks"] exI[of _ resets]) simp
    qed
  qed
  then show ?thesis by (simp add: r restore_trace_def)
qed

definition quiet_output :: Output where
  "quiet_output = \<lparr>out_code = Some 0, out_stdout = [], out_stderr = []\<rparr>"

definition quiet_env :: "unit GitEnv" where
  "quiet_env = \<lparr>ge_run = (\<lambda>c d. (Ok quiet_output, d)), ge_canonical = (\<lambda>d p. None), ge_is_file = (\<lambda>d p. False),
     ge_is_dir = (\<lambda>d p. True), ge_metadata = (\<lambda>d p. None), ge_read_head = (\<lambda>d p n. None),
     ge_copy = (\<lambda>a b d. (Ok (), d)), ge_keep_mtime = (\<lambda>a b d. d), ge_remove_file = (\<lambda>p d. d), ge_pid = 1\<rparr>"

definition ex_repo :: GitRepo where
  "ex_repo = \<lparr>gr_worktree_root = ''/w'', gr_git_dir = ''/w/.git'', gr_common_dir = ''/w/.git'',
     gr_head_oid = None, gr_branch = ''main'', gr_is_main_worktree = True\<rparr>"

definition ex_world :: "unit World" where
  "ex_world = \<lparr>w_counter = 0, w_disk = (), w_log = []\<rparr>"

lemma quiet_exec: "exec quiet_env c w = (Ok quiet_output, w\<lparr>w_log := w_log w @ [(c, True)]\<rparr>)"
  by (simp add: exec_def quiet_env_def success_def quiet_output_def)

lemma quiet_checked: "checked_as shown quiet_env c w = (Ok [], w\<lparr>w_log := w_log w @ [(c, True)]\<rparr>)"
  by (simp add: checked_as_def bind_def quiet_exec success_def ret_def) (simp add: quiet_output_def)

text \<open>Operations that succeed whenever every command does.\<close>

definition works :: "('r, 'a) git_op \<Rightarrow> bool" where
  "works m \<longleftrightarrow> (\<forall>w. \<exists>x w'. m w = (Ok x, w'))"

named_theorems works_intros

lemma works_basic [works_intros]: "works (ret x)" "works (disk_get f)" "works (disk_do g)" "works (attempt m)"
  by (simp_all add: works_def ret_def disk_get_def disk_do_def attempt_def split: prod.split)

lemma works_bind [works_intros]: "works m \<Longrightarrow> (\<And>x. works (f x)) \<Longrightarrow> works (bind m f)"
  unfolding works_def bind_def by (metis (mono_tags, lifting) case_prod_conv old.sum.simps(6))

lemma works_control [works_intros]:
  "(b \<Longrightarrow> works m) \<Longrightarrow> (\<not> b \<Longrightarrow> works n) \<Longrightarrow> works (if b then m else n)"
  "(\<And>a b. works (f a b)) \<Longrightarrow> works (case y of (a, b) \<Rightarrow> f a b)"
  by (simp, cases y, simp)

lemma works_quiet [works_intros]:
  "works (exec quiet_env c)" "works (checked_as shown quiet_env c)" "works (git quiet_env repo args)"
  "works (git_str quiet_env repo args)" "works (git_ok quiet_env repo args)"
  "works (index_run quiet_env repo path args)"
  unfolding git_def git_str_def git_ok_def run_checked_def index_run_def checked_def
  by (simp_all add: works_def quiet_exec quiet_checked bind_def ret_def)

lemma works_with_temp_index [works_intros]:
  "(\<And>path. works (body path)) \<Longrightarrow> works (with_temp_index env repo tag body)"
  unfolding works_def with_temp_index_def bind_def temp_index_new_def Let_def
  by (metis (mono_tags, lifting) case_prod_conv old.sum.simps(6))

lemma quiet_validate_thread: "thread_ok thread \<Longrightarrow> works (validate_thread quiet_env repo thread)"
  by (auto simp: works_def validate_thread_def thread_ok_def bind_def quiet_exec Let_def ret_def
      success_def quiet_output_def)

lemma quiet_copy [works_intros]: "works (disk_try (ge_copy quiet_env a b))"
  by (simp add: works_def disk_try_def quiet_env_def)

lemma quiet_snapshot [works_intros]: "works (snapshot_worktree quiet_env repo tag limit)"
  unfolding snapshot_worktree_def index_seed_def status_entries_def add_pathspecs_def index_write_tree_def Let_def
  by (intro works_intros)

lemma quiet_restore:
  "thread_ok thread \<Longrightarrow> works (restore quiet_env repo (RT_Trees thread a b) Force limit)"
  unfolding restore_def resolve_target_def capture_undo_def reset_trees_def index_tree_def next_restore_index_def
    list_refs_def commit_tree_def write_ref_def Let_def
  by (auto intro!: works_intros quiet_validate_thread)

theorem restore_captures_undo_first_witness:
  "\<exists>checks resets. w_log (snd (restore quiet_env ex_repo (RT_Trees ''thread-1'' ''a'' ''b'') Force 0 ex_world))
      = checks @ resets \<and> resets \<noteq> [] \<and> (\<exists>undo. undo_written ex_repo undo checks)"
proof -
  obtain outcome w' where r: "restore quiet_env ex_repo (RT_Trees ''thread-1'' ''a'' ''b'') Force 0 ex_world = (Ok outcome, w')"
    using quiet_restore[OF thread_ok_thread_1, of ex_repo "''a''" "''b''" 0] unfolding works_def by blast
  show ?thesis
    using restore_captures_undo_first[of quiet_env ex_repo "RT_Trees ''thread-1'' ''a'' ''b''" Force 0 ex_world]
    unfolding r by (auto simp: ex_world_def)
qed

section \<open>Deleting\<close>

lemma raises_mono: "raises E m \<Longrightarrow> (\<And>e. E e \<Longrightarrow> F e) \<Longrightarrow> raises F m"
  by (auto simp: raises_def)

lemma bind_Err_first:
  assumes "bind m f w = (Err e, w')" "\<And>x. raises E (f x)" "\<not> E e"
  shows "m w = (Err e, w')"
  using assms by (auto simp: bind_def split: prod.splits sum.splits dest: raisesD)

definition not_blocked :: "GitError \<Rightarrow> bool" where
  "not_blocked e \<longleftrightarrow> (\<forall>u v l. e \<noteq> DeleteBlocked u v l)"

lemma raises_not_blocked: "raises process_error m \<Longrightarrow> raises not_blocked m"
  by (erule raises_mono) (auto simp: process_error_def not_blocked_def)

lemma raises_validate_thread: "raises not_blocked (validate_thread env repo thread)"
  unfolding validate_thread_def Let_def
  by (intro raises_intros raises_not_blocked) (simp_all add: not_blocked_def)

lemma raises_delete_refs: "raises not_blocked (delete_refs env repo rs)"
proof (induction rs)
  case (Cons r rs)
  then show ?case unfolding delete_refs.simps delete_ref_def
    by (intro raises_bind raises_not_blocked[OF raises_git(3)])
qed (simp add: raises_intros)

lemma raises_delete_thread_refs: "raises not_blocked (delete_thread_refs env repo thread)"
  unfolding delete_thread_refs_def list_refs_def
  by (intro raises_intros raises_validate_thread raises_delete_refs raises_not_blocked)

lemma issues_discover [issues_intros]: "issues looks (discover_repo env root)"
proof -
  have "issues looks (rev_parse_opt env cwd r)" for cwd r
    unfolding rev_parse_opt_def Let_def by (intro issues_intros) simp_all
  moreover have "issues looks (rev_parse_string env cwd args)" for cwd args
    unfolding rev_parse_string_def checked_as_def by (intro issues_intros) simp_all
  ultimately show ?thesis
    unfolding discover_repo_def
    by (auto intro!: issues_intros split: sum.split GitError.split list.split)
qed

lemma issues_uncommitted [issues_intros]: "issues looks (uncommitted_paths env repo)"
  unfolding uncommitted_paths_def by (intro issues_intros)

lemma issues_unpushed [issues_intros]: "issues looks (unpushed_commits env repo)"
  unfolding unpushed_commits_def by (intro issues_intros) simp

lemma git_ok_one:
  "git_ok env repo args w = (x, w') \<Longrightarrow> \<exists>b. w_log w' = w_log w @ [(plain_call (gr_worktree_root repo) args, b)]"
  by (auto simp: git_ok_def git_def run_checked_def checked_def checked_as_def exec_def bind_def ret_def fail_def
      split: prod.splits sum.splits if_splits)

lemma raises_look_paths:
  "raises not_blocked (uncommitted_paths env repo)" "raises not_blocked (unpushed_commits env repo)"
  unfolding uncommitted_paths_def status_entries_def unpushed_commits_def
  by (rule raises_not_blocked, intro raises_intros)+

text \<open>The guard decides after commands that only look.\<close>

lemma delete_guard_cases:
  assumes "delete_guard env repo info force leased w = (x, w')"
  obtains (look) cs e where "w_log w' = w_log w @ cs" "list_all looks cs" "x = Err e" "not_blocked e"
  | (blocked) cs u v where "w_log w' = w_log w @ cs" "list_all looks cs" "x = Err (DeleteBlocked u v leased)"
      "leased \<or> \<not> force \<and> (u \<noteq> [] \<or> v \<noteq> [])"
  | (removed) cs b args where "w_log w' = w_log w @ cs @ [(plain_call (gr_worktree_root repo) args, b)]"
      "list_all looks cs" "\<not> leased" "args = [''worktree'', ''remove''] @ (if force then [''--force''] else []) @ [wi_path info]"
      "\<forall>e. x = Err e \<longrightarrow> not_blocked e"
proof -
  obtain r w1 where 1: "attempt (discover_repo env (wi_path info)) w = (Ok r, w1)"
    by (cases "discover_repo env (wi_path info) w") (auto simp: attempt_def)
  obtain c1 where c1: "w_log w1 = w_log w @ c1" "list_all looks c1"
    using issues_log[OF issues_attempt[OF issues_discover] 1] by blast
  define wt where "wt = (case r of Inr found \<Rightarrow> found | Inl _ \<Rightarrow> repo)"
  obtain xu w2 where 2: "uncommitted_paths env wt w1 = (xu, w2)" by fastforce
  obtain c2 where c2: "w_log w2 = w_log w1 @ c2" "list_all looks c2"
    using issues_log[OF issues_uncommitted 2] by blast
  show thesis
  proof (cases xu)
    case (Inl e)
    then have "x = Err e" "w' = w2" using assms 1 2 by (auto simp: delete_guard_def bind_def Let_def wt_def)
    then show thesis using look[of "c1 @ c2" e] c1 c2 raisesD[OF raises_look_paths(1) 2[unfolded Inl]] by simp
  next
    case (Inr u)
    obtain xv w3 where 3: "unpushed_commits env wt w2 = (xv, w3)" by fastforce
    obtain c3 where c3: "w_log w3 = w_log w2 @ c3" "list_all looks c3"
      using issues_log[OF issues_unpushed 3] by blast
    show thesis
    proof (cases xv)
      case (Inl e)
      then have "x = Err e" "w' = w3"
        using assms 1 2 3 Inr by (auto simp: delete_guard_def bind_def Let_def wt_def)
      then show thesis using look[of "c1 @ c2 @ c3" e] c1 c2 c3 raisesD[OF raises_look_paths(2) 3[unfolded Inl]] by simp
    next
      case (Inr v)
      let ?cond = "leased \<or> \<not> force \<and> (u \<noteq> [] \<or> v \<noteq> [])"
      let ?args = "[''worktree'', ''remove''] @ (if force \<or> u \<noteq> [] then [''--force''] else []) @ [wi_path info]"
      have run: "(if ?cond then fail (DeleteBlocked u v leased) else git_ok env repo ?args) w3 = (x, w')"
        using assms 1 2 3 \<open>xu = Inr u\<close> Inr by (simp add: delete_guard_def bind_def Let_def wt_def)
      show thesis
      proof (cases ?cond)
        case True
        then show thesis using run blocked[of "c1 @ c2 @ c3" u v] c1 c2 c3 by (auto simp: fail_def)
      next
        case False
        then have g: "git_ok env repo ?args w3 = (x, w')" using run by (simp only: if_False)
        obtain b where b: "w_log w' = w_log w3 @ [(plain_call (gr_worktree_root repo) ?args, b)]"
          using git_ok_one[OF g] by blast
        have "\<forall>e. x = Err e \<longrightarrow> not_blocked e"
          using raisesD[OF raises_not_blocked[OF raises_git(3)]] g by blast
        then show thesis using removed[of "c1 @ c2 @ c3" ?args b] b False c1 c2 c3 by auto
      qed
    qed
  qed
qed

lemma issues_delete_refs:
  "(\<And>r b. P (plain_call (gr_worktree_root repo) [''update-ref'', ''-d'', r], b)) \<Longrightarrow> issues P (delete_refs env repo rs)"
  by (induction rs) (auto simp: delete_ref_def intro!: issues_intros)

definition after_guard :: "'r GitEnv \<Rightarrow> GitRepo \<Rightarrow> WorktreeInfo \<Rightarrow> ('r, unit) git_op" where
  "after_guard env repo info =
     bind (git_ok env repo [''worktree'', ''prune'']) (\<lambda>_.
     bind (if wi_branch info \<noteq> []
           then bind (attempt (git_ok env repo [''branch'', ''-D'', wi_branch info])) (\<lambda>_. ret ())
           else ret ()) (\<lambda>_.
     delete_thread_refs env repo (wi_thread_id info)))"

lemma worktree_delete_eq:
  "worktree_delete env repo info force leased w =
     (if wi_main_checkout info then (Err (InvalidArgument ''the main checkout cannot be deleted''), w)
      else bind (if ge_is_dir env (w_disk w) (wi_path info) then delete_guard env repo info force leased else ret ())
        (\<lambda>_. after_guard env repo info) w)"
  by (simp add: worktree_delete_def after_guard_def fail_def bind_def[of "disk_get _"] disk_get_def)

lemma raises_after_guard: "raises not_blocked (after_guard env repo info)"
proof -
  have g: "raises not_blocked (git_ok env repo args)" for args
    by (rule raises_not_blocked[OF raises_git(3)])
  show ?thesis unfolding after_guard_def
    by (intro raises_bind[OF g] raises_bind[OF raises_if] raises_bind raises_intros raises_delete_thread_refs)
qed

abbreviation removes :: "GitCall \<times> bool \<Rightarrow> bool" where
  "removes c \<equiv> take 2 (gc_args (fst c)) = [''worktree'', ''remove'']"

lemma looks_not_removes: "looks c \<Longrightarrow> \<not> removes c"
  by (auto simp: looks_def split: list.splits)

lemma issues_not_removes: "issues looks m \<Longrightarrow> issues (\<lambda>c. \<not> removes c) m"
  by (erule issues_mono) (rule looks_not_removes)

lemma issues_after_guard: "issues (\<lambda>c. \<not> removes c) (after_guard env repo info)"
  unfolding after_guard_def delete_thread_refs_def
  by (intro issues_intros issues_delete_refs issues_not_removes) (simp_all add: plain_call_def)

lemma issues_delete_guard:
  "issues (\<lambda>c. removes c \<longrightarrow> \<not> leased
      \<and> gc_args (fst c) = [''worktree'', ''remove''] @ (if force then [''--force''] else []) @ [wi_path info])
    (delete_guard env repo info force leased)" (is "issues ?P _")
  unfolding issues_def
proof
  fix w
  obtain x w' where r: "delete_guard env repo info force leased w = (x, w')" by fastforce
  have L: "list_all looks cs \<Longrightarrow> list_all ?P cs" for cs
    by (auto simp: list_all_iff dest: looks_not_removes)
  from r show "\<exists>cs. w_log (snd (delete_guard env repo info force leased w)) = w_log w @ cs \<and> list_all ?P cs"
  proof (cases rule: delete_guard_cases)
    case (look cs e)
    then show ?thesis unfolding r snd_conv using L[OF look(2)] by blast
  next
    case (blocked cs u v)
    then show ?thesis unfolding r snd_conv using L[OF blocked(2)] by blast
  next
    case (removed cs b args)
    then have "list_all ?P (cs @ [(plain_call (gr_worktree_root repo) args, b)])"
      using L by (simp add: plain_call_def)
    then show ?thesis unfolding r snd_conv using removed(1) by blast
  qed
qed

text \<open>
  Deleting a worktree is guarded: whatever git answers, \<open>worktree remove\<close> is only run for a
  worktree that is neither the main checkout nor leased, and without \<open>force\<close> it is run without
  \<open>--force\<close>; a delete that is blocked reports the lease and the paths and commits that block it
  and has only looked at the repository; a leased worktree whose directory exists is never deleted.
\<close>

theorem delete_guarded:
  "issues (\<lambda>c. take 2 (gc_args (fst c)) = [''worktree'', ''remove''] \<longrightarrow>
       \<not> leased \<and> \<not> wi_main_checkout info
       \<and> gc_args (fst c) = [''worktree'', ''remove''] @ (if force then [''--force''] else []) @ [wi_path info])
     (worktree_delete env repo info force leased)
   \<and> (\<forall>w u v l. fst (worktree_delete env repo info force leased w) = Err (DeleteBlocked u v l) \<longrightarrow>
       l = leased \<and> (leased \<or> \<not> force \<and> (u \<noteq> [] \<or> v \<noteq> []))
       \<and> (\<exists>cs. w_log (snd (worktree_delete env repo info force leased w)) = w_log w @ cs \<and> list_all looks cs))
   \<and> (\<forall>w. leased \<longrightarrow> ge_is_dir env (w_disk w) (wi_path info) \<longrightarrow> \<not> wi_main_checkout info \<longrightarrow>
       (\<exists>e. fst (worktree_delete env repo info force leased w) = Err e))"
    (is "issues ?P ?op \<and> ?blocked \<and> ?leased")
proof (intro conjI)
  have guard: "issues ?P (delete_guard env repo info force leased)" if "\<not> wi_main_checkout info"
    by (rule issues_mono[OF issues_delete_guard]) (use that in auto)
  have rest: "issues ?P (after_guard env repo info)"
    by (rule issues_mono[OF issues_after_guard]) auto
  show "issues ?P ?op"
    unfolding issues_def
  proof
    fix w
    show "\<exists>cs. w_log (snd (?op w)) = w_log w @ cs \<and> list_all ?P cs"
    proof (cases "wi_main_checkout info")
      case False
      have "issues ?P (bind (if ge_is_dir env (w_disk w) (wi_path info)
          then delete_guard env repo info force leased else ret ()) (\<lambda>_. after_guard env repo info))"
        by (intro issues_bind issues_if guard[OF False] issues_ret rest)
      from issuesD[OF this, of w] show ?thesis using False by (simp add: worktree_delete_eq)
    qed (simp add: worktree_delete_eq)
  qed
next
  show ?blocked
  proof (intro allI impI)
    fix w u v l
    assume b: "fst (?op w) = Err (DeleteBlocked u v l)"
    then have main: "\<not> wi_main_checkout info" by (auto simp: worktree_delete_eq)
    let ?m = "if ge_is_dir env (w_disk w) (wi_path info) then delete_guard env repo info force leased else ret ()"
    obtain w' where op: "?op w = (Err (DeleteBlocked u v l), w')"
      using b by (cases "?op w") simp
    have "bind ?m (\<lambda>_. after_guard env repo info) w = (Err (DeleteBlocked u v l), w')"
      using op main by (simp only: worktree_delete_eq if_False)
    then have "?m w = (Err (DeleteBlocked u v l), w')"
      by (rule bind_Err_first[OF _ raises_after_guard]) (simp add: not_blocked_def)
    then have "delete_guard env repo info force leased w = (Err (DeleteBlocked u v l), w')"
      by (simp add: ret_def split: if_splits)
    then show "l = leased \<and> (leased \<or> \<not> force \<and> (u \<noteq> [] \<or> v \<noteq> []))
       \<and> (\<exists>cs. w_log (snd (?op w)) = w_log w @ cs \<and> list_all looks cs)"
      unfolding op by (cases rule: delete_guard_cases) (auto simp: not_blocked_def)
  qed
next
  show ?leased
  proof (intro allI impI)
    fix w :: "'a World"
    assume a: leased "ge_is_dir env (w_disk w) (wi_path info)" "\<not> wi_main_checkout info"
    obtain x w' where r: "delete_guard env repo info force leased w = (x, w')" by fastforce
    then have "\<exists>e. x = Err e" using a(1) by (cases rule: delete_guard_cases) auto
    then show "\<exists>e. fst (?op w) = Err e" using a r by (auto simp: worktree_delete_eq bind_def)
  qed
qed

definition ex_info :: WorktreeInfo where
  "ex_info = \<lparr>wi_thread_id = ''thread-1'', wi_workspace_root = ''/w'', wi_path = ''/t'', wi_branch = ''b'', wi_base = ''main'',
     wi_head = [], wi_main_checkout = False, wi_warnings = [], wi_setup = None\<rparr>"

theorem delete_guarded_witness:
  "\<exists>e. fst (worktree_delete quiet_env ex_repo ex_info True True ex_world) = Err e"
  using delete_guarded[of True ex_info True quiet_env ex_repo]
  by (simp add: quiet_env_def ex_info_def)

end
