(* ===== verification/Git_Refs.thy ===== *)
theory Git_Refs
  imports Git_Checkpoint "HOL-Library.AList"
begin

text \<open>
  Archiving and deleting the refs of a thread, refined by maps: over a git that updates and lists
  refs as documented, the loops of \<open>archive\<close> and \<open>delete_thread_refs\<close> are operations on the map
  from refs to commits. A git whose disk is a list of refs shows that the assumptions can hold.
\<close>

section \<open>Refs as a map\<close>

text \<open>
  What the code relies on of git's ref commands, as documented: \<open>update-ref\<close> sets or removes one
  ref, \<open>for-each-ref\<close> prints one tab separated line per ref under the prefix, and
  \<open>check-ref-format\<close> changes nothing. \<open>refs\<close> reads the refs of a disk as a map to object ids.
\<close>

definition tab :: char where "tab = CHR 0x09"

definition ref_field :: "string \<Rightarrow> bool" where
  "ref_field s \<longleftrightarrow> ascii s \<and> tab \<notin> set s \<and> newline \<notin> set s \<and> cr \<notin> set s"

definition ref_line :: "string \<times> string \<times> string \<times> string \<Rightarrow> string" where
  "ref_line row = (case row of (r, oid, tree, at) \<Rightarrow> r @ tab # oid @ tab # tree @ tab # at)"

definition good_ref :: "string \<Rightarrow> string \<Rightarrow> bool" where
  "good_ref r oid \<longleftrightarrow> r \<noteq> [] \<and> ref_field r \<and> ref_field oid \<and> length oid = 40"

definition row_ok :: "string \<times> string \<times> string \<times> string \<Rightarrow> bool" where
  "row_ok row = (case row of (r, oid, tree, at) \<Rightarrow>
     good_ref r oid \<and> ref_field tree \<and> ref_field at)"

definition runs_ok :: "'r GitEnv \<Rightarrow> GitCall \<Rightarrow> 'r \<Rightarrow> (string \<Rightarrow> 'r \<Rightarrow> bool) \<Rightarrow> bool" where
  "runs_ok env c d Q \<longleftrightarrow> (\<exists>out d'. ge_run env c d = (Ok out, d') \<and> success out \<and> Q (out_stdout out) d')"

definition ref_laws :: "'r GitEnv \<Rightarrow> GitRepo \<Rightarrow> ('r \<Rightarrow> string \<rightharpoonup> string) \<Rightarrow> bool" where
  "ref_laws env repo refs \<longleftrightarrow> (\<forall>d.
     (\<forall>r oid. runs_ok env (plain_call (gr_worktree_root repo) [''update-ref'', r, oid]) d
        (\<lambda>out d'. r \<noteq> ''-d'' \<and> good_ref r oid \<longrightarrow> refs d' = (refs d)(r \<mapsto> oid))) \<and>
     (\<forall>r. runs_ok env (plain_call (gr_worktree_root repo) [''update-ref'', ''-d'', r]) d
        (\<lambda>out d'. refs d' = (refs d)(r := None))) \<and>
     (\<forall>r. runs_ok env (plain_call (gr_worktree_root repo) [''check-ref-format'', r]) d
        (\<lambda>out d'. refs d' = refs d)) \<and>
     (\<forall>pre. runs_ok env (plain_call (gr_worktree_root repo) [''for-each-ref'',
          ''--format=%(refname)%09%(objectname)%09%(tree)%09%(creatordate:unix)'', pre]) d
        (\<lambda>out d'. refs d' = refs d \<and> (\<exists>rows. out = concat (map (\<lambda>row. ref_line row @ [newline]) rows)
            \<and> list_all row_ok rows \<and> distinct (map fst rows)
            \<and> (\<forall>r oid. (\<exists>tree at. (r, oid, tree, at) \<in> set rows) \<longleftrightarrow> refs d r = Some oid \<and> starts_with pre r)))))"

lemma runs_ok_git:
  assumes "runs_ok env (plain_call (gr_worktree_root repo) args) (w_disk w) Q"
  obtains out w' where "git env repo args w = (Ok out, w')" "Q out (w_disk w')"
  using assms that by (auto simp: runs_ok_def git_def run_checked_def checked_def checked_as_def bind_def exec_def ret_def)

lemma ref_laws_write:
  assumes "ref_laws env repo refs" "r \<noteq> ''-d''" "good_ref r oid"
  obtains w' where "write_ref env repo r oid w = (Ok (), w')" "refs (w_disk w') = (refs (w_disk w))(r \<mapsto> oid)"
proof -
  have "runs_ok env (plain_call (gr_worktree_root repo) [''update-ref'', r, oid]) (w_disk w)
      (\<lambda>out d'. r \<noteq> ''-d'' \<and> good_ref r oid \<longrightarrow> refs d' = (refs (w_disk w))(r \<mapsto> oid))"
    using assms(1) unfolding ref_laws_def by blast
  from runs_ok_git[OF this] obtain out w' where "git env repo [''update-ref'', r, oid] w = (Ok out, w')"
    "r \<noteq> ''-d'' \<and> good_ref r oid \<longrightarrow> refs (w_disk w') = (refs (w_disk w))(r \<mapsto> oid)" by blast
  then show thesis using assms(2,3) by (intro that[of w']) (simp_all add: write_ref_def git_ok_def bind_def ret_def)
qed

lemma ref_laws_delete:
  assumes "ref_laws env repo refs"
  obtains w' where "delete_ref env repo r w = (Ok (), w')" "refs (w_disk w') = (refs (w_disk w))(r := None)"
proof -
  have "runs_ok env (plain_call (gr_worktree_root repo) [''update-ref'', ''-d'', r]) (w_disk w)
      (\<lambda>out d'. refs d' = (refs (w_disk w))(r := None))"
    using assms by (simp add: ref_laws_def)
  from runs_ok_git[OF this] obtain out w' where "git env repo [''update-ref'', ''-d'', r] w = (Ok out, w')"
    "refs (w_disk w') = (refs (w_disk w))(r := None)" by blast
  then show thesis by (intro that[of w']) (simp_all add: delete_ref_def git_ok_def bind_def ret_def)
qed

lemma ref_laws_validate:
  assumes "ref_laws env repo refs" "thread_ok thread"
  obtains w' where "validate_thread env repo thread w = (Ok (), w')" "refs (w_disk w') = refs (w_disk w)"
proof -
  have "runs_ok env (plain_call (gr_worktree_root repo) [''check-ref-format'', turn_ref thread 0 CP_End]) (w_disk w)
      (\<lambda>out d'. refs d' = refs (w_disk w))"
    using assms by (simp add: ref_laws_def)
  then show thesis using assms(2) that
    by (auto simp: runs_ok_def validate_thread_def thread_ok_def bind_def exec_def ret_def Let_def)
qed

lemma parse_ref_line_row:
  assumes "row_ok (r, oid, tree, at)"
  shows "\<exists>e. parse_ref_line (ref_line (r, oid, tree, at)) = Some e \<and> re_refname e = r \<and> re_oid e = Some oid"
proof -
  have "split_on (CHR 0x09) (ref_line (r, oid, tree, at)) = [r, oid, tree, at]"
    using assms by (simp add: row_ok_def good_ref_def ref_field_def ref_line_def tab_def split_on_append split_on_free)
  moreover have "oid \<noteq> []" using assms by (auto simp: row_ok_def good_ref_def)
  ultimately show ?thesis
    using assms by (simp add: parse_ref_line_def Let_def row_ok_def good_ref_def nth_opt_def oid_field_def)
qed

lemma ref_line_text: "row_ok row \<Longrightarrow> ascii (ref_line row) \<and> newline \<notin> set (ref_line row) \<and> cr \<notin> set (ref_line row)"
  by (cases row) (auto simp: row_ok_def good_ref_def ref_line_def ref_field_def tab_def ascii_def byte_in_def)

definition names :: "RefEntry list \<Rightarrow> (string \<times> string option) list" where
  "names = map (\<lambda>e. (re_refname e, re_oid e))"

lemma parse_ref_rows:
  "list_all row_ok rows \<Longrightarrow>
    names (List.map_filter parse_ref_line (map ref_line rows)) = map (\<lambda>(r, oid, _). (r, Some oid)) rows"
proof (induction rows)
  case (Cons row rows)
  then show ?case using parse_ref_line_row[of "fst row" "fst (snd row)" "fst (snd (snd row))" "snd (snd (snd row))"]
    by (cases row) (auto simp: names_def List.map_filter_simps)
qed (simp add: names_def List.map_filter_simps)

definition lists :: "(string \<rightharpoonup> string) \<Rightarrow> string \<Rightarrow> RefEntry list \<Rightarrow> bool" where
  "lists m pre entries \<longleftrightarrow> distinct (map re_refname entries)
     \<and> (\<forall>r o'. (r, o') \<in> set (names entries) \<longleftrightarrow> (\<exists>oid. o' = Some oid \<and> m r = Some oid \<and> starts_with pre r))
     \<and> (\<forall>r oid. (r, Some oid) \<in> set (names entries) \<longrightarrow> good_ref r oid)"

lemma lists_mem: "lists m pre entries \<Longrightarrow> r \<in> set (map re_refname entries) \<longleftrightarrow> m r \<noteq> None \<and> starts_with pre r"
proof -
  assume l: "lists m pre entries"
  have "r \<in> set (map re_refname entries) \<longleftrightarrow> (\<exists>o'. (r, o') \<in> set (names entries))"
    by (auto simp: names_def)
  then show ?thesis using l by (auto simp: lists_def)
qed

lemma ref_laws_list:
  assumes "ref_laws env repo refs"
  obtains entries w' where "list_refs env repo pre w = (Ok entries, w')" "refs (w_disk w') = refs (w_disk w)"
    "lists (refs (w_disk w)) pre entries"
proof -
  have "runs_ok env (plain_call (gr_worktree_root repo) [''for-each-ref'',
          ''--format=%(refname)%09%(objectname)%09%(tree)%09%(creatordate:unix)'', pre]) (w_disk w)
        (\<lambda>out d'. refs d' = refs (w_disk w) \<and> (\<exists>rows. out = concat (map (\<lambda>row. ref_line row @ [newline]) rows)
            \<and> list_all row_ok rows \<and> distinct (map fst rows)
            \<and> (\<forall>r oid. (\<exists>tree at. (r, oid, tree, at) \<in> set rows) \<longleftrightarrow> refs (w_disk w) r = Some oid \<and> starts_with pre r)))"
    using assms unfolding ref_laws_def by blast
  from runs_ok_git[OF this] obtain out w' rows where g: "git env repo [''for-each-ref'',
      ''--format=%(refname)%09%(objectname)%09%(tree)%09%(creatordate:unix)'', pre] w = (Ok out, w')"
    and r: "refs (w_disk w') = refs (w_disk w)" "out = concat (map (\<lambda>row. ref_line row @ [newline]) rows)"
      "list_all row_ok rows" "distinct (map fst rows)"
      "\<forall>r oid. (\<exists>tree at. (r, oid, tree, at) \<in> set rows) \<longleftrightarrow> refs (w_disk w) r = Some oid \<and> starts_with pre r"
    by metis
  have "ascii out" using r(2,3) ref_line_text by (auto simp: ascii_def list_all_iff byte_in_def)
  moreover have "newline \<notin> set l \<and> cr \<notin> set l" if "l \<in> set (map ref_line rows)" for l
    using that r(3) ref_line_text unfolding list_all_iff by (metis (no_types, lifting) imageE set_map)
  then have "str_lines out = map ref_line rows"
    using str_lines_render[of "map ref_line rows"] r(2) by (simp add: comp_def)
  ultimately have l: "list_refs env repo pre w = (Ok (List.map_filter parse_ref_line (map ref_line rows)), w')"
    using g by (simp add: list_refs_def bind_def ret_def utf8_lossy_ascii)
  let ?es = "List.map_filter parse_ref_line (map ref_line rows)"
  have n: "names ?es = map (\<lambda>(r, oid, _). (r, Some oid)) rows" by (rule parse_ref_rows[OF r(3)])
  have "map re_refname ?es = map fst (names ?es)" by (simp add: names_def)
  then have d: "map re_refname ?es = map fst rows" unfolding n by (auto simp: comp_def case_prod_beta)
  have ns: "(s, o') \<in> set (names ?es) \<longleftrightarrow> (\<exists>oid tree at. o' = Some oid \<and> (s, oid, tree, at) \<in> set rows)" for s o'
    unfolding n by (force simp: image_iff)
  have good: "good_ref s oid" if "(s, Some oid) \<in> set (names ?es)" for s oid
    using that r(3) by (auto simp: ns list_all_iff row_ok_def)
  from ns have m: "(s, o') \<in> set (names ?es) \<longleftrightarrow>
      (\<exists>oid. o' = Some oid \<and> refs (w_disk w) s = Some oid \<and> starts_with pre s)" for s o'
    by (simp add: r(5)[rule_format, symmetric])
  have "distinct (map re_refname ?es)" unfolding d by (rule r(4))
  then have "lists (refs (w_disk w)) pre ?es" using m good by (auto simp: lists_def)
  from that[OF l r(1) this] show thesis .
qed

section \<open>Archiving and deleting refs, refined by maps\<close>

lemma delete_refs_map:
  assumes "ref_laws env repo refs"
  shows "\<exists>w'. delete_refs env repo rs w = (Ok (), w')
    \<and> refs (w_disk w') = (\<lambda>r. if r \<in> set rs then None else refs (w_disk w) r)"
proof (induction rs arbitrary: w)
  case (Cons r rs)
  obtain w1 where 1: "delete_ref env repo r w = (Ok (), w1)" "refs (w_disk w1) = (refs (w_disk w))(r := None)"
    by (rule ref_laws_delete[OF assms])
  obtain w2 where "delete_refs env repo rs w1 = (Ok (), w2)"
    "refs (w_disk w2) = (\<lambda>r. if r \<in> set rs then None else refs (w_disk w1) r)"
    using Cons.IH by blast
  then show ?case using 1 by (auto simp: bind_def)
qed (simp add: ret_def)

abbreviation checkpoints_of :: "string \<Rightarrow> string" where
  "checkpoints_of thread \<equiv> CHECKPOINT_PREFIX @ ''/'' @ thread @ ''/''"

abbreviation archived_of :: "string \<Rightarrow> string" where
  "archived_of thread \<equiv> ARCHIVED_PREFIX @ ''/'' @ thread @ ''/''"

lemma delete_thread_refs_map:
  assumes laws: "ref_laws env repo refs" and "thread_ok thread"
  shows "\<exists>w'. delete_thread_refs env repo thread w = (Ok (), w') \<and> refs (w_disk w') =
    (\<lambda>r. if starts_with (checkpoints_of thread) r \<or> starts_with (archived_of thread) r then None else refs (w_disk w) r)"
proof -
  obtain w1 where 1: "validate_thread env repo thread w = (Ok (), w1)" "refs (w_disk w1) = refs (w_disk w)"
    by (rule ref_laws_validate[OF assms])
  obtain es w2 where 2: "list_refs env repo (checkpoints_of thread) w1 = (Ok es, w2)" "refs (w_disk w2) = refs (w_disk w1)"
    and es: "lists (refs (w_disk w1)) (checkpoints_of thread) es"
    by (rule ref_laws_list[OF laws])
  obtain w3 where 3: "delete_refs env repo (map re_refname es) w2 = (Ok (), w3)"
    "refs (w_disk w3) = (\<lambda>r. if r \<in> set (map re_refname es) then None else refs (w_disk w2) r)"
    using delete_refs_map[OF laws] by blast
  obtain es' w4 where 4: "list_refs env repo (archived_of thread) w3 = (Ok es', w4)" "refs (w_disk w4) = refs (w_disk w3)"
    and es': "lists (refs (w_disk w3)) (archived_of thread) es'"
    by (rule ref_laws_list[OF laws])
  obtain w5 where 5: "delete_refs env repo (map re_refname es') w4 = (Ok (), w5)"
    "refs (w_disk w5) = (\<lambda>r. if r \<in> set (map re_refname es') then None else refs (w_disk w4) r)"
    using delete_refs_map[OF laws] by blast
  have "delete_thread_refs env repo thread w = (Ok (), w5)"
    using 1 2 3 4 5 by (simp add: delete_thread_refs_def bind_def)
  moreover have "refs (w_disk w5) r =
      (if starts_with (checkpoints_of thread) r \<or> starts_with (archived_of thread) r then None else refs (w_disk w) r)" for r
    unfolding 5(2) 4(2) lists_mem[OF es'] 3(2) 2(2) lists_mem[OF es] 1(2) by auto
  ultimately show ?thesis by blast
qed

text \<open>The loop of \<open>archive\<close> on the map.\<close>

fun moved :: "string \<Rightarrow> RefEntry list \<Rightarrow> (string \<rightharpoonup> string) \<Rightarrow> (string \<rightharpoonup> string)" where
  "moved thread [] m = m"
| "moved thread (e # es) m =
     (case (parse_checkpoint_ref (re_refname e), re_oid e) of
        (Some (n, p), Some oid) \<Rightarrow> moved thread es ((m(archived_ref thread n p \<mapsto> oid))(re_refname e := None))
      | _ \<Rightarrow> moved thread es m)"

definition thread_entry :: "string \<Rightarrow> RefEntry \<Rightarrow> bool" where
  "thread_entry thread e \<longleftrightarrow>
     (\<exists>n p oid. re_refname e = turn_ref thread n p \<and> re_oid e = Some oid \<and> good_ref (turn_ref thread n p) oid)
     \<or> (\<exists>i kind. re_refname e = restore_ref thread i kind)"

lemma strip_restores_turn: "strip_prefix (checkpoints_of thread @ ''restores/'') (turn_ref thread n p) = None"
proof (rule ccontr)
  assume "strip_prefix (checkpoints_of thread @ ''restores/'') (turn_ref thread n p) \<noteq> None"
  then obtain s where "turn_ref thread n p = (checkpoints_of thread @ ''restores/'') @ s"
    by (auto simp: strip_prefix_Some)
  then have "show_u32 n @ ''/'' @ edge p = ''restores/'' @ s" by (simp add: turn_ref_def)
  then show False using show_u32_hd[of n] by (cases "show_u32 n") (auto simp: show_u32_def)
qed

lemma strip_restores_restore:
  "strip_prefix (checkpoints_of thread @ ''restores/'') (restore_ref thread i kind) = Some (show_u32 i @ ''/'' @ kind)"
  by (simp add: restore_ref_def strip_prefix_Some RESTORE_SEGMENT_def)

lemma good_archived: "good_ref (turn_ref thread n p) oid \<Longrightarrow> good_ref (archived_ref thread n p) oid"
  by (auto simp: good_ref_def ref_field_def turn_ref_def archived_ref_def ARCHIVED_PREFIX_def tab_def ascii_def byte_in_def)

lemma archived_ne [simp]: "archived_ref thread n p \<noteq> ''-d''" "archived_ref thread n p \<noteq> turn_ref thread' n' p'"
  "archived_ref thread n p \<noteq> restore_ref thread' i kind"
  by (simp_all add: archived_ref_def turn_ref_def restore_ref_def ARCHIVED_PREFIX_def CHECKPOINT_PREFIX_def)

fun restore_rows :: "string \<Rightarrow> RefEntry list \<Rightarrow> (u32 \<times> string) list" where
  "restore_rows thread [] = []"
| "restore_rows thread (e # es) =
     (case strip_prefix (checkpoints_of thread @ ''restores/'') (re_refname e) of
        Some rest \<Rightarrow> (case Option.bind (split_once (CHR ''/'') rest) (\<lambda>(i, _). parse_index i) of
            Some n \<Rightarrow> (n, re_refname e) # restore_rows thread es
          | None \<Rightarrow> restore_rows thread es)
      | None \<Rightarrow> restore_rows thread es)"

lemma archive_loop_map:
  assumes laws: "ref_laws env repo refs" and ok: "thread_ok thread" and "list_all (thread_entry thread) es"
  shows "\<exists>w'. archive_loop env repo thread (checkpoints_of thread @ ''restores/'') es acc w
      = (Ok (acc @ restore_rows thread es), w') \<and> refs (w_disk w') = moved thread es (refs (w_disk w))"
  using assms(3)
proof (induction es arbitrary: acc w)
  case (Cons e es)
  then have "thread_entry thread e" by simp
  then consider (turn) n p oid where "re_refname e = turn_ref thread n p" "re_oid e = Some oid" "good_ref (turn_ref thread n p) oid"
    | (undo) i kind where "re_refname e = restore_ref thread i kind"
    by (auto simp: thread_entry_def)
  then show ?case
  proof cases
    case turn
    obtain w1 where 1: "write_ref env repo (archived_ref thread n p) oid w = (Ok (), w1)"
      "refs (w_disk w1) = (refs (w_disk w))(archived_ref thread n p \<mapsto> oid)"
      by (rule ref_laws_write[OF laws _ good_archived[OF turn(3)]]) simp
    obtain w2 where 2: "delete_ref env repo (re_refname e) w1 = (Ok (), w2)"
      "refs (w_disk w2) = (refs (w_disk w1))(re_refname e := None)"
      by (rule ref_laws_delete[OF laws])
    obtain w3 where "archive_loop env repo thread (checkpoints_of thread @ ''restores/'') es acc w2
        = (Ok (acc @ restore_rows thread es), w3)" "refs (w_disk w3) = moved thread es (refs (w_disk w2))"
      using Cons by fastforce
    then show ?thesis using turn 1 2 strip_restores_turn[of thread n p] ok
      by (simp add: bind_def)
  next
    case undo
    have "split_once (CHR ''/'') (show_u32 i @ ''/'' @ kind) = Some (show_u32 i, kind)"
      by (simp add: split_once_Some)
    then show ?thesis
      using Cons.IH[of "acc @ [(i, re_refname e)]" w] Cons.prems undo strip_restores_restore[of thread i kind] ok
      by simp
  qed
qed (simp add: ret_def)

lemma moved_keeps:
  "(\<And>n p. r \<noteq> archived_ref thread n p) \<Longrightarrow> parse_checkpoint_ref r = None \<or> r \<notin> set (map re_refname es)
    \<Longrightarrow> moved thread es m r = m r"
  by (induction thread es m rule: moved.induct) (auto split: option.splits prod.splits)

lemma moved_clears: "(\<And>n p. r \<noteq> archived_ref thread n p) \<Longrightarrow> m r = None \<Longrightarrow> moved thread es m r = None"
  by (induction thread es m rule: moved.induct) (auto split: option.splits prod.splits)

lemma moved_turn:
  assumes "thread_ok thread" "(turn_ref thread n p, Some oid) \<in> set (names es)"
  shows "moved thread es m (turn_ref thread n p) = None"
  using assms(2)
proof (induction es arbitrary: m)
  case (Cons e es)
  have ne: "turn_ref thread n p \<noteq> archived_ref thread n' p'" for n' p' by (metis archived_ne(2))
  show ?case
  proof (cases "(turn_ref thread n p, Some oid) \<in> set (names es)")
    case True
    then show ?thesis using Cons.IH by (auto split: option.splits prod.splits)
  next
    case False
    then have "re_refname e = turn_ref thread n p" "re_oid e = Some oid" using Cons.prems by (auto simp: names_def)
    then show ?thesis using assms(1) ne by (auto intro!: moved_clears)
  qed
qed (simp add: names_def)

lemma archived_inj: "archived_ref thread n p = archived_ref thread n' p' \<longleftrightarrow> n = n' \<and> p = p'"
proof
  assume "archived_ref thread n p = archived_ref thread n' p'"
  then have "show_u32 n @ CHR ''/'' # edge p = show_u32 n' @ CHR ''/'' # edge p'" by (simp add: archived_ref_def)
  then have "show_u32 n = show_u32 n'" "edge p = edge p'" by (subst (asm) segments_inj; simp)+
  then show "n = n' \<and> p = p'" by (cases p; cases p') (auto dest: show_u32_inj)
qed simp

lemma entry_ne_archived: "thread_entry thread e \<Longrightarrow> re_refname e \<noteq> archived_ref thread n p"
  unfolding thread_entry_def by (metis archived_ne(2,3))

lemma moved_archived_none:
  assumes "thread_ok thread" "list_all (thread_entry thread) es" "turn_ref thread n p \<notin> set (map re_refname es)"
  shows "moved thread es m (archived_ref thread n p) = m (archived_ref thread n p)"
  using assms(2,3)
proof (induction es arbitrary: m)
  case (Cons e es)
  have "(n', p') \<noteq> (n, p)" if "parse_checkpoint_ref (re_refname e) = Some (n', p')" for n' p'
    using Cons.prems that assms(1) by (auto simp: thread_entry_def)
  then show ?case using Cons entry_ne_archived[of thread e n p]
    by (auto simp: archived_inj split: option.splits prod.splits)
qed simp

lemma moved_archived:
  assumes "thread_ok thread" "list_all (thread_entry thread) es" "distinct (map re_refname es)"
    "(turn_ref thread n p, Some oid) \<in> set (names es)"
  shows "moved thread es m (archived_ref thread n p) = Some oid"
  using assms(2-4)
proof (induction es arbitrary: m)
  case (Cons e es)
  show ?case
  proof (cases "re_refname e = turn_ref thread n p")
    case True
    then have "(turn_ref thread n p, Some oid) \<notin> set (names es)" "turn_ref thread n p \<notin> set (map re_refname es)"
      using Cons.prems(2) by (auto simp: names_def image_iff)
    then have "re_oid e = Some oid" using Cons.prems(3) by (simp add: names_def True)
    then show ?thesis
      using True assms(1) Cons.prems moved_archived_none[of thread es n p] \<open>turn_ref thread n p \<notin> set (map re_refname es)\<close> by simp
  next
    case False
    then have "(turn_ref thread n p, Some oid) \<in> set (names es)" using Cons.prems(3) by (auto simp: names_def)
    then show ?thesis using Cons by (auto split: option.splits prod.splits)
  qed
qed (simp add: names_def)

lemma restore_ref_index: "restore_ref thread i kind' = restore_ref thread j kind \<Longrightarrow> i = j"
proof -
  assume "restore_ref thread i kind' = restore_ref thread j kind"
  then have "show_u32 i @ CHR ''/'' # kind' = show_u32 j @ CHR ''/'' # kind" by (simp add: restore_ref_def)
  then show ?thesis by (subst (asm) segments_inj) (auto dest: show_u32_inj)
qed

lemma restore_rows_mem:
  assumes "thread_ok thread" "list_all (thread_entry thread) es"
  shows "(i, r) \<in> set (restore_rows thread es) \<longleftrightarrow> r \<in> set (map re_refname es) \<and> (\<exists>kind. r = restore_ref thread i kind)"
  using assms(2)
proof (induction es)
  case (Cons e es)
  then have "thread_entry thread e" by simp
  then consider (turn) n p where "re_refname e = turn_ref thread n p" | (undo) j kind where "re_refname e = restore_ref thread j kind"
    by (auto simp: thread_entry_def)
  then show ?case
  proof cases
    case turn
    have "restore_ref thread i kind \<noteq> turn_ref thread n p" for kind
      using parse_turn_ref[OF assms(1), of n p] parse_restore_ref[OF assms(1), of i kind] by auto
    then show ?thesis using Cons turn strip_restores_turn[of thread n p] by auto
  next
    case undo
    have s: "split_once (CHR ''/'') (show_u32 j @ ''/'' @ kind) = Some (show_u32 j, kind)" by (simp add: split_once_Some)
    show ?thesis using Cons undo strip_restores_restore[of thread j kind] s by (auto dest: restore_ref_index)
  qed
qed simp

lemma max_index_eq: "max_index is = (if is = [] then None else Some (Max (set is)))"
proof -
  have "fold (\<lambda>i m. Some (case m of None \<Rightarrow> i | Some current \<Rightarrow> max current i)) is (Some k) = Some (Max (set (k # is)))"
    for k :: u32 and "is" :: "u32 list"
  proof (induction "is" arbitrary: k)
    case (Cons a "is")
    have "Max (set (max k a # is)) = Max (set (k # a # is))" by (cases "is = []") (simp_all add: max.assoc)
    then show ?case using Cons[of "max k a"] by simp
  qed simp
  then show ?thesis by (cases "is") (auto simp: max_index_def)
qed

lemma starts_refs:
  "starts_with (checkpoints_of thread) (turn_ref thread n p)"
  "starts_with (checkpoints_of thread) (restore_ref thread i kind)"
  "\<not> starts_with (checkpoints_of thread) (archived_ref thread' n p)"
  by (auto simp: starts_with_iff turn_ref_def restore_ref_def archived_ref_def CHECKPOINT_PREFIX_def ARCHIVED_PREFIX_def)

text \<open>Every ref under the checkpoints of the thread is a turn edge or an undo capture.\<close>

definition thread_refs_wf :: "string \<Rightarrow> (string \<rightharpoonup> string) \<Rightarrow> bool" where
  "thread_refs_wf thread m \<longleftrightarrow> (\<forall>r. m r \<noteq> None \<and> starts_with (checkpoints_of thread) r \<longrightarrow>
     (\<exists>n p. r = turn_ref thread n p) \<or> (\<exists>i kind. r = restore_ref thread i kind))"

lemma lists_entries:
  assumes "lists m (checkpoints_of thread) es" "thread_refs_wf thread m"
  shows "list_all (thread_entry thread) es"
  unfolding list_all_iff
proof
  fix e assume "e \<in> set es"
  then have "(re_refname e, re_oid e) \<in> set (names es)" by (simp add: names_def)
  then obtain oid where o: "re_oid e = Some oid" "m (re_refname e) = Some oid" "starts_with (checkpoints_of thread) (re_refname e)"
    "good_ref (re_refname e) oid"
    using assms(1) by (auto simp: lists_def)
  moreover from o have "(\<exists>n p. re_refname e = turn_ref thread n p) \<or> (\<exists>i kind. re_refname e = restore_ref thread i kind)"
    using assms(2) unfolding thread_refs_wf_def by simp
  ultimately show "thread_entry thread e" by (auto simp: thread_entry_def)
qed

lemma archive_refs_map:
  assumes laws: "ref_laws env repo refs" and ok: "thread_ok thread" and wf: "thread_refs_wf thread (refs (w_disk w))"
  obtains es w' where "archive_refs env repo thread w = (Ok (), w')"
    "lists (refs (w_disk w)) (checkpoints_of thread) es"
    "refs (w_disk w') = (\<lambda>r. if \<exists>i. (i, r) \<in> set (restore_rows thread es) \<and> Some i \<noteq> max_index (map fst (restore_rows thread es))
       then None else moved thread es (refs (w_disk w)) r)"
proof -
  obtain w1 where 1: "validate_thread env repo thread w = (Ok (), w1)" "refs (w_disk w1) = refs (w_disk w)"
    by (rule ref_laws_validate[OF laws ok])
  obtain es w2 where 2: "list_refs env repo (checkpoints_of thread) w1 = (Ok es, w2)" "refs (w_disk w2) = refs (w_disk w1)"
    and es: "lists (refs (w_disk w1)) (checkpoints_of thread) es"
    by (rule ref_laws_list[OF laws])
  have te: "list_all (thread_entry thread) es" using lists_entries[OF es] wf 1 by simp
  obtain w3 where 3: "archive_loop env repo thread (checkpoints_of thread @ ''restores/'') es [] w2
      = (Ok (restore_rows thread es), w3)" "refs (w_disk w3) = moved thread es (refs (w_disk w2))"
    using archive_loop_map[OF laws ok te, of "[]"] by auto
  let ?rs = "map snd (filter (\<lambda>(i, _). Some i \<noteq> max_index (map fst (restore_rows thread es))) (restore_rows thread es))"
  obtain w4 where 4: "delete_refs env repo ?rs w3 = (Ok (), w4)"
    "refs (w_disk w4) = (\<lambda>r. if r \<in> set ?rs then None else refs (w_disk w3) r)"
    using delete_refs_map[OF laws] by blast
  have "archive_refs env repo thread w = (Ok (), w4)"
    using 1 2 3 4 by (simp add: archive_refs_def bind_def Let_def)
  moreover have "refs (w_disk w4) = (\<lambda>r. if \<exists>i. (i, r) \<in> set (restore_rows thread es) \<and> Some i \<noteq> max_index (map fst (restore_rows thread es))
       then None else moved thread es (refs (w_disk w)) r)"
    unfolding 4(2) 3(2) 2(2) 1(2) by (auto simp: fun_eq_iff image_iff)
  ultimately show thesis using that[of w4 es] es 1 by simp
qed

lemma newest_restore:
  assumes "thread_ok thread" "list_all (thread_entry thread) es" "lists m (checkpoints_of thread) es"
    "m (restore_ref thread i kind) \<noteq> None"
  shows "Some i = max_index (map fst (restore_rows thread es)) \<longleftrightarrow> (\<forall>j k. m (restore_ref thread j k) \<noteq> None \<longrightarrow> j \<le> i)"
proof -
  let ?is = "map fst (restore_rows thread es)"
  have mem: "j \<in> set ?is \<longleftrightarrow> (\<exists>k. m (restore_ref thread j k) \<noteq> None)" for j
  proof -
    have "j \<in> set ?is \<longleftrightarrow> (\<exists>r. (j, r) \<in> set (restore_rows thread es))" by force
    also have "\<dots> \<longleftrightarrow> (\<exists>k. m (restore_ref thread j k) \<noteq> None)"
      unfolding restore_rows_mem[OF assms(1,2)] lists_mem[OF assms(3)] using starts_refs(2) by blast
    finally show ?thesis .
  qed
  then have "i \<in> set ?is" using assms(4) by blast
  then have "?is \<noteq> []" "Some i = max_index ?is \<longleftrightarrow> i = Max (set ?is)"
    by (auto simp: max_index_eq split: if_splits)
  moreover have "i = Max (set ?is) \<longleftrightarrow> (\<forall>j \<in> set ?is. j \<le> i)"
    using \<open>i \<in> set ?is\<close> by (metis Max_eqI Max_ge List.finite_set)
  ultimately show ?thesis using mem by blast
qed

text \<open>
  Over a git that updates and lists refs as documented, archiving a thread moves every turn
  edge to the archived namespace with its commit, keeps of the undo captures exactly those of the
  newest restore, and touches no other ref; deleting a thread's refs removes exactly the refs of
  its two namespaces. Both succeed.
\<close>

theorem archive_and_delete_refs:
  assumes "ref_laws env repo refs" "thread_ok thread" "thread_refs_wf thread (refs (w_disk w))"
  shows "(\<exists>w'. archive_refs env repo thread w = (Ok (), w')
      \<and> (\<forall>n p. refs (w_disk w') (turn_ref thread n p) = None
          \<and> refs (w_disk w') (archived_ref thread n p) =
              (case refs (w_disk w) (turn_ref thread n p) of
                 Some oid \<Rightarrow> Some oid | None \<Rightarrow> refs (w_disk w) (archived_ref thread n p)))
      \<and> (\<forall>i kind. refs (w_disk w') (restore_ref thread i kind) =
          (if \<forall>j k. refs (w_disk w) (restore_ref thread j k) \<noteq> None \<longrightarrow> j \<le> i
           then refs (w_disk w) (restore_ref thread i kind) else None))
      \<and> (\<forall>r. (\<forall>n p. r \<noteq> archived_ref thread n p) \<and> \<not> starts_with (CHECKPOINT_PREFIX @ ''/'' @ thread @ ''/'') r
          \<longrightarrow> refs (w_disk w') r = refs (w_disk w) r))
    \<and> (\<exists>w'. delete_thread_refs env repo thread w = (Ok (), w') \<and> refs (w_disk w') =
        (\<lambda>r. if starts_with (CHECKPOINT_PREFIX @ ''/'' @ thread @ ''/'') r
              \<or> starts_with (ARCHIVED_PREFIX @ ''/'' @ thread @ ''/'') r then None else refs (w_disk w) r))"
proof (intro conjI delete_thread_refs_map[OF assms(1,2)])
  let ?m = "refs (w_disk w)"
  obtain es w' where a: "archive_refs env repo thread w = (Ok (), w')" and es: "lists ?m (checkpoints_of thread) es"
    and r: "refs (w_disk w') = (\<lambda>r. if \<exists>i. (i, r) \<in> set (restore_rows thread es) \<and> Some i \<noteq> max_index (map fst (restore_rows thread es))
       then None else moved thread es ?m r)"
    by (rule archive_refs_map[OF assms])
  have te: "list_all (thread_entry thread) es" by (rule lists_entries[OF es assms(3)])
  note rows = restore_rows_mem[OF assms(2) te] and mem = lists_mem[OF es]
  have none: "(i, r) \<notin> set (restore_rows thread es)" if "\<And>kind. r \<noteq> restore_ref thread i kind" for i r
    using that by (simp add: rows)
  have turn_ne: "turn_ref thread n p \<noteq> restore_ref thread i kind" for n p i kind
    using parse_turn_ref[OF assms(2), of n p] parse_restore_ref[OF assms(2), of i kind] by auto
  have named: "(r, Some oid) \<in> set (names es) \<longleftrightarrow> ?m r = Some oid \<and> starts_with (checkpoints_of thread) r" for r oid
    using es by (simp add: lists_def)
  have turn: "refs (w_disk w') (turn_ref thread n p) = None
      \<and> refs (w_disk w') (archived_ref thread n p) =
          (case ?m (turn_ref thread n p) of Some oid \<Rightarrow> Some oid | None \<Rightarrow> ?m (archived_ref thread n p))" for n p
  proof (cases "?m (turn_ref thread n p)")
    case None
    have "moved thread es ?m (turn_ref thread n p) = None"
      using None by (intro moved_clears) (metis archived_ne(2))
    moreover have "turn_ref thread n p \<notin> set (map re_refname es)" using None mem by simp
    ultimately show ?thesis using None moved_archived_none[OF assms(2) te] none turn_ne archived_ne(3) by (simp add: r)
  next
    case (Some oid)
    then have "(turn_ref thread n p, Some oid) \<in> set (names es)" using starts_refs(1)[of thread n p] by (simp add: named)
    moreover have "distinct (map re_refname es)" using es by (simp add: lists_def)
    ultimately show ?thesis
      using Some moved_turn[OF assms(2)] moved_archived[OF assms(2) te] none turn_ne archived_ne(3) by (simp add: r)
  qed
  have undo: "refs (w_disk w') (restore_ref thread i kind) =
      (if \<forall>j k. ?m (restore_ref thread j k) \<noteq> None \<longrightarrow> j \<le> i then ?m (restore_ref thread i kind) else None)" for i kind
  proof -
    have keep: "moved thread es ?m (restore_ref thread i kind) = ?m (restore_ref thread i kind)"
      using assms(2) by (intro moved_keeps) (metis archived_ne(3), simp)
    have "(\<exists>i'. (i', restore_ref thread i kind) \<in> set (restore_rows thread es)
          \<and> Some i' \<noteq> max_index (map fst (restore_rows thread es)))
        \<longleftrightarrow> ?m (restore_ref thread i kind) \<noteq> None \<and> Some i \<noteq> max_index (map fst (restore_rows thread es))"
      unfolding rows mem using starts_refs(2)[of thread i kind] by (auto dest: restore_ref_index)
    then show ?thesis
      using newest_restore[OF assms(2) te es, of i kind] keep
      by (cases "?m (restore_ref thread i kind)") (simp_all add: r)
  qed
  have other: "refs (w_disk w') s = ?m s" if "\<forall>n p. s \<noteq> archived_ref thread n p" "\<not> starts_with (checkpoints_of thread) s" for s
  proof -
    have s: "s \<notin> set (map re_refname es)" using that(2) unfolding mem by simp
    then have "(i, s) \<notin> set (restore_rows thread es)" for i unfolding rows by blast
    then show ?thesis using that(1) s moved_keeps[of s thread es ?m] by (simp add: r)
  qed
  show "\<exists>w'. archive_refs env repo thread w = (Ok (), w') \<and> (\<forall>n p. refs (w_disk w') (turn_ref thread n p) = None
          \<and> refs (w_disk w') (archived_ref thread n p) =
              (case ?m (turn_ref thread n p) of Some oid \<Rightarrow> Some oid | None \<Rightarrow> ?m (archived_ref thread n p)))
      \<and> (\<forall>i kind. refs (w_disk w') (restore_ref thread i kind) =
          (if \<forall>j k. ?m (restore_ref thread j k) \<noteq> None \<longrightarrow> j \<le> i then ?m (restore_ref thread i kind) else None))
      \<and> (\<forall>r. (\<forall>n p. r \<noteq> archived_ref thread n p) \<and> \<not> starts_with (CHECKPOINT_PREFIX @ ''/'' @ thread @ ''/'') r
          \<longrightarrow> refs (w_disk w') r = ?m r)"
    using a turn undo other by blast
qed

text \<open>A git whose disk is its list of refs, newest first.\<close>

definition live_refs :: "(string \<times> string) list \<Rightarrow> (string \<times> string) list" where
  "live_refs d = AList.clearjunk (filter (\<lambda>(r, oid). good_ref r oid) d)"

definition ref_command :: "string list \<Rightarrow> (string \<times> string) list \<Rightarrow> string \<times> (string \<times> string) list" where
  "ref_command args d =
     (if args ! 0 = ''update-ref'' then
        (if args ! 1 = ''-d'' then ([], filter (\<lambda>(r, _). r \<noteq> args ! 2) d) else ([], (args ! 1, args ! 2) # d))
      else if args ! 0 = ''for-each-ref'' then
        (concat (map (\<lambda>row. ref_line row @ [newline])
           (map (\<lambda>(r, oid). (r, oid, [], [])) (filter (\<lambda>(r, _). starts_with (args ! 2) r) (live_refs d)))), d)
      else ([], d))"

definition ref_env :: "(string \<times> string) list GitEnv" where
  "ref_env = \<lparr>ge_run = (\<lambda>c d. case ref_command (gc_args c) d of
       (out, d') \<Rightarrow> (Ok \<lparr>out_code = Some 0, out_stdout = out, out_stderr = []\<rparr>, d')),
     ge_canonical = (\<lambda>d p. None), ge_is_file = (\<lambda>d p. False),
     ge_is_dir = (\<lambda>d p. True), ge_metadata = (\<lambda>d p. None), ge_read_head = (\<lambda>d p n. None),
     ge_copy = (\<lambda>a b d. (Ok (), d)), ge_keep_mtime = (\<lambda>a b d. d), ge_remove_file = (\<lambda>p d. d), ge_pid = 1\<rparr>"

definition refs_of :: "(string \<times> string) list \<Rightarrow> string \<rightharpoonup> string" where
  "refs_of d = map_of (live_refs d)"

lemma runs_ok_ref_env:
  "ref_command args d = (out, d') \<Longrightarrow> Q out d' \<Longrightarrow> runs_ok ref_env (plain_call cwd args) d Q"
  by (simp add: runs_ok_def ref_env_def plain_call_def success_def)

lemma refs_of_eq: "refs_of d = map_of (filter (\<lambda>(r, oid). good_ref r oid) d)"
  by (simp add: refs_of_def live_refs_def map_of_clearjunk)

lemma refs_of_delete: "refs_of (filter (\<lambda>(x, _). x \<noteq> r) d) = (refs_of d)(r := None)"
  by (induction d) (auto simp: refs_of_eq)

lemma live_refs_props:
  "distinct (map fst (live_refs d))" "(r, oid) \<in> set (live_refs d) \<longleftrightarrow> refs_of d r = Some oid"
  "(r, oid) \<in> set (live_refs d) \<Longrightarrow> good_ref r oid"
proof -
  show d: "distinct (map fst (live_refs d))" by (simp add: live_refs_def distinct_clearjunk)
  show "(r, oid) \<in> set (live_refs d) \<longleftrightarrow> refs_of d r = Some oid" by (simp add: refs_of_def map_of_eq_Some_iff[OF d])
  show "(r, oid) \<in> set (live_refs d) \<Longrightarrow> good_ref r oid"
  proof -
    assume "(r, oid) \<in> set (live_refs d)"
    then have "map_of (filter (\<lambda>(r, oid). good_ref r oid) d) r = Some oid"
      using map_of_eq_Some_iff[OF d] by (simp add: refs_of_def flip: refs_of_eq)
    from map_of_SomeD[OF this] show "good_ref r oid" by simp
  qed
qed

lemma ref_laws_ref_env: "ref_laws ref_env repo refs_of"
proof -
  have list: "runs_ok ref_env (plain_call cwd [''for-each-ref'', f, pre]) d
        (\<lambda>out d'. refs_of d' = refs_of d \<and> (\<exists>rows. out = concat (map (\<lambda>row. ref_line row @ [newline]) rows)
            \<and> list_all row_ok rows \<and> distinct (map fst rows)
            \<and> (\<forall>r oid. (\<exists>tree at. (r, oid, tree, at) \<in> set rows) \<longleftrightarrow> refs_of d r = Some oid \<and> starts_with pre r)))"
    for cwd f pre d
  proof -
    let ?rows = "map (\<lambda>(r, oid). (r, oid, [], [])) (filter (\<lambda>(r, _). starts_with pre r) (live_refs d)) :: (string \<times> string \<times> string \<times> string) list"
    have c: "ref_command [''for-each-ref'', f, pre] d = (concat (map (\<lambda>row. ref_line row @ [newline]) ?rows), d)"
      by (simp add: ref_command_def)
    have "list_all row_ok ?rows"
      using live_refs_props(3)[of _ _ d] by (auto simp: list_all_iff row_ok_def ref_field_def ascii_def)
    moreover have "map fst ?rows = map fst (filter (\<lambda>(r, _). starts_with pre r) (live_refs d))"
      by (auto simp: comp_def case_prod_beta)
    then have "distinct (map fst ?rows)"
      using distinct_map_filter[OF live_refs_props(1)] by metis
    moreover have "(\<exists>tree at. (r, oid, tree, at) \<in> set ?rows) \<longleftrightarrow> refs_of d r = Some oid \<and> starts_with pre r" for r oid
      unfolding live_refs_props(2)[symmetric] by force
    ultimately show ?thesis by (intro runs_ok_ref_env[OF c] conjI exI[of _ ?rows] refl allI)
  qed
  have set_law: "runs_ok ref_env (plain_call cwd [''update-ref'', r, oid]) d
      (\<lambda>out d'. r \<noteq> ''-d'' \<and> good_ref r oid \<longrightarrow> refs_of d' = (refs_of d)(r \<mapsto> oid))" for cwd r oid d
    by (rule runs_ok_ref_env[OF prod.collapse[symmetric]]) (simp add: ref_command_def refs_of_eq)
  have del_law: "runs_ok ref_env (plain_call cwd [''update-ref'', ''-d'', r]) d
      (\<lambda>out d'. refs_of d' = (refs_of d)(r := None))" for cwd r d
    by (rule runs_ok_ref_env[OF prod.collapse[symmetric]]) (simp add: ref_command_def refs_of_delete)
  have check_law: "runs_ok ref_env (plain_call cwd [''check-ref-format'', r]) d
      (\<lambda>out d'. refs_of d' = refs_of d)" for cwd r d
    by (rule runs_ok_ref_env[OF prod.collapse[symmetric]]) (simp add: ref_command_def)
  show ?thesis
    unfolding ref_laws_def by (intro allI conjI list set_law del_law check_law)
qed

definition ex_oid :: string where
  "ex_oid = replicate 40 (CHR ''a'')"

definition ex_refs :: "(string \<times> string) list World" where
  "ex_refs = \<lparr>w_counter = 0, w_disk =
     [(turn_ref ''t'' 0 CP_End, ex_oid), (restore_ref ''t'' 0 ''index'', ex_oid), (restore_ref ''t'' 1 ''index'', ex_oid)],
     w_log = []\<rparr>"

lemma ex_refs_wf: "thread_refs_wf ''t'' (refs_of (w_disk ex_refs))"
proof -
  have "r = turn_ref ''t'' 0 CP_End \<or> r = restore_ref ''t'' 0 ''index'' \<or> r = restore_ref ''t'' 1 ''index''"
    if "refs_of (w_disk ex_refs) r \<noteq> None" for r
    using that by (auto simp: refs_of_eq ex_refs_def dest!: map_of_SomeD split: if_splits)
  then show ?thesis unfolding thread_refs_wf_def by blast
qed

lemma good_ex: "good_ref (turn_ref ''t'' 0 CP_End) ex_oid"
proof -
  have "ref_field ex_oid" by (simp add: ref_field_def ex_oid_def tab_def ascii_def list_all_iff byte_in_def)
  moreover have "show_u32 0 = ''0''" by code_simp
  ultimately show ?thesis
    by (simp add: good_ref_def ref_field_def turn_ref_def CHECKPOINT_PREFIX_def tab_def ascii_def byte_in_def)
       (simp add: ex_oid_def)
qed

theorem archive_and_delete_refs_witness:
  "\<exists>w'. archive_refs ref_env ex_repo ''t'' ex_refs = (Ok (), w')
    \<and> refs_of (w_disk w') (archived_ref ''t'' 0 CP_End) = Some ex_oid
    \<and> refs_of (w_disk w') (turn_ref ''t'' 0 CP_End) = None"
proof -
  have "thread_ok ''t''" by (simp add: thread_ok_def)
  moreover have "refs_of (w_disk ex_refs) (turn_ref ''t'' 0 CP_End) = Some ex_oid"
    using good_ex by (simp add: refs_of_eq ex_refs_def)
  ultimately show ?thesis
    using archive_and_delete_refs[OF ref_laws_ref_env _ ex_refs_wf, of ex_repo] by fastforce
qed

end
