(* ===== verification/Git_Hunks.thy ===== *)
theory Git_Hunks
  imports Rust_Text
begin

text \<open>
  Hunk computation, patch rendering and the hunk cache:
  \<^verbatim>\<open>crates/tethys-git/src/hunks.rs\<close>. The raw hunks come from the \<open>imara-diff\<close> crate, whose
  result is an argument; \<open>script_ok\<close> states what a diff promises (ordered, disjoint ranges
  whose gaps are equal runs of lines). Line numbers are natural numbers with the saturation
  of the \<open>u32\<close> operations written out.

  The reference semantics is the application of a unified diff (\<open>apply_patch\<close>): the computed
  hunks turn the old lines into the new ones, and reversed they turn the new lines back.
\<close>

section \<open>Data\<close>

datatype DiffFileStatus =
  D_Added | D_Modified | D_Deleted | D_Renamed | D_Copied | D_TypeChanged | D_Unmerged | D_Other

datatype DiffLineKind = K_Context | K_Deletion | K_Addition

record DiffLine =
  dl_kind :: DiffLineKind
  dl_text :: string

record DiffHunk =
  dh_old_start :: nat
  dh_old_lines :: nat
  dh_new_start :: nat
  dh_new_lines :: nat
  dh_lines :: "DiffLine list"

datatype PlanLine = Context nat nat | Remove nat | Add nat

record ComputedHunk =
  old_start :: nat
  old_count :: nat
  new_start :: nat
  new_count :: nat
  plan :: "PlanLine list"

text \<open>A hunk of \<open>imara_diff\<close>: two half-open ranges of line numbers.\<close>

record RawHunk =
  before_start :: nat
  before_end :: nat
  after_start :: nat
  after_end :: nat

definition CONTEXT_LINES :: nat where "CONTEXT_LINES = 3"
definition CACHE_CAPACITY :: nat where "CACHE_CAPACITY = 256"

definition u32_add :: "nat \<Rightarrow> nat \<Rightarrow> nat" where
  "u32_add a b = min (a + b) (2 ^ 32 - 1)"

section \<open>Operations\<close>

definition line_tokens :: "string \<Rightarrow> string list" where
  "line_tokens text = (if text = [] then [] else split_inclusive newline text)"

definition looks_binary :: "string \<Rightarrow> bool" where
  "looks_binary bytes \<longleftrightarrow> nul \<in> set (take 8192 bytes)"

definition merges :: "RawHunk list list \<Rightarrow> RawHunk \<Rightarrow> bool" where
  "merges groups hunk \<longleftrightarrow>
     groups \<noteq> [] \<and> last groups \<noteq> []
     \<and> before_start hunk \<le> u32_add (before_end (last (last groups))) (2 * CONTEXT_LINES)"

definition group_step :: "RawHunk list list \<Rightarrow> RawHunk \<Rightarrow> RawHunk list list" where
  "group_step groups hunk =
     (if merges groups hunk then butlast groups @ [last groups @ [hunk]] else groups @ [[hunk]])"

function context_run :: "nat \<Rightarrow> nat \<Rightarrow> nat \<Rightarrow> PlanLine list" where
  "context_run old_cursor new_cursor stop =
     (if old_cursor < stop
      then Context old_cursor new_cursor # context_run (old_cursor + 1) (new_cursor + 1) stop
      else [])"
  by auto
termination by (relation "measure (\<lambda>(o', n, s). s - o')") auto

fun plan_loop :: "RawHunk list \<Rightarrow> nat \<Rightarrow> nat \<Rightarrow> PlanLine list \<times> nat \<times> nat" where
  "plan_loop [] old_cursor new_cursor = ([], old_cursor, new_cursor)"
| "plan_loop (hunk # hunks) old_cursor new_cursor =
     (case plan_loop hunks (before_end hunk) (after_end hunk) of (lines, cursors) \<Rightarrow>
        (context_run old_cursor new_cursor (before_start hunk)
         @ map Remove [before_start hunk..<before_end hunk]
         @ map Add [after_start hunk..<after_end hunk] @ lines, cursors))"

definition raw_default :: RawHunk where
  "raw_default = \<lparr>before_start = 0, before_end = 0, after_start = 0, after_end = 0\<rparr>"

definition group_hunk :: "nat \<Rightarrow> nat \<Rightarrow> RawHunk list \<Rightarrow> ComputedHunk" where
  "group_hunk old_len new_len grp =
     (let first = (if grp = [] then raw_default else hd grp);
          final = (if grp = [] then raw_default else last grp);
          old_lo = before_start first - CONTEXT_LINES;
          old_hi = min (u32_add (before_end final) CONTEXT_LINES) old_len;
          new_lo = after_start first - CONTEXT_LINES;
          new_hi = min (u32_add (after_end final) CONTEXT_LINES) new_len
      in case plan_loop grp old_lo new_lo of (lines, old_cursor, new_cursor) \<Rightarrow>
         \<lparr>old_start = old_lo + 1, old_count = old_hi - old_lo,
          new_start = new_lo + 1, new_count = new_hi - new_lo,
          plan = lines @ context_run old_cursor new_cursor old_hi\<rparr>)"

definition group_hunks :: "RawHunk list \<Rightarrow> nat \<Rightarrow> nat \<Rightarrow> ComputedHunk list" where
  "group_hunks raw old_len new_len =
     map (group_hunk old_len new_len) (foldl group_step [] raw)"

text \<open>The diff algorithm on line tokens is a parameter.\<close>

type_synonym differ = "string list \<Rightarrow> string list \<Rightarrow> RawHunk list"

definition compute :: "differ \<Rightarrow> string \<Rightarrow> string \<Rightarrow> ComputedHunk list" where
  "compute diff old new =
     group_hunks (diff (line_tokens old) (line_tokens new))
       (length (line_tokens old)) (length (line_tokens new))"

definition token :: "string list \<Rightarrow> nat \<Rightarrow> string" where
  "token tokens i = (if i < length tokens then tokens ! i else [])"

definition strip_newline :: "string list \<Rightarrow> nat \<Rightarrow> string" where
  "strip_newline tokens i =
     (case strip_suffix [newline] (token tokens i) of
        None \<Rightarrow> []
      | Some line \<Rightarrow> (case strip_suffix [cr] line of None \<Rightarrow> line | Some l \<Rightarrow> l))"

fun display_line :: "string list \<Rightarrow> string list \<Rightarrow> PlanLine \<Rightarrow> DiffLine" where
  "display_line old new (Context i _) = \<lparr>dl_kind = K_Context, dl_text = strip_newline old i\<rparr>"
| "display_line old new (Remove i) = \<lparr>dl_kind = K_Deletion, dl_text = strip_newline old i\<rparr>"
| "display_line old new (Add j) = \<lparr>dl_kind = K_Addition, dl_text = strip_newline new j\<rparr>"

definition to_display :: "ComputedHunk \<Rightarrow> string list \<Rightarrow> string list \<Rightarrow> DiffHunk" where
  "to_display hunk old new =
     \<lparr>dh_old_start = old_start hunk, dh_old_lines = old_count hunk,
      dh_new_start = new_start hunk, dh_new_lines = new_count hunk,
      dh_lines = map (display_line old new) (plan hunk)\<rparr>"

abbreviation no_newline_marker :: string where
  "no_newline_marker \<equiv> CHR 0x5C # '' No newline at end of file'' @ [newline]"

definition push_patch_line :: "char \<Rightarrow> string \<Rightarrow> string" where
  "push_patch_line sign tok =
     sign # tok @ (if ends_with [newline] tok then [] else newline # no_newline_marker)"

text \<open>Three octal digits, as \<open>{:03o}\<close> prints a byte.\<close>

definition octal3 :: "nat \<Rightarrow> string" where
  "octal3 n = [digit (n div 64), digit (n div 8 mod 8), digit (n mod 8)]"

definition quote_byte :: "char \<Rightarrow> string" where
  "quote_byte b =
     (if b = CHR 0x22 then [CHR 0x5C, CHR 0x22]
      else if b = CHR 0x5C then [CHR 0x5C, CHR 0x5C]
      else if 0x20 \<le> (of_char b :: nat) \<and> of_char b \<le> (0x7e :: nat) then [b]
      else CHR 0x5C # octal3 (of_char b))"

definition path_for_header :: "string \<Rightarrow> string \<Rightarrow> string" where
  "path_for_header pre path =
     (let full = pre @ CHR ''/'' # path in
      if list_all (\<lambda>b. 0x21 \<le> (of_char b :: nat) \<and> of_char b \<le> (0x7e :: nat)) full then full
      else CHR 0x22 # concat (map quote_byte full) @ [CHR 0x22])"

fun patch_line :: "string list \<Rightarrow> string list \<Rightarrow> PlanLine \<Rightarrow> char \<times> string" where
  "patch_line old new (Context i _) = (CHR '' '', token old i)"
| "patch_line old new (Remove i) = (CHR ''-'', token old i)"
| "patch_line old new (Add j) = (CHR ''+'', token new j)"

definition hunk_header :: "ComputedHunk \<Rightarrow> string" where
  "hunk_header h = ''@@ -'' @ show_nat (old_start h) @ '','' @ show_nat (old_count h)
     @ '' +'' @ show_nat (new_start h) @ '','' @ show_nat (new_count h) @ '' @@'' @ [newline]"

definition render_hunk :: "string list \<Rightarrow> string list \<Rightarrow> ComputedHunk \<Rightarrow> string" where
  "render_hunk old new h = hunk_header h
     @ concat (map (\<lambda>l. case patch_line old new l of (p, t) \<Rightarrow> push_patch_line p t) (plan h))"

definition render_patch ::
  "string \<Rightarrow> DiffFileStatus \<Rightarrow> string \<Rightarrow> string \<Rightarrow> string list \<Rightarrow> string list
    \<Rightarrow> ComputedHunk list \<Rightarrow> string" where
  "render_patch path status old_mode new_mode old new hunks =
     (let quoted = path_for_header ''a'' path; quoted_b = path_for_header ''b'' path in
      ''diff --git '' @ quoted @ '' '' @ quoted_b @ [newline]
      @ (case status of
           D_Added \<Rightarrow> ''new file mode '' @ new_mode @ [newline]
         | D_Deleted \<Rightarrow> ''deleted file mode '' @ old_mode @ [newline]
         | _ \<Rightarrow> [])
      @ (if status = D_Added then ''--- /dev/null'' @ [newline] else ''--- '' @ quoted @ [newline])
      @ (if status = D_Deleted then ''+++ /dev/null'' @ [newline] else ''+++ '' @ quoted_b @ [newline])
      @ concat (map (render_hunk old new) hunks))"

subsection \<open>The hunk cache\<close>

record DiffCache =
  dc_entries :: "(string \<times> ComputedHunk list) list"
  dc_order :: "string list"
  dc_capacity :: nat

definition cache_default :: DiffCache where
  "cache_default = \<lparr>dc_entries = [], dc_order = [], dc_capacity = CACHE_CAPACITY\<rparr>"

definition cache_get :: "DiffCache \<Rightarrow> string \<Rightarrow> ComputedHunk list option" where
  "cache_get c key = map_of (dc_entries c) key"

definition cache_evict :: "DiffCache \<Rightarrow> DiffCache" where
  "cache_evict c =
     (if length (dc_entries c) \<ge> dc_capacity c
      then (case dc_order c of [] \<Rightarrow> c
            | oldest # order \<Rightarrow>
                c\<lparr>dc_entries := filter (\<lambda>e. fst e \<noteq> oldest) (dc_entries c), dc_order := order\<rparr>)
      else c)"

definition cache_insert :: "DiffCache \<Rightarrow> string \<Rightarrow> ComputedHunk list \<Rightarrow> DiffCache" where
  "cache_insert c key hunks =
     (if map_of (dc_entries c) key \<noteq> None then c
      else let c' = cache_evict c in
           c'\<lparr>dc_order := dc_order c' @ [key], dc_entries := (key, hunks) # dc_entries c'\<rparr>)"

section \<open>What a diff promises\<close>

definition same_run :: "'a list \<Rightarrow> 'a list \<Rightarrow> nat \<Rightarrow> nat \<Rightarrow> nat \<Rightarrow> bool" where
  "same_run old new i j n \<longleftrightarrow> i + n \<le> length old \<and> j + n \<le> length new
     \<and> take n (drop i old) = take n (drop j new)"

fun script_ok :: "'a list \<Rightarrow> 'a list \<Rightarrow> nat \<Rightarrow> nat \<Rightarrow> RawHunk list \<Rightarrow> bool" where
  "script_ok old new i j [] \<longleftrightarrow>
     length old - i = length new - j \<and> same_run old new i j (length old - i)"
| "script_ok old new i j (h # hs) \<longleftrightarrow>
     i \<le> before_start h \<and> j \<le> after_start h \<and> before_start h - i = after_start h - j
     \<and> before_start h \<le> before_end h \<and> after_start h \<le> after_end h
     \<and> same_run old new i j (before_start h - i)
     \<and> before_end h \<le> length old \<and> after_end h \<le> length new
     \<and> script_ok old new (before_end h) (after_end h) hs"

text \<open>Applying a unified diff: each hunk must match the lines at its position.\<close>

type_synonym 'a patch_hunk = "nat \<times> (char \<times> 'a) list"

definition side :: "char \<Rightarrow> (char \<times> 'a) list \<Rightarrow> 'a list" where
  "side c ls = map snd (filter (\<lambda>l. fst l = CHR '' '' \<or> fst l = c) ls)"

fun apply_patch :: "'a patch_hunk list \<Rightarrow> nat \<Rightarrow> 'a list \<Rightarrow> 'a list option" where
  "apply_patch [] pos ls = Some ls"
| "apply_patch ((start, body) # hs) pos ls =
     (let gap = start - 1 - pos; olds = side (CHR ''-'') body; rest = drop gap ls in
      if pos \<le> start - 1 \<and> gap \<le> length ls \<and> take (length olds) rest = olds
      then map_option (\<lambda>out. take gap ls @ side (CHR ''+'') body @ out)
             (apply_patch hs (start - 1 + length olds) (drop (length olds) rest))
      else None)"

definition forward :: "string list \<Rightarrow> string list \<Rightarrow> ComputedHunk \<Rightarrow> string patch_hunk" where
  "forward old new h = (old_start h, map (patch_line old new) (plan h))"

definition flip_sign :: "char \<times> 'a \<Rightarrow> char \<times> 'a" where
  "flip_sign l = (if fst l = CHR ''-'' then CHR ''+'' else if fst l = CHR ''+'' then CHR ''-'' else fst l,
                 snd l)"

text \<open>\<open>git apply -R\<close>: the new side is the starting point.\<close>

definition backward :: "string list \<Rightarrow> string list \<Rightarrow> ComputedHunk \<Rightarrow> string patch_hunk" where
  "backward old new h = (new_start h, map (flip_sign \<circ> patch_line old new) (plan h))"

section \<open>The plan of a group covers its ranges\<close>

declare context_run.simps [simp del]

fun old_indices :: "PlanLine list \<Rightarrow> nat list" where
  "old_indices [] = []"
| "old_indices (Context i j # ls) = i # old_indices ls"
| "old_indices (Remove i # ls) = i # old_indices ls"
| "old_indices (Add j # ls) = old_indices ls"

fun new_indices :: "PlanLine list \<Rightarrow> nat list" where
  "new_indices [] = []"
| "new_indices (Context i j # ls) = j # new_indices ls"
| "new_indices (Remove i # ls) = new_indices ls"
| "new_indices (Add j # ls) = j # new_indices ls"

definition contexts_ok :: "'a list \<Rightarrow> 'a list \<Rightarrow> PlanLine list \<Rightarrow> bool" where
  "contexts_ok old new ls \<longleftrightarrow>
     (\<forall>i j. Context i j \<in> set ls \<longrightarrow> i < length old \<and> j < length new \<and> old ! i = new ! j)"

definition covers :: "'a list \<Rightarrow> 'a list \<Rightarrow> nat \<Rightarrow> nat \<Rightarrow> nat \<Rightarrow> nat \<Rightarrow> PlanLine list \<Rightarrow> bool" where
  "covers old new i i' j j' ls \<longleftrightarrow> i \<le> i' \<and> j \<le> j' \<and> i' \<le> length old \<and> j' \<le> length new
     \<and> old_indices ls = [i..<i'] \<and> new_indices ls = [j..<j'] \<and> contexts_ok old new ls"

lemma indices_append [simp]:
  "old_indices (xs @ ys) = old_indices xs @ old_indices ys"
  "new_indices (xs @ ys) = new_indices xs @ new_indices ys"
  by (induction xs rule: old_indices.induct) auto

lemma indices_map [simp]:
  "old_indices (map Remove xs) = xs" "old_indices (map Add xs) = []"
  "new_indices (map Remove xs) = []" "new_indices (map Add xs) = xs"
  by (induction xs) auto

lemma covers_append:
  "covers old new i k j m xs \<Longrightarrow> covers old new k i' m j' ys \<Longrightarrow> covers old new i i' j j' (xs @ ys)"
  by (auto simp: covers_def contexts_ok_def upt_add_eq_append[symmetric] le_Suc_ex
           dest!: le_Suc_ex)

lemma covers_remove_add:
  "i \<le> i' \<Longrightarrow> j \<le> j' \<Longrightarrow> i' \<le> length old \<Longrightarrow> j' \<le> length new
    \<Longrightarrow> covers old new i i' j j' (map Remove [i..<i'] @ map Add [j..<j'])"
  by (auto simp: covers_def contexts_ok_def)

lemma context_run_eq:
  "context_run i j s = map (\<lambda>d. Context (i + d) (j + d)) [0..<s - i]"
proof (induction i j s rule: context_run.induct)
  case (1 i j s)
  show ?case
  proof (cases "i < s")
    case True
    then have "[0..<s - i] = 0 # map Suc [0..<s - Suc i]"
      by (metis Suc_diff_Suc map_Suc_upt upt_conv_Cons zero_less_Suc)
    with 1 True show ?thesis by (subst context_run.simps) (simp add: comp_def)
  qed (simp add: context_run.simps)
qed

lemma indices_run:
  "old_indices (map (\<lambda>d. Context (i + d) (j + d)) ds) = map ((+) i) ds"
  "new_indices (map (\<lambda>d. Context (i + d) (j + d)) ds) = map ((+) j) ds"
  by (induction ds) auto

lemma map_add_upt': "map ((+) i) [0..<n] = [i..<i + n]"
  by (induction n) auto

lemma same_run_nth:
  "same_run old new i j n \<longleftrightarrow> i + n \<le> length old \<and> j + n \<le> length new
     \<and> (\<forall>d < n. old ! (i + d) = new ! (j + d))"
  by (auto simp: same_run_def list_eq_iff_nth_eq)

lemma same_run_sub:
  "same_run old new i j n \<Longrightarrow> a + m \<le> n \<Longrightarrow> same_run old new (i + a) (j + a) m"
  by (auto simp: same_run_nth add.assoc)

lemma covers_context:
  assumes "same_run old new i j (s - i)" "i \<le> s"
  shows "covers old new i s j (j + (s - i)) (context_run i j s)"
  using assms
  by (auto simp: covers_def context_run_eq indices_run map_add_upt' contexts_ok_def same_run_nth)

lemma script_ok_gap:
  "script_ok old new i j (h # hs) \<Longrightarrow> same_run old new i j (before_start h - i)"
  unfolding script_ok.simps by (elim conjE)

lemma plan_loop_covers:
  assumes "script_ok old new ri rj (g @ rest)" "g \<noteq> []"
    "ri \<le> o'" "o' \<le> before_start (hd g)" "n + ri = o' + rj"
  shows "\<exists>ls. plan_loop g o' n = (ls, before_end (last g), after_end (last g))
    \<and> covers old new o' (before_end (last g)) n (after_end (last g)) ls
    \<and> script_ok old new (before_end (last g)) (after_end (last g)) rest"
  using assms
proof (induction g arbitrary: ri rj o' n)
  case (Cons h g)
  have h: "before_start h \<le> before_end h" "after_start h \<le> after_end h"
    "before_end h \<le> length old" "after_end h \<le> length new"
    "script_ok old new (before_end h) (after_end h) (g @ rest)"
    using Cons.prems(1) by simp_all
  have run: "same_run old new o' n (before_start h - o')"
  proof -
    have "o' = ri + (o' - ri)" "n = rj + (o' - ri)" using Cons.prems(3,5) by simp_all
    moreover have "same_run old new ri rj (before_start h - ri)"
      by (rule script_ok_gap[OF Cons.prems(1)[unfolded append_Cons]])
    ultimately show ?thesis
      using Cons.prems(3,4) same_run_sub[of old new ri rj "before_start h - ri" "o' - ri" "before_start h - o'"]
      by simp
  qed
  have "n + (before_start h - o') = after_start h" using Cons.prems by auto
  then have c1: "covers old new o' (before_start h) n (after_start h) (context_run o' n (before_start h))"
    using covers_context[OF run] Cons.prems(4) by simp
  let ?ls = "context_run o' n (before_start h) @ map Remove [before_start h..<before_end h]
    @ map Add [after_start h..<after_end h]"
  have c: "covers old new o' (before_end h) n (after_end h) ?ls"
    using covers_append[OF c1 covers_remove_add[OF h(1-4)]] .
  show ?case
  proof (cases "g = []")
    case True
    with c h(5) show ?thesis by simp
  next
    case False
    then have "before_end h \<le> before_start (hd g)" using h(5) by (cases g) auto
    then obtain ls where ls: "plan_loop g (before_end h) (after_end h)
        = (ls, before_end (last g), after_end (last g))"
      "covers old new (before_end h) (before_end (last g)) (after_end h) (after_end (last g)) ls"
      "script_ok old new (before_end (last g)) (after_end (last g)) rest"
      using Cons.IH[OF h(5) False, of "before_end h" "after_end h"] by auto
    with False covers_append[OF c ls(2)] show ?thesis by simp
  qed
qed simp

section \<open>The hunks form a chain over the two files\<close>

definition old_at :: "ComputedHunk \<Rightarrow> nat" where "old_at h = old_start h - 1"
definition new_at :: "ComputedHunk \<Rightarrow> nat" where "new_at h = new_start h - 1"

definition hunk_covers :: "'a list \<Rightarrow> 'a list \<Rightarrow> ComputedHunk \<Rightarrow> bool" where
  "hunk_covers old new h \<longleftrightarrow> 1 \<le> old_start h \<and> 1 \<le> new_start h
     \<and> covers old new (old_at h) (old_at h + old_count h)
         (new_at h) (new_at h + new_count h) (plan h)"

fun chain :: "'a list \<Rightarrow> 'a list \<Rightarrow> nat \<Rightarrow> nat \<Rightarrow> ComputedHunk list \<Rightarrow> bool" where
  "chain old new i j [] \<longleftrightarrow> script_ok old new i j []"
| "chain old new i j (h # hs) \<longleftrightarrow> hunk_covers old new h
     \<and> i \<le> old_at h \<and> j \<le> new_at h \<and> old_at h - i = new_at h - j
     \<and> same_run old new i j (old_at h - i)
     \<and> chain old new (old_at h + old_count h) (new_at h + new_count h) hs"

definition far :: "RawHunk list \<Rightarrow> RawHunk list \<Rightarrow> bool" where
  "far g g' \<longleftrightarrow> u32_add (before_end (last g)) (2 * CONTEXT_LINES) < before_start (hd g')"

definition grouped :: "RawHunk list list \<Rightarrow> bool" where
  "grouped gs \<longleftrightarrow> [] \<notin> set gs \<and> successively far gs"

lemma group_step_grouped:
  assumes "grouped gs"
  shows "grouped (group_step gs h) \<and> concat (group_step gs h) = concat gs @ [h]"
proof (cases gs rule: rev_cases)
  case Nil
  then show ?thesis by (simp add: group_step_def merges_def grouped_def)
next
  case (snoc gs' g)
  have g: "g \<noteq> []" "[] \<notin> set gs'" "successively far gs'" "gs' = [] \<or> far (last gs') g"
    using assms snoc by (auto simp: grouped_def successively_append_iff)
  show ?thesis
  proof (cases "merges gs h")
    case True
    then have "group_step gs h = gs' @ [g @ [h]]" using snoc by (simp add: group_step_def)
    then show ?thesis using g snoc by (auto simp: grouped_def successively_append_iff far_def)
  next
    case False
    then have "group_step gs h = gs @ [[h]]" by (simp add: group_step_def)
    then show ?thesis using g snoc False assms
      by (auto simp: grouped_def successively_append_iff far_def merges_def)
  qed
qed

lemma foldl_group_step:
  "grouped gs \<Longrightarrow> grouped (foldl group_step gs raw) \<and> concat (foldl group_step gs raw) = concat gs @ raw"
  using group_step_grouped by (induction raw arbitrary: gs) auto

lemma trailing_context:
  assumes "script_ok old new be ae (concat gs)" "gs = [] \<or> be + 6 < before_start (hd (hd gs))"
    "[] \<notin> set gs" "be \<le> length old" "ae \<le> length new"
  shows "min 3 (length old - be) = min 3 (length new - ae)
    \<and> same_run old new be ae (min 3 (length old - be))"
proof (cases gs)
  case Nil
  then show ?thesis
    using assms(1) same_run_sub[of old new be ae "length old - be" 0 "min 3 (length old - be)"] by auto
next
  case (Cons g gs')
  then obtain h hs where g: "g = h # hs" using assms(3) by (cases g) auto
  then have "same_run old new be ae (before_start h - be)" "before_start h - be \<ge> 7"
    "before_start h \<le> length old" "after_start h \<le> length new" "before_start h - be = after_start h - ae"
    using assms(1,2) Cons by auto
  then show ?thesis
    using same_run_sub[of old new be ae "before_start h - be" 0 3] by (auto simp: min_def)
qed

lemma group_hunk_eq:
  assumes "plan_loop g (before_start (hd g) - 3) (after_start (hd g) - 3) = (ls, be, ae)"
    "g \<noteq> []" "before_end (last g) + 6 < 2 ^ 32" "after_end (last g) + 6 < 2 ^ 32"
  shows "group_hunk ol nl g =
    (let old_lo = before_start (hd g) - 3; old_hi = min (before_end (last g) + 3) ol;
         new_lo = after_start (hd g) - 3; new_hi = min (after_end (last g) + 3) nl in
     \<lparr>old_start = old_lo + 1, old_count = old_hi - old_lo, new_start = new_lo + 1,
      new_count = new_hi - new_lo, plan = ls @ context_run be ae old_hi\<rparr>)"
  using assms by (simp add: group_hunk_def CONTEXT_LINES_def u32_add_def Let_def min_def)

lemma groups_chain:
  assumes "script_ok old new ri rj (concat gs)" "grouped gs"
    "length old + 6 < 2 ^ 32" "length new + 6 < 2 ^ 32"
    "c \<le> 3" "same_run old new ri rj c"
    "ri = 0 \<and> rj = 0 \<and> c = 0 \<or> gs = [] \<or> ri + 6 < before_start (hd (hd gs))"
  shows "chain old new (ri + c) (rj + c) (map (group_hunk (length old) (length new)) gs)"
  using assms
proof (induction gs arbitrary: ri rj c)
  case Nil
  then show ?case
    using same_run_sub[of old new ri rj "length old - ri" c "length old - (ri + c)"]
    by (auto simp: same_run_nth)
next
  case (Cons g gs)
  have ne: "g \<noteq> []" and gr: "grouped gs" and fr: "gs = [] \<or> far g (hd gs)"
    using Cons.prems(2) by (cases gs; auto simp: grouped_def)+
  obtain h hs where g: "g = h # hs" using ne by (cases g) auto
  define lo lo' where "lo = before_start h - 3" and "lo' = after_start h - 3"
  have lo: "ri + c \<le> lo" "rj + c \<le> lo'" "lo' + ri = lo + rj" "lo \<le> before_start h"
    using Cons.prems(1,5,6,7) g by (auto simp: lo_def lo'_def)
  have gap: "same_run old new ri rj (before_start h - ri)"
    by (rule script_ok_gap[OF Cons.prems(1)[unfolded concat.simps g append_Cons]])
  obtain ls where ls: "plan_loop g lo lo' = (ls, before_end (last g), after_end (last g))"
    "covers old new lo (before_end (last g)) lo' (after_end (last g)) ls"
    "script_ok old new (before_end (last g)) (after_end (last g)) (concat gs)"
    using plan_loop_covers[of old new ri rj g "concat gs" lo lo'] Cons.prems(1) lo ne g by auto
  let ?be = "before_end (last g)" and ?ae = "after_end (last g)"
  have be: "?be \<le> length old" "?ae \<le> length new" using ls(2) by (simp_all add: covers_def)
  have sep: "gs = [] \<or> ?be + 6 < before_start (hd (hd gs))"
    using fr be(1) Cons.prems(3) by (auto simp: far_def u32_add_def CONTEXT_LINES_def)
  define c' where "c' = min 3 (length old - ?be)"
  have c': "c' = min 3 (length new - ?ae)" "same_run old new ?be ?ae c'"
    using trailing_context[OF ls(3) sep _ be] gr by (auto simp: grouped_def c'_def)
  have ends: "min (?be + 3) (length old) = ?be + c'" "min (?ae + 3) (length new) = ?ae + c'"
    using be c'(1) by (auto simp: c'_def)
  have cov: "covers old new lo (?be + c') lo' (?ae + c') (ls @ context_run ?be ?ae (?be + c'))"
    using covers_append[OF ls(2) covers_context[of old new ?be ?ae "?be + c'"]] c'(2) by simp
  have hunk: "group_hunk (length old) (length new) g =
     \<lparr>old_start = lo + 1, old_count = ?be + c' - lo, new_start = lo' + 1,
      new_count = ?ae + c' - lo', plan = ls @ context_run ?be ?ae (?be + c')\<rparr>"
  proof -
    have hd: "hd g = h" using g by simp
    have "group_hunk (length old) (length new) g = (let old_lo = lo;
        old_hi = min (?be + 3) (length old); new_lo = lo'; new_hi = min (?ae + 3) (length new) in
     \<lparr>old_start = old_lo + 1, old_count = old_hi - old_lo, new_start = new_lo + 1,
      new_count = new_hi - new_lo, plan = ls @ context_run ?be ?ae old_hi\<rparr>)"
      unfolding lo_def lo'_def hd[symmetric]
      using ls(1) ne be Cons.prems(3,4) by (intro group_hunk_eq) (auto simp: lo_def lo'_def hd)
    then show ?thesis by (simp add: ends Let_def)
  qed
  have le: "lo \<le> ?be + c'" "lo' \<le> ?ae + c'" using cov by (simp_all add: covers_def)
  have run: "same_run old new (ri + c) (rj + c) (lo - (ri + c))"
    using same_run_sub[OF gap, of c "lo - (ri + c)"] lo by simp
  have "chain old new (?be + c') (?ae + c') (map (group_hunk (length old) (length new)) gs)"
    using Cons.IH[OF ls(3) gr Cons.prems(3,4) _ c'(2)] sep by (simp add: c'_def)
  then show ?case using lo le cov run hunk by (simp add: hunk_covers_def old_at_def new_at_def)
qed

lemma group_hunks_chain:
  assumes "script_ok old new 0 0 raw" "length old + 6 < 2 ^ 32" "length new + 6 < 2 ^ 32"
  shows "chain old new 0 0 (group_hunks raw (length old) (length new))"
proof -
  have "grouped (foldl group_step [] raw) \<and> concat (foldl group_step [] raw) = raw"
    using foldl_group_step[of "[]" raw] by (simp add: grouped_def)
  then show ?thesis
    using groups_chain[of old new 0 0 "foldl group_step [] raw" 0] assms
    by (simp add: group_hunks_def same_run_def)
qed

section \<open>Applying the hunks\<close>

lemma side_old: "side (CHR ''-'') (map (patch_line old new) ls) = map (token old) (old_indices ls)"
  by (induction ls rule: old_indices.induct) (auto simp: side_def)

lemma side_new:
  "contexts_ok old new ls
    \<Longrightarrow> side (CHR ''+'') (map (patch_line old new) ls) = map (token new) (new_indices ls)"
  by (induction ls rule: new_indices.induct) (auto simp: side_def contexts_ok_def token_def)

lemma side_flip:
  "side (CHR ''-'') (map (flip_sign \<circ> patch_line old new) ls) = side (CHR ''+'') (map (patch_line old new) ls)"
  "side (CHR ''+'') (map (flip_sign \<circ> patch_line old new) ls) = side (CHR ''-'') (map (patch_line old new) ls)"
  by (induction ls rule: old_indices.induct) (auto simp: side_def flip_sign_def)

lemma map_token_upt:
  "i' \<le> length xs \<Longrightarrow> map (token xs) [i..<i'] = take (i' - i) (drop i xs)"
  by (rule nth_equalityI) (auto simp: token_def)

definition old_part :: "'a list \<Rightarrow> ComputedHunk \<Rightarrow> 'a list" where
  "old_part old h = take (old_count h) (drop (old_at h) old)"

definition new_part :: "'a list \<Rightarrow> ComputedHunk \<Rightarrow> 'a list" where
  "new_part new h = take (new_count h) (drop (new_at h) new)"

lemma hunk_sides:
  assumes "hunk_covers old new h"
  shows "side (CHR ''-'') (map (patch_line old new) (plan h)) = old_part old h"
    "side (CHR ''+'') (map (patch_line old new) (plan h)) = new_part new h"
    "length (old_part old h) = old_count h" "length (new_part new h) = new_count h"
    "old_at h + old_count h \<le> length old" "new_at h + new_count h \<le> length new"
  using assms
  by (auto simp: hunk_covers_def covers_def side_old side_new map_token_upt old_part_def new_part_def)

lemma drop_at: "i \<le> m \<Longrightarrow> drop (m - i) (drop i xs) = drop m xs"
  by simp

lemma take_part: "take n (drop m xs) @ drop (m + n) xs = drop m xs"
  by (metis append_take_drop_id drop_drop add.commute)

lemma gap_part: "i \<le> m \<Longrightarrow> take (m - i) (drop i xs) @ drop m xs = drop i xs"
  by (metis append_take_drop_id drop_at)

lemma apply_patch_file:
  assumes "pos \<le> lo" "lo + n \<le> length file" "side (CHR ''-'') body = take n (drop lo file)"
    "start = lo + 1"
  shows "apply_patch ((start, body) # hs) pos (drop pos file) =
    map_option (\<lambda>out. take (lo - pos) (drop pos file) @ side (CHR ''+'') body @ out)
      (apply_patch hs (lo + n) (drop (lo + n) file))"
proof -
  have "length (take n (drop lo file)) = n" "lo - pos \<le> length (drop pos file)"
    "drop (lo - pos) (drop pos file) = drop lo file"
    using assms(1,2) by simp_all
  then show ?thesis using assms(1,3,4) by (simp add: Let_def add.commute)
qed

lemma apply_forward:
  assumes "hunk_covers old new h" "p \<le> old_at h"
  shows "apply_patch (forward old new h # hs) p (drop p old) =
    map_option (\<lambda>out. take (old_at h - p) (drop p old) @ new_part new h @ out)
      (apply_patch hs (old_at h + old_count h) (drop (old_at h + old_count h) old))"
proof -
  note s = hunk_sides[OF assms(1)]
  have "old_start h = old_at h + 1" using assms(1) by (simp add: hunk_covers_def old_at_def)
  from apply_patch_file[OF assms(2) s(5) s(1)[unfolded old_part_def] this] show ?thesis
    by (simp only: forward_def s(2))
qed

lemma apply_backward:
  assumes "hunk_covers old new h" "p \<le> new_at h"
  shows "apply_patch (backward old new h # hs) p (drop p new) =
    map_option (\<lambda>out. take (new_at h - p) (drop p new) @ old_part old h @ out)
      (apply_patch hs (new_at h + new_count h) (drop (new_at h + new_count h) new))"
proof -
  note s = hunk_sides[OF assms(1)]
  have "new_start h = new_at h + 1" using assms(1) by (simp add: hunk_covers_def new_at_def)
  from apply_patch_file[OF assms(2) s(6) s(2)[unfolded new_part_def, folded side_flip(1)] this]
  show ?thesis by (simp only: backward_def side_flip s(1))
qed

declare apply_patch.simps(2) [simp del]

lemma chain_forward:
  "chain old new i j hs \<Longrightarrow> i \<le> length old
    \<Longrightarrow> apply_patch (map (forward old new) hs) i (drop i old) = Some (drop j new)"
proof (induction hs arbitrary: i j)
  case Nil
  then show ?case by (auto simp: same_run_def)
next
  case (Cons h hs)
  let ?o = "old_at h" and ?n = "new_at h"
  have c: "hunk_covers old new h" "i \<le> ?o" "j \<le> ?n" "?o - i = ?n - j" "same_run old new i j (?o - i)"
    "chain old new (?o + old_count h) (?n + new_count h) hs"
    using Cons.prems(1) unfolding chain.simps by blast+
  note s = hunk_sides[OF c(1)]
  have "take (?o - i) (drop i old) = take (?n - j) (drop j new)"
    using c(4,5) by (simp add: same_run_def)
  moreover have "take (?n - j) (drop j new) @ new_part new h @ drop (?n + new_count h) new = drop j new"
    using c(3) by (simp add: new_part_def take_part gap_part)
  moreover have "apply_patch (map (forward old new) hs) (?o + old_count h) (drop (?o + old_count h) old)
      = Some (drop (?n + new_count h) new)"
    using Cons.IH[OF c(6)] s(5) by simp
  ultimately show ?case by (simp add: apply_forward[OF c(1,2)])
qed

text \<open>The file that results from reverting only the marked hunks.\<close>

fun revert_marked :: "'a list \<Rightarrow> 'a list \<Rightarrow> nat \<Rightarrow> (ComputedHunk \<times> bool) list \<Rightarrow> 'a list" where
  "revert_marked old new j [] = drop j new"
| "revert_marked old new j ((h, selected) # hs) =
     take (new_at h - j) (drop j new)
     @ (if selected then old_part old h else new_part new h)
     @ revert_marked old new (new_at h + new_count h) hs"

lemma gap_gap:
  "p \<le> j \<Longrightarrow> j \<le> n \<Longrightarrow> take (j - p) (drop p xs) @ take (n - j) (drop j xs) = take (n - p) (drop p xs)"
  using take_add[of "j - p" "n - j" "drop p xs"] by simp

lemma chain_revert:
  "chain old new i j (map fst ms) \<Longrightarrow> p \<le> j \<Longrightarrow> j \<le> length new
    \<Longrightarrow> apply_patch (map (backward old new) (map fst (filter snd ms))) p (drop p new)
        = Some (take (j - p) (drop p new) @ revert_marked old new j ms)"
proof (induction ms arbitrary: i j p)
  case Nil
  then show ?case by (simp add: gap_part)
next
  case (Cons m ms)
  obtain h b where m: "m = (h, b)" by (cases m)
  let ?o = "old_at h" and ?n = "new_at h"
  have c: "hunk_covers old new h" "j \<le> ?n"
    "chain old new (?o + old_count h) (?n + new_count h) (map fst ms)"
    using Cons.prems(1) unfolding m list.map fst_conv chain.simps by blast+
  note s = hunk_sides[OF c(1)]
  show ?case
  proof (cases b)
    case True
    have "apply_patch (map (backward old new) (map fst (filter snd ms))) (?n + new_count h)
        (drop (?n + new_count h) new) = Some (revert_marked old new (?n + new_count h) ms)"
      using Cons.IH[OF c(3) order_refl s(6)] by simp
    moreover have "p \<le> ?n" using Cons.prems(2) c(2) by simp
    ultimately show ?thesis
      using True m gap_gap[OF Cons.prems(2) c(2), of new]
      by (simp add: apply_backward[OF c(1)] flip: append_assoc)
  next
    case False
    have "take (j - p) (drop p new) @ take (?n - j) (drop j new) @ new_part new h
        = take (?n + new_count h - p) (drop p new)"
      using gap_gap[OF Cons.prems(2) c(2), of new]
        gap_gap[of p "?n" "?n + new_count h" new] Cons.prems(2) c(2)
      by (simp add: new_part_def flip: append_assoc)
    then show ?thesis
      using False m Cons.IH[OF c(3) _ s(6), of p] Cons.prems(2) c(2) by (simp flip: append_assoc)
  qed
qed

lemma revert_all:
  "chain old new i j hs \<Longrightarrow> revert_marked old new j (map (\<lambda>h. (h, True)) hs) = drop i old"
proof (induction hs arbitrary: i j)
  case Nil
  then show ?case by (auto simp: same_run_def)
next
  case (Cons h hs)
  let ?o = "old_at h" and ?n = "new_at h"
  have c: "hunk_covers old new h" "i \<le> ?o" "?o - i = ?n - j" "same_run old new i j (?o - i)"
    "chain old new (?o + old_count h) (?n + new_count h) hs"
    using Cons.prems(1) unfolding chain.simps by blast+
  have "take (?n - j) (drop j new) = take (?o - i) (drop i old)"
    using c(3,4) by (simp add: same_run_def)
  then show ?case using Cons.IH[OF c(5)] c(2) by (simp add: old_part_def take_part gap_part)
qed

text \<open>
  C7. \<^emph>\<open>The hunks are the change.\<close> Whenever the diff algorithm returns an edit script of the two
  texts, applying the grouped hunks (with their three context lines) to the old lines yields
  exactly the new lines, and applying them in reverse to the new lines yields the old ones.
\<close>

theorem compute_roundtrip:
  assumes "script_ok (line_tokens old) (line_tokens new) 0 0 (diff (line_tokens old) (line_tokens new))"
    "length (line_tokens old) + 6 < 2 ^ 32" "length (line_tokens new) + 6 < 2 ^ 32"
  shows "apply_patch (map (forward (line_tokens old) (line_tokens new)) (compute diff old new)) 0
           (line_tokens old) = Some (line_tokens new)
    \<and> apply_patch (map (backward (line_tokens old) (line_tokens new)) (compute diff old new)) 0
           (line_tokens new) = Some (line_tokens old)"
proof -
  let ?o = "line_tokens old" and ?n = "line_tokens new"
  have c: "chain ?o ?n 0 0 (compute diff old new)"
    unfolding compute_def by (rule group_hunks_chain[OF assms])
  show ?thesis
    using chain_forward[OF c] revert_all[OF c]
      chain_revert[of ?o ?n 0 0 "map (\<lambda>h. (h, True)) (compute diff old new)" 0] c
    by (simp add: comp_def filter_map)
qed

theorem compute_roundtrip_witness:
  "apply_patch (map (backward [''a'' @ [newline]] [''a'' @ [newline], ''b''])
     (compute (\<lambda>_ _. [\<lparr>before_start = 1, before_end = 1, after_start = 1, after_end = 2\<rparr>])
        (''a'' @ [newline]) (''a'' @ [newline] @ ''b''))) 0 [''a'' @ [newline], ''b'']
     = Some [''a'' @ [newline]]"
  using compute_roundtrip[of "''a'' @ [newline]" "''a'' @ [newline] @ ''b''"
      "\<lambda>_ _. [\<lparr>before_start = 1, before_end = 1, after_start = 1, after_end = 2\<rparr>]"]
  by (simp add: line_tokens_def same_run_def)



section \<open>The text of a patch\<close>

text \<open>
  A reader of unified diffs: the header gives the line counts, and body lines are read until
  the counts are used up; a following marker removes the newline of the last line read.
\<close>

definition take_marker :: "string \<Rightarrow> string list \<Rightarrow> string \<times> string list" where
  "take_marker t ls = (if ls \<noteq> [] \<and> hd ls = no_newline_marker then (butlast t, tl ls) else (t, ls))"

lemma take_marker_shorter: "(t', ls') = take_marker t ls \<Longrightarrow> length ls' \<le> length ls"
  by (auto simp: take_marker_def split: if_splits)

function parse_body :: "nat \<Rightarrow> nat \<Rightarrow> string list \<Rightarrow> ((char \<times> string) list \<times> string list) option" where
  "parse_body oc nc ls =
     (if oc = 0 \<and> nc = 0 then Some ([], ls)
      else case ls of
        (p # t) # ls1 \<Rightarrow>
          (case take_marker t ls1 of (tok, ls2) \<Rightarrow>
             if p = CHR '' '' \<and> 0 < oc \<and> 0 < nc
             then map_option (\<lambda>(b, r). ((p, tok) # b, r)) (parse_body (oc - 1) (nc - 1) ls2)
             else if p = CHR ''-'' \<and> 0 < oc
             then map_option (\<lambda>(b, r). ((p, tok) # b, r)) (parse_body (oc - 1) nc ls2)
             else if p = CHR ''+'' \<and> 0 < nc
             then map_option (\<lambda>(b, r). ((p, tok) # b, r)) (parse_body oc (nc - 1) ls2)
             else None)
      | _ \<Rightarrow> None)"
  by pat_completeness auto
termination by (relation "measure (\<lambda>(oc, nc, ls). oc + nc)") auto

declare parse_body.simps [simp del]

definition line_token :: "string \<Rightarrow> bool" where
  "line_token t \<longleftrightarrow> t \<noteq> [] \<and> newline \<notin> set (butlast t)"

lemma line_tokens_are: "t \<in> set (line_tokens s) \<Longrightarrow> line_token t"
  by (auto simp: line_tokens_def line_token_def split_inclusive_inner dest: split_inclusive_ne
           split: if_splits)

definition signed :: "char \<Rightarrow> bool" where
  "signed p \<longleftrightarrow> p = CHR '' '' \<or> p = CHR ''-'' \<or> p = CHR ''+''"

definition not_marker :: "string \<Rightarrow> bool" where
  "not_marker s \<longleftrightarrow> s = [] \<or> hd s \<noteq> CHR 0x5C"

lemma split_push_patch_line:
  assumes "line_token t" "signed p" "not_marker s"
  shows "\<exists>x xs. split_inclusive newline (push_patch_line p t @ s) = (p # x) # xs
    \<and> take_marker x xs = (t, split_inclusive newline s)"
proof (cases "last t = newline")
  case True
  then have t: "t = butlast t @ [newline]" using assms(1) by (metis append_butlast_last_id line_token_def)
  have "ends_with [newline] t" using True assms(1) by (simp add: ends_with_char line_token_def)
  then have eq: "push_patch_line p t @ s = (p # butlast t) @ newline # s"
    using t by (simp add: push_patch_line_def)
  have "newline \<notin> set (p # butlast t)" using assms by (auto simp: line_token_def signed_def)
  then have "split_inclusive newline (push_patch_line p t @ s) = (p # t) # split_inclusive newline s"
    unfolding eq by (subst split_inclusive_line) (use t in auto)
  moreover have "take_marker t (split_inclusive newline s) = (t, split_inclusive newline s)"
    using assms(3) concat_split_inclusive[of newline s]
    by (cases "split_inclusive newline s") (auto simp: take_marker_def not_marker_def)
  ultimately show ?thesis by simp
next
  case False
  then have "newline \<notin> set t"
    using assms(1) by (cases t rule: rev_cases) (auto simp: line_token_def)
  then have nl: "\<not> ends_with [newline] t" "newline \<notin> set (p # t)"
    using False assms(2) by (auto simp: ends_with_char signed_def)
  have eq: "push_patch_line p t @ s = (p # t) @ newline # (CHR 0x5C # '' No newline at end of file'') @ newline # s"
    using nl(1) by (simp add: push_patch_line_def)
  have "split_inclusive newline (push_patch_line p t @ s)
      = (p # t @ [newline]) # no_newline_marker # split_inclusive newline s"
    unfolding eq using nl(2) by (subst split_inclusive_line, simp)+ simp
  then show ?thesis by (auto simp: take_marker_def)
qed

definition body_text :: "(char \<times> string) list \<Rightarrow> string" where
  "body_text ls = concat (map (\<lambda>(p, t). push_patch_line p t) ls)"

lemma not_marker_body: "list_all (\<lambda>(p, t). signed p) ls \<Longrightarrow> not_marker s \<Longrightarrow> not_marker (body_text ls @ s)"
  by (cases ls) (auto simp: body_text_def push_patch_line_def not_marker_def signed_def)

lemma parse_body_text:
  assumes "list_all (\<lambda>(p, t). signed p \<and> line_token t) ls" "not_marker s"
    "oc = length (side (CHR ''-'') ls)" "nc = length (side (CHR ''+'') ls)"
  shows "parse_body oc nc (split_inclusive newline (body_text ls @ s))
    = Some (ls, split_inclusive newline s)"
  using assms
proof (induction ls arbitrary: oc nc)
  case Nil
  then show ?case by (subst parse_body.simps) (simp add: side_def body_text_def)
next
  case (Cons l ls)
  obtain p t where l: "l = (p, t)" by (cases l)
  have "not_marker (body_text ls @ s)"
    using Cons.prems by (intro not_marker_body) (auto simp: list_all_iff)
  with Cons.prems(1) l obtain x xs where
    x: "split_inclusive newline (push_patch_line p t @ body_text ls @ s) = (p # x) # xs"
    "take_marker x xs = (t, split_inclusive newline (body_text ls @ s))"
    using split_push_patch_line[of t p "body_text ls @ s"] by auto
  have IH: "parse_body (length (side (CHR ''-'') ls)) (length (side (CHR ''+'') ls))
      (split_inclusive newline (body_text ls @ s)) = Some (ls, split_inclusive newline s)"
    using Cons.IH[OF _ Cons.prems(2)] Cons.prems(1) by simp
  have "split_inclusive newline (body_text (l # ls) @ s) = (p # x) # xs"
    using x(1) l by (simp add: body_text_def)
  then show ?case
    using Cons.prems l x(2) IH
    by (subst parse_body.simps) (auto simp: side_def signed_def)
qed

text \<open>The header line of a hunk.\<close>

definition parse_range :: "char \<Rightarrow> string \<Rightarrow> (nat \<times> nat \<times> string) option" where
  "parse_range stop s =
     (case split_once (CHR '','') s of None \<Rightarrow> None
      | Some (a, r) \<Rightarrow>
          (case split_once stop r of None \<Rightarrow> None
           | Some (b, r') \<Rightarrow>
               (case (parse_u32 a, parse_u32 b) of
                  (Some m, Some n) \<Rightarrow> Some (m, n, r') | _ \<Rightarrow> None)))"

definition parse_header :: "string \<Rightarrow> (nat \<times> nat \<times> nat \<times> nat) option" where
  "parse_header l =
     (case strip_prefix ''@@ -'' l of None \<Rightarrow> None
      | Some s \<Rightarrow>
          (case parse_range (CHR '' '') s of None \<Rightarrow> None
           | Some (os, oc, s') \<Rightarrow>
               (case strip_prefix ''+'' s' of None \<Rightarrow> None
                | Some s'' \<Rightarrow>
                    (case parse_range (CHR '' '') s'' of None \<Rightarrow> None
                     | Some (ns, nc, r) \<Rightarrow>
                         if r = ''@@'' @ [newline] then Some (os, oc, ns, nc) else None))))"

lemma split_once_show:
  "of_char c < (48::nat) \<or> (58::nat) \<le> of_char c
    \<Longrightarrow> split_once c (show_nat n @ c # r) = Some (show_nat n, r)"
  by (simp add: split_once_Some show_nat_free)

lemma parse_range_show:
  "m < 2 ^ 32 \<Longrightarrow> n < 2 ^ 32
    \<Longrightarrow> parse_range (CHR '' '') (show_nat m @ CHR '','' # show_nat n @ CHR '' '' # r) = Some (m, n, r)"
  by (simp add: parse_range_def split_once_show parse_u32_show del: power_numeral)

definition u32_hunk :: "ComputedHunk \<Rightarrow> bool" where
  "u32_hunk h \<longleftrightarrow> old_start h < 2 ^ 32 \<and> old_count h < 2 ^ 32 \<and> new_start h < 2 ^ 32 \<and> new_count h < 2 ^ 32"

lemma parse_header_show:
  assumes "u32_hunk h"
  shows "parse_header (hunk_header h) = Some (old_start h, old_count h, new_start h, new_count h)"
proof -
  have eq: "hunk_header h = ''@@ -'' @ (show_nat (old_start h) @ CHR '','' # show_nat (old_count h) @ CHR '' '' #
    (''+'' @ (show_nat (new_start h) @ CHR '','' # show_nat (new_count h) @ CHR '' '' # (''@@'' @ [newline]))))"
    by (simp add: hunk_header_def)
  show ?thesis
    unfolding eq parse_header_def
    using assms by (simp only: strip_prefix_append option.case prod.case parse_range_show u32_hunk_def if_True
        simp_thms)
qed

lemma parse_body_shorter: "parse_body oc nc ls = Some (b, r) \<Longrightarrow> length r \<le> length ls"
proof (induction oc nc ls arbitrary: b r rule: parse_body.induct)
  case (1 oc nc ls)
  show ?case
  proof (cases "oc = 0 \<and> nc = 0")
    case True
    then show ?thesis using "1.prems" by (simp add: parse_body.simps)
  next
    case False
    with "1.prems" obtain p t ls1 where ls: "ls = (p # t) # ls1"
      by (subst (asm) parse_body.simps) (auto split: list.splits)
    obtain tok ls2 where m: "take_marker t ls1 = (tok, ls2)" by fastforce
    with take_marker_shorter[OF m[symmetric]] have len: "length ls2 \<le> Suc (length ls1)" by simp
    from "1.prems" False m ls "1.IH"[OF False ls refl m[symmetric]] show ?thesis
      by (subst (asm) parse_body.simps) (auto split: if_splits intro: le_trans[OF _ len])
  qed
qed

function parse_hunks :: "string list \<Rightarrow> (nat \<times> nat \<times> (char \<times> string) list) list option" where
  "parse_hunks ls =
     (case ls of [] \<Rightarrow> Some []
      | l # ls1 \<Rightarrow>
          (case parse_header l of None \<Rightarrow> None
           | Some (os, oc, ns, nc) \<Rightarrow>
               (case parse_body oc nc ls1 of None \<Rightarrow> None
                | Some (b, r) \<Rightarrow> map_option ((#) (os, ns, b)) (parse_hunks r))))"
  by pat_completeness auto
termination
  by (relation "measure length") (auto dest: parse_body_shorter)

declare parse_hunks.simps [simp del]

lemma token_line: "list_all line_token xs \<Longrightarrow> i < length xs \<Longrightarrow> line_token (token xs i)"
  by (simp add: token_def list_all_length)

lemma patch_line_tokens:
  assumes "list_all line_token old" "list_all line_token new" "\<forall>i \<in> set (old_indices ls). i < length old"
    "\<forall>j \<in> set (new_indices ls). j < length new"
  shows "list_all (\<lambda>(p, t). signed p \<and> line_token t) (map (patch_line old new) ls)"
  using assms(3,4)
  by (induction ls rule: old_indices.induct)
     (auto simp: signed_def token_line[OF assms(1)] token_line[OF assms(2)])

lemma render_hunk_text:
  "render_hunk old new h = hunk_header h @ body_text (map (patch_line old new) (plan h))"
  by (simp add: render_hunk_def body_text_def comp_def)

lemma hunk_header_line:
  "split_inclusive newline (hunk_header h @ s) = hunk_header h # split_inclusive newline s"
proof -
  obtain l where l: "hunk_header h = l @ [newline]" "newline \<notin> set l"
    by (rule that[of "butlast (hunk_header h)"]) (auto simp: hunk_header_def butlast_append show_nat_free)
  then show ?thesis by (simp add: split_inclusive_line)
qed

lemma parse_hunks_render:
  assumes "list_all line_token old" "list_all line_token new"
    "\<And>h. h \<in> set hs \<Longrightarrow> hunk_covers old new h \<and> u32_hunk h"
  shows "parse_hunks (split_inclusive newline (concat (map (render_hunk old new) hs)))
    = Some (map (\<lambda>h. (old_start h, new_start h, map (patch_line old new) (plan h))) hs)"
  using assms(3)
proof (induction hs)
  case Nil
  then show ?case by (simp add: parse_hunks.simps)
next
  case (Cons h hs)
  let ?rest = "concat (map (render_hunk old new) hs)"
  let ?ls = "map (patch_line old new) (plan h)"
  have h: "hunk_covers old new h" "u32_hunk h" using Cons.prems by auto
  have "not_marker ?rest"
    by (cases hs) (auto simp: not_marker_def render_hunk_def hunk_header_def)
  moreover have "list_all (\<lambda>(p, t). signed p \<and> line_token t) ?ls"
    using h(1) by (intro patch_line_tokens[OF assms(1,2)]) (auto simp: hunk_covers_def covers_def)
  ultimately have "parse_body (old_count h) (new_count h)
      (split_inclusive newline (body_text ?ls @ ?rest)) = Some (?ls, split_inclusive newline ?rest)"
    using hunk_sides[OF h(1)] by (intro parse_body_text) simp_all
  then show ?case
    using Cons.IH Cons.prems
    by (simp add: render_hunk_text[of old new h] hunk_header_line)
       (subst parse_hunks.simps, simp add: parse_header_show[OF h(2)])
qed

lemma chain_covers: "chain old new i j hs \<Longrightarrow> h \<in> set hs \<Longrightarrow> hunk_covers old new h"
  by (induction hs arbitrary: i j) auto

text \<open>
  \<^emph>\<open>The patch text is read back.\<close> For any selection of the computed hunks, a reader of
  unified diffs that takes the line counts from the headers gets from the rendered text
  exactly the planned lines, including lines without a final newline; so the header counts
  are right and the text handed to \<open>git apply\<close> denotes the computed hunks.
\<close>

theorem patch_text_roundtrip:
  assumes "script_ok (line_tokens old) (line_tokens new) 0 0 (diff (line_tokens old) (line_tokens new))"
    "length (line_tokens old) + 6 < 2 ^ 32" "length (line_tokens new) + 6 < 2 ^ 32"
    "set selected \<subseteq> set (compute diff old new)"
  shows "parse_hunks (split_inclusive newline
      (concat (map (render_hunk (line_tokens old) (line_tokens new)) selected)))
    = Some (map (\<lambda>h. (old_start h, new_start h,
        map (patch_line (line_tokens old) (line_tokens new)) (plan h))) selected)"
proof (rule parse_hunks_render)
  have c: "chain (line_tokens old) (line_tokens new) 0 0 (compute diff old new)"
    unfolding compute_def by (rule group_hunks_chain[OF assms(1-3)])
  fix h assume "h \<in> set selected"
  with assms(4) have h: "hunk_covers (line_tokens old) (line_tokens new) h"
    using chain_covers[OF c] by blast
  moreover have "u32_hunk h"
    using hunk_sides(5,6)[OF h] assms(2,3)
    by (auto simp: u32_hunk_def old_at_def new_at_def)
  ultimately show "hunk_covers (line_tokens old) (line_tokens new) h \<and> u32_hunk h" by simp
qed (auto simp: list_all_iff line_tokens_are)

theorem patch_text_roundtrip_witness:
  "parse_hunks (split_inclusive newline
      (concat (map (render_hunk (line_tokens [newline]) (line_tokens ''b''))
        (compute (\<lambda>_ _. [\<lparr>before_start = 0, before_end = 1, after_start = 0, after_end = 1\<rparr>]) [newline] ''b''))))
    = Some [(1, 1, [(CHR ''-'', [newline]), (CHR ''+'', ''b'')])]"
proof -
  let ?d = "\<lambda>_ _. [\<lparr>before_start = 0, before_end = 1, after_start = 0, after_end = 1\<rparr>]"
  have "compute ?d [newline] ''b'' = [\<lparr>old_start = 1, old_count = 1, new_start = 1, new_count = 1,
      plan = [Remove 0, Add 0]\<rparr>]"
    by (simp add: compute_def group_hunks_def group_step_def merges_def group_hunk_def line_tokens_def
        CONTEXT_LINES_def u32_add_def context_run.simps)
  with patch_text_roundtrip[of "[newline]" "''b''" ?d "compute ?d [newline] ''b''"] show ?thesis
    by (simp add: line_tokens_def same_run_def token_def)
qed

section \<open>Quoted paths\<close>

text \<open>How git reads a path: a leading quote starts a C-style string.\<close>

definition octal_val :: "char \<Rightarrow> char \<Rightarrow> char \<Rightarrow> char option" where
  "octal_val a b c =
     (case (digit_val a, digit_val b, digit_val c) of
        (Some x, Some y, Some z) \<Rightarrow> Some (char_of (64 * x + 8 * y + z))
      | _ \<Rightarrow> None)"

fun unquote :: "string \<Rightarrow> string option" where
  "unquote (c # s) =
     (if c = CHR 0x22 then (if s = [] then Some [] else None)
      else if c = CHR 0x5C then
        (case s of
           d # s' \<Rightarrow>
             if d = CHR 0x22 \<or> d = CHR 0x5C then map_option ((#) d) (unquote s')
             else (case s' of
                 e # f # s'' \<Rightarrow>
                   (case octal_val d e f of None \<Rightarrow> None | Some b \<Rightarrow> map_option ((#) b) (unquote s''))
               | _ \<Rightarrow> None)
         | [] \<Rightarrow> None)
      else map_option ((#) c) (unquote s))"
| "unquote [] = None"

definition read_path :: "string \<Rightarrow> string option" where
  "read_path s = (case s of [] \<Rightarrow> Some []
     | c # cs \<Rightarrow> if c = CHR 0x22 then unquote cs else Some s)"

lemma octal3_val:
  assumes "n < 256"
  shows "octal_val (digit (n div 64)) (digit (n div 8 mod 8)) (digit (n mod 8)) = Some (char_of n)"
proof -
  have "8 * (n div 8) + n mod 8 = n" "8 * (n div 8 div 8) + n div 8 mod 8 = n div 8"
    by (rule mult_div_mod_eq)+
  moreover have "n div 64 = n div 8 div 8" using div_mult2_eq[of n 8 8] by simp
  ultimately have "64 * (n div 64) + 8 * (n div 8 mod 8) + n mod 8 = n" by linarith
  then show ?thesis using assms by (simp add: octal_val_def less_mult_imp_div_less)
qed

lemma digit_first: "n < 256 \<Longrightarrow> digit (n div 64) \<noteq> CHR 0x22 \<and> digit (n div 64) \<noteq> CHR 0x5C"
  using digit_not[of "n div 64"] by (auto simp: less_mult_imp_div_less)

lemma unquote_byte: "unquote (quote_byte b @ s) = map_option ((#) b) (unquote s)"
proof -
  have "of_char b < (256::nat)" by (rule nat_of_char_less_256)
  then show ?thesis
    using octal3_val[of "of_char b"] digit_first[of "of_char b"]
    by (simp add: quote_byte_def octal3_def)
qed

lemma unquote_quoted: "unquote (concat (map quote_byte s) @ [CHR 0x22]) = Some s"
  by (induction s) (simp_all add: unquote_byte del: unquote.simps(1), simp)

text \<open>
  \<^emph>\<open>Header paths are read back.\<close> Whatever bytes a path holds (spaces, quotes, backslashes,
  control and non-ASCII bytes), git reads the header path back as the side prefix and the
  path.
\<close>

theorem header_path_roundtrip:
  "read_path (path_for_header ''a'' path) = Some (''a/'' @ path)
    \<and> read_path (path_for_header ''b'' path) = Some (''b/'' @ path)"
  using unquote_quoted[of "''a/'' @ path"] unquote_quoted[of "''b/'' @ path"]
  by (auto simp: path_for_header_def read_path_def Let_def)

section \<open>Display text\<close>

text \<open>
  \<^emph>\<open>What the UI shows of a line.\<close> A line ended by LF or CRLF is shown without its
  terminator; a last line without a final newline is shown as the empty string, whatever it
  contains.
\<close>

theorem display_text:
  assumes "newline \<notin> set l" "l \<noteq> []"
  shows "strip_newline (line_tokens (l @ newline # rest)) 0 = (if last l = cr then butlast l else l)
    \<and> line_tokens l = [l] \<and> strip_newline (line_tokens l) 0 = []"
proof -
  have "strip_suffix [cr] l = (if last l = cr then Some (butlast l) else None)"
    using assms(2) by (cases l rule: rev_cases) (auto simp: strip_suffix_def strip_prefix_def)
  then have "strip_newline (line_tokens (l @ newline # rest)) 0 = (if last l = cr then butlast l else l)"
    using split_inclusive_line[OF assms(1)] by (simp add: strip_newline_def token_def line_tokens_def)
  moreover have "line_tokens l = [l]"
    using assms split_inclusive_free[of newline l] by (simp add: line_tokens_def)
  moreover have "strip_suffix [newline] l = None"
    using assms(1) by (cases "strip_suffix [newline] l") (auto simp: strip_suffix_Some)
  ultimately show ?thesis by (simp add: strip_newline_def token_def)
qed

theorem display_text_witness: "strip_newline (line_tokens ''foo'') 0 = []"
proof -
  have "newline \<notin> set ''foo''" "''foo'' \<noteq> []" by simp_all
  from display_text[OF this, of "[]"] show ?thesis by blast
qed

section \<open>The cache\<close>

definition cache_wf :: "DiffCache \<Rightarrow> bool" where
  "cache_wf c \<longleftrightarrow> 0 < dc_capacity c \<and> length (dc_order c) \<le> dc_capacity c
     \<and> distinct (dc_order c) \<and> map fst (dc_entries c) = rev (dc_order c)"

lemma filter_not_last:
  assumes "distinct (xs @ [k])" "map fst es = xs @ [k]"
  shows "map fst (filter (\<lambda>e. fst e \<noteq> k) es) = xs"
proof -
  have "map fst (filter (\<lambda>e. fst e \<noteq> k) es) = filter (\<lambda>x. x \<noteq> k) (map fst es)"
    by (simp add: filter_map comp_def)
  with assms show ?thesis by (auto simp: filter_id_conv)
qed

lemma cache_evict_wf:
  assumes "cache_wf c"
  shows "cache_wf (cache_evict c) \<and> length (dc_order (cache_evict c)) < dc_capacity c
    \<and> dc_capacity (cache_evict c) = dc_capacity c
    \<and> dc_order (cache_evict c) = last_n (dc_capacity c - 1) (dc_order c)"
proof -
  have len: "length (dc_entries c) = length (dc_order c)"
    using assms by (metis cache_wf_def length_map length_rev)
  show ?thesis
  proof (cases "length (dc_order c) < dc_capacity c")
    case True
    then show ?thesis using assms len by (simp add: cache_evict_def last_n_def)
  next
    case False
    then obtain k ks where o: "dc_order c = k # ks"
      using assms by (cases "dc_order c") (auto simp: cache_wf_def)
    moreover have "map fst (filter (\<lambda>e. fst e \<noteq> k) (dc_entries c)) = rev ks"
      using assms o by (intro filter_not_last) (auto simp: cache_wf_def)
    ultimately show ?thesis
      using assms False len by (auto simp: cache_evict_def cache_wf_def last_n_def)
  qed
qed

lemma cache_insert_wf:
  assumes "cache_wf c"
  shows "cache_wf (cache_insert c key hunks)"
proof (cases "map_of (dc_entries c) key")
  case None
  have "set (dc_order (cache_evict c)) \<subseteq> set (dc_order c)"
    using cache_evict_wf[OF assms] by (auto simp: last_n_def dest: in_set_dropD)
  moreover have "key \<notin> set (dc_order c)"
    using None assms by (metis cache_wf_def map_of_eq_None_iff set_map set_rev)
  ultimately show ?thesis
    using None cache_evict_wf[OF assms] by (auto simp: cache_insert_def cache_wf_def Let_def)
qed (use assms in \<open>simp add: cache_insert_def\<close>)

interpretation cache: step_invariant cache_default "\<lambda>c (k, hs). cache_insert c k hs" cache_wf
  by unfold_locales
     (auto simp: cache_insert_wf, simp add: cache_wf_def cache_default_def CACHE_CAPACITY_def)

text \<open>
  \<^emph>\<open>The cache is a bounded FIFO.\<close> After any insertions from the empty cache at most 256
  results are held; inserting a new key makes exactly that result retrievable and keeps the
  most recent 255 others with their results; inserting a key that is present changes nothing.
\<close>

theorem diff_cache_bounded_fifo:
  "let c = run_steps (\<lambda>c (k, hs). cache_insert c k hs) cache_default ins;
       c' = cache_insert c key hunks in
   length (dc_entries c) \<le> 256
   \<and> (if cache_get c key = None
      then dc_order c' = last_n 255 (dc_order c) @ [key]
        \<and> (\<forall>k. cache_get c' k = (if k = key then Some hunks
             else if k \<in> set (last_n 255 (dc_order c)) then cache_get c k else None))
      else c' = c)"
proof -
  define c where "c = run_steps (\<lambda>c (k, hs). cache_insert c k hs) cache_default ins"
  have wf: "cache_wf c" unfolding c_def by (rule cache.inv_run)
  have cap: "dc_capacity c = 256"
  proof -
    have "dc_capacity (run_steps (\<lambda>c (k, hs). cache_insert c k hs) c0 ins) = dc_capacity c0" for c0
      by (induction ins arbitrary: c0)
         (auto simp: cache_insert_def cache_evict_def Let_def split: list.split)
    then show ?thesis by (simp add: c_def cache_default_def CACHE_CAPACITY_def)
  qed
  have len: "length (dc_entries c) = length (dc_order c)"
    using wf by (metis cache_wf_def length_map length_rev)
  have ev: "dc_order (cache_evict c) = last_n 255 (dc_order c)"
    and wfe: "cache_wf (cache_evict c)" using cache_evict_wf[OF wf] cap by simp_all
  have keys: "fst ` set (dc_entries (cache_evict c)) = set (last_n 255 (dc_order c))"
    using wfe ev by (metis cache_wf_def set_map set_rev)
  have get: "map_of (dc_entries (cache_evict c)) k
      = (if k \<in> set (last_n 255 (dc_order c)) then cache_get c k else None)" for k
  proof (cases "k \<in> set (last_n 255 (dc_order c))")
    case False
    then show ?thesis using keys by (simp add: map_of_eq_None_iff)
  next
    case True
    then have "k \<in> fst ` set (dc_entries (cache_evict c))" using keys by simp
    then have "map_of (dc_entries (cache_evict c)) k = map_of (dc_entries c) k"
      by (cases "dc_order c") (auto simp: cache_evict_def map_of_filter_neq split: if_splits)
    with True show ?thesis by (simp add: cache_get_def)
  qed
  have "length (dc_entries c) \<le> 256" using wf cap len by (simp add: cache_wf_def)
  then show ?thesis
    unfolding c_def[symmetric] Let_def
    using ev get by (auto simp: cache_insert_def Let_def cache_get_def)
qed

end
