(* ===== verification/Git_Diff.thy ===== *)
theory Git_Diff
  imports Git_Checkpoint Git_Hunks
begin

text \<open>
  \<^verbatim>\<open>crates/tethys-git/src/diff.rs\<close> and \<^verbatim>\<open>index.rs\<close>: the anchors of a diff, the parsers of git's raw
  and numstat output, the summary, the detail of a file through the hunk cache, and staging,
  unstaging and discarding. The line differ and blake3 are parameters.
\<close>

section \<open>Data\<close>

datatype DiffSource =
    BaseLatestEnd string string
  | BaseWorktree string string
  | TurnStartEnd string u32
  | TurnStartWorktree string u32
  | HeadIndex string
  | HeadWorktree string
  | IndexWorktree string

record DiffFile =
  df_path :: string
  df_old_path :: "string option"
  df_status :: DiffFileStatus
  df_additions :: u32
  df_deletions :: u32
  df_binary :: bool
  df_collapsed :: bool

record DiffSummary =
  ds_source :: DiffSource
  ds_files :: "DiffFile list"
  ds_additions :: u32
  ds_deletions :: u32

record DiffFileDetail =
  dd_path :: string
  dd_binary :: bool
  dd_collapsed :: bool
  dd_additions :: u32
  dd_deletions :: u32
  dd_hunks :: "DiffHunk list"

record HunkRef =
  hr_path :: string
  hr_hunk_index :: u32

record ResolvedDiff =
  rd_source :: DiffSource
  rd_old_tree :: string
  rd_new_tree :: string

record FileEntry =
  fe_path :: string
  fe_old_oid :: string
  fe_new_oid :: string
  fe_old_mode :: string
  fe_new_mode :: string
  fe_status :: DiffFileStatus

record FilePatchContext =
  fp_entry :: FileEntry
  fp_old_tokens :: "string list"
  fp_new_tokens :: "string list"
  fp_hunks :: "ComputedHunk list"

datatype LoadedFile =
    Absent
  | Binary FileEntry u32 u32
  | Collapsed FileEntry u32 u32
  | Text FilePatchContext

definition COLLAPSE_BYTES :: nat where "COLLAPSE_BYTES = 1024 * 1024"
definition COLLAPSE_LINES :: u32 where "COLLAPSE_LINES = 20000"
definition ZERO_OID :: string where "ZERO_OID = replicate 40 (CHR ''0'')"

definition is_zero_oid :: "string \<Rightarrow> bool" where
  "is_zero_oid oid \<longleftrightarrow> oid = ZERO_OID"

section \<open>Parsing git's diff output\<close>

definition map_status :: "char \<Rightarrow> DiffFileStatus" where
  "map_status code =
     (if code = CHR ''A'' then D_Added else if code = CHR ''M'' then D_Modified
      else if code = CHR ''D'' then D_Deleted else if code = CHR ''R'' then D_Renamed
      else if code = CHR ''C'' then D_Copied else if code = CHR ''T'' then D_TypeChanged
      else if code = CHR ''U'' then D_Unmerged else D_Other)"

definition raw_entry :: "string list \<Rightarrow> string \<Rightarrow> FileEntry" where
  "raw_entry meta path =
     \<lparr>fe_path = path, fe_old_oid = meta ! 2, fe_new_oid = meta ! 3, fe_old_mode = meta ! 0, fe_new_mode = meta ! 1,
      fe_status = map_status (if meta ! 4 = [] then CHR ''?'' else hd (meta ! 4))\<rparr>"

fun raw_loop :: "string list \<Rightarrow> FileEntry list" where
  "raw_loop [] = []"
| "raw_loop (chunk # chunks) =
     (if chunk = [] \<or> hd chunk \<noteq> CHR '':'' then raw_loop chunks
      else let meta = split_on (CHR '' '') (tl (utf8_lossy chunk)) in
        if length meta < 5 then raw_loop chunks
        else case chunks of
            [] \<Rightarrow> [raw_entry meta []]
          | path # chunks' \<Rightarrow> raw_entry meta (utf8_lossy path) # raw_loop chunks')"

definition parse_raw_entries :: "string \<Rightarrow> FileEntry list" where
  "parse_raw_entries raw = raw_loop (split_on nul raw)"

definition count_of :: "string \<Rightarrow> u32" where
  "count_of s = (case parse_u32 s of Some n \<Rightarrow> of_nat n | None \<Rightarrow> 0)"

definition numstat_line :: "string \<Rightarrow> (string \<rightharpoonup> u32 \<times> u32 \<times> bool) \<Rightarrow> (string \<rightharpoonup> u32 \<times> u32 \<times> bool)" where
  "numstat_line chunk counts =
     (if chunk = [] then counts
      else case splitn 3 (CHR 0x09) (utf8_lossy chunk) of
          [additions, deletions, path] \<Rightarrow>
            if additions = ''-'' \<or> deletions = ''-'' then counts(path \<mapsto> (0, 0, True))
            else counts(path \<mapsto> (count_of additions, count_of deletions, False))
        | _ \<Rightarrow> counts)"

definition parse_numstat :: "string \<Rightarrow> (string \<rightharpoonup> u32 \<times> u32 \<times> bool)" where
  "parse_numstat raw = fold numstat_line (split_on nul raw) Map.empty"

section \<open>Anchors and summary\<close>

definition required_tree :: "'r GitEnv \<Rightarrow> GitRepo \<Rightarrow> string \<Rightarrow> ('r, string) git_op" where
  "required_tree env repo rev' = bind (rev_tree env repo rev') (ok_or (CheckpointNotFound rev'))"

definition ref_tree :: "'r GitEnv \<Rightarrow> GitRepo \<Rightarrow> string \<Rightarrow> u32 \<Rightarrow> CheckpointPhase \<Rightarrow> ('r, string) git_op" where
  "ref_tree env repo thread_id turn phase =
     (let ref_name = turn_ref thread_id turn phase in
      bind (rev_parse env repo ref_name) (\<lambda>c.
      bind (ok_or (CheckpointNotFound ref_name) c) (\<lambda>commit.
      bind (rev_tree env repo commit) (ok_or (CheckpointNotFound ref_name)))))"

definition snapshot_tree :: "'r GitEnv \<Rightarrow> GitRepo \<Rightarrow> nat \<Rightarrow> ('r, string) git_op" where
  "snapshot_tree env repo limit = bind (snapshot_worktree env repo ''diff_live'' limit) (\<lambda>s. ret (sn_tree s))"

definition both :: "('r, 'a) git_op \<Rightarrow> ('r, 'b) git_op \<Rightarrow> ('r, 'a \<times> 'b) git_op" where
  "both m n = bind m (\<lambda>a. bind n (\<lambda>b. ret (a, b)))"

definition resolve :: "'r GitEnv \<Rightarrow> GitRepo \<Rightarrow> DiffSource \<Rightarrow> nat \<Rightarrow> ('r, ResolvedDiff) git_op" where
  "resolve env repo source limit =
     bind (case source of
         BaseLatestEnd thread_id base \<Rightarrow>
           bind (latest_end env repo thread_id) (\<lambda>e.
           bind (ok_or (CheckpointNotFound (thread_id @ '': no end checkpoint'')) e) (\<lambda>end'.
           bind (required_tree env repo base) (\<lambda>tree. ret (tree, cpi_tree_oid end'))))
       | BaseWorktree thread_id base \<Rightarrow> both (required_tree env repo base) (snapshot_tree env repo limit)
       | TurnStartEnd thread_id turn \<Rightarrow>
           both (ref_tree env repo thread_id turn CP_Start) (ref_tree env repo thread_id turn CP_End)
       | TurnStartWorktree thread_id turn \<Rightarrow>
           both (ref_tree env repo thread_id turn CP_Start) (snapshot_tree env repo limit)
       | HeadIndex thread_id \<Rightarrow> both (head_tree env repo) (index_tree env repo)
       | HeadWorktree thread_id \<Rightarrow> both (head_tree env repo) (snapshot_tree env repo limit)
       | IndexWorktree thread_id \<Rightarrow> both (index_tree env repo) (snapshot_tree env repo limit))
     (\<lambda>(old_tree, new_tree). ret \<lparr>rd_source = source, rd_old_tree = old_tree, rd_new_tree = new_tree\<rparr>)"

definition diff_tree_args :: "string \<Rightarrow> ResolvedDiff \<Rightarrow> string list" where
  "diff_tree_args format resolved =
     [''diff-tree'', ''-r'', ''-z'', format, ''--no-renames'', rd_old_tree resolved, rd_new_tree resolved]"

text \<open>The object ids of a diff, each once: \<open>seen.insert\<close> keeps the first.\<close>

definition entry_oids :: "FileEntry list \<Rightarrow> string list" where
  "entry_oids entries =
     fold (\<lambda>oid acc. if is_zero_oid oid \<or> oid \<in> set acc then acc else acc @ [oid])
       (concat (map (\<lambda>e. [fe_old_oid e, fe_new_oid e]) entries)) []"

definition diff_file :: "(string \<rightharpoonup> u32 \<times> u32 \<times> bool) \<Rightarrow> (string \<rightharpoonup> nat) \<Rightarrow> FileEntry \<Rightarrow> DiffFile" where
  "diff_file counts sizes entry =
     (case (case counts (fe_path entry) of Some c \<Rightarrow> c | None \<Rightarrow> (0, 0, False)) of (additions, deletions, binary) \<Rightarrow>
      let oversized = list_ex (\<lambda>oid. \<not> is_zero_oid oid \<and>
            (case sizes oid of Some size' \<Rightarrow> size' > COLLAPSE_BYTES | None \<Rightarrow> False)) [fe_old_oid entry, fe_new_oid entry] in
      \<lparr>df_path = fe_path entry, df_old_path = None, df_status = fe_status entry, df_additions = additions,
       df_deletions = deletions, df_binary = binary,
       df_collapsed = (\<not> binary \<and> (oversized \<or> sat_add additions deletions > COLLAPSE_LINES))\<rparr>)"

definition diff_summary :: "'r GitEnv \<Rightarrow> GitRepo \<Rightarrow> DiffSource \<Rightarrow> nat \<Rightarrow> ('r, DiffSummary) git_op" where
  "diff_summary env repo source limit =
     bind (resolve env repo source limit) (\<lambda>resolved.
     bind (git env repo (diff_tree_args ''--raw'' resolved)) (\<lambda>raw.
     bind (git env repo (diff_tree_args ''--numstat'' resolved)) (\<lambda>numstat.
     let entries = parse_raw_entries raw; counts = parse_numstat numstat in
     bind (blob_sizes env repo (entry_oids entries)) (\<lambda>sizes.
     let files = map (diff_file counts sizes) entries in
     ret \<lparr>ds_source = rd_source resolved, ds_files = files,
          ds_additions = sum_list (map df_additions files), ds_deletions = sum_list (map df_deletions files)\<rparr>))))"

section \<open>One file\<close>

definition file_entry :: "'r GitEnv \<Rightarrow> GitRepo \<Rightarrow> ResolvedDiff \<Rightarrow> string \<Rightarrow> ('r, FileEntry option) git_op" where
  "file_entry env repo resolved path =
     bind (git_literal env repo (diff_tree_args ''--raw'' resolved @ [''--'', path])) (\<lambda>raw.
     ret (case parse_raw_entries raw of [] \<Rightarrow> None | e # _ \<Rightarrow> Some e))"

definition load_blob :: "'r GitEnv \<Rightarrow> GitRepo \<Rightarrow> string \<Rightarrow> ('r, string) git_op" where
  "load_blob env repo oid = (if is_zero_oid oid then ret [] else blob env repo oid)"

definition load_blobs :: "'r GitEnv \<Rightarrow> GitRepo \<Rightarrow> FileEntry \<Rightarrow> ('r, string \<times> string) git_op" where
  "load_blobs env repo entry = both (load_blob env repo (fe_old_oid entry)) (load_blob env repo (fe_new_oid entry))"

definition numstat_for :: "'r GitEnv \<Rightarrow> GitRepo \<Rightarrow> ResolvedDiff \<Rightarrow> string \<Rightarrow> ('r, u32 \<times> u32) git_op" where
  "numstat_for env repo resolved path =
     bind (attempt (git_literal env repo (diff_tree_args ''--numstat'' resolved @ [''--'', path]))) (\<lambda>r.
     ret (case r of
         Inl _ \<Rightarrow> (0, 0)
       | Inr out \<Rightarrow> (case parse_numstat out path of Some (additions, deletions, _) \<Rightarrow> (additions, deletions) | None \<Rightarrow> (0, 0))))"

definition cache_key :: "(string \<Rightarrow> string) \<Rightarrow> string \<Rightarrow> string \<Rightarrow> string" where
  "cache_key hash old_oid new_oid = hash (old_oid @ '':'' @ new_oid)"

definition cached_hunks ::
  "differ \<Rightarrow> (string \<Rightarrow> string) \<Rightarrow> FileEntry \<Rightarrow> string \<Rightarrow> string \<Rightarrow> DiffCache \<Rightarrow> ComputedHunk list \<times> DiffCache" where
  "cached_hunks differ hash entry old_text new_text cache =
     (let key = cache_key hash (fe_old_oid entry) (fe_new_oid entry) in
      case cache_get cache key of
        Some cached \<Rightarrow> (cached, cache)
      | None \<Rightarrow>
          let computed = compute differ old_text new_text in (computed, cache_insert cache key computed))"

text \<open>An error leaves the cache as it was; a result comes with the cache after it.\<close>

definition load_file ::
  "'r GitEnv \<Rightarrow> differ \<Rightarrow> (string \<Rightarrow> string) \<Rightarrow> GitRepo \<Rightarrow> ResolvedDiff \<Rightarrow> string \<Rightarrow> DiffCache
    \<Rightarrow> ('r, LoadedFile \<times> DiffCache) git_op" where
  "load_file env differ hash repo resolved path cache =
     bind (file_entry env repo resolved path) (\<lambda>found.
     case found of
       None \<Rightarrow> ret (Absent, cache)
     | Some entry \<Rightarrow>
         bind (load_blobs env repo entry) (\<lambda>(old_bytes, new_bytes).
         bind (numstat_for env repo resolved path) (\<lambda>(additions, deletions).
         if looks_binary old_bytes \<or> looks_binary new_bytes then ret (Binary entry 0 0, cache)
         else if length old_bytes > COLLAPSE_BYTES \<or> length new_bytes > COLLAPSE_BYTES
             \<or> sat_add additions deletions > COLLAPSE_LINES
         then ret (Collapsed entry additions deletions, cache)
         else
           let old_text = utf8_lossy old_bytes; new_text = utf8_lossy new_bytes in
           case cached_hunks differ hash entry old_text new_text cache of (computed, cache') \<Rightarrow>
             ret (Text \<lparr>fp_entry = entry, fp_old_tokens = line_tokens old_text,
                       fp_new_tokens = line_tokens new_text, fp_hunks = computed\<rparr>, cache'))))"

fun plan_counts :: "PlanLine list \<Rightarrow> u32 \<times> u32 \<Rightarrow> u32 \<times> u32" where
  "plan_counts [] counts = counts"
| "plan_counts (Add _ # ls) (additions, deletions) = plan_counts ls (additions + 1, deletions)"
| "plan_counts (Remove _ # ls) (additions, deletions) = plan_counts ls (additions, deletions + 1)"
| "plan_counts (Context _ _ # ls) counts = plan_counts ls counts"

definition count_changes :: "ComputedHunk list \<Rightarrow> u32 \<times> u32" where
  "count_changes hunks = fold (\<lambda>h counts. plan_counts (plan h) counts) hunks (0, 0)"

definition empty_detail :: "string \<Rightarrow> DiffFileDetail" where
  "empty_detail path =
     \<lparr>dd_path = path, dd_binary = False, dd_collapsed = False, dd_additions = 0, dd_deletions = 0, dd_hunks = []\<rparr>"

fun detail_of :: "string \<Rightarrow> LoadedFile \<Rightarrow> DiffFileDetail" where
  "detail_of path Absent = empty_detail path"
| "detail_of path (Binary _ additions deletions) =
     \<lparr>dd_path = path, dd_binary = True, dd_collapsed = False, dd_additions = additions, dd_deletions = deletions, dd_hunks = []\<rparr>"
| "detail_of path (Collapsed _ additions deletions) =
     \<lparr>dd_path = path, dd_binary = False, dd_collapsed = True, dd_additions = additions, dd_deletions = deletions, dd_hunks = []\<rparr>"
| "detail_of path (Text context) =
     (case count_changes (fp_hunks context) of (additions, deletions) \<Rightarrow>
      \<lparr>dd_path = path, dd_binary = False, dd_collapsed = False, dd_additions = additions, dd_deletions = deletions,
       dd_hunks = map (\<lambda>h. to_display h (fp_old_tokens context) (fp_new_tokens context)) (fp_hunks context)\<rparr>)"

definition file_detail ::
  "'r GitEnv \<Rightarrow> differ \<Rightarrow> (string \<Rightarrow> string) \<Rightarrow> GitRepo \<Rightarrow> DiffSource \<Rightarrow> string \<Rightarrow> DiffCache \<Rightarrow> nat
    \<Rightarrow> ('r, DiffFileDetail \<times> DiffCache) git_op" where
  "file_detail env differ hash repo source path cache limit =
     bind (resolve env repo source limit) (\<lambda>resolved.
     bind (load_file env differ hash repo resolved path cache) (\<lambda>(loaded, cache').
     ret (detail_of path loaded, cache')))"

section \<open>Staging and discarding\<close>

definition run_paths :: "'r GitEnv \<Rightarrow> GitRepo \<Rightarrow> string list \<Rightarrow> string list \<Rightarrow> ('r, unit) git_op" where
  "run_paths env repo command paths =
     (if paths = [] then fail (InvalidArgument ''no paths given'')
      else bind (checked env ((plain_call (gr_worktree_root repo) (command @ paths))\<lparr>gc_literal := True\<rparr>)) (\<lambda>_. ret ()))"

definition stage :: "'r GitEnv \<Rightarrow> GitRepo \<Rightarrow> string list \<Rightarrow> ('r, unit) git_op" where
  "stage env repo paths = run_paths env repo [''add'', ''--''] paths"

definition unstage :: "'r GitEnv \<Rightarrow> GitRepo \<Rightarrow> string list \<Rightarrow> ('r, unit) git_op" where
  "unstage env repo paths = run_paths env repo [''restore'', ''--staged'', ''--''] paths"

definition patch_call :: "GitRepo \<Rightarrow> string list \<Rightarrow> string \<Rightarrow> GitCall" where
  "patch_call repo args patch =
     (plain_call (gr_worktree_root repo) args)\<lparr>gc_literal := True, gc_stdin := Some patch\<rparr>"

definition run_patch :: "'r GitEnv \<Rightarrow> GitRepo \<Rightarrow> string list \<Rightarrow> string \<Rightarrow> ('r, unit) git_op" where
  "run_patch env repo args patch =
     bind (exec env (patch_call repo args patch)) (\<lambda>out.
     if success out then ret () else fail (PatchFailed (trim (utf8_lossy (out_stderr out)))))"

definition apply_reverse :: "'r GitEnv \<Rightarrow> GitRepo \<Rightarrow> string \<Rightarrow> bool \<Rightarrow> ('r, unit) git_op" where
  "apply_reverse env repo patch cached =
     bind (run_patch env repo ([''apply'', ''-R'', ''--check''] @ (if cached then [''--cached''] else [])) patch) (\<lambda>_.
     run_patch env repo ([''apply'', ''-R''] @ (if cached then [''--cached''] else [])) patch)"

fun select_hunks :: "string \<Rightarrow> ComputedHunk list \<Rightarrow> u32 list \<Rightarrow> GitError + ComputedHunk list" where
  "select_hunks path hunks [] = Ok []"
| "select_hunks path hunks (i # is) =
     (case nth_opt hunks (unat i) of
        None \<Rightarrow> Err (PatchFailed (''hunk '' @ show_u32 i @ '' out of range for '' @ path))
      | Some h \<Rightarrow> (case select_hunks path hunks is of Inl e \<Rightarrow> Err e | Inr hs \<Rightarrow> Ok (h # hs)))"

fun status_debug :: "DiffFileStatus \<Rightarrow> string" where
  "status_debug D_Added = ''Added''"
| "status_debug D_Modified = ''Modified''"
| "status_debug D_Deleted = ''Deleted''"
| "status_debug D_Renamed = ''Renamed''"
| "status_debug D_Copied = ''Copied''"
| "status_debug D_TypeChanged = ''TypeChanged''"
| "status_debug D_Unmerged = ''Unmerged''"
| "status_debug D_Other = ''Other''"

definition patch_for :: "string \<Rightarrow> LoadedFile \<Rightarrow> u32 list \<Rightarrow> GitError + string" where
  "patch_for path loaded indices =
     (case loaded of
        Text context \<Rightarrow>
          (case select_hunks path (fp_hunks context) indices of
             Inl e \<Rightarrow> Err e
           | Inr selected \<Rightarrow>
               let entry = fp_entry context; status = fe_status entry in
               if status \<in> {D_Added, D_Deleted, D_Modified}
               then Ok (render_patch path status (fe_old_mode entry) (fe_new_mode entry)
                      (fp_old_tokens context) (fp_new_tokens context) selected)
               else Err (PatchFailed (''cannot discard '' @ status_debug status @ '' file: '' @ path)))
      | _ \<Rightarrow> Err (PatchFailed (''cannot discard hunks of non-text file: '' @ path)))"

text \<open>The cache of a failed discard keeps what was computed, so it is part of the outcome.\<close>

definition discard_hunks ::
  "'r GitEnv \<Rightarrow> differ \<Rightarrow> (string \<Rightarrow> string) \<Rightarrow> GitRepo \<Rightarrow> ResolvedDiff \<Rightarrow> string \<Rightarrow> u32 list \<Rightarrow> bool \<Rightarrow> DiffCache
    \<Rightarrow> ('r, (GitError + unit) \<times> DiffCache) git_op" where
  "discard_hunks env differ hash repo resolved path indices cached cache =
     bind (attempt (load_file env differ hash repo resolved path cache)) (\<lambda>r.
     case r of
       Inl e \<Rightarrow> ret (Err e, cache)
     | Inr (loaded, cache') \<Rightarrow>
         (case patch_for path loaded indices of
            Inl e \<Rightarrow> ret (Err e, cache')
          | Inr patch \<Rightarrow> bind (attempt (apply_reverse env repo patch cached)) (\<lambda>x. ret (x, cache'))))"

definition push_index :: "HunkRef \<Rightarrow> (string \<times> u32 list) list \<Rightarrow> (string \<times> u32 list) list" where
  "push_index hunk groups =
     (if hr_path hunk \<in> fst ` set groups
      then map (\<lambda>(path, is). if path = hr_path hunk then (path, is @ [hr_hunk_index hunk]) else (path, is)) groups
      else groups @ [(hr_path hunk, [hr_hunk_index hunk])])"

definition by_path :: "HunkRef list \<Rightarrow> (string \<times> u32 list) list" where
  "by_path hunks = fold push_index hunks []"

fun discard_loop ::
  "'r GitEnv \<Rightarrow> differ \<Rightarrow> (string \<Rightarrow> string) \<Rightarrow> GitRepo \<Rightarrow> ResolvedDiff \<Rightarrow> bool \<Rightarrow> (string \<times> u32 list) list \<Rightarrow> DiffCache
    \<Rightarrow> ('r, (GitError + unit) \<times> DiffCache) git_op" where
  "discard_loop env differ hash repo resolved cached [] cache = ret (Ok (), cache)"
| "discard_loop env differ hash repo resolved cached ((path, indices) # groups) cache =
     bind (discard_hunks env differ hash repo resolved path indices cached cache) (\<lambda>(x, cache').
     case x of
       Inl e \<Rightarrow> ret (Err e, cache')
     | Inr _ \<Rightarrow> discard_loop env differ hash repo resolved cached groups cache')"

text \<open>\<open>order\<close> is the iteration order of the hash map of paths.\<close>

definition discard_all :: "'r GitEnv \<Rightarrow> GitRepo \<Rightarrow> DiffSource \<Rightarrow> bool \<Rightarrow> nat \<Rightarrow> ('r, unit) git_op" where
  "discard_all env repo source cached limit =
     bind (diff_summary env repo source limit) (\<lambda>summary'.
     let paths = map df_path (filter (\<lambda>f. cached \<or> df_status f \<noteq> D_Added) (ds_files summary')) in
     if paths = [] then ret ()
     else if cached then run_paths env repo [''restore'', ''--staged'', ''--''] paths
     else run_paths env repo [''checkout-index'', ''-f'', ''--''] paths)"

definition discard_live ::
  "'r GitEnv \<Rightarrow> differ \<Rightarrow> (string \<Rightarrow> string) \<Rightarrow> ((string \<times> u32 list) list \<Rightarrow> (string \<times> u32 list) list)
    \<Rightarrow> GitRepo \<Rightarrow> DiffSource \<Rightarrow> bool \<Rightarrow> HunkRef list option \<Rightarrow> DiffCache \<Rightarrow> nat
    \<Rightarrow> ('r, (GitError + unit) \<times> DiffCache) git_op" where
  "discard_live env differ hash order repo source cached hunks cache limit =
     bind (attempt (resolve env repo source limit)) (\<lambda>r.
     case r of
       Inl e \<Rightarrow> ret (Err e, cache)
     | Inr resolved \<Rightarrow>
         (case hunks of
            Some refs \<Rightarrow> discard_loop env differ hash repo resolved cached (order (by_path refs)) cache
          | None \<Rightarrow> bind (attempt (discard_all env repo source cached limit)) (\<lambda>x. ret (x, cache))))"

definition discard ::
  "'r GitEnv \<Rightarrow> differ \<Rightarrow> (string \<Rightarrow> string) \<Rightarrow> ((string \<times> u32 list) list \<Rightarrow> (string \<times> u32 list) list)
    \<Rightarrow> GitRepo \<Rightarrow> DiffSource \<Rightarrow> HunkRef list option \<Rightarrow> DiffCache \<Rightarrow> nat \<Rightarrow> ('r, (GitError + unit) \<times> DiffCache) git_op" where
  "discard env differ hash order repo source hunks cache limit =
     (case source of
        HeadIndex _ \<Rightarrow> discard_live env differ hash order repo source True hunks cache limit
      | IndexWorktree _ \<Rightarrow> discard_live env differ hash order repo source False hunks cache limit
      | _ \<Rightarrow> ret (Err (InvalidArgument ''discard requires a HEAD/index or index/worktree source''), cache))"

section \<open>Git's output is read back\<close>

text \<open>The documented formats of \<open>diff-tree -z --raw\<close> and \<open>--numstat\<close>.\<close>

definition raw_meta :: "FileEntry \<Rightarrow> string \<Rightarrow> string" where
  "raw_meta e code = '':'' @ join_with (CHR '' '') [fe_old_mode e, fe_new_mode e, fe_old_oid e, fe_new_oid e, code]"

definition raw_ok :: "FileEntry \<times> string \<Rightarrow> bool" where
  "raw_ok row = (case row of (e, code) \<Rightarrow>
     list_all field_ok [fe_old_mode e, fe_new_mode e, fe_old_oid e, fe_new_oid e, code]
     \<and> code \<noteq> [] \<and> map_status (hd code) = fe_status e \<and> path_ok (fe_path e))"

definition render_raw :: "(FileEntry \<times> string) list \<Rightarrow> string" where
  "render_raw rows = zero_ended (concat (map (\<lambda>(e, code). [raw_meta e code, fe_path e]) rows))"

lemma raw_meta_split:
  assumes "raw_ok (e, code)"
  shows "split_on (CHR '' '') (tl (utf8_lossy (raw_meta e code)))
      = [fe_old_mode e, fe_new_mode e, fe_old_oid e, fe_new_oid e, code]" (is "_ = ?fs")
    and "nul \<notin> set (raw_meta e code)"
proof -
  have "ascii (raw_meta e code)"
    using assms by (auto simp: raw_ok_def raw_meta_def field_ok_def ascii_def byte_in_def)
  then have "tl (utf8_lossy (raw_meta e code)) = join_with (CHR '' '') ?fs"
    by (simp add: utf8_lossy_ascii raw_meta_def del: join_with.simps)
  moreover have "split_on (CHR '' '') (join_with (CHR '' '') ?fs) = ?fs"
    using assms by (intro split_on_join) (auto simp: raw_ok_def field_ok_def)
  ultimately show "split_on (CHR '' '') (tl (utf8_lossy (raw_meta e code))) = ?fs" by simp
  show "nul \<notin> set (raw_meta e code)" using assms by (auto simp: raw_ok_def raw_meta_def field_ok_def)
qed

lemma raw_loop_rows:
  "list_all raw_ok rows \<Longrightarrow>
    raw_loop (concat (map (\<lambda>(e, code). [raw_meta e code, fe_path e]) rows) @ [[]]) = map fst rows"
proof (induction rows)
  case (Cons row rows)
  obtain e code where row: "row = (e, code)" by (cases row)
  have ok: "raw_ok (e, code)" using Cons.prems row by simp
  have hd': "raw_meta e code \<noteq> []" "hd (raw_meta e code) = CHR '':''" by (simp_all add: raw_meta_def)
  have entry: "raw_entry [fe_old_mode e, fe_new_mode e, fe_old_oid e, fe_new_oid e, code] (utf8_lossy (fe_path e)) = e"
    using ok by (auto simp: raw_entry_def raw_ok_def path_ok_def numeral_eq_Suc)
  have "raw_loop (raw_meta e code # fe_path e # cs) = e # raw_loop cs" for cs
    using hd' by (simp add: raw_meta_split(1)[OF ok] entry Let_def)
  then show ?case using Cons row by simp
qed simp

lemma raw_roundtrip: "list_all raw_ok rows \<Longrightarrow> parse_raw_entries (render_raw rows) = map fst rows"
proof -
  assume ok: "list_all raw_ok rows"
  have "nul \<notin> set c" if "c \<in> set (concat (map (\<lambda>(e, code). [raw_meta e code, fe_path e]) rows))" for c
    using that ok raw_meta_split(2) by (fastforce simp: list_all_iff raw_ok_def path_ok_def)
  from split_zero_ended[OF this] show ?thesis
    unfolding parse_raw_entries_def render_raw_def by (simp only: raw_loop_rows[OF ok])
qed

fun numstat_text :: "u32 \<times> u32 \<times> bool \<Rightarrow> string \<times> string" where
  "numstat_text (additions, deletions, binary) =
     (if binary then (''-'', ''-'') else (show_u32 additions, show_u32 deletions))"

definition numstat_row :: "string \<times> (u32 \<times> u32 \<times> bool) \<Rightarrow> string" where
  "numstat_row row = (case row of (path, counts) \<Rightarrow>
     (case numstat_text counts of (a, d) \<Rightarrow> a @ CHR 0x09 # d @ CHR 0x09 # path))"

definition numstat_ok :: "string \<times> (u32 \<times> u32 \<times> bool) \<Rightarrow> bool" where
  "numstat_ok row = (case row of (path, a, d, binary) \<Rightarrow> path_ok path \<and> (binary \<longrightarrow> a = 0 \<and> d = 0))"

lemma show_u32_plain: "ascii (show_u32 n)" "CHR 0x09 \<notin> set (show_u32 n)" "show_u32 n \<noteq> ''-''" "nul \<notin> set (show_u32 n)"
  "show_u32 n \<noteq> []"
proof -
  have "CHR ''-'' \<notin> set (show_u32 n)" by (simp add: show_u32_def show_nat_free)
  then show "show_u32 n \<noteq> ''-''" by auto
qed (simp_all add: show_u32_def show_nat_free)

lemma count_of_show: "count_of (show_u32 n) = n"
  using parse_index_show[of n] by (auto simp: count_of_def parse_index_def split: option.splits)

lemma numstat_line_row:
  assumes "numstat_ok (path, c)"
  shows "numstat_line (numstat_row (path, c)) counts = counts(path \<mapsto> c)"
proof -
  obtain a d where t: "numstat_text c = (a, d)" by (cases "numstat_text c")
  have dash: "ascii ''-''" by (simp add: ascii_def byte_in_def)
  have ad: "ascii a" "ascii d" "CHR 0x09 \<notin> set a" "CHR 0x09 \<notin> set d"
    using t dash by (cases c; auto simp: show_u32_plain split: if_splits)+
  have lossy: "utf8_lossy (numstat_row (path, c)) = numstat_row (path, c)"
    using assms ad t utf8_lossy_ascii_append[of "a @ [CHR 0x09] @ d @ [CHR 0x09]" path]
    by (simp add: numstat_row_def numstat_ok_def path_ok_def ascii_def byte_in_def case_prod_beta)
  have "splitn 3 (CHR 0x09) (a @ CHR 0x09 # d @ CHR 0x09 # path) = [a, d, path]"
  proof -
    have "split_once (CHR 0x09) (a @ CHR 0x09 # d @ CHR 0x09 # path) = Some (a, d @ CHR 0x09 # path)"
      "split_once (CHR 0x09) (d @ CHR 0x09 # path) = Some (d, path)"
      using ad by (simp_all add: split_once_Some)
    then show ?thesis by (simp add: numeral_3_eq_3)
  qed
  moreover have "numstat_row (path, c) = a @ CHR 0x09 # d @ CHR 0x09 # path" using t by (simp add: numstat_row_def)
  ultimately show ?thesis
    using assms t lossy by (cases c) (auto simp: numstat_line_def numstat_ok_def show_u32_plain count_of_show split: if_splits)
qed

lemma numstat_row_nul: "numstat_ok row \<Longrightarrow> nul \<notin> set (numstat_row row)"
  by (cases row) (auto simp: numstat_row_def numstat_ok_def path_ok_def show_u32_plain split: prod.splits if_splits)

lemma fold_numstat:
  "list_all numstat_ok rows \<Longrightarrow>
    fold numstat_line (map numstat_row rows) counts = counts ++ map_of (rev rows)"
proof (induction rows arbitrary: counts)
  case (Cons row rows)
  then show ?case by (cases row) (simp add: numstat_line_row map_add_upd_left)
qed simp

text \<open>
  Git's machine-readable output is read back exactly: for every list of records in the
  documented format of \<open>status --porcelain=v2 -z\<close>, \<open>diff-tree -z --raw\<close> and \<open>diff-tree -z --numstat\<close>,
  the parsers return the records' paths, states, modes, object ids and counts, whatever bytes
  other than zero a path consists of (as long as it is valid UTF-8); ignored files are left out.
\<close>

theorem git_output_roundtrip:
  "(list_all status_line_ok ls \<longrightarrow>
      parse_porcelain_v2 (zero_ended (map render_status ls)) = List.map_filter status_of ls)
   \<and> (list_all raw_ok rows \<longrightarrow> parse_raw_entries (render_raw rows) = map fst rows)
   \<and> (list_all numstat_ok counts \<longrightarrow>
      parse_numstat (zero_ended (map numstat_row counts)) = map_of (rev counts))"
proof (intro conjI impI)
  show "parse_porcelain_v2 (zero_ended (map render_status ls)) = List.map_filter status_of ls"
    if "list_all status_line_ok ls" using that by (rule porcelain_roundtrip)
  show "parse_raw_entries (render_raw rows) = map fst rows" if "list_all raw_ok rows"
    using that by (rule raw_roundtrip)
  show "parse_numstat (zero_ended (map numstat_row counts)) = map_of (rev counts)" if ok: "list_all numstat_ok counts"
  proof -
    have "split_on nul (zero_ended (map numstat_row counts)) = map numstat_row counts @ [[]]"
      using ok by (intro split_zero_ended) (auto simp: list_all_iff numstat_row_nul)
    then show ?thesis using fold_numstat[OF ok, of Map.empty] by (simp add: parse_numstat_def numstat_line_def[of "[]"])
  qed
qed

definition ex_status :: "StatusLine list" where
  "ex_status = [SL_Untracked ''a b'', SL_Changed (CHR ''M'') (CHR ''.'') [''N'', ''1'', ''2'', ''3'', ''4'', ''5''] ''c'']"

theorem git_output_roundtrip_witness:
  "map se_path (parse_porcelain_v2 (zero_ended (map render_status ex_status))) = [''a b'', ''c'']
   \<and> parse_numstat (zero_ended (map numstat_row [(''x'', 3, 4, False)])) ''x'' = Some (3, 4, False)"
proof -
  have "list_all status_line_ok ex_status"
    by (simp add: ex_status_def path_ok_def field_ok_def ascii_def byte_in_def utf8_lossy_ascii)
  moreover have "list_all numstat_ok [(''x'', 3, 4, False)]"
    by (simp add: numstat_ok_def path_ok_def ascii_def byte_in_def utf8_lossy_ascii)
  ultimately show ?thesis
    using git_output_roundtrip[of ex_status "[]" "[(''x'', 3, 4, False)]"] by (simp add: ex_status_def List.map_filter_simps)
qed

section \<open>Discarding only applies checked patches\<close>

text \<open>
  Properties of the sequence of commands an operation runs, of which \<open>issues\<close> is the case of a
  property of each command alone.
\<close>

definition traces :: "((GitCall \<times> bool) list \<Rightarrow> bool) \<Rightarrow> ('r, 'a) git_op \<Rightarrow> bool" where
  "traces G m \<longleftrightarrow> (\<forall>w. \<exists>cs. w_log (snd (m w)) = w_log w @ cs \<and> G cs)"

locale trace_property =
  fixes good :: "(GitCall \<times> bool) list \<Rightarrow> bool"
  assumes good_Nil: "good []"
    and good_append: "good xs \<Longrightarrow> good ys \<Longrightarrow> good (xs @ ys)"
begin

lemma ret: "traces good (ret x)"
  using good_Nil by (simp add: traces_def ret_def)

lemma attempt: "traces good m \<Longrightarrow> traces good (attempt m)"
  by (auto simp: traces_def attempt_def split: prod.split) (metis snd_conv)

lemma bind:
  assumes "traces good m" "\<And>x. traces good (f x)"
  shows "traces good (bind m f)"
  unfolding traces_def
proof
  fix w
  obtain x w' where m: "m w = (x, w')" by (cases "m w")
  obtain cs where cs: "w_log w' = w_log w @ cs" "good cs"
    using assms(1) m unfolding traces_def by (metis snd_conv)
  show "\<exists>cs. w_log (snd (bind m f w)) = w_log w @ cs \<and> good cs"
  proof (cases x)
    case (Inl e)
    then show ?thesis using m cs by (auto simp: bind_def)
  next
    case (Inr v)
    obtain ds where "w_log (snd (f v w')) = w_log w' @ ds" "good ds"
      using assms(2) unfolding traces_def by blast
    then show ?thesis using m cs Inr good_append by (auto simp: bind_def)
  qed
qed

lemma pair: "(\<And>a b. traces good (f a b)) \<Longrightarrow> traces good (case x of (a, b) \<Rightarrow> f a b)"
  by (cases x) auto

end

interpretation each_command: trace_property "list_all P" for P
  by unfold_locales auto

lemma traces_list_all: "traces (list_all P) m \<longleftrightarrow> issues P m"
  by (simp add: traces_def issues_def)

definition applies :: "GitCall \<Rightarrow> bool" where
  "applies c \<longleftrightarrow> gc_index c = None \<and> (gc_args c = [''apply'', ''-R''] \<or> gc_args c = [''apply'', ''-R'', ''--cached''])"

definition check_call :: "GitCall \<Rightarrow> GitCall" where
  "check_call c = c\<lparr>gc_args := [''apply'', ''-R'', ''--check''] @ drop 2 (gc_args c)\<rparr>"

definition guarded :: "(GitCall \<times> bool) list \<Rightarrow> bool" where
  "guarded cs \<longleftrightarrow> (\<forall>i < length cs. applies (fst (cs ! i)) \<longrightarrow>
     0 < i \<and> cs ! (i - 1) = (check_call (fst (cs ! i)), True))"

interpretation checked_patches: trace_property guarded
proof
  show "guarded []" by (simp add: guarded_def)
  fix xs ys
  assume xs: "guarded xs" and ys: "guarded ys"
  show "guarded (xs @ ys)"
    unfolding guarded_def
  proof (intro allI impI)
    fix i
    assume i: "i < length (xs @ ys)" "applies (fst ((xs @ ys) ! i))"
    show "0 < i \<and> (xs @ ys) ! (i - 1) = (check_call (fst ((xs @ ys) ! i)), True)"
    proof (cases "i < length xs")
      case True
      then have "0 < i \<and> xs ! (i - 1) = (check_call (fst (xs ! i)), True)"
        using xs i unfolding guarded_def by (simp add: nth_append)
      then show ?thesis using True by (simp add: nth_append less_imp_diff_less)
    next
      case False
      then have "0 < i - length xs \<and> ys ! (i - length xs - 1) = (check_call (fst (ys ! (i - length xs))), True)"
        using ys[unfolded guarded_def, rule_format, of "i - length xs"] i by (simp add: nth_append)
      moreover from this have "i - 1 - length xs = i - length xs - 1" "\<not> i - 1 < length xs" by auto
      ultimately show ?thesis using False by (simp add: nth_append)
    qed
  qed
qed

lemma guarded_none: "list_all (\<lambda>c. \<not> applies (fst c)) cs \<Longrightarrow> guarded cs"
  by (auto simp: guarded_def list_all_length)

lemma traces_no_apply: "issues (\<lambda>c. \<not> applies (fst c)) m \<Longrightarrow> traces guarded m"
  unfolding issues_def traces_def using guarded_none by blast

lemma harmless_not_applies: "harmless c \<Longrightarrow> \<not> applies (fst c)"
  by (auto simp: harmless_def looks_def on_temp_index_def commits_tree_def applies_def)

lemma issues_not_applies: "issues harmless m \<Longrightarrow> issues (\<lambda>c. \<not> applies (fst c)) m"
  by (erule issues_mono) (rule harmless_not_applies)

lemma issues_both [issues_intros]: "issues P m \<Longrightarrow> issues P n \<Longrightarrow> issues P (both m n)"
  unfolding both_def by (intro issues_intros)

lemma issues_resolve: "issues harmless (resolve env repo source limit)"
proof -
  have r: "issues harmless (required_tree env repo b)" for b
    unfolding required_tree_def by (intro issues_intros issues_harmless)
  have t: "issues harmless (ref_tree env repo thread_id turn phase)" for thread_id turn phase
    unfolding ref_tree_def Let_def by (intro issues_intros issues_harmless)
  have s: "issues harmless (snapshot_tree env repo limit)"
    unfolding snapshot_tree_def by (intro issues_intros)
  have h: "issues harmless (head_tree env repo)"
    unfolding head_tree_def by (intro issues_intros issues_harmless)
  show ?thesis
    unfolding resolve_def
    by (cases source) (auto intro!: issues_intros r t s h intro: issues_harmless[OF issues_intros(1)] issues_harmless[OF issues_index_tree] issues_harmless[OF issues_latest_end(1)])
qed

lemma not_applies_args:
  "hd (gc_args c) \<noteq> ''apply'' \<Longrightarrow> \<not> applies c"
  by (auto simp: applies_def)

lemma issues_literal: "a \<noteq> ''apply'' \<Longrightarrow> issues (\<lambda>c. \<not> applies (fst c)) (git_literal env repo (a # args))"
  unfolding git_literal_def by (intro issues_intros) (simp_all add: not_applies_args plain_call_def)

lemma issues_plain_git: "a \<noteq> ''apply'' \<Longrightarrow> issues (\<lambda>c. \<not> applies (fst c)) (git env repo (a # args))"
  by (intro issues_intros) (simp add: not_applies_args plain_call_def)

lemma issues_load_file: "issues (\<lambda>c. \<not> applies (fst c)) (load_file env differ hash repo resolved path cache)"
proof -
  have b: "issues (\<lambda>c. \<not> applies (fst c)) (load_blob env repo oid)" for oid
    unfolding load_blob_def blob_def by (intro issues_intros issues_plain_git) (simp add: not_applies_args plain_call_def)
  show ?thesis
    unfolding load_file_def file_entry_def load_blobs_def numstat_for_def diff_tree_args_def Let_def append.simps
    by (intro issues_intros issues_literal b) simp_all
qed

lemma issues_diff_summary: "issues (\<lambda>c. \<not> applies (fst c)) (diff_summary env repo source limit)"
proof -
  have s: "issues (\<lambda>c. \<not> applies (fst c)) (blob_sizes env repo oids)" for oids
    unfolding blob_sizes_def run_with_stdin_def by (intro issues_intros) (simp_all add: not_applies_args plain_call_def)
  show ?thesis
    unfolding diff_summary_def diff_tree_args_def Let_def
    by (intro issues_bind issues_plain_git s issues_ret issues_not_applies[OF issues_resolve]) simp_all
qed

lemma issues_run_paths: "a \<noteq> ''apply'' \<Longrightarrow> issues (\<lambda>c. \<not> applies (fst c)) (run_paths env repo (a # args) paths)"
  unfolding run_paths_def by (intro issues_intros) (simp_all add: not_applies_args plain_call_def)

lemma run_patch_log:
  "run_patch env repo args patch w = (x, w') \<Longrightarrow>
    \<exists>b. w_log w' = w_log w @ [(patch_call repo args patch, b)] \<and> (x = Ok () \<longrightarrow> b)"
  by (auto simp: run_patch_def bind_def exec_def ret_def fail_def split: prod.splits sum.splits if_splits)

lemma traces_apply_reverse: "traces guarded (apply_reverse env repo patch cached)"
  unfolding traces_def
proof
  fix w
  let ?o = "if cached then [''--cached''] else []"
  let ?check = "patch_call repo ([''apply'', ''-R'', ''--check''] @ ?o) patch"
  let ?apply = "patch_call repo ([''apply'', ''-R''] @ ?o) patch"
  have na: "\<not> applies ?check" by (auto simp: applies_def patch_call_def plain_call_def)
  have cc: "check_call ?apply = ?check" by (auto simp: check_call_def patch_call_def plain_call_def)
  obtain x w1 where 1: "run_patch env repo ([''apply'', ''-R'', ''--check''] @ ?o) patch w = (x, w1)" by fastforce
  obtain b where b: "w_log w1 = w_log w @ [(?check, b)]" "x = Ok () \<longrightarrow> b" using run_patch_log[OF 1] by blast
  show "\<exists>cs. w_log (snd (apply_reverse env repo patch cached w)) = w_log w @ cs \<and> guarded cs"
  proof (cases x)
    case (Inl e)
    then have "snd (apply_reverse env repo patch cached w) = w1" using 1 by (simp add: apply_reverse_def bind_def)
    moreover have "guarded [(?check, b)]" using na by (intro guarded_none) simp
    ultimately show ?thesis using b by auto
  next
    case (Inr u)
    obtain y w2 where 2: "run_patch env repo ([''apply'', ''-R''] @ ?o) patch w1 = (y, w2)" by fastforce
    obtain b' where b': "w_log w2 = w_log w1 @ [(?apply, b')]" using run_patch_log[OF 2] by blast
    have "snd (apply_reverse env repo patch cached w) = w2" using 1 2 Inr by (simp add: apply_reverse_def bind_def)
    moreover have "guarded [(?check, True), (?apply, b')]"
      using na cc by (auto simp: guarded_def less_Suc_eq nth_Cons')
    ultimately show ?thesis using b b' Inr by (intro exI[of _ "[(?check, True), (?apply, b')]"]) simp
  qed
qed

lemma traces_discard_loop: "traces guarded (discard_loop env differ hash repo resolved cached groups cache)"
proof (induction groups arbitrary: cache)
  case Nil
  then show ?case by (simp add: checked_patches.ret)
next
  case (Cons g groups)
  obtain path indices where g: "g = (path, indices)" by (cases g)
  have "traces guarded (discard_hunks env differ hash repo resolved path indices cached cache)"
    unfolding discard_hunks_def
    by (intro checked_patches.bind checked_patches.attempt traces_no_apply[OF issues_load_file])
       (auto split: sum.split intro!: checked_patches.bind checked_patches.attempt checked_patches.ret traces_apply_reverse)
  then show ?case unfolding g discard_loop.simps
    by (intro checked_patches.bind checked_patches.pair) (auto split: sum.split intro: Cons checked_patches.ret)
qed

lemma issues_discard_all: "issues (\<lambda>c. \<not> applies (fst c)) (discard_all env repo source cached limit)"
  unfolding discard_all_def Let_def
  by (intro issues_bind issues_if issues_diff_summary issues_ret issues_run_paths) simp_all

lemma traces_discard_live: "traces guarded (discard_live env differ hash order repo source cached hunks cache limit)"
  unfolding discard_live_def
  by (intro checked_patches.bind checked_patches.attempt traces_no_apply[OF issues_not_applies[OF issues_resolve]])
     (auto split: sum.split option.split intro!: checked_patches.bind checked_patches.attempt checked_patches.ret
        traces_discard_loop traces_no_apply[OF issues_discard_all])

text \<open>
  C24. Discarding is guarded: a source other than HEAD/index or index/worktree is refused without
  running a command, and whatever git answers and in whatever order the paths are visited, a
  patch is only reverse-applied directly after a dry run of the same patch with the same options
  succeeded.
\<close>

theorem discard_only_checked_patches:
  "traces guarded (discard env differ hash order repo source hunks cache limit)
   \<and> ((\<forall>t. source \<noteq> HeadIndex t \<and> source \<noteq> IndexWorktree t) \<longrightarrow>
       discard env differ hash order repo source hunks cache limit w =
         (Ok (Err (InvalidArgument ''discard requires a HEAD/index or index/worktree source''), cache), w))"
proof
  show "traces guarded (discard env differ hash order repo source hunks cache limit)"
    unfolding discard_def by (cases source) (auto intro: checked_patches.ret traces_discard_live)
  show "(\<forall>t. source \<noteq> HeadIndex t \<and> source \<noteq> IndexWorktree t) \<longrightarrow>
       discard env differ hash order repo source hunks cache limit w =
         (Ok (Err (InvalidArgument ''discard requires a HEAD/index or index/worktree source''), cache), w)"
    by (cases source) (auto simp: discard_def ret_def)
qed

theorem discard_only_checked_patches_witness:
  "discard quiet_env (\<lambda>old new. []) id id ex_repo (HeadWorktree ''t'') None cache_default 0 ex_world =
     (Ok (Err (InvalidArgument ''discard requires a HEAD/index or index/worktree source''), cache_default), ex_world)"
  using discard_only_checked_patches[where source = "HeadWorktree ''t''"] by blast

section \<open>The hunk cache is transparent\<close>

text \<open>
  Objects never change: what the code relies on of \<open>cat-file blob\<close> is that the content of an object
  id is fixed, and of the raw output that object ids hold no colon.
\<close>

definition blob_law :: "'r GitEnv \<Rightarrow> GitRepo \<Rightarrow> (string \<Rightarrow> string) \<Rightarrow> bool" where
  "blob_law env repo content \<longleftrightarrow> (\<forall>oid w b w'. blob env repo oid w = (Ok b, w') \<longrightarrow> b = content oid)"

definition oid_law :: "'r GitEnv \<Rightarrow> GitRepo \<Rightarrow> bool" where
  "oid_law env repo \<longleftrightarrow> (\<forall>resolved path w e w'. file_entry env repo resolved path w = (Ok (Some e), w') \<longrightarrow>
     CHR '':'' \<notin> set (fe_old_oid e) \<and> CHR '':'' \<notin> set (fe_new_oid e))"

definition text_of :: "(string \<Rightarrow> string) \<Rightarrow> string \<Rightarrow> string" where
  "text_of content oid = utf8_lossy (if is_zero_oid oid then [] else content oid)"

definition cache_sound :: "differ \<Rightarrow> (string \<Rightarrow> string) \<Rightarrow> (string \<Rightarrow> string) \<Rightarrow> DiffCache \<Rightarrow> bool" where
  "cache_sound differ hash content cache \<longleftrightarrow> (\<forall>old new hs.
     CHR '':'' \<notin> set old \<and> CHR '':'' \<notin> set new \<and> cache_get cache (cache_key hash old new) = Some hs \<longrightarrow>
     hs = compute differ (text_of content old) (text_of content new))"

lemma cache_get_evict: "cache_get (cache_evict c) k = Some hs \<Longrightarrow> cache_get c k = Some hs"
  by (auto simp: cache_get_def cache_evict_def map_of_filter_neq split: list.splits if_splits)

lemma cache_get_insert:
  "cache_get (cache_insert c key hunks) k = Some hs \<Longrightarrow> k = key \<and> hs = hunks \<or> cache_get c k = Some hs"
  using cache_get_evict[of c k hs] by (auto simp: cache_insert_def cache_get_def Let_def split: if_splits)

lemma cache_key_inj:
  assumes "inj hash" "CHR '':'' \<notin> set a" "CHR '':'' \<notin> set a'" "cache_key hash a b = cache_key hash a' b'"
  shows "a = a' \<and> b = b'"
proof -
  have "a @ '':'' @ b = a' @ '':'' @ b'"
    using assms(1,4) by (auto simp: cache_key_def dest: injD)
  then show ?thesis using assms(2,3) segments_inj[of "CHR '':''" a a' b b'] by simp
qed

lemma cached_hunks_sound:
  assumes "inj hash" "cache_sound differ hash content cache"
    "CHR '':'' \<notin> set (fe_old_oid e)" "CHR '':'' \<notin> set (fe_new_oid e)"
    "old = text_of content (fe_old_oid e)" "new = text_of content (fe_new_oid e)"
  shows "fst (cached_hunks differ hash e old new cache) = compute differ old new"
    and "cache_sound differ hash content (snd (cached_hunks differ hash e old new cache))"
proof -
  show "fst (cached_hunks differ hash e old new cache) = compute differ old new"
    using assms by (auto simp: cached_hunks_def cache_sound_def Let_def split: option.split)
  show "cache_sound differ hash content (snd (cached_hunks differ hash e old new cache))"
  proof (cases "cache_get cache (cache_key hash (fe_old_oid e) (fe_new_oid e))")
    case None
    show ?thesis
      unfolding cache_sound_def
    proof (intro allI impI, elim conjE)
      fix o' n hs
      assume o: "CHR '':'' \<notin> set o'" "CHR '':'' \<notin> set n"
        and g: "cache_get (snd (cached_hunks differ hash e old new cache)) (cache_key hash o' n) = Some hs"
      from g None have "cache_get (cache_insert cache (cache_key hash (fe_old_oid e) (fe_new_oid e)) (compute differ old new))
          (cache_key hash o' n) = Some hs" by (simp add: cached_hunks_def Let_def)
      from cache_get_insert[OF this] show "hs = compute differ (text_of content o') (text_of content n)"
      proof (elim disjE conjE)
        assume k: "cache_key hash o' n = cache_key hash (fe_old_oid e) (fe_new_oid e)" "hs = compute differ old new"
        from cache_key_inj[OF assms(1) o(1) assms(3) k(1)] show ?thesis using k(2) assms(5,6) by simp
      next
        assume "cache_get cache (cache_key hash o' n) = Some hs"
        then show ?thesis using assms(2) o unfolding cache_sound_def by blast
      qed
    qed
  qed (use assms(2) in \<open>simp add: cached_hunks_def\<close>)
qed

lemma load_blob_content:
  "blob_law env repo content \<Longrightarrow> load_blob env repo oid w = (Ok b, w') \<Longrightarrow> utf8_lossy b = text_of content oid"
  by (auto simp: load_blob_def blob_law_def text_of_def ret_def split: if_splits)

lemma load_blobs_content:
  assumes "blob_law env repo content" "load_blobs env repo e w = (Ok (ob, nb), w')"
  shows "utf8_lossy ob = text_of content (fe_old_oid e) \<and> utf8_lossy nb = text_of content (fe_new_oid e)"
proof -
  obtain w1 where "load_blob env repo (fe_old_oid e) w = (Ok ob, w1)" "load_blob env repo (fe_new_oid e) w1 = (Ok nb, w')"
    using assms(2) by (auto simp: load_blobs_def both_def ret_def dest!: bind_Ok)
  then show ?thesis using load_blob_content[OF assms(1)] by blast
qed

lemma works_numstat_for: "works (numstat_for env repo resolved path)"
  unfolding numstat_for_def by (intro works_intros)

text \<open>What \<open>load_file\<close> makes of the two contents.\<close>

definition loaded_text ::
  "differ \<Rightarrow> (string \<Rightarrow> string) \<Rightarrow> FileEntry \<Rightarrow> string \<Rightarrow> string \<Rightarrow> u32 \<Rightarrow> u32 \<Rightarrow> DiffCache \<Rightarrow> LoadedFile \<times> DiffCache" where
  "loaded_text differ hash e ob nb a d cache =
     (if looks_binary ob \<or> looks_binary nb then (Binary e 0 0, cache)
      else if length ob > COLLAPSE_BYTES \<or> length nb > COLLAPSE_BYTES \<or> sat_add a d > COLLAPSE_LINES
      then (Collapsed e a d, cache)
      else (Text \<lparr>fp_entry = e, fp_old_tokens = line_tokens (utf8_lossy ob), fp_new_tokens = line_tokens (utf8_lossy nb),
          fp_hunks = fst (cached_hunks differ hash e (utf8_lossy ob) (utf8_lossy nb) cache)\<rparr>,
        snd (cached_hunks differ hash e (utf8_lossy ob) (utf8_lossy nb) cache)))"

lemma loaded_text_cache:
  assumes "inj hash" "cache_sound differ hash content cache" "cache_sound differ hash content cache2"
    "CHR '':'' \<notin> set (fe_old_oid e)" "CHR '':'' \<notin> set (fe_new_oid e)"
    "utf8_lossy ob = text_of content (fe_old_oid e)" "utf8_lossy nb = text_of content (fe_new_oid e)"
  shows "fst (loaded_text differ hash e ob nb a d cache) = fst (loaded_text differ hash e ob nb a d cache2)
    \<and> cache_sound differ hash content (snd (loaded_text differ hash e ob nb a d cache))"
  using cached_hunks_sound[OF assms(1,2,4,5,6,7)] cached_hunks_sound[OF assms(1,3,4,5,6,7)] assms(2)
  by (simp add: loaded_text_def)

text \<open>
  The hunk cache never changes what is shown: if every cached result was computed from the
  contents of the objects it is keyed by, then loading a file with the cache gives the same result
  and leaves the repository in the same state as loading it with an empty cache, and the cache it
  leaves again only holds results computed from the contents of their objects.
\<close>

theorem diff_cache_transparent:
  assumes "inj hash" "blob_law env repo content" "oid_law env repo" "cache_sound differ hash content cache"
  shows "snd (load_file env differ hash repo resolved path cache w)
      = snd (load_file env differ hash repo resolved path cache_default w)
    \<and> map_sum id fst (fst (load_file env differ hash repo resolved path cache w))
      = map_sum id fst (fst (load_file env differ hash repo resolved path cache_default w))
    \<and> (\<forall>loaded cache'. fst (load_file env differ hash repo resolved path cache w) = Ok (loaded, cache')
        \<longrightarrow> cache_sound differ hash content cache')"
proof -
  let ?load = "load_file env differ hash repo resolved path"
  have default: "cache_sound differ hash content cache_default"
    by (simp add: cache_sound_def cache_get_def cache_default_def)
  obtain x1 w1 where 1: "file_entry env repo resolved path w = (x1, w1)" by fastforce
  consider (skip) "\<forall>e. x1 \<noteq> Inr (Some e)" | (entry) e where "x1 = Inr (Some e)" by blast
  then show ?thesis
  proof cases
    case skip
    then have "?load c w = (case x1 of Inl e \<Rightarrow> (Err e, w1) | Inr _ \<Rightarrow> (Ok (Absent, c), w1))" for c
      using 1 by (auto simp: load_file_def bind_def ret_def split: sum.split option.split)
    then show ?thesis using assms(4) by (auto split: sum.split)
  next
    case entry
    have colon: "CHR '':'' \<notin> set (fe_old_oid e)" "CHR '':'' \<notin> set (fe_new_oid e)"
      using assms(3) 1 entry unfolding oid_law_def by blast+
    obtain x2 w2 where 2: "load_blobs env repo e w1 = (x2, w2)" by fastforce
    show ?thesis
    proof (cases x2)
      case (Inl err)
      then have "?load c w = (Err err, w2)" for c using 1 2 entry by (simp add: load_file_def bind_def)
      then show ?thesis by simp
    next
      case (Inr bytes)
      obtain ob nb where b: "bytes = (ob, nb)" by (cases bytes)
      obtain a d w3 where 3: "numstat_for env repo resolved path w2 = (Ok (a, d), w3)"
        using works_numstat_for[of env repo resolved path] unfolding works_def by (metis surj_pair)
      have eq: "?load c w = (Ok (loaded_text differ hash e ob nb a d c), w3)" for c
        using 1 2 3 entry Inr b
        by (simp add: load_file_def bind_def ret_def loaded_text_def Let_def case_prod_beta)
      have texts: "utf8_lossy ob = text_of content (fe_old_oid e)" "utf8_lossy nb = text_of content (fe_new_oid e)"
        using load_blobs_content[OF assms(2) 2[unfolded Inr b]] by simp_all
      show ?thesis
        using loaded_text_cache[OF assms(1) assms(4) default colon texts, of a d] by (auto simp: eq)
    qed
  qed
qed


text \<open>A repository with one modified file of one line.\<close>

definition ex_entry :: FileEntry where
  "ex_entry = \<lparr>fe_path = ''f'', fe_old_oid = ''aa'', fe_new_oid = ''bb'',
     fe_old_mode = ''100644'', fe_new_mode = ''100644'', fe_status = D_Modified\<rparr>"

definition file_env :: "unit GitEnv" where
  "file_env = quiet_env\<lparr>ge_run := (\<lambda>c d. (Ok (quiet_output\<lparr>out_stdout :=
     (if gc_args c ! 0 = ''cat-file'' then ''x'' else render_raw [(ex_entry, ''M'')])\<rparr>), d))\<rparr>"

definition ex_differ :: differ where
  "ex_differ old new = []"

definition ex_cache :: DiffCache where
  "ex_cache = snd (cached_hunks ex_differ id ex_entry (text_of (\<lambda>_. ''x'') ''aa'') (text_of (\<lambda>_. ''x'') ''bb'') cache_default)"

lemma file_env_checked:
  "checked file_env c w = (Ok (if gc_args c ! 0 = ''cat-file'' then ''x'' else render_raw [(ex_entry, ''M'')]),
     w\<lparr>w_log := w_log w @ [(c, True)]\<rparr>)"
  by (simp add: checked_def checked_as_def bind_def exec_def file_env_def quiet_output_def success_def ret_def)

lemma ex_raw_entries: "parse_raw_entries (render_raw [(ex_entry, ''M'')]) = [ex_entry]"
proof -
  have "list_all raw_ok [(ex_entry, ''M'')]"
    by (simp add: raw_ok_def ex_entry_def field_ok_def path_ok_def map_status_def ascii_def byte_in_def utf8_lossy_ascii)
  from raw_roundtrip[OF this] show ?thesis by simp
qed

theorem diff_cache_transparent_witness:
  "map_sum id fst (fst (load_file file_env ex_differ id ex_repo \<lparr>rd_source = HeadIndex ''t'', rd_old_tree = ''o'', rd_new_tree = ''n''\<rparr>
      ''f'' ex_cache ex_world))
   = map_sum id fst (fst (load_file file_env ex_differ id ex_repo \<lparr>rd_source = HeadIndex ''t'', rd_old_tree = ''o'', rd_new_tree = ''n''\<rparr>
      ''f'' cache_default ex_world))"
proof -
  have "blob_law file_env ex_repo (\<lambda>_. ''x'')"
    by (simp add: blob_law_def blob_def git_def run_checked_def file_env_checked plain_call_def)
  moreover have "oid_law file_env ex_repo"
    by (auto simp: oid_law_def file_entry_def git_literal_def bind_def file_env_checked plain_call_def diff_tree_args_def
        ret_def ex_raw_entries) (auto simp: ex_entry_def)
  moreover have "cache_sound ex_differ id (\<lambda>_. ''x'') ex_cache"
    unfolding ex_cache_def
    by (rule cached_hunks_sound(2)) (auto simp: cache_sound_def cache_get_def cache_default_def ex_entry_def)
  ultimately show ?thesis using diff_cache_transparent[of id] by fastforce
qed

end
