(* ===== verification/Git_Bootstrap.thy ===== *)
theory Git_Bootstrap
  imports Git_Repo
begin

text \<open>
  \<^verbatim>\<open>crates/tethys-git/src/bootstrap.rs\<close>: copying untracked files that match globs into a new
  worktree. The source directory is a finite tree, the destination a map from relative paths to
  contents. The backtracking loop of \<open>segment_matches\<close> is compared with the usual recursive
  meaning of \<open>*\<close> and \<open>?\<close>.
\<close>

section \<open>Globs\<close>

abbreviation star_char :: char where "star_char \<equiv> CHR ''*''"
abbreviation any_char :: char where "any_char \<equiv> CHR ''?''"

text \<open>
  The loop of \<open>segment_matches\<close>; its text index \<open>ti\<close> is \<open>resume + off\<close> (it never falls behind
  \<open>resume\<close>), which makes the progress of the loop visible.
\<close>

function glob_loop :: "string \<Rightarrow> string \<Rightarrow> nat \<Rightarrow> nat \<Rightarrow> nat option \<Rightarrow> nat \<Rightarrow> bool" where
  "glob_loop pattern text pi off star resume =
     (let ti = resume + off in
      if ti < length text then
        if pi < length pattern \<and> (pattern ! pi = any_char \<or> pattern ! pi = text ! ti)
        then glob_loop pattern text (pi + 1) (off + 1) star resume
        else if pi < length pattern \<and> pattern ! pi = star_char
        then glob_loop pattern text (pi + 1) 0 (Some pi) ti
        else case star of
            Some star_at \<Rightarrow> glob_loop pattern text (star_at + 1) 0 star (resume + 1)
          | None \<Rightarrow> False
      else length (dropWhile (\<lambda>c. c = star_char) (drop pi pattern)) = 0)"
  by pat_completeness auto
termination
  by (relation "measures [\<lambda>(p, t, pi, off, s, r). length t - r,
        \<lambda>(p, t, pi, off, s, r). (length t - (r + off)) + (length p - pi)]")
     auto

declare glob_loop.simps [simp del]

definition segment_matches :: "string \<Rightarrow> string \<Rightarrow> bool" where
  "segment_matches pattern text = glob_loop pattern text 0 0 None 0"

fun match_segments :: "string list \<Rightarrow> string list \<Rightarrow> bool" where
  "match_segments [] path = (path = [])"
| "match_segments (segment # pattern) path =
     (if segment = ''**''
      then list_ex (\<lambda>skip. match_segments pattern (drop skip path)) [0..<Suc (length path)]
      else path \<noteq> [] \<and> segment_matches segment (hd path) \<and> match_segments pattern (tl path))"

definition pattern_matches :: "string \<Rightarrow> string \<Rightarrow> bool" where
  "pattern_matches pattern path =
     match_segments (split_on (CHR ''/'') pattern) (split_on (CHR ''/'') path)"

section \<open>Walking and copying\<close>

text \<open>
  \<open>Special\<close> is what is neither a directory nor a regular file (a symbolic link, a socket); a
  directory lists its entries in the order of \<open>read_dir\<close>.
\<close>

datatype FsTree = File string | Dir "(string \<times> FsTree) list" | Special

definition join_rel :: "string \<Rightarrow> string \<Rightarrow> string" where
  "join_rel dir name = (if dir = [] then name else dir @ CHR ''/'' # name)"

text \<open>\<open>max_depth\<close> is \<open>None\<close> for \<open>usize::MAX\<close>; \<open>dir\<close> is relative to the root.\<close>

fun walk :: "string \<Rightarrow> nat \<Rightarrow> nat option \<Rightarrow> (string \<times> FsTree) list \<Rightarrow> GitError + string list" where
  "walk dir depth max_depth [] =
     (if depth > 32 then Err (InvalidPath dir) else Ok [])"
| "walk dir depth max_depth ((name, File contents) # entries) =
     (if depth > 32 then Err (InvalidPath dir)
      else case walk dir depth max_depth entries of
          Inl e \<Rightarrow> Err e
        | Inr found \<Rightarrow>
            Ok (if name = ''.git'' then found else to_slashes (join_rel dir name) # found))"
| "walk dir depth max_depth ((name, Special) # entries) =
     (if depth > 32 then Err (InvalidPath dir) else walk dir depth max_depth entries)"
| "walk dir depth max_depth ((name, Dir children) # entries) =
     (if depth > 32 then Err (InvalidPath dir)
      else
        case (if name \<noteq> ''.git'' \<and> (case max_depth of None \<Rightarrow> True | Some m \<Rightarrow> depth + 1 < m)
              then walk (join_rel dir name) (depth + 1) max_depth children else Ok []) of
          Inl e \<Rightarrow> Err e
        | Inr inner \<Rightarrow>
            (case walk dir depth max_depth entries of
               Inl e \<Rightarrow> Err e | Inr found \<Rightarrow> Ok (inner @ found)))"

definition contains_double_star :: "string \<Rightarrow> bool" where
  "contains_double_star pattern \<longleftrightarrow>
     list_ex (\<lambda>i. take 2 (drop i pattern) = ''**'') [0..<length pattern]"

definition max_depth :: "string list \<Rightarrow> nat option" where
  "max_depth globs =
     (if list_ex contains_double_star globs then None
      else Some (if globs = [] then 1
                 else Max (set (map (\<lambda>g. length (split_on (CHR ''/'') g)) globs))))"

text \<open>
  The destination maps relative paths to file contents. \<open>copy_fails\<close> says where creating the
  parent directories or writing the file fails; reading the source fails where the tree has no
  regular file at that path.
\<close>

type_synonym dest = "string \<rightharpoonup> string"

fun tree_file :: "(string \<times> FsTree) list \<Rightarrow> string list \<Rightarrow> string option" where
  "tree_file entries [] = None"
| "tree_file entries (name # segs) =
     (case map_of entries name of
        Some (File contents) \<Rightarrow> if segs = [] then Some contents else None
      | Some (Dir children) \<Rightarrow> tree_file children segs
      | _ \<Rightarrow> None)"

fun copy_files ::
  "(string \<Rightarrow> bool) \<Rightarrow> (string \<times> FsTree) list \<Rightarrow> string list \<Rightarrow> string list \<Rightarrow> string list \<Rightarrow> dest
    \<Rightarrow> (GitError + string list) \<times> dest" where
  "copy_files copy_fails source globs copied [] dest = (Ok copied, dest)"
| "copy_files copy_fails source globs copied (relative # files) dest =
     (if \<not> list_ex (\<lambda>glob. pattern_matches glob relative) globs
      then copy_files copy_fails source globs copied files dest
      else if dest relative \<noteq> None
      then copy_files copy_fails source globs copied files dest
      else if copy_fails relative then (Err (IoError relative), dest)
      else case tree_file source (split_on (CHR ''/'') relative) of
          None \<Rightarrow> (Err (IoError relative), dest)
        | Some contents \<Rightarrow>
            copy_files copy_fails source globs (copied @ [relative]) files (dest(relative \<mapsto> contents)))"

definition bootstrap_copy ::
  "(string \<Rightarrow> bool) \<Rightarrow> (string \<times> FsTree) list \<Rightarrow> string list \<Rightarrow> dest \<Rightarrow> (GitError + string list) \<times> dest" where
  "bootstrap_copy copy_fails source globs dest =
     (if globs = [] then (Ok [], dest)
      else case walk [] 0 (max_depth globs) source of
          Inl e \<Rightarrow> (Err e, dest)
        | Inr files \<Rightarrow> copy_files copy_fails source globs [] files dest)"

section \<open>What a glob means\<close>

fun glob :: "string \<Rightarrow> string \<Rightarrow> bool" where
  "glob [] t \<longleftrightarrow> t = []"
| "glob (c # p) t \<longleftrightarrow>
     (if c = star_char then list_ex (\<lambda>k. glob p (drop k t)) [0..<Suc (length t)]
      else t \<noteq> [] \<and> (c = any_char \<or> c = hd t) \<and> glob p (tl t))"

lemma glob_star: "glob (star_char # p) t \<longleftrightarrow> (\<exists>k \<le> length t. glob p (drop k t))"
  by (auto simp: list_ex_iff less_Suc_eq_le simp del: upt_Suc)

lemma glob_plain: "c \<noteq> star_char \<Longrightarrow> glob (c # p) t \<longleftrightarrow>
    t \<noteq> [] \<and> (c = any_char \<or> c = hd t) \<and> glob p (tl t)"
  by simp

declare glob.simps(2) [simp del]

lemma glob_nil_text: "glob p [] \<longleftrightarrow> dropWhile (\<lambda>c. c = star_char) p = []"
proof (induction p)
  case (Cons c p)
  then show ?case by (cases "c = star_char") (simp_all add: glob_star glob_plain)
qed simp

text \<open>A star-free prefix consumes exactly its length.\<close>

lemma glob_prefix:
  "star_char \<notin> set u \<Longrightarrow> glob (u @ v) t \<longleftrightarrow>
     length u \<le> length t \<and> glob u (take (length u) t) \<and> glob v (drop (length u) t)"
proof (induction u arbitrary: t)
  case (Cons c u)
  then have c: "c \<noteq> star_char" by auto
  show ?case
  proof (cases t)
    case (Cons x t')
    then show ?thesis using Cons.IH[of t'] Cons.prems c by (auto simp: glob_plain[OF c])
  qed (simp add: glob_plain[OF c])
qed simp

definition after_star :: "string \<Rightarrow> nat \<Rightarrow> nat \<Rightarrow> string" where
  "after_star pattern s pi = take (pi - (s + 1)) (drop (s + 1) pattern)"

definition glob_inv :: "string \<Rightarrow> string \<Rightarrow> nat \<Rightarrow> nat \<Rightarrow> nat option \<Rightarrow> nat \<Rightarrow> bool" where
  "glob_inv pattern text pi off star resume \<longleftrightarrow>
     pi \<le> length pattern \<and> resume + off \<le> length text \<and>
     (case star of None \<Rightarrow> True
      | Some s \<Rightarrow> s < pi \<and> off = pi - (s + 1) \<and> star_char \<notin> set (after_star pattern s pi))"

definition later_match :: "string \<Rightarrow> string \<Rightarrow> nat option \<Rightarrow> nat \<Rightarrow> bool" where
  "later_match pattern text star resume \<longleftrightarrow>
     (case star of None \<Rightarrow> False
      | Some s \<Rightarrow> (\<exists>k. resume < k \<and> k \<le> length text \<and> glob (drop (s + 1) pattern) (drop k text)))"

lemma after_star_split:
  "s < pi \<Longrightarrow> pi \<le> length pattern \<Longrightarrow> drop (s + 1) pattern = after_star pattern s pi @ drop pi pattern
     \<and> length (after_star pattern s pi) = pi - (s + 1)"
proof -
  assume "s < pi" "pi \<le> length pattern"
  then have "drop pi pattern = drop (pi - (s + 1)) (drop (s + 1) pattern)" by simp
  then show ?thesis using \<open>pi \<le> length pattern\<close>
    by (simp add: after_star_def del: drop_drop)
qed

text \<open>Where a later attempt of the pattern after the last star leaves off.\<close>

lemma later_match_rest:
  assumes "glob_inv pattern text pi off star resume" "later_match pattern text star resume"
  shows "\<exists>k. resume + off < k \<and> k \<le> length text \<and> glob (drop pi pattern) (drop k text)"
proof -
  obtain s k where s: "star = Some s" "resume < k" "k \<le> length text"
    "glob (drop (s + 1) pattern) (drop k text)"
    using assms(2) by (auto simp: later_match_def split: option.splits)
  have inv: "s < pi" "pi \<le> length pattern" "off = pi - (s + 1)" "star_char \<notin> set (after_star pattern s pi)"
    using assms(1) s(1) by (auto simp: glob_inv_def)
  note sp = after_star_split[OF inv(1,2)]
  have "glob (after_star pattern s pi @ drop pi pattern) (drop k text)" using s(4) sp by simp
  then have "off \<le> length text - k" "glob (drop pi pattern) (drop (k + off) text)"
    using glob_prefix[OF inv(4)] sp inv(3) by (simp_all add: add.commute)
  then show ?thesis using s(2,3) by (intro exI[of _ "k + off"]) auto
qed

lemma glob_inv_step:
  assumes "glob_inv pattern text pi off star resume" "pi < length pattern" "resume + off < length text"
    "pattern ! pi \<noteq> star_char"
  shows "glob_inv pattern text (pi + 1) (off + 1) star resume"
proof -
  have "after_star pattern s (pi + 1) = after_star pattern s pi @ [pattern ! pi]" if "s < pi" for s
  proof -
    have "pi + 1 - (s + 1) = Suc (pi - (s + 1))" "pi - (s + 1) < length (drop (s + 1) pattern)"
      "drop (s + 1) pattern ! (pi - (s + 1)) = pattern ! pi"
      using that assms(2) by simp_all
    then show ?thesis unfolding after_star_def by (simp only: take_Suc_conv_app_nth)
  qed
  then show ?thesis using assms by (auto simp: glob_inv_def split: option.splits)
qed

lemma glob_loop_correct:
  assumes "star_char \<notin> set text" "glob_inv pattern text pi off star resume"
  shows "glob_loop pattern text pi off star resume \<longleftrightarrow>
    glob (drop pi pattern) (drop (resume + off) text) \<or> later_match pattern text star resume"
  using assms
proof (induction pattern "text" pi off star resume rule: glob_loop.induct)
  case (1 pattern "text" pi off star resume)
  let ?ti = "resume + off"
  note inv = "1.prems"(2)
  show ?case
  proof (cases "?ti < length text")
    case False
    then have "drop ?ti text = []" by simp
    moreover have "\<not> later_match pattern text star resume"
      using later_match_rest[OF inv] False by auto
    ultimately show ?thesis using False by (subst glob_loop.simps) (simp add: glob_nil_text)
  next
    case True
    then have ti: "drop ?ti text = text ! ?ti # drop (?ti + 1) text"
      by (simp add: Cons_nth_drop_Suc)
    have ns: "text ! ?ti \<noteq> star_char" using "1.prems"(1) True by (metis nth_mem)
    consider (lit) "pi < length pattern" "pattern ! pi = any_char \<or> pattern ! pi = text ! ?ti"
      | (star) "pi < length pattern" "pattern ! pi = star_char"
      | (miss) "pi < length pattern \<longrightarrow> pattern ! pi \<noteq> any_char \<and> pattern ! pi \<noteq> text ! ?ti \<and> pattern ! pi \<noteq> star_char"
      by blast
    then show ?thesis
    proof cases
      case lit
      then have c: "pattern ! pi \<noteq> star_char" using ns by auto
      have p: "drop pi pattern = pattern ! pi # drop (pi + 1) pattern"
        using lit(1) by (simp add: Cons_nth_drop_Suc)
      have "glob (drop pi pattern) (drop ?ti text) \<longleftrightarrow> glob (drop (pi + 1) pattern) (drop (resume + (off + 1)) text)"
        unfolding p ti using lit(2) by (simp add: glob_plain[OF c])
      then show ?thesis
        using "1.IH"(1)[OF refl True _ "1.prems"(1) glob_inv_step[OF inv lit(1) True c]] lit True
        by (subst glob_loop.simps) simp
    next
      case star
      have p: "drop pi pattern = star_char # drop (pi + 1) pattern"
        using star by (metis Cons_nth_drop_Suc Suc_eq_plus1)
      have nl: "\<not> (pattern ! pi = any_char \<or> pattern ! pi = text ! ?ti)" using star ns by auto
      have inv': "glob_inv pattern text (pi + 1) 0 (Some pi) ?ti"
        using star True by (simp add: glob_inv_def after_star_def)
      have all: "(glob (drop (pi + 1) pattern) (drop ?ti text) \<or> later_match pattern text (Some pi) ?ti)
          \<longleftrightarrow> glob (drop pi pattern) (drop ?ti text)"
      proof -
        have "glob (drop pi pattern) (drop ?ti text) \<longleftrightarrow>
            (\<exists>k \<ge> ?ti. k \<le> length text \<and> glob (drop (pi + 1) pattern) (drop k text))"
        proof
          assume "glob (drop pi pattern) (drop ?ti text)"
          then obtain k where "k \<le> length text - ?ti" "glob (drop (pi + 1) pattern) (drop (k + ?ti) text)"
            unfolding p glob_star by auto
          then show "\<exists>k \<ge> ?ti. k \<le> length text \<and> glob (drop (pi + 1) pattern) (drop k text)"
            using True by (intro exI[of _ "k + ?ti"]) simp
        next
          assume "\<exists>k \<ge> ?ti. k \<le> length text \<and> glob (drop (pi + 1) pattern) (drop k text)"
          then obtain k where k: "?ti \<le> k" "k \<le> length text" "glob (drop (pi + 1) pattern) (drop k text)" by blast
          have "drop (k - ?ti) (drop ?ti text) = drop k text" using k(1) by simp
          then show "glob (drop pi pattern) (drop ?ti text)"
            unfolding p glob_star using k by (intro exI[of _ "k - ?ti"]) (simp del: drop_drop)
        qed
        then show ?thesis
          using True by (auto simp: later_match_def order_le_less)
      qed
      have "later_match pattern text star resume \<Longrightarrow> glob (drop pi pattern) (drop ?ti text)"
      proof -
        assume "later_match pattern text star resume"
        from later_match_rest[OF inv this] obtain k where k: "?ti < k" "k \<le> length text"
          "glob (star_char # drop (pi + 1) pattern) (drop k text)" using p by auto
        then obtain j where "j \<le> length text - k" "glob (drop (pi + 1) pattern) (drop (k + j) text)"
          by (auto simp: glob_star add.commute)
        then have "later_match pattern text (Some pi) ?ti"
          using k(1,2) by (auto simp: later_match_def intro!: exI[of _ "k + j"])
        then show ?thesis using all by blast
      qed
      then show ?thesis
        using "1.IH"(2)[OF refl True _ _ "1.prems"(1) inv'] star nl True all
        by (subst glob_loop.simps) auto
    next
      case miss
      have no: "\<not> glob (drop pi pattern) (drop ?ti text)"
      proof (cases "pi < length pattern")
        case pi: True
        then have "drop pi pattern = pattern ! pi # drop (pi + 1) pattern" by (simp add: Cons_nth_drop_Suc)
        then show ?thesis unfolding ti using miss pi by (simp add: glob_plain)
      next
        case False
        then show ?thesis unfolding ti by simp
      qed
      show ?thesis
      proof (cases star)
        case None
        then show ?thesis using no miss True
          by (subst glob_loop.simps) (simp add: later_match_def)
      next
        case (Some s)
        have inv': "glob_inv pattern text (s + 1) 0 star (resume + 1)"
          using inv True Some by (auto simp: glob_inv_def after_star_def)
        have "later_match pattern text star resume \<longleftrightarrow>
            glob (drop (s + 1) pattern) (drop (resume + 1) text) \<or> later_match pattern text star (resume + 1)"
        proof -
          have "resume + 1 \<le> length text" using True by simp
          moreover have "resume < k \<longleftrightarrow> k = resume + 1 \<or> resume + 1 < k" for k by auto
          ultimately show ?thesis using Some by (auto simp: later_match_def)
        qed
        then show ?thesis
          using "1.IH"(3)[OF refl True _ _ Some "1.prems"(1)] inv' no miss True Some
          by (subst glob_loop.simps) auto
      qed
    qed
  qed
qed

text \<open>
  On file names without a literal star, the backtracking loop of \<open>segment_matches\<close> decides
  the usual meaning of a glob: \<open>?\<close> one character, \<open>*\<close> any run of characters, every other
  character itself. On a name that contains a star it may not: \<open>*b\<close> does not match \<open>*ab\<close>,
  because the star of the pattern is compared literally first.
\<close>
theorem segment_matches_reference:
  "(star_char \<notin> set text \<longrightarrow> (segment_matches pattern text \<longleftrightarrow> glob pattern text)) \<and>
   \<not> segment_matches ''*b'' ''*ab'' \<and> glob ''*b'' ''*ab''"
proof -
  have "glob_inv pattern text 0 0 None 0" by (simp add: glob_inv_def)
  from glob_loop_correct[OF _ this]
  have "star_char \<notin> set text \<longrightarrow> (segment_matches pattern text \<longleftrightarrow> glob pattern text)"
    by (simp add: segment_matches_def later_match_def)
  moreover have "\<not> segment_matches ''*b'' ''*ab''" "glob ''*b'' ''*ab''"
    by (simp_all add: segment_matches_def glob_loop.simps Let_def glob.simps)
  ultimately show ?thesis by blast
qed

text \<open>\<open>.env*\<close> matches \<open>.env.local\<close> by the loop, hence by the reference.\<close>

theorem segment_matches_reference_witness:
  "segment_matches ''.env*'' ''.env.local'' \<and> glob ''.env*'' ''.env.local''"
proof -
  have "segment_matches ''.env*'' ''.env.local''"
    by (simp add: segment_matches_def glob_loop.simps Let_def)
  then show ?thesis using segment_matches_reference[of "''.env.local''" "''.env*''"] by simp
qed

section \<open>What is copied\<close>

text \<open>Names as the file system has them, without a backslash; distinct in a directory.\<close>

definition valid_name :: "string \<Rightarrow> bool" where
  "valid_name name \<longleftrightarrow> name \<noteq> [] \<and> CHR ''/'' \<notin> set name \<and> CHR 0x5C \<notin> set name"

fun wf_entries :: "(string \<times> FsTree) list \<Rightarrow> bool" where
  "wf_entries [] = True"
| "wf_entries ((name, File contents) # entries) \<longleftrightarrow>
     valid_name name \<and> name \<notin> fst ` set entries \<and> wf_entries entries"
| "wf_entries ((name, Special) # entries) \<longleftrightarrow>
     valid_name name \<and> name \<notin> fst ` set entries \<and> wf_entries entries"
| "wf_entries ((name, Dir children) # entries) \<longleftrightarrow>
     valid_name name \<and> name \<notin> fst ` set entries \<and> wf_entries children \<and> wf_entries entries"

fun height :: "(string \<times> FsTree) list \<Rightarrow> nat" where
  "height [] = 0"
| "height ((name, File contents) # entries) = height entries"
| "height ((name, Special) # entries) = height entries"
| "height ((name, Dir children) # entries) = max (1 + height children) (height entries)"

definition listed :: "(string \<times> FsTree) list \<Rightarrow> string list \<Rightarrow> bool" where
  "listed entries segs \<longleftrightarrow> tree_file entries segs \<noteq> None \<and> ''.git'' \<notin> set segs"

definition rel_path :: "string \<Rightarrow> string list \<Rightarrow> string" where
  "rel_path dir segs = join_rel dir (join_with (CHR ''/'') segs)"

definition within :: "nat option \<Rightarrow> nat \<Rightarrow> string list \<Rightarrow> bool" where
  "within md depth segs \<longleftrightarrow> (case md of None \<Rightarrow> True | Some m \<Rightarrow> length segs = 1 \<or> depth + length segs \<le> m)"

lemma walk_total: "depth + height entries \<le> 32 \<Longrightarrow> \<exists>files. walk dir depth md entries = Ok files"
  by (induction dir depth md entries rule: walk.induct) (fastforce split: sum.splits)+

lemma tree_file_Cons:
  "tree_file ((n, t) # es) (m # segs) =
     (if m = n then (case t of File c \<Rightarrow> if segs = [] then Some c else None
                     | Dir ch \<Rightarrow> tree_file ch segs | Special \<Rightarrow> None)
      else tree_file es (m # segs))"
  by (simp split: FsTree.split)

lemma listed_head: "listed entries (m # segs) \<Longrightarrow> m \<in> fst ` set entries"
  by (auto simp: listed_def split: option.splits dest: map_of_SomeD intro: rev_image_eqI)

lemma listed_nonempty: "listed entries segs \<Longrightarrow> segs \<noteq> []"
  by (auto simp: listed_def)

lemma listed_skip:
  "n \<notin> fst ` set es \<Longrightarrow> listed ((n, t) # es) segs \<longleftrightarrow>
     listed es segs \<or> (\<exists>rest. segs = n # rest \<and> n \<noteq> ''.git'' \<and>
       (case t of File c \<Rightarrow> rest = [] | Dir ch \<Rightarrow> listed ch rest | Special \<Rightarrow> False))"
proof (cases segs)
  case (Cons m rest)
  assume "n \<notin> fst ` set es"
  then show ?thesis using Cons listed_head[of es n rest]
    by (auto simp: listed_def tree_file_Cons split: FsTree.splits if_splits simp del: tree_file.simps(2))
qed (simp add: listed_def)

lemma rel_path_dir: "n \<noteq> [] \<Longrightarrow> segs \<noteq> [] \<Longrightarrow> rel_path (join_rel dir n) segs = rel_path dir (n # segs)"
  by (cases segs) (auto simp: rel_path_def join_rel_def)

lemma rel_path_single [simp]: "rel_path dir [n] = join_rel dir n"
  by (simp add: rel_path_def)

lemma join_rel_chars: "set (join_rel dir name) \<subseteq> set dir \<union> set name \<union> {CHR ''/''}"
  by (auto simp: join_rel_def)

text \<open>The walk lists exactly the regular files within its depth, outside \<open>.git\<close>.\<close>

lemma walk_lists:
  "wf_entries entries \<Longrightarrow> CHR 0x5C \<notin> set dir \<Longrightarrow> walk dir depth md entries = Ok files \<Longrightarrow>
   set files = rel_path dir ` {segs. listed entries segs \<and> within md depth segs}"
proof (induction dir depth md entries arbitrary: files rule: walk.induct)
  case (1 dir depth md)
  have "\<not> listed [] segs" for segs by (cases segs) (simp_all add: listed_def)
  then show ?case using 1 by (auto split: if_splits)
next
  case (2 dir depth md name contents entries)
  obtain found where f: "walk dir depth md entries = Ok found" "\<not> depth > 32"
    "files = (if name = ''.git'' then found else to_slashes (join_rel dir name) # found)"
    using "2.prems"(3) by (auto split: if_splits sum.splits)
  have "to_slashes (join_rel dir name) = join_rel dir name"
    using "2.prems"(1,2) join_rel_chars[of dir name] by (intro to_slashes_id) (auto simp: valid_name_def)
  moreover have "{segs. listed ((name, File contents) # entries) segs \<and> within md depth segs} =
      {segs. listed entries segs \<and> within md depth segs} \<union> (if name = ''.git'' then {} else {[name]})"
    using listed_skip[of name entries] "2.prems"(1) by (auto simp: within_def split: option.splits)
  ultimately show ?case using "2.IH"[OF f(2) _ _ f(1)] "2.prems"(1,2) f(3) by (simp add: image_Un)
next
  case (3 dir depth md name entries)
  have "listed ((name, Special) # entries) segs \<longleftrightarrow> listed entries segs" for segs
    using listed_skip[of name entries] "3.prems"(1) by auto
  then show ?case using 3 by (auto split: if_splits)
next
  case (4 dir depth md name children entries)
  let ?in = "name \<noteq> ''.git'' \<and> (case md of None \<Rightarrow> True | Some m \<Rightarrow> depth + 1 < m)"
  obtain inner found where f: "\<not> depth > 32" "walk dir depth md entries = Ok found"
    "(if ?in then walk (join_rel dir name) (depth + 1) md children else Ok []) = Ok inner"
    "files = inner @ found"
    using "4.prems"(3) by (auto split: if_splits sum.splits)
  have wf: "valid_name name" "wf_entries children" "name \<notin> fst ` set entries" "wf_entries entries"
    using "4.prems"(1) by simp_all
  have dir: "CHR 0x5C \<notin> set (join_rel dir name)"
    using wf(1) "4.prems"(2) join_rel_chars[of dir name] by (auto simp: valid_name_def)
  have deep: "within md depth (name # rest) \<longleftrightarrow> (case md of None \<Rightarrow> True | Some m \<Rightarrow> depth + 1 < m)
      \<and> within md (depth + 1) rest" if "rest \<noteq> []" for rest
    using that by (cases rest) (auto simp: within_def split: option.splits)
  have "set inner = rel_path dir ` {segs. \<exists>rest. segs = name # rest \<and> name \<noteq> ''.git'' \<and>
      listed children rest \<and> within md depth segs}"
  proof (cases ?in)
    case True
    then have "set inner = rel_path (join_rel dir name) ` {segs. listed children segs \<and> within md (depth + 1) segs}"
      using "4.IH"(1)[OF f(1) True wf(2) dir] f(3) by simp
    also have "\<dots> = (\<lambda>rest. rel_path dir (name # rest)) ` {rest. listed children rest \<and> within md (depth + 1) rest}"
      using wf(1) by (intro image_cong refl) (auto simp: rel_path_dir valid_name_def dest: listed_nonempty)
    also have "{rest. listed children rest \<and> within md (depth + 1) rest} = {rest. listed children rest \<and> within md depth (name # rest)}"
      using deep True by (auto dest: listed_nonempty)
    finally show ?thesis using True by (auto simp: image_iff)
  next
    case False
    then show ?thesis using f(3) deep by (auto dest: listed_nonempty)
  qed
  moreover have "{segs. listed ((name, Dir children) # entries) segs \<and> within md depth segs} =
      {segs. listed entries segs \<and> within md depth segs} \<union>
      {segs. \<exists>rest. segs = name # rest \<and> name \<noteq> ''.git'' \<and> listed children rest \<and> within md depth segs}"
    using listed_skip[OF wf(3), of "Dir children"] by auto
  ultimately show ?case
    using "4.IH"(2)[OF f(1,3) wf(4) "4.prems"(2) f(2)] f(4) by (simp add: image_Un Un_commute)
qed

text \<open>A glob without \<open>**\<close> matches paths of exactly its number of segments.\<close>

lemma match_segments_length:
  "''**'' \<notin> set pattern \<Longrightarrow> match_segments pattern path \<Longrightarrow> length path = length pattern"
proof (induction pattern path rule: match_segments.induct)
  case (2 segment pattern path)
  then have "path \<noteq> []" "length (tl path) = length pattern" by auto
  then show ?case by (cases path) auto
qed simp

lemma split_on_infix: "l \<in> set (split_on c s) \<Longrightarrow> \<exists>a b. s = a @ l @ b"
proof -
  have *: "l \<in> set ls \<Longrightarrow> \<exists>a b. join_with c ls = a @ l @ b" for ls
  proof (induction c ls rule: join_with.induct)
    case (3 c k m ms)
    show ?case
    proof (cases "l = k")
      case True
      then show ?thesis by (metis append_Nil join_with.simps(3))
    next
      case False
      then obtain a b where "join_with c (m # ms) = a @ l @ b" using 3 by auto
      then have "join_with c (k # m # ms) = (k @ c # a) @ l @ b" by simp
      then show ?thesis by blast
    qed
  next
    case (2 c k)
    then have "join_with c [k] = [] @ l @ []" by simp
    then show ?case by blast
  qed simp
  assume "l \<in> set (split_on c s)"
  from *[OF this] show ?thesis by simp
qed

lemma within_bound: "length segs \<le> m \<Longrightarrow> within (Some m) 0 segs"
  by (simp add: within_def)

lemma double_star_segment: "''**'' \<in> set (split_on c s) \<Longrightarrow> contains_double_star s"
proof -
  assume "''**'' \<in> set (split_on c s)"
  then obtain a b where "s = a @ ''**'' @ b" using split_on_infix by blast
  then have "length a < length s" "take 2 (drop (length a) s) = ''**''" by simp_all
  then show ?thesis by (auto simp: contains_double_star_def list_ex_iff)
qed

text \<open>Hence the depth bound loses no matching path.\<close>

lemma max_depth_enough:
  assumes "g \<in> set globs" "pattern_matches g path"
  shows "within (max_depth globs) 0 (split_on (CHR ''/'') path)"
proof (cases "list_ex contains_double_star globs")
  case False
  then have "''**'' \<notin> set (split_on (CHR ''/'') g)"
    using assms(1) double_star_segment by (auto simp: list_ex_iff)
  then have "length (split_on (CHR ''/'') path) = length (split_on (CHR ''/'') g)"
    using assms(2) match_segments_length by (auto simp: pattern_matches_def)
  also have "\<dots> \<le> Max (set (map (\<lambda>g. length (split_on (CHR ''/'') g)) globs))"
    using assms(1) by (intro Max_ge) auto
  finally show ?thesis using False assms(1) within_bound
    by (auto simp: max_depth_def simp del: set_map)
qed (simp add: max_depth_def within_def)

lemma wf_member: "wf_entries es \<Longrightarrow> (n, t) \<in> set es \<Longrightarrow> valid_name n"
  by (induction es rule: wf_entries.induct) auto

lemma wf_child: "wf_entries es \<Longrightarrow> (n, Dir ch) \<in> set es \<Longrightarrow> wf_entries ch"
  by (induction es rule: wf_entries.induct) auto

lemma listed_names: "wf_entries entries \<Longrightarrow> listed entries segs \<Longrightarrow> n \<in> set segs \<Longrightarrow> valid_name n"
proof (induction segs arbitrary: entries)
  case (Cons name segs)
  then obtain t where t: "map_of entries name = Some t" by (auto simp: listed_def split: option.splits)
  note mem = map_of_SomeD[OF t]
  show ?case
  proof (cases "n = name")
    case True
    then show ?thesis using wf_member[OF Cons.prems(1) mem] by simp
  next
    case False
    then have n: "n \<in> set segs" using Cons.prems(3) by simp
    then obtain ch where ch: "t = Dir ch"
      using Cons.prems(2) t by (cases t) (auto simp: listed_def split: if_splits)
    then have "listed ch segs" using Cons.prems(2) t by (simp add: listed_def)
    then show ?thesis using Cons.IH[OF wf_child _ n] Cons.prems(1) mem ch by blast
  qed
qed simp

definition source_file :: "(string \<times> FsTree) list \<Rightarrow> string \<Rightarrow> bool" where
  "source_file source relative \<longleftrightarrow> listed source (split_on (CHR ''/'') relative)"

lemma walk_source_files:
  assumes "wf_entries source" "walk [] 0 md source = Ok files"
  shows "relative \<in> set files \<longleftrightarrow>
    source_file source relative \<and> within md 0 (split_on (CHR ''/'') relative)"
proof -
  have files: "set files = join_with (CHR ''/'') ` {segs. listed source segs \<and> within md 0 segs}"
    using walk_lists[OF assms(1) _ assms(2)] by (simp add: rel_path_def join_rel_def)
  have "split_on (CHR ''/'') (join_with (CHR ''/'') segs) = segs" if "listed source segs" for segs
    using listed_names[OF assms(1) that] listed_nonempty[OF that]
    by (intro split_on_join) (auto simp: valid_name_def)
  then show ?thesis unfolding files source_file_def
    by (auto simp: image_iff intro!: exI[of _ "split_on (CHR ''/'') relative"])
qed

definition wanted :: "(string \<times> FsTree) list \<Rightarrow> string list \<Rightarrow> string \<Rightarrow> bool" where
  "wanted source globs relative \<longleftrightarrow>
     source_file source relative \<and> (\<exists>g \<in> set globs. pattern_matches g relative)"

lemma copy_files_exact:
  "(\<And>r. r \<in> set files \<Longrightarrow> \<not> copy_fails r \<and> source_file source r) \<Longrightarrow>
   \<exists>new. copy_files copy_fails source globs copied files dest =
      (Ok (copied @ new), \<lambda>r. if r \<in> set new then tree_file source (split_on (CHR ''/'') r) else dest r) \<and>
    set new = {r \<in> set files. (\<exists>g \<in> set globs. pattern_matches g r) \<and> dest r = None} \<and> distinct new"
proof (induction files arbitrary: copied dest)
  case (Cons r files)
  have pre: "\<And>r. r \<in> set files \<Longrightarrow> \<not> copy_fails r \<and> source_file source r" using Cons.prems by simp
  show ?case
  proof (cases "(\<exists>g \<in> set globs. pattern_matches g r) \<and> dest r = None")
    case False
    then have "copy_files copy_fails source globs copied (r # files) dest
        = copy_files copy_fails source globs copied files dest" by (auto simp: list_ex_iff)
    moreover have "{x \<in> set (r # files). (\<exists>g \<in> set globs. pattern_matches g x) \<and> dest x = None}
        = {x \<in> set files. (\<exists>g \<in> set globs. pattern_matches g x) \<and> dest x = None}" using False by auto
    ultimately show ?thesis using Cons.IH[OF pre, of copied dest] by simp
  next
    case True
    obtain c where c: "tree_file source (split_on (CHR ''/'') r) = Some c"
      using Cons.prems[of r] by (auto simp: source_file_def listed_def)
    obtain new where new: "copy_files copy_fails source globs (copied @ [r]) files (dest(r \<mapsto> c)) =
        (Ok ((copied @ [r]) @ new),
         \<lambda>x. if x \<in> set new then tree_file source (split_on (CHR ''/'') x) else (dest(r \<mapsto> c)) x)"
      "set new = {x \<in> set files. (\<exists>g \<in> set globs. pattern_matches g x) \<and> (dest(r \<mapsto> c)) x = None}" "distinct new"
      using Cons.IH[OF pre, of "copied @ [r]" "dest(r \<mapsto> c)"] by blast
    have "copy_files copy_fails source globs copied (r # files) dest
        = copy_files copy_fails source globs (copied @ [r]) files (dest(r \<mapsto> c))"
      using True c Cons.prems[of r] by (auto simp: list_ex_iff)
    also have "\<dots> = (Ok (copied @ r # new),
        \<lambda>x. if x \<in> set (r # new) then tree_file source (split_on (CHR ''/'') x) else dest x)"
    proof -
      have "(\<lambda>x. if x \<in> set new then tree_file source (split_on (CHR ''/'') x) else (dest(r \<mapsto> c)) x)
        = (\<lambda>x. if x \<in> set (r # new) then tree_file source (split_on (CHR ''/'') x) else dest x)"
        using c by (intro ext) simp
      then show ?thesis using new(1) by simp
    qed
    finally show ?thesis
    proof (intro exI[of _ "r # new"] conjI)
      show "set (r # new) = {x \<in> set (r # files). (\<exists>g \<in> set globs. pattern_matches g x) \<and> dest x = None}"
        "distinct (r # new)" using new(2,3) True by auto
    qed
  qed
qed simp

text \<open>
  C17. In a source tree of at most 32 levels, and when no write fails, the bootstrap copies every
  regular file outside \<open>.git\<close> that some glob matches and the worktree does not have, each once
  with the contents of the source, reports exactly those paths, and changes nothing else. The
  depth limit computed from the globs never hides a matching file.
\<close>
theorem bootstrap_copies_exactly:
  assumes "wf_entries source" "height source \<le> 32" "\<And>r. \<not> copy_fails r"
  shows "\<exists>copied. bootstrap_copy copy_fails source globs dest =
      (Ok copied, \<lambda>r. if r \<in> set copied then tree_file source (split_on (CHR ''/'') r) else dest r) \<and>
    set copied = {r. wanted source globs r \<and> dest r = None} \<and> distinct copied"
proof (cases "globs = []")
  case True
  then show ?thesis by (auto simp: bootstrap_copy_def wanted_def)
next
  case False
  obtain files where files: "walk [] 0 (max_depth globs) source = Ok files"
    using walk_total[of 0 source "[]" "max_depth globs"] assms(2) by auto
  note in_files = walk_source_files[OF assms(1) files]
  have "{r \<in> set files. (\<exists>g \<in> set globs. pattern_matches g r) \<and> dest r = None}
      = {r. wanted source globs r \<and> dest r = None}"
    using max_depth_enough by (auto simp: in_files wanted_def)
  then show ?thesis
    using copy_files_exact[of files copy_fails source globs "[]" dest] assms(3) False files in_files
    by (auto simp: bootstrap_copy_def)
qed

text \<open>A project with an environment file at the top and one in a package.\<close>

theorem bootstrap_copies_exactly_witness:
  "\<exists>copied. bootstrap_copy (\<lambda>r. False) [(''.env'', File ''A''), (''app'', Dir [(''.env'', File ''B'')])]
      [''.env*''] Map.empty =
      (Ok copied, \<lambda>r. if r \<in> set copied then tree_file [(''.env'', File ''A''), (''app'', Dir [(''.env'', File ''B'')])]
          (split_on (CHR ''/'') r) else None) \<and>
    ''.env'' \<in> set copied \<and> ''app/.env'' \<notin> set copied"
proof -
  let ?s = "[(''.env'', File ''A''), (''app'', Dir [(''.env'', File ''B'')])]"
  have "wanted ?s [''.env*''] ''.env''" "\<not> wanted ?s [''.env*''] ''app/.env''"
    by (simp_all add: wanted_def source_file_def listed_def pattern_matches_def segment_matches_def
        glob_loop.simps Let_def)
  then show ?thesis
    using bootstrap_copies_exactly[of ?s "\<lambda>r. False" "[''.env*'']" Map.empty]
    by (auto simp: valid_name_def)
qed

end
