(* ===== verification/Git_Worktree.thy ===== *)
theory Git_Worktree
  imports Git_Refs Git_Diff Git_Bootstrap
begin

text \<open>
  \<^verbatim>\<open>crates/tethys-git/src/worktree.rs\<close>, the setup runner of
  \<^verbatim>\<open>crates/tethys-core/src/git_registry.rs\<close> and the engine of \<^verbatim>\<open>crates/tethys-git/src/lib.rs\<close>: creating
  a worktree for a thread, with bootstrap files and setup script, and cleaning up when preparing
  it fails. \<open>HostEnv\<close> is the file system and the setup runner around the git process.
\<close>

section \<open>Creating a worktree\<close>

record WorktreeSpec =
  sp_thread_id :: string
  sp_workspace_id :: string
  sp_slug :: string
  sp_path :: string
  sp_branch :: string
  sp_base :: string
  sp_bootstrap_globs :: "string list"
  sp_setup_script :: "string option"
  sp_main_checkout :: bool

record 'r HostEnv =
  he_git :: "'r GitEnv"
  he_exists :: "'r \<Rightarrow> string \<Rightarrow> bool"
  he_mkdirs :: "string \<Rightarrow> 'r \<Rightarrow> (string + unit) \<times> 'r"
  he_read_text :: "'r \<Rightarrow> string \<Rightarrow> string option"
  he_tree :: "'r \<Rightarrow> string \<Rightarrow> (string \<times> FsTree) list"
  he_files :: "'r \<Rightarrow> string \<Rightarrow> dest"
  he_put_files :: "string \<Rightarrow> dest \<Rightarrow> 'r \<Rightarrow> 'r"
  he_copy_fails :: "'r \<Rightarrow> string \<Rightarrow> bool"
  he_setup :: "string \<Rightarrow> string \<Rightarrow> 'r \<Rightarrow> (GitError + SetupOutcome) \<times> 'r"
  he_home :: "string option"
  he_hash :: "string \<Rightarrow> string"

definition disk_run :: "('r \<Rightarrow> (GitError + 'a) \<times> 'r) \<Rightarrow> ('r, 'a) git_op" where
  "disk_run f w = (case f (w_disk w) of (x, d) \<Rightarrow> (x, w\<lparr>w_disk := d\<rparr>))"

definition default_worktree_path :: "'r HostEnv \<Rightarrow> string \<Rightarrow> string \<Rightarrow> ('r, string) git_op" where
  "default_worktree_path env workspace_root slug =
     (if slug = [] then fail (InvalidArgument ''slug is required'')
      else bind (ok_or (InvalidArgument ''cannot resolve home directory'') (he_home env)) (\<lambda>home.
        bind (discover_repo (he_git env) workspace_root) (\<lambda>repo.
        let repo_id = take 16 (he_hash env (gr_common_dir repo)) in
        ret (path_join (join_path (join_path (join_path home ''.tethys'') ''worktrees'') repo_id) slug))))"

definition warnings_for :: "'r HostEnv \<Rightarrow> string \<Rightarrow> 'r \<Rightarrow> string list" where
  "warnings_for env root d =
     (case he_read_text env d (join_path root ''.gitattributes'') of
        Some attributes \<Rightarrow>
          if contains ''filter=lfs'' attributes then [''repository uses Git LFS; pointers are copied as-is''] else []
      | None \<Rightarrow> [])
     @ (if ge_is_file (he_git env) d (join_path root ''.gitmodules'')
        then [''repository has submodules; they are not initialized in the worktree''] else [])"

definition copy_into :: "'r HostEnv \<Rightarrow> string \<Rightarrow> string \<Rightarrow> string list \<Rightarrow> ('r, string list) git_op" where
  "copy_into env main_root path globs =
     disk_run (\<lambda>d. case bootstrap_copy (he_copy_fails env d) (he_tree env d main_root) globs (he_files env d path) of
       (x, files) \<Rightarrow> (x, he_put_files env path files d))"

definition prepare_worktree ::
  "'r HostEnv \<Rightarrow> GitRepo \<Rightarrow> WorktreeSpec \<Rightarrow> string \<Rightarrow> ('r, string list \<times> SetupOutcome option) git_op" where
  "prepare_worktree env repo spec path =
     bind (attempt (main_worktree_root (he_git env) repo)) (\<lambda>r.
     let main_root = (case r of Inr root \<Rightarrow> root | Inl _ \<Rightarrow> gr_worktree_root repo) in
     bind (copy_into env main_root path (sp_bootstrap_globs spec)) (\<lambda>_.
     bind (case map_option trim (sp_setup_script spec) of
         Some script \<Rightarrow> if script = [] then ret None
           else bind (disk_run (he_setup env script path)) (\<lambda>outcome. ret (Some outcome))
       | None \<Rightarrow> ret None) (\<lambda>setup.
     bind (disk_get (warnings_for env main_root)) (\<lambda>warnings. ret (warnings, setup)))))"

definition main_checkout_info :: "GitRepo \<Rightarrow> WorktreeSpec \<Rightarrow> WorktreeInfo" where
  "main_checkout_info repo spec =
     \<lparr>wi_thread_id = sp_thread_id spec, wi_workspace_root = gr_worktree_root repo, wi_path = gr_worktree_root repo,
      wi_branch = gr_branch repo, wi_base = sp_base spec,
      wi_head = (case gr_head_oid repo of Some oid \<Rightarrow> oid | None \<Rightarrow> []), wi_main_checkout = True,
      wi_warnings = [], wi_setup = None\<rparr>"

definition add_worktree :: "'r HostEnv \<Rightarrow> GitRepo \<Rightarrow> WorktreeSpec \<Rightarrow> ('r, string) git_op" where
  "add_worktree env repo spec =
     (if sp_slug spec = [] then fail (InvalidArgument ''slug is required'')
      else if sp_branch spec = [] then fail (InvalidArgument ''branch is required'')
      else
        bind (if trim (sp_path spec) = [] then default_worktree_path env (gr_worktree_root repo) (sp_slug spec)
              else ret (sp_path spec)) (\<lambda>path.
        bind (disk_get (\<lambda>d. he_exists env d path)) (\<lambda>present.
        if present then fail (InvalidPath (''worktree path already exists: '' @ path))
        else
          bind (exec (he_git env) (plain_call (gr_worktree_root repo) [''check-ref-format'', ''--branch'', sp_branch spec])) (\<lambda>check.
          if \<not> success check then fail (InvalidArgument (''invalid branch name: '' @ sp_branch spec))
          else
            bind (case path_parent path of Some parent \<Rightarrow> disk_try (he_mkdirs env parent) | None \<Rightarrow> ret ()) (\<lambda>_.
            bind (git_ok (he_git env) repo [''worktree'', ''add'', ''-b'', sp_branch spec, path, sp_base spec]) (\<lambda>_.
            ret path))))))"

definition worktree_create :: "'r HostEnv \<Rightarrow> GitRepo \<Rightarrow> WorktreeSpec \<Rightarrow> ('r, WorktreeInfo) git_op" where
  "worktree_create env repo spec =
     (if sp_main_checkout spec then ret (main_checkout_info repo spec)
      else
        bind (add_worktree env repo spec) (\<lambda>path.
        bind (attempt (prepare_worktree env repo spec path)) (\<lambda>prepared.
        case prepared of
          Inr (warnings, setup) \<Rightarrow>
            bind (git_str (he_git env) repo [''-C'', path, ''rev-parse'', ''HEAD'']) (\<lambda>head.
            ret \<lparr>wi_thread_id = sp_thread_id spec, wi_workspace_root = gr_worktree_root repo, wi_path = path,
                 wi_branch = sp_branch spec, wi_base = sp_base spec, wi_head = head, wi_main_checkout = False,
                 wi_warnings = warnings, wi_setup = setup\<rparr>)
        | Inl error \<Rightarrow>
            bind (attempt (git_ok (he_git env) repo [''worktree'', ''remove'', ''--force'', path])) (\<lambda>_.
            fail error))))"

section \<open>What a failed creation leaves behind\<close>

lemma issues_disk_run [issues_intros]: "issues P (disk_run f)"
  by (rule issues_same_log) (simp add: disk_run_def split: prod.split)

lemma issues_disk_get' [issues_intros]: "issues P (disk_get f)"
  by (rule issues_same_log) (simp add: disk_get_def)

definition no_branch_command :: "GitCall \<times> bool \<Rightarrow> bool" where
  "no_branch_command c \<longleftrightarrow> gc_args (fst c) \<noteq> [] \<and> hd (gc_args (fst c)) \<noteq> ''branch''"

lemma no_branch_plain [simp]:
  "no_branch_command (plain_call root args, b) \<longleftrightarrow> args \<noteq> [] \<and> hd args \<noteq> ''branch''"
  by (simp add: no_branch_command_def plain_call_def)

lemma git_ok_attempt_log:
  "\<exists>w' ok x. attempt (git_ok env repo args) w = (Ok x, w') \<and> w_log w' = w_log w @ [(plain_call (gr_worktree_root repo) args, ok)]"
  by (auto simp: attempt_def git_ok_def git_def run_checked_def checked_def checked_as_def exec_def bind_def ret_def fail_def
      split: prod.splits sum.splits if_splits)

lemma issues_discover_no_branch: "issues no_branch_command (discover_repo env root)"
  unfolding discover_repo_def Let_def rev_parse_string_def normalize_def rev_parse_opt_def run_checked_def checked_as_def
  by (auto intro!: issues_intros split: sum.split GitError.split list.split)

lemma issues_add_worktree: "issues no_branch_command (add_worktree env repo spec)"
  unfolding add_worktree_def default_worktree_path_def Let_def
  by (intro issues_intros issues_discover_no_branch) auto

lemma issues_prepare: "issues no_branch_command (prepare_worktree env repo spec path)"
  unfolding prepare_worktree_def Let_def main_worktree_root_def copy_into_def
  by (intro issues_intros) auto

text \<open>
  C25. When preparing a freshly added worktree fails (copying the bootstrap files or running the
  setup script), creation returns that error and its only further action is to remove the
  worktree with \<open>worktree remove --force\<close>. No command of the whole run deletes the branch that
  \<open>worktree add -b\<close> made, so a retry with the same branch cannot succeed at \<open>worktree add\<close>.
\<close>

theorem worktree_failure_removes_tree_not_branch:
  assumes "\<not> sp_main_checkout spec"
    and "add_worktree env repo spec w = (Ok path, w1)"
    and "prepare_worktree env repo spec path w1 = (Err e, w2)"
  shows "\<exists>w' ok cs. worktree_create env repo spec w = (Err e, w') \<and>
     w_log w' = w_log w2 @ [(plain_call (gr_worktree_root repo) [''worktree'', ''remove'', ''--force'', path], ok)] \<and>
     w_log w' = w_log w @ cs \<and> list_all no_branch_command cs"
proof -
  obtain w' ok x where "attempt (git_ok (he_git env) repo [''worktree'', ''remove'', ''--force'', path]) w2 = (Ok x, w')"
    and log: "w_log w' = w_log w2 @ [(plain_call (gr_worktree_root repo) [''worktree'', ''remove'', ''--force'', path], ok)]"
    using git_ok_attempt_log by blast
  hence "worktree_create env repo spec w = (Err e, w')"
    using assms by (simp add: worktree_create_def bind_def attempt_def fail_def)
  moreover obtain as where "w_log w1 = w_log w @ as" "list_all no_branch_command as"
    using issuesD[OF issues_add_worktree, of env repo spec w] assms(2) by auto
  moreover obtain bs where "w_log w2 = w_log w1 @ bs" "list_all no_branch_command bs"
    using issuesD[OF issues_prepare, of env repo spec path w1] assms(3) by auto
  ultimately show ?thesis
    using log by auto
qed

definition failing_host :: "unit HostEnv" where
  "failing_host = \<lparr>he_git = quiet_env, he_exists = (\<lambda>d p. False), he_mkdirs = (\<lambda>p d. (Ok (), d)),
     he_read_text = (\<lambda>d p. None), he_tree = (\<lambda>d p. []), he_files = (\<lambda>d p. Map.empty), he_put_files = (\<lambda>p f d. d),
     he_copy_fails = (\<lambda>d p. False), he_setup = (\<lambda>s p d. (Err (IoError ''spawn''), d)), he_home = None,
     he_hash = (\<lambda>s. s)\<rparr>"

definition ex_spec :: WorktreeSpec where
  "ex_spec = \<lparr>sp_thread_id = ''t'', sp_workspace_id = ''w'', sp_slug = ''fix'', sp_path = ''/trees/fix'',
     sp_branch = ''fix'', sp_base = ''main'', sp_bootstrap_globs = [], sp_setup_script = Some ''make'',
     sp_main_checkout = False\<rparr>"

lemma failing_add: "\<exists>w1. add_worktree failing_host ex_repo ex_spec ex_world = (Ok ''/trees/fix'', w1)"
proof -
  have "trim ''/trees/fix'' \<noteq> []" "path_parent ''/trees/fix'' = Some ''/trees''" by code_simp+
  thus ?thesis
    by (simp add: add_worktree_def ex_spec_def failing_host_def bind_def disk_get_def disk_try_def quiet_exec
        quiet_checked git_ok_def git_def run_checked_def checked_def ret_def success_def quiet_output_def)
qed

lemma failing_prepare: "\<exists>w2. prepare_worktree failing_host ex_repo ex_spec path w1 = (Err (IoError ''spawn''), w2)"
proof -
  have "trim ''make'' = ''make''" by code_simp
  moreover obtain x w' where "attempt (main_worktree_root quiet_env ex_repo) w1 = (Ok x, w')"
    by (cases "main_worktree_root quiet_env ex_repo w1") (simp add: attempt_def)
  ultimately show ?thesis
    by (simp add: prepare_worktree_def ex_spec_def failing_host_def bind_def copy_into_def disk_run_def
        bootstrap_copy_def Let_def)
qed

theorem worktree_failure_removes_tree_not_branch_witness:
  "\<exists>w' cs. worktree_create failing_host ex_repo ex_spec ex_world = (Err (IoError ''spawn''), w') \<and>
     w_log w' = w_log ex_world @ cs \<and> list_all no_branch_command cs"
proof -
  obtain w1 where "add_worktree failing_host ex_repo ex_spec ex_world = (Ok ''/trees/fix'', w1)"
    using failing_add by blast
  moreover obtain w2 where "prepare_worktree failing_host ex_repo ex_spec ''/trees/fix'' w1 = (Err (IoError ''spawn''), w2)"
    using failing_prepare by blast
  ultimately show ?thesis
    using worktree_failure_removes_tree_not_branch[of ex_spec failing_host ex_repo ex_world "''/trees/fix''" w1] by (auto simp: ex_spec_def)
qed

end
