(* ===== verification/Worktree_Paths.thy ===== *)
theory Worktree_Paths
  imports Rust_Text Tethys_Prelude
begin

text \<open>
  The jail of worktree paths in \<^verbatim>\<open>crates/tethys-core/src/lib.rs\<close> (\<open>worktree_path_allowed\<close>,
  \<open>normalize_path\<close>) and the git configuration of \<^verbatim>\<open>crates/tethys-schema/src/git.rs\<close>. Paths are lists
  of components. \<open>PathFs\<close> is a file system with symbolic links: \<open>pf_entry\<close> gives the canonical
  location that a name in a directory leads to. \<open>canonicalize\<close> is \<open>Path::canonicalize\<close> over it;
  \<open>locate\<close> is the specification: where a directory ends up when the missing part of its path is
  created on the way.
\<close>

section \<open>Configuration\<close>

record WorkspaceGitConfig =
  gc_worktrees_dir :: "string option"
  gc_wt_branch_template :: string
  gc_bootstrap_globs :: "string list"
  gc_skip_untracked_binary_bytes :: u32
  gc_setup_timeout_ms :: u32

definition default_git_config :: WorkspaceGitConfig where
  "default_git_config =
     \<lparr>gc_worktrees_dir = None, gc_wt_branch_template = ''tethys/{slug}'', gc_bootstrap_globs = [''.env*''],
      gc_skip_untracked_binary_bytes = 10 * 1024 * 1024, gc_setup_timeout_ms = 120000\<rparr>"

section \<open>File system\<close>

record PathFs =
  pf_entry :: "string list \<Rightarrow> string \<Rightarrow> string list option"
  pf_is_dir :: "string list \<Rightarrow> bool"
  pf_cwd :: "string list"

fun resolve_from :: "PathFs \<Rightarrow> string list \<Rightarrow> Component list \<Rightarrow> string list option" where
  "resolve_from fs loc [] = Some loc"
| "resolve_from fs loc (RootDir # cs) = resolve_from fs [] cs"
| "resolve_from fs loc (CurDir # cs) = resolve_from fs loc cs"
| "resolve_from fs loc (ParentDir # cs) =
     (if pf_is_dir fs loc then resolve_from fs (butlast loc) cs else None)"
| "resolve_from fs loc (Normal n # cs) =
     (case pf_entry fs loc n of None \<Rightarrow> None | Some loc' \<Rightarrow> resolve_from fs loc' cs)"

definition canonical_path :: "string list \<Rightarrow> Component list" where
  "canonical_path loc = RootDir # map Normal loc"

text \<open>The empty path does not exist.\<close>

definition canonicalize :: "PathFs \<Rightarrow> Component list \<Rightarrow> Component list option" where
  "canonicalize fs p = (if p = [] then None else map_option canonical_path (resolve_from fs (pf_cwd fs) p))"

section \<open>The check\<close>

function normalize_path :: "PathFs \<Rightarrow> Component list \<Rightarrow> Component list" where
  "normalize_path fs path =
     (case canonicalize fs path of
        Some canonical \<Rightarrow> canonical
      | None \<Rightarrow>
          (case (comp_parent path, comp_file_name path) of
             (Some parent, Some name) \<Rightarrow> normalize_path fs parent @ [Normal name]
           | _ \<Rightarrow> path))"
  by pat_completeness auto
termination
  by (relation "measure (\<lambda>(fs, p). length p)") (auto simp: comp_parent_def split: if_splits)

declare normalize_path.simps [simp del]

definition comp_starts_with :: "Component list \<Rightarrow> Component list \<Rightarrow> bool" where
  "comp_starts_with path base \<longleftrightarrow> take (length base) path = base"

definition anchored :: "string \<Rightarrow> string \<Rightarrow> Component list" where
  "anchored root p = components (if is_absolute p then p else path_join root p)"

definition worktrees_base :: "string \<Rightarrow> string \<Rightarrow> WorkspaceGitConfig \<Rightarrow> Component list" where
  "worktrees_base root sync_home config =
     (case map_option trim (gc_worktrees_dir config) of
        Some dir \<Rightarrow> if dir \<noteq> [] then anchored root dir else components (path_join sync_home ''worktrees'')
      | None \<Rightarrow> components (path_join sync_home ''worktrees''))"

definition worktree_path_allowed ::
  "PathFs \<Rightarrow> string \<Rightarrow> string \<Rightarrow> WorkspaceGitConfig \<Rightarrow> string \<Rightarrow> bool" where
  "worktree_path_allowed fs root sync_home config candidate =
     list_ex (comp_starts_with (normalize_path fs (anchored root candidate)))
       (map (normalize_path fs) [components root, worktrees_base root sync_home config])"

section \<open>Where a path leads\<close>

fun locate_from :: "PathFs \<Rightarrow> string list \<Rightarrow> Component list \<Rightarrow> string list" where
  "locate_from fs loc [] = loc"
| "locate_from fs loc (RootDir # cs) = locate_from fs [] cs"
| "locate_from fs loc (CurDir # cs) = locate_from fs loc cs"
| "locate_from fs loc (ParentDir # cs) = locate_from fs (butlast loc) cs"
| "locate_from fs loc (Normal n # cs) =
     locate_from fs (case pf_entry fs loc n of None \<Rightarrow> loc @ [n] | Some loc' \<Rightarrow> loc') cs"

definition locate :: "PathFs \<Rightarrow> Component list \<Rightarrow> string list" where
  "locate fs p = locate_from fs (pf_cwd fs) p"

text \<open>
  A name is found only in a directory, and a canonical directory is reached by its own name from
  its parent.
\<close>

definition pf_wf :: "PathFs \<Rightarrow> bool" where
  "pf_wf fs \<longleftrightarrow> (\<forall>loc n. pf_entry fs loc n \<noteq> None \<longrightarrow> pf_is_dir fs loc) \<and>
     (\<forall>loc n. pf_is_dir fs (loc @ [n]) \<longrightarrow> pf_entry fs loc n = Some (loc @ [n]))"

lemma resolve_from_append:
  "resolve_from fs loc (p @ q) = Option.bind (resolve_from fs loc p) (\<lambda>l. resolve_from fs l q)"
  by (induction fs loc p rule: resolve_from.induct) (auto split: option.split)

lemma locate_from_append: "locate_from fs loc (p @ q) = locate_from fs (locate_from fs loc p) q"
  by (induction fs loc p rule: locate_from.induct) auto

lemma resolve_locate: "resolve_from fs loc p = Some l \<Longrightarrow> locate_from fs loc p = l"
  by (induction fs loc p rule: resolve_from.induct) (auto split: option.splits if_splits)

lemma pf_wf_entry: "pf_wf fs \<Longrightarrow> \<not> pf_is_dir fs loc \<Longrightarrow> pf_entry fs loc n = None"
  unfolding pf_wf_def by blast

text \<open>The missing names below an existing place are not directories, so each is created in turn.\<close>

lemma missing_entry:
  assumes "pf_wf fs" "resolve_from fs loc (map Normal (names @ [n])) = None"
    "resolve_from fs loc (map Normal names) = None \<Longrightarrow> \<not> pf_is_dir fs (locate_from fs loc (map Normal names))"
  shows "pf_entry fs (locate_from fs loc (map Normal names)) n = None"
proof (cases "resolve_from fs loc (map Normal names)")
  case None
  with assms show ?thesis by (simp add: pf_wf_entry)
next
  case (Some l)
  with assms(2) show ?thesis
    using resolve_locate[OF Some] by (auto simp: resolve_from_append split: option.splits)
qed

lemma locate_missing:
  assumes "pf_wf fs" "resolve_from fs loc (map Normal names) = None"
  shows "\<not> pf_is_dir fs (locate_from fs loc (map Normal names))"
  using assms(2)
proof (induction names rule: rev_induct)
  case (snoc n names)
  have "pf_entry fs (locate_from fs loc (map Normal names)) n = None"
    by (rule missing_entry[OF assms(1) snoc.prems snoc.IH])
  thus ?case using assms(1) by (auto simp: locate_from_append pf_wf_def)
qed simp

lemma locate_missing_snoc:
  assumes "pf_wf fs" "resolve_from fs loc (map Normal (names @ [n])) = None"
  shows "locate_from fs loc (map Normal (names @ [n])) = locate_from fs loc (map Normal names) @ [n]"
  using missing_entry[OF assms locate_missing[OF assms(1)]] by (simp add: locate_from_append)

text \<open>When no \<open>..\<close> follows a missing name, the check computes the place the path leads to.\<close>

definition plain_tail :: "PathFs \<Rightarrow> Component list \<Rightarrow> bool" where
  "plain_tail fs p \<longleftrightarrow> (\<exists>q names. p = q @ map Normal names \<and> q \<noteq> [] \<and> canonicalize fs q \<noteq> None)"

lemma normalize_existing: "canonicalize fs p = Some c \<Longrightarrow> normalize_path fs p = c"
  by (subst normalize_path.simps) simp

lemma normalize_snoc:
  "canonicalize fs (p @ [Normal n]) = None \<Longrightarrow> normalize_path fs (p @ [Normal n]) = normalize_path fs p @ [Normal n]"
  by (subst normalize_path.simps) (simp add: comp_parent_def comp_file_name_def)

lemma normalize_locate:
  assumes "pf_wf fs" "plain_tail fs p"
  shows "normalize_path fs p = canonical_path (locate fs p)"
proof -
  obtain q names where p: "p = q @ map Normal names" and q: "q \<noteq> []" "canonicalize fs q \<noteq> None"
    using assms(2) by (auto simp: plain_tail_def)
  obtain l where l: "resolve_from fs (pf_cwd fs) q = Some l"
    using q by (auto simp: canonicalize_def)
  have at_q: "locate_from fs (pf_cwd fs) q = l" using l by (rule resolve_locate)
  have "normalize_path fs (q @ map Normal names) = canonical_path (locate_from fs l (map Normal names))"
  proof (induction names rule: rev_induct)
    case Nil
    show ?case using q(1) l by (simp add: normalize_existing canonicalize_def)
  next
    case (snoc n names)
    show ?case
    proof (cases "resolve_from fs l (map Normal (names @ [n]))")
      case None
      hence "canonicalize fs ((q @ map Normal names) @ [Normal n]) = None"
        using l by (simp add: canonicalize_def resolve_from_append)
      from normalize_snoc[OF this] snoc.IH locate_missing_snoc[OF assms(1) None] show ?thesis
        by (simp add: canonical_path_def)
    next
      case (Some l')
      hence "canonicalize fs (q @ map Normal (names @ [n])) = Some (canonical_path l')"
        using l q(1) by (simp add: canonicalize_def resolve_from_append)
      from normalize_existing[OF this] resolve_locate[OF Some] show ?thesis by simp
    qed
  qed
  thus ?thesis by (simp add: p locate_def locate_from_append at_q)
qed

lemma canonical_path_inj: "canonical_path l = canonical_path m \<longleftrightarrow> l = m"
proof -
  have "inj Normal" by (simp add: inj_def)
  thus ?thesis by (simp add: canonical_path_def inj_map_eq_map)
qed

lemma starts_with_canonical:
  "comp_starts_with (canonical_path l) (canonical_path b) \<longleftrightarrow> take (length b) l = b"
proof -
  have "inj Normal" by (simp add: inj_def)
  thus ?thesis by (simp add: comp_starts_with_def canonical_path_def take_map inj_map_eq_map)
qed

text \<open>
  C29. The jail holds for every path in which no \<open>..\<close> follows a part that does not exist yet:
  when the check lets such a candidate pass, the directory it leads to, with all symbolic links
  resolved and the missing part created, lies in the workspace root or in the worktrees
  directory, with their links resolved.
\<close>

theorem worktree_path_contained:
  assumes "pf_wf fs" "worktree_path_allowed fs root sync_home config candidate"
    and "plain_tail fs (anchored root candidate)" "plain_tail fs (components root)"
    and "plain_tail fs (worktrees_base root sync_home config)"
  shows "(\<exists>base \<in> {locate fs (components root), locate fs (worktrees_base root sync_home config)}.
     take (length base) (locate fs (anchored root candidate)) = base)"
  using assms
  by (auto simp: worktree_path_allowed_def normalize_locate starts_with_canonical)

definition ex_fs :: PathFs where
  "ex_fs = \<lparr>pf_entry = (\<lambda>loc n. if loc = [] \<and> n = ''w'' then Some [''w''] else if loc = [] \<and> n = ''link'' then Some [''w''] else None),
     pf_is_dir = (\<lambda>loc. loc = [] \<or> loc = [''w'']), pf_cwd = []\<rparr>"

lemma ex_fs_wf: "pf_wf ex_fs"
  by (auto simp: pf_wf_def ex_fs_def)

theorem worktree_path_contained_witness:
  "worktree_path_allowed ex_fs ''/w'' ''/home'' default_git_config ''/link/trees/fix''
   \<and> (\<exists>base \<in> {locate ex_fs (components ''/w''), locate ex_fs (worktrees_base ''/w'' ''/home'' default_git_config)}.
       take (length base) (locate ex_fs (anchored ''/w'' ''/link/trees/fix'')) = base)"
proof -
  have c: "components ''/w'' = [RootDir] @ map Normal [''w'']"
    "anchored ''/w'' ''/link/trees/fix'' = [RootDir] @ map Normal [''link'', ''trees'', ''fix'']"
    "worktrees_base ''/w'' ''/home'' default_git_config = [RootDir] @ map Normal [''home'', ''worktrees'']"
    by code_simp+
  have "canonicalize ex_fs [RootDir] \<noteq> None" by (simp add: canonicalize_def)
  hence p: "plain_tail ex_fs ([RootDir] @ map Normal names)" for names
    unfolding plain_tail_def by blast
  have "worktree_path_allowed ex_fs ''/w'' ''/home'' default_git_config ''/link/trees/fix''"
    by code_simp
  with worktree_path_contained[OF ex_fs_wf this p[of "[''link'', ''trees'', ''fix'']", folded c]
      p[of "[''w'']", folded c] p[of "[''home'', ''worktrees'']", folded c]]
  show ?thesis by blast
qed

section \<open>The escape\<close>

lemma split_on_snoc: "split_on c (a @ c # b) = split_on c a @ split_on c b"
  by (induction a) (auto split: list.split)

definition name_ok :: "string \<Rightarrow> bool" where
  "name_ok n \<longleftrightarrow> n \<noteq> [] \<and> n \<noteq> ''.'' \<and> n \<noteq> ''..'' \<and> CHR ''/'' \<notin> set n"

lemma components_below:
  assumes "is_absolute root"
  shows "components (root @ CHR ''/'' # s) =
    components root @ map component (filter (\<lambda>s. s \<noteq> [] \<and> s \<noteq> ''.'') (split_on (CHR ''/'') s))"
proof -
  have "is_absolute (root @ CHR ''/'' # s)" using assms by (simp add: is_absolute_def)
  with assms show ?thesis
    by (simp add: components_def split_on_snoc conj_commute)
qed

lemma component_name: "name_ok n \<Longrightarrow> component n = Normal n"
  by (simp add: name_ok_def component_def)

lemma split_escape:
  "name_ok n \<Longrightarrow> name_ok t \<Longrightarrow> split_on (CHR ''/'') (n @ ''/../../'' @ t) = [n, ''..'', ''..'', t]"
  by (simp add: name_ok_def split_on_append split_on_free)

lemma escape_components:
  assumes "is_absolute root" "name_ok n" "name_ok t"
  shows "anchored root (root @ ''/'' @ n @ ''/../../'' @ t) =
    components root @ [Normal n, ParentDir, ParentDir, Normal t]"
proof -
  have "is_absolute (root @ ''/'' @ n @ ''/../../'' @ t)" using assms(1) by (simp add: is_absolute_def)
  moreover have "components (root @ CHR ''/'' # (n @ ''/../../'' @ t)) =
      components root @ [Normal n, ParentDir, ParentDir, Normal t]"
    unfolding components_below[OF assms(1)] split_escape[OF assms(2,3)]
    using assms by (simp add: component_name) (simp add: name_ok_def component_def)
  ultimately show ?thesis by (simp add: anchored_def)
qed

text \<open>
  A candidate that leaves a directory it has still to create escapes the jail: for a
  workspace root given by its canonical path, any name \<open>n\<close> that does not exist in it and any name
  \<open>t\<close> that does not exist beside it, the path \<open>root/n/../../t\<close> passes the check, and the directory it
  leads to is \<open>t\<close> beside the root, outside of it.
\<close>

theorem worktree_path_escape:
  assumes "is_absolute root" "components root = canonical_path (loc @ [d])"
    and "canonicalize fs (components root) = Some (components root)"
    and "pf_entry fs (loc @ [d]) n = None" "pf_entry fs loc t = None"
    and "name_ok n" "name_ok t" "t \<noteq> d"
  shows "worktree_path_allowed fs root sync_home config (root @ ''/'' @ n @ ''/../../'' @ t)
    \<and> locate fs (anchored root (root @ ''/'' @ n @ ''/../../'' @ t)) = loc @ [t]
    \<and> take (length (loc @ [d])) (loc @ [t]) \<noteq> locate fs (components root)"
proof -
  let ?r = "components root"
  have r: "resolve_from fs (pf_cwd fs) ?r = Some (loc @ [d])"
    using assms(3) unfolding assms(2) by (auto simp: canonicalize_def canonical_path_inj split: if_splits)
  have at_r: "locate_from fs (pf_cwd fs) ?r = loc @ [d]" using r by (rule resolve_locate)
  have missing: "canonicalize fs (?r @ Normal n # cs) = None" for cs
    using r assms(4) by (simp add: canonicalize_def resolve_from_append)
  have "normalize_path fs (?r @ [Normal n, ParentDir, ParentDir]) = ?r @ [Normal n, ParentDir, ParentDir]"
    by (subst normalize_path.simps) (simp add: missing comp_file_name_def split: option.split)
  with normalize_snoc[of fs "?r @ [Normal n, ParentDir, ParentDir]" t] missing[of "[ParentDir, ParentDir, Normal t]"]
  have "normalize_path fs (?r @ [Normal n, ParentDir, ParentDir, Normal t]) = ?r @ [Normal n, ParentDir, ParentDir, Normal t]"
    by simp
  moreover have "normalize_path fs ?r = ?r" using assms(3) by (rule normalize_existing)
  ultimately have "worktree_path_allowed fs root sync_home config (root @ ''/'' @ n @ ''/../../'' @ t)"
    using escape_components[OF assms(1,6,7)] by (simp add: worktree_path_allowed_def comp_starts_with_def)
  moreover have "locate fs (?r @ [Normal n, ParentDir, ParentDir, Normal t]) = loc @ [t]"
    using assms(4,5) by (simp add: locate_def locate_from_append at_r butlast_append)
  ultimately show ?thesis
    using assms(8) escape_components[OF assms(1,6,7)] by (simp add: locate_def at_r)
qed

theorem worktree_path_escape_witness:
  "worktree_path_allowed ex_fs ''/w'' ''/home'' default_git_config ''/w/new/../../etc''
   \<and> locate ex_fs (anchored ''/w'' ''/w/new/../../etc'') = [''etc'']"
proof -
  have c: "components ''/w'' = canonical_path ([] @ [''w''])" by code_simp
  have "is_absolute ''/w''" "canonicalize ex_fs (components ''/w'') = Some (components ''/w'')"
    "pf_entry ex_fs ([] @ [''w'']) ''new'' = None" "pf_entry ex_fs [] ''etc'' = None"
    "name_ok ''new''" "name_ok ''etc''" "''etc'' \<noteq> ''w''"
    by code_simp+
  from worktree_path_escape[OF this(1) c this(2-7), of "''/home''" default_git_config]
  show ?thesis by simp
qed

end
