(* ===== verification/Search_Index.thy ===== *)
theory Search_Index
  imports Rust_Text Tethys_Prelude "HOL-Library.AList"
begin

text \<open>
  \<^verbatim>\<open>crates/tethys-search/src\<close>: one lazily opened search index per worktree root. The FFF picker is the
  parameter \<open>Fff\<close>: whether a picker can be opened on a directory, whether the scan of an open picker
  ends within a deadline, and what a query finds. An opened picker is a fresh handle. \<open>canon\<close> is
  \<open>Path::canonicalize\<close> with the text of its error.
\<close>

record SearchItem =
  si_relative_path :: string
  si_score :: int
  si_is_dir :: bool

datatype SearchError =
    SE_IndexWarming string
  | SE_Io string string
  | SE_Picker string

fun search_error_text :: "SearchError \<Rightarrow> string" where
  "search_error_text (SE_IndexWarming path) = ''search index for '' @ path @ '' is still warming up''"
| "search_error_text (SE_Io path source) = ''search io at '' @ path @ '': '' @ source"
| "search_error_text (SE_Picker e) = ''file picker: '' @ e"

datatype MixedItem = MixedFile string | MixedDir string

record Fff =
  fff_open :: "string \<Rightarrow> string + unit"
  fff_wait :: "nat \<Rightarrow> nat \<Rightarrow> bool"
  fff_read :: "nat \<Rightarrow> string + bool"
  fff_search :: "nat \<Rightarrow> string \<Rightarrow> nat \<Rightarrow> MixedItem list \<times> int list"
  fff_rescan :: "nat \<Rightarrow> string + unit"

section \<open>One index\<close>

record WorktreeSearchIndex =
  wsi_base_path :: string
  wsi_picker :: nat

definition index_open :: "Fff \<Rightarrow> nat \<Rightarrow> string \<Rightarrow> SearchError + WorktreeSearchIndex" where
  "index_open fff fresh path =
     (case fff_open fff path of
        Inl e \<Rightarrow> Err (SE_Picker e)
      | Inr _ \<Rightarrow> Ok \<lparr>wsi_base_path = path, wsi_picker = fresh\<rparr>)"

definition index_wait_ready :: "Fff \<Rightarrow> WorktreeSearchIndex \<Rightarrow> nat \<Rightarrow> bool" where
  "index_wait_ready fff index deadline = fff_wait fff (wsi_picker index) deadline"

fun search_item :: "MixedItem \<times> int \<Rightarrow> SearchItem" where
  "search_item (MixedFile path, score) = \<lparr>si_relative_path = path, si_score = score, si_is_dir = False\<rparr>"
| "search_item (MixedDir path, score) = \<lparr>si_relative_path = path, si_score = score, si_is_dir = True\<rparr>"

definition index_query :: "Fff \<Rightarrow> WorktreeSearchIndex \<Rightarrow> string \<Rightarrow> nat \<Rightarrow> SearchError + SearchItem list" where
  "index_query fff index query limit =
     (case fff_read fff (wsi_picker index) of
        Inl e \<Rightarrow> Err (SE_Picker e)
      | Inr False \<Rightarrow> Err (SE_Picker ''picker not initialized'')
      | Inr True \<Rightarrow>
          (case fff_search fff (wsi_picker index) query (max limit 1) of
             (items, scores) \<Rightarrow> Ok (map search_item (zip items scores))))"

definition index_invalidate :: "Fff \<Rightarrow> WorktreeSearchIndex \<Rightarrow> SearchError + unit" where
  "index_invalidate fff index =
     (case fff_rescan fff (wsi_picker index) of Inl e \<Rightarrow> Err (SE_Picker e) | Inr _ \<Rightarrow> Ok ())"

section \<open>The manager\<close>

type_synonym canon = "string \<Rightarrow> string + string"

definition WARM_DEADLINE :: nat where "WARM_DEADLINE = 150"

record SearchIndexManager =
  sm_indexes :: "(string \<times> WorktreeSearchIndex) list"
  sm_next :: nat

definition search_new :: SearchIndexManager where
  "search_new = \<lparr>sm_indexes = [], sm_next = 0\<rparr>"

definition canonical_root :: "canon \<Rightarrow> string \<Rightarrow> SearchError + string" where
  "canonical_root canon root = (case canon root of Inl e \<Rightarrow> Err (SE_Io root e) | Inr key \<Rightarrow> Ok key)"

definition get_or_open ::
  "Fff \<Rightarrow> canon \<Rightarrow> string \<Rightarrow> SearchIndexManager \<Rightarrow> (SearchError + WorktreeSearchIndex) \<times> SearchIndexManager" where
  "get_or_open fff canon root m =
     (case canonical_root canon root of
        Inl e \<Rightarrow> (Err e, m)
      | Inr key \<Rightarrow>
          (case map_of (sm_indexes m) key of
             Some index \<Rightarrow> (Ok index, m)
           | None \<Rightarrow>
               (case index_open fff (sm_next m) key of
                  Inl e \<Rightarrow> (Err e, m)
                | Inr index \<Rightarrow>
                    (Ok index, m\<lparr>sm_indexes := AList.update key index (sm_indexes m), sm_next := sm_next m + 1\<rparr>))))"

definition manager_wait_ready ::
  "Fff \<Rightarrow> canon \<Rightarrow> string \<Rightarrow> nat \<Rightarrow> SearchIndexManager \<Rightarrow> (SearchError + bool) \<times> SearchIndexManager" where
  "manager_wait_ready fff canon root deadline m =
     (case get_or_open fff canon root m of
        (Inl e, m') \<Rightarrow> (Err e, m')
      | (Inr index, m') \<Rightarrow> (Ok (index_wait_ready fff index deadline), m'))"

definition manager_query ::
  "Fff \<Rightarrow> canon \<Rightarrow> string \<Rightarrow> string \<Rightarrow> nat \<Rightarrow> SearchIndexManager \<Rightarrow> (SearchError + SearchItem list) \<times> SearchIndexManager" where
  "manager_query fff canon root query limit m =
     (case get_or_open fff canon root m of
        (Inl e, m') \<Rightarrow> (Err e, m')
      | (Inr index, m') \<Rightarrow>
          (if \<not> index_wait_ready fff index WARM_DEADLINE then Err (SE_IndexWarming root)
           else index_query fff index query limit, m'))"

definition manager_invalidate :: "Fff \<Rightarrow> canon \<Rightarrow> string \<Rightarrow> SearchIndexManager \<Rightarrow> SearchError + unit" where
  "manager_invalidate fff canon root m =
     (case canonical_root canon root of
        Inl e \<Rightarrow> Err e
      | Inr key \<Rightarrow>
          (case map_of (sm_indexes m) key of
             Some index \<Rightarrow> index_invalidate fff index
           | None \<Rightarrow> Ok ()))"

definition drop_index :: "canon \<Rightarrow> string \<Rightarrow> SearchIndexManager \<Rightarrow> SearchIndexManager" where
  "drop_index canon root m =
     (case canonical_root canon root of
        Inl _ \<Rightarrow> m
      | Inr key \<Rightarrow> m\<lparr>sm_indexes := AList.delete key (sm_indexes m)\<rparr>)"

section \<open>One picker per root\<close>

definition sm_wf :: "SearchIndexManager \<Rightarrow> bool" where
  "sm_wf m \<longleftrightarrow> distinct (map fst (sm_indexes m)) \<and> distinct (map (wsi_picker \<circ> snd) (sm_indexes m)) \<and>
     (\<forall>(key, index) \<in> set (sm_indexes m). wsi_base_path index = key \<and> wsi_picker index < sm_next m)"

lemma update_fresh: "map_of xs k = None \<Longrightarrow> AList.update k v xs = xs @ [(k, v)]"
  by (induction xs) auto

lemma sm_wf_new: "sm_wf search_new"
  by (simp add: sm_wf_def search_new_def)

lemma sm_wf_get_or_open: "sm_wf m \<Longrightarrow> sm_wf (snd (get_or_open fff canon root m))"
  by (auto simp: sm_wf_def get_or_open_def index_open_def update_fresh map_of_eq_None_iff
      split: sum.split option.split)

lemma sm_wf_drop_index: "sm_wf m \<Longrightarrow> sm_wf (drop_index canon root m)"
  by (auto simp: sm_wf_def drop_index_def AList.delete_eq distinct_map inj_on_def split: sum.split)

text \<open>Asking again for the same place returns the same picker and opens nothing.\<close>

lemma get_or_open_again:
  "get_or_open fff canon root m = (Ok index, m') \<Longrightarrow> canon root' = canon root \<Longrightarrow>
   get_or_open fff' canon root' m' = (Ok index, m')"
  by (auto simp: get_or_open_def index_open_def canonical_root_def AList.update_conv'
      split: sum.splits option.splits)

text \<open>A root that can no longer be resolved keeps its index.\<close>

lemma drop_index_unresolved: "canon root = Inl e \<Longrightarrow> drop_index canon root m = m"
  by (simp add: drop_index_def canonical_root_def)

end
