(* ===== verification/Core_Git.thy ===== *)
theory Core_Git
  imports Git_Worktree Worktree_Paths Search_Index Tethys_Api
begin

text \<open>
  The git side of the orchestrator: \<open>GitEngine\<close> of \<^verbatim>\<open>crates/tethys-git/src/lib.rs\<close>, the registry of
  thread worktrees of \<^verbatim>\<open>crates/tethys-core/src/git_registry.rs\<close> and the git operations of \<open>Core\<close> in
  \<^verbatim>\<open>crates/tethys-core/src/lib.rs\<close>. An \<open>Arc<GitEngine>\<close> is an index into the list of engines, so the
  diff cache of an engine is shared by everyone who holds it. Hash maps are association lists;
  what depends on their order is only compared as a set. \<open>CoreEnv\<close> holds what surrounds the core:
  the machine with git, the workspace resolver, the configuration parser and the setup runner.
\<close>

section \<open>Engines\<close>

record GitOptions =
  op_skip_untracked_binary_bytes :: nat

definition default_git_options :: GitOptions where
  "default_git_options = \<lparr>op_skip_untracked_binary_bytes = 10 * 1024 * 1024\<rparr>"

record GitEngine =
  en_repo :: GitRepo
  en_options :: GitOptions
  en_diff_cache :: DiffCache

definition open_with :: "'r GitEnv \<Rightarrow> string \<Rightarrow> GitOptions \<Rightarrow> ('r, GitEngine) git_op" where
  "open_with env root options =
     bind (discover_repo env root) (\<lambda>repo.
     ret \<lparr>en_repo = repo, en_options = options, en_diff_cache = cache_default\<rparr>)"

definition en_limit :: "GitEngine \<Rightarrow> nat" where
  "en_limit en = op_skip_untracked_binary_bytes (en_options en)"

definition engine_checkpoint_create ::
  "'r GitEnv \<Rightarrow> int \<Rightarrow> GitEngine \<Rightarrow> string \<Rightarrow> u32 \<Rightarrow> CheckpointPhase \<Rightarrow> ('r, CheckpointResult) git_op" where
  "engine_checkpoint_create env elapsed en thread_id turn phase =
     checkpoint_create env (en_repo en) elapsed thread_id turn phase (en_limit en)"

definition engine_restore ::
  "'r GitEnv \<Rightarrow> GitEngine \<Rightarrow> RestoreTarget \<Rightarrow> RestorePolicy \<Rightarrow> ('r, RestoreOutcome) git_op" where
  "engine_restore env en target policy = restore env (en_repo en) target policy (en_limit en)"

definition engine_diff_summary :: "'r GitEnv \<Rightarrow> GitEngine \<Rightarrow> DiffSource \<Rightarrow> ('r, DiffSummary) git_op" where
  "engine_diff_summary env en source = diff_summary env (en_repo en) source (en_limit en)"

definition engine_diff_file ::
  "'r GitEnv \<Rightarrow> differ \<Rightarrow> (string \<Rightarrow> string) \<Rightarrow> GitEngine \<Rightarrow> DiffSource \<Rightarrow> string
    \<Rightarrow> ('r, DiffFileDetail \<times> GitEngine) git_op" where
  "engine_diff_file env differ hash en source path =
     bind (file_detail env differ hash (en_repo en) source path (en_diff_cache en) (en_limit en)) (\<lambda>(detail, cache).
     ret (detail, en\<lparr>en_diff_cache := cache\<rparr>))"

definition engine_discard ::
  "'r GitEnv \<Rightarrow> differ \<Rightarrow> (string \<Rightarrow> string) \<Rightarrow> ((string \<times> u32 list) list \<Rightarrow> (string \<times> u32 list) list) \<Rightarrow> GitEngine
    \<Rightarrow> DiffSource \<Rightarrow> HunkRef list option \<Rightarrow> ('r, (GitError + unit) \<times> GitEngine) git_op" where
  "engine_discard env differ hash order en source hunks =
     bind (discard env differ hash order (en_repo en) source hunks (en_diff_cache en) (en_limit en)) (\<lambda>(x, cache).
     ret (x, en\<lparr>en_diff_cache := cache\<rparr>))"

section \<open>Registry\<close>

datatype ThreadRuntimeState = RS_Idle | RS_Running | RS_Error | RS_Interrupted | RS_Suspended

record RegisteredWorktree =
  rw_info :: WorktreeInfo
  rw_engine :: nat
  rw_config :: WorkspaceGitConfig
  rw_last_state :: ThreadRuntimeState

record GitRegistry =
  rg_threads :: "(string \<times> RegisteredWorktree) list"
  rg_engines :: "(string \<times> nat) list"

definition registry_new :: GitRegistry where
  "registry_new = \<lparr>rg_threads = [], rg_engines = []\<rparr>"

definition registry_register ::
  "WorktreeInfo \<Rightarrow> nat \<Rightarrow> WorkspaceGitConfig \<Rightarrow> GitRegistry \<Rightarrow> GitRegistry" where
  "registry_register info engine config reg =
     reg\<lparr>rg_threads := AList.update (wi_thread_id info)
       \<lparr>rw_info = info, rw_engine = engine, rw_config = config, rw_last_state = RS_Idle\<rparr> (rg_threads reg)\<rparr>"

definition registry_get :: "GitRegistry \<Rightarrow> string \<Rightarrow> RegisteredWorktree option" where
  "registry_get reg thread_id = map_of (rg_threads reg) thread_id"

definition registry_set_state :: "string \<Rightarrow> ThreadRuntimeState \<Rightarrow> GitRegistry \<Rightarrow> GitRegistry" where
  "registry_set_state thread_id state reg =
     (case registry_get reg thread_id of
        Some registered \<Rightarrow> reg\<lparr>rg_threads := AList.update thread_id (registered\<lparr>rw_last_state := state\<rparr>) (rg_threads reg)\<rparr>
      | None \<Rightarrow> reg)"

definition engine_key :: "'r GitEnv \<Rightarrow> 'r \<Rightarrow> string \<Rightarrow> string" where
  "engine_key env d root = (case ge_canonical env d root of Some key \<Rightarrow> key | None \<Rightarrow> root)"

definition registry_remove :: "'r GitEnv \<Rightarrow> 'r \<Rightarrow> string \<Rightarrow> GitRegistry \<Rightarrow> GitRegistry" where
  "registry_remove env d thread_id reg =
     (case registry_get reg thread_id of
        None \<Rightarrow> reg
      | Some registered \<Rightarrow>
          let threads = AList.delete thread_id (rg_threads reg);
              path = wi_path (rw_info registered);
              still_used = list_ex (\<lambda>(i, thread). wi_path (rw_info thread) = path) threads in
          reg\<lparr>rg_threads := threads,
            rg_engines := (if still_used then rg_engines reg
                           else AList.delete (engine_key env d path) (rg_engines reg))\<rparr>)"

definition registry_list :: "GitRegistry \<Rightarrow> WorktreeInfo list" where
  "registry_list reg = map (\<lambda>(i, registered). rw_info registered) (rg_threads reg)"

section \<open>Core\<close>

record 'r CoreEnv =
  ce_host :: "'r HostEnv"
  ce_setup :: "nat \<Rightarrow> string \<Rightarrow> string \<Rightarrow> 'r \<Rightarrow> (GitError + SetupOutcome) \<times> 'r"
  ce_paths :: "'r \<Rightarrow> PathFs"
  ce_canon_error :: "'r \<Rightarrow> string \<Rightarrow> string"
  ce_read :: "'r \<Rightarrow> string \<Rightarrow> string + string"
  ce_parse_config :: "string \<Rightarrow> string + WorkspaceGitConfig"
  ce_roots :: workspace_roots
  ce_sync_home :: string
  ce_fff :: Fff
  ce_differ :: differ
  ce_hash :: "string \<Rightarrow> string"
  ce_order :: "(string \<times> u32 list) list \<Rightarrow> (string \<times> u32 list) list"
  ce_elapsed :: int

record 'r Core =
  co_version :: string
  co_search :: SearchIndexManager
  co_git :: GitRegistry
  co_engines :: "GitEngine list"
  co_world :: "'r World"

type_synonym ('r, 'a) core_op = "'r Core \<Rightarrow> (ApiError + 'a) \<times> 'r Core"

definition cret :: "'a \<Rightarrow> ('r, 'a) core_op" where
  "cret x c = (Ok x, c)"

definition cfail :: "ApiError \<Rightarrow> ('r, 'a) core_op" where
  "cfail e c = (Err e, c)"

definition cbind :: "('r, 'a) core_op \<Rightarrow> ('a \<Rightarrow> ('r, 'b) core_op) \<Rightarrow> ('r, 'b) core_op" where
  "cbind m f c = (case m c of (Inl e, c') \<Rightarrow> (Err e, c') | (Inr x, c') \<Rightarrow> f x c')"

definition cupdate :: "('r Core \<Rightarrow> 'r Core) \<Rightarrow> ('r, unit) core_op" where
  "cupdate f c = (Ok (), f c)"

definition cof :: "('r Core \<Rightarrow> ApiError + 'a) \<Rightarrow> ('r, 'a) core_op" where
  "cof f c = (f c, c)"

definition show_int :: "int \<Rightarrow> string" where
  "show_int i = (if i < 0 then CHR ''-'' # show_nat (nat (- i)) else show_nat (nat i))"

definition debug_code :: "int option \<Rightarrow> string" where
  "debug_code c = (case c of None \<Rightarrow> ''None'' | Some i \<Rightarrow> ''Some('' @ show_int i @ '')'')"

fun git_error_text :: "GitError \<Rightarrow> string" where
  "git_error_text (NotARepo s) = ''not a git repository: '' @ s"
| "git_error_text (CommandFailed command code stderr) =
     ''git '' @ command @ '' failed (exit '' @ debug_code code @ ''): '' @ stderr"
| "git_error_text (IoError s) = ''io error: '' @ s"
| "git_error_text (CheckpointNotFound s) = ''checkpoint not found: '' @ s"
| "git_error_text (GitError.DeleteBlocked uncommitted unpushed leased) =
     ''delete blocked: '' @ show_nat (length uncommitted) @ '' uncommitted path(s), '' @ show_nat (length unpushed)
       @ '' unpushed commit(s), leased='' @ (if leased then ''true'' else ''false'')"
| "git_error_text (RestoreBlocked s) = ''restore blocked: '' @ s"
| "git_error_text (PatchFailed s) = ''patch failed: '' @ s"
| "git_error_text NothingToCommit = ''nothing to commit''"
| "git_error_text (InvalidPath s) = ''invalid path: '' @ s"
| "git_error_text (InvalidArgument s) = ''invalid argument: '' @ s"
| "git_error_text (WorktreeNotFound s) = ''worktree not found: '' @ s"

fun map_git_error :: "GitError \<Rightarrow> ApiError" where
  "map_git_error (GitError.DeleteBlocked uncommitted unpushed leased) = ApiError.DeleteBlocked uncommitted unpushed leased"
| "map_git_error e = GitFailure (git_error_text e)"

fun map_search_error :: "SearchError \<Rightarrow> ApiError" where
  "map_search_error (SE_IndexWarming path) = IndexWarming path"
| "map_search_error e = Internal (search_error_text e)"

text \<open>A git operation off the async threads; the modelled operations do not panic.\<close>

definition blocking :: "('r, 'a) git_op \<Rightarrow> ('r, 'a) core_op" where
  "blocking m c =
     (case m (co_world c) of
        (Inl e, w) \<Rightarrow> (Err (map_git_error e), c\<lparr>co_world := w\<rparr>)
      | (Inr x, w) \<Rightarrow> (Ok x, c\<lparr>co_world := w\<rparr>))"

text \<open>An operation on an engine that may change its cache.\<close>

definition on_engine :: "nat \<Rightarrow> (GitEngine \<Rightarrow> ('r, 'a \<times> GitEngine) git_op) \<Rightarrow> ('r, 'a) core_op" where
  "on_engine e f =
     cbind (cof (\<lambda>c. Ok (co_engines c ! e))) (\<lambda>en.
     cbind (blocking (f en)) (\<lambda>(x, en').
     cbind (cupdate (\<lambda>c. c\<lparr>co_engines := (co_engines c)[e := en']\<rparr>)) (\<lambda>_. cret x)))"

definition with_engine :: "nat \<Rightarrow> (GitEngine \<Rightarrow> ('r, 'a) git_op) \<Rightarrow> ('r, 'a) core_op" where
  "with_engine e f = cbind (cof (\<lambda>c. Ok (co_engines c ! e))) (\<lambda>en. blocking (f en))"

definition core_git_env :: "'r CoreEnv \<Rightarrow> 'r GitEnv" where
  "core_git_env env = he_git (ce_host env)"

definition core_canon :: "'r CoreEnv \<Rightarrow> 'r \<Rightarrow> canon" where
  "core_canon env d p = (case ge_canonical (core_git_env env) d p of Some k \<Rightarrow> Inr k | None \<Rightarrow> Inl (ce_canon_error env d p))"

definition registry_engine :: "'r CoreEnv \<Rightarrow> string \<Rightarrow> GitOptions \<Rightarrow> ('r, nat) core_op" where
  "registry_engine env root options c =
     (let key = engine_key (core_git_env env) (w_disk (co_world c)) root in
      case map_of (rg_engines (co_git c)) key of
        Some existing \<Rightarrow> (Ok existing, c)
      | None \<Rightarrow>
          cbind (blocking (open_with (core_git_env env) root options)) (\<lambda>engine c.
            (Ok (length (co_engines c)),
             c\<lparr>co_engines := co_engines c @ [engine],
               co_git := (co_git c)\<lparr>rg_engines := AList.update key (length (co_engines c)) (rg_engines (co_git c))\<rparr>\<rparr>)) c)"

definition registered :: "string \<Rightarrow> ('r, RegisteredWorktree) core_op" where
  "registered thread_id = cof (\<lambda>c.
     case registry_get (co_git c) thread_id of
       Some r \<Rightarrow> Ok r
     | None \<Rightarrow> Err (Internal (''no worktree registered for thread '' @ thread_id)))"

definition load_git_config :: "'r CoreEnv \<Rightarrow> string \<Rightarrow> ('r, WorkspaceGitConfig) core_op" where
  "load_git_config env workspace_root = cof (\<lambda>c.
     let d = w_disk (co_world c);
         path = join_path (join_path workspace_root ''.tethys'') ''config.json'' in
     if \<not> ge_is_file (core_git_env env) d path then Ok default_git_config
     else case ce_read env d path of
         Inl e \<Rightarrow> Err (InvalidConfig (path @ '': '' @ e))
       | Inr raw \<Rightarrow>
           (case ce_parse_config env raw of
              Inl e \<Rightarrow> Err (InvalidConfig (path @ '': '' @ e))
            | Inr config \<Rightarrow> Ok config))"

section \<open>Thread states\<close>

fun edge_phase :: "ThreadRuntimeState \<Rightarrow> ThreadRuntimeState \<Rightarrow> CheckpointPhase option" where
  "edge_phase RS_Running RS_Running = None"
| "edge_phase _ RS_Running = Some CP_Start"
| "edge_phase RS_Running _ = Some CP_End"
| "edge_phase _ _ = None"

definition on_thread_state :: "'r CoreEnv \<Rightarrow> string \<Rightarrow> u32 \<Rightarrow> ThreadRuntimeState \<Rightarrow> ('r, unit) core_op" where
  "on_thread_state env thread_id turn state =
     cbind (cof (\<lambda>c. Ok (registry_get (co_git c) thread_id))) (\<lambda>r.
     case r of
       None \<Rightarrow> cret ()
     | Some rw \<Rightarrow>
         cbind (case edge_phase (rw_last_state rw) state of
             None \<Rightarrow> cret ()
           | Some phase \<Rightarrow>
               cbind (with_engine (rw_engine rw) (\<lambda>en.
                 engine_checkpoint_create (core_git_env env) (ce_elapsed env) en thread_id turn phase)) (\<lambda>_. cret ()))
         (\<lambda>_. cupdate (\<lambda>c. c\<lparr>co_git := registry_set_state thread_id state (co_git c)\<rparr>)))"

section \<open>Worktrees\<close>

definition config_options :: "WorkspaceGitConfig \<Rightarrow> GitOptions" where
  "config_options config = \<lparr>op_skip_untracked_binary_bytes = unat (gc_skip_untracked_binary_bytes config)\<rparr>"

definition fill_path :: "'r CoreEnv \<Rightarrow> string \<Rightarrow> WorkspaceGitConfig \<Rightarrow> WorktreeSpec \<Rightarrow> ('r, WorktreeSpec) core_op" where
  "fill_path env root config spec =
     (if trim (sp_path spec) \<noteq> [] then cret spec
      else cbind (case map_option trim (gc_worktrees_dir config) of
          Some dir \<Rightarrow> if dir \<noteq> [] then cret (path_join dir (sp_slug spec))
             else blocking (default_worktree_path (ce_host env) root (sp_slug spec))
        | None \<Rightarrow> blocking (default_worktree_path (ce_host env) root (sp_slug spec)))
        (\<lambda>path. cret (spec\<lparr>sp_path := path\<rparr>)))"

definition fill_defaults :: "WorkspaceGitConfig \<Rightarrow> WorktreeSpec \<Rightarrow> WorktreeSpec" where
  "fill_defaults config spec =
     (let spec = (if trim (sp_branch spec) = []
        then spec\<lparr>sp_branch := replace_all ''{slug}'' (sp_slug spec) (gc_wt_branch_template config)\<rparr> else spec) in
      if sp_bootstrap_globs spec = [] then spec\<lparr>sp_bootstrap_globs := gc_bootstrap_globs config\<rparr> else spec)"

definition check_jail :: "'r CoreEnv \<Rightarrow> string \<Rightarrow> WorkspaceGitConfig \<Rightarrow> WorktreeSpec \<Rightarrow> ('r, unit) core_op" where
  "check_jail env root config spec = cof (\<lambda>c.
     if trim (sp_path spec) \<noteq> []
        \<and> \<not> worktree_path_allowed (ce_paths env (w_disk (co_world c))) root (ce_sync_home env) config (sp_path spec)
     then Err (InvalidConfig (''worktree path is outside the workspace root and worktrees directory: '' @ sp_path spec))
     else Ok ())"

definition setup_host :: "'r CoreEnv \<Rightarrow> WorkspaceGitConfig \<Rightarrow> 'r HostEnv" where
  "setup_host env config = (ce_host env)\<lparr>he_setup := ce_setup env (max (unat (gc_setup_timeout_ms config)) 1)\<rparr>"

definition git_worktree_create :: "'r CoreEnv \<Rightarrow> WorktreeSpec \<Rightarrow> ('r, WorktreeInfo) core_op" where
  "git_worktree_create env spec =
     cbind (cof (\<lambda>_. ce_roots env (sp_workspace_id spec))) (\<lambda>root.
     cbind (load_git_config env root) (\<lambda>config.
     cbind (registry_engine env root (config_options config)) (\<lambda>engine.
     cbind (check_jail env root config spec) (\<lambda>_.
     cbind (fill_path env root config spec) (\<lambda>spec1.
     cbind (with_engine engine (\<lambda>en. worktree_create (setup_host env config) (en_repo en) (fill_defaults config spec1))) (\<lambda>info.
     cbind (registry_engine env (wi_path info) (config_options config)) (\<lambda>worktree_engine.
     cbind (cupdate (\<lambda>c. c\<lparr>co_git := registry_register info worktree_engine config (co_git c)\<rparr>)) (\<lambda>_.
     cret info))))))))"

definition drop_search_index :: "'r CoreEnv \<Rightarrow> string \<Rightarrow> ('r, unit) core_op" where
  "drop_search_index env path =
     cupdate (\<lambda>c. c\<lparr>co_search := drop_index (core_canon env (w_disk (co_world c))) path (co_search c)\<rparr>)"

definition git_worktree_remove :: "'r CoreEnv \<Rightarrow> string \<Rightarrow> bool \<Rightarrow> bool \<Rightarrow> ('r, unit) core_op" where
  "git_worktree_remove env thread_id force leased =
     cbind (registered thread_id) (\<lambda>rw.
     cbind (registry_engine env (wi_workspace_root (rw_info rw)) (config_options (rw_config rw))) (\<lambda>main_engine.
     cbind (with_engine main_engine (\<lambda>en. worktree_delete (core_git_env env) (en_repo en) (rw_info rw) force leased)) (\<lambda>_.
     cbind (cupdate (\<lambda>c. c\<lparr>co_git := registry_remove (core_git_env env) (w_disk (co_world c)) thread_id (co_git c)\<rparr>)) (\<lambda>_.
     drop_search_index env (wi_path (rw_info rw))))))"

definition git_worktree_list :: "('r, WorktreeInfo list) core_op" where
  "git_worktree_list = cof (\<lambda>c. Ok (registry_list (co_git c)))"

definition git_worktree_archive :: "'r CoreEnv \<Rightarrow> string \<Rightarrow> ('r, unit) core_op" where
  "git_worktree_archive env thread_id =
     cbind (registered thread_id) (\<lambda>rw.
     cbind (with_engine (rw_engine rw) (\<lambda>en. archive_refs (core_git_env env) (en_repo en) thread_id)) (\<lambda>_.
     drop_search_index env (wi_path (rw_info rw))))"

section \<open>Checkpoints, diffs and commits\<close>

definition git_checkpoint_create :: "'r CoreEnv \<Rightarrow> string \<Rightarrow> u32 \<Rightarrow> CheckpointPhase \<Rightarrow> ('r, CheckpointResult) core_op" where
  "git_checkpoint_create env thread_id turn phase =
     cbind (registered thread_id) (\<lambda>rw.
     with_engine (rw_engine rw) (\<lambda>en.
       engine_checkpoint_create (core_git_env env) (ce_elapsed env) en thread_id turn phase))"

fun restore_thread :: "RestoreTarget \<Rightarrow> string" where
  "restore_thread (RT_Checkpoint thread_id _ _) = thread_id"
| "restore_thread (RT_Trees thread_id _ _) = thread_id"

definition git_checkpoint_restore ::
  "'r CoreEnv \<Rightarrow> RestoreTarget \<Rightarrow> RestorePolicy option \<Rightarrow> ('r, RestoreOutcome) core_op" where
  "git_checkpoint_restore env target policy =
     cbind (registered (restore_thread target)) (\<lambda>rw.
     let policy = (case policy of
         Some p \<Rightarrow> p | None \<Rightarrow> if wi_main_checkout (rw_info rw) then RequireClean else Force) in
     with_engine (rw_engine rw) (\<lambda>en. engine_restore (core_git_env env) en target policy))"

definition git_checkpoint_list :: "'r CoreEnv \<Rightarrow> string \<Rightarrow> ('r, CheckpointInfo list) core_op" where
  "git_checkpoint_list env thread_id =
     cbind (registered thread_id) (\<lambda>rw.
     with_engine (rw_engine rw) (\<lambda>en. checkpoint_list (core_git_env env) (en_repo en) thread_id))"

fun source_thread :: "DiffSource \<Rightarrow> string" where
  "source_thread (BaseLatestEnd thread_id _) = thread_id"
| "source_thread (BaseWorktree thread_id _) = thread_id"
| "source_thread (TurnStartEnd thread_id _) = thread_id"
| "source_thread (TurnStartWorktree thread_id _) = thread_id"
| "source_thread (HeadIndex thread_id) = thread_id"
| "source_thread (HeadWorktree thread_id) = thread_id"
| "source_thread (IndexWorktree thread_id) = thread_id"

fun fallback_source :: "DiffSource \<Rightarrow> DiffSource option" where
  "fallback_source (BaseLatestEnd thread_id base) = Some (BaseWorktree thread_id base)"
| "fallback_source (TurnStartEnd thread_id turn) = Some (TurnStartWorktree thread_id turn)"
| "fallback_source _ = None"

definition summary_or_fallback :: "'r GitEnv \<Rightarrow> GitEngine \<Rightarrow> DiffSource \<Rightarrow> ('r, DiffSummary) git_op" where
  "summary_or_fallback env en source =
     bind (attempt (engine_diff_summary env en source)) (\<lambda>r.
     case r of
       Inl (CheckpointNotFound _) \<Rightarrow>
         (case fallback_source source of
            Some fallback \<Rightarrow> engine_diff_summary env en fallback
          | None \<Rightarrow> engine_diff_summary env en source)
     | Inl e \<Rightarrow> fail e
     | Inr s \<Rightarrow> ret s)"

definition git_diff_summary :: "'r CoreEnv \<Rightarrow> DiffSource \<Rightarrow> ('r, DiffSummary) core_op" where
  "git_diff_summary env source =
     cbind (registered (source_thread source)) (\<lambda>rw.
     with_engine (rw_engine rw) (\<lambda>en. summary_or_fallback (core_git_env env) en source))"

definition git_diff_file :: "'r CoreEnv \<Rightarrow> DiffSource \<Rightarrow> string \<Rightarrow> ('r, DiffFileDetail) core_op" where
  "git_diff_file env source path =
     cbind (registered (source_thread source)) (\<lambda>rw.
     on_engine (rw_engine rw) (\<lambda>en. engine_diff_file (core_git_env env) (ce_differ env) (ce_hash env) en source path))"

definition git_stage :: "'r CoreEnv \<Rightarrow> string \<Rightarrow> string list \<Rightarrow> ('r, unit) core_op" where
  "git_stage env thread_id paths =
     cbind (registered thread_id) (\<lambda>rw.
     with_engine (rw_engine rw) (\<lambda>en. stage (core_git_env env) (en_repo en) paths))"

definition git_unstage :: "'r CoreEnv \<Rightarrow> string \<Rightarrow> string list \<Rightarrow> ('r, unit) core_op" where
  "git_unstage env thread_id paths =
     cbind (registered thread_id) (\<lambda>rw.
     with_engine (rw_engine rw) (\<lambda>en. unstage (core_git_env env) (en_repo en) paths))"

definition git_discard :: "'r CoreEnv \<Rightarrow> string \<Rightarrow> DiffSource \<Rightarrow> HunkRef list option \<Rightarrow> ('r, unit) core_op" where
  "git_discard env thread_id source hunks =
     cbind (registered thread_id) (\<lambda>rw.
     cbind (on_engine (rw_engine rw) (\<lambda>en.
       engine_discard (core_git_env env) (ce_differ env) (ce_hash env) (ce_order env) en source hunks)) (\<lambda>x.
     cof (\<lambda>_. case x of Inl e \<Rightarrow> Err (map_git_error e) | Inr _ \<Rightarrow> Ok ())))"

definition git_commit :: "'r CoreEnv \<Rightarrow> string \<Rightarrow> string \<Rightarrow> ('r, CommitResult) core_op" where
  "git_commit env thread_id message =
     cbind (registered thread_id) (\<lambda>rw.
     with_engine (rw_engine rw) (\<lambda>en. commit_work (core_git_env env) (en_repo en) message None))"

definition search_files :: "'r CoreEnv \<Rightarrow> string \<Rightarrow> string \<Rightarrow> nat \<Rightarrow> ('r, SearchItem list) core_op" where
  "search_files env workspace_id query limit =
     cbind (cof (\<lambda>_. ce_roots env workspace_id)) (\<lambda>root c.
       case manager_query (ce_fff env) (core_canon env (w_disk (co_world c))) root query limit (co_search c) of
         (Inl e, m) \<Rightarrow> (Err (map_search_error e), c\<lparr>co_search := m\<rparr>)
       | (Inr items, m) \<Rightarrow> (Ok items, c\<lparr>co_search := m\<rparr>))"

section \<open>Checkpoints at the edges of Running\<close>

fun report_states :: "'r CoreEnv \<Rightarrow> string \<Rightarrow> (u32 \<times> ThreadRuntimeState) list \<Rightarrow> ('r, unit) core_op" where
  "report_states env thread_id [] = cret ()"
| "report_states env thread_id ((turn, state) # rest) =
     cbind (on_thread_state env thread_id turn state) (\<lambda>_. report_states env thread_id rest)"

fun edges :: "ThreadRuntimeState \<Rightarrow> (u32 \<times> ThreadRuntimeState) list \<Rightarrow> (u32 \<times> CheckpointPhase) list" where
  "edges s [] = []"
| "edges s ((turn, s') # rest) =
     (case edge_phase s s' of None \<Rightarrow> [] | Some phase \<Rightarrow> [(turn, phase)]) @ edges s' rest"

fun alternating :: "CheckpointPhase \<Rightarrow> CheckpointPhase list \<Rightarrow> bool" where
  "alternating p [] = True"
| "alternating p (q # qs) = (p = q \<and> alternating (if p = CP_Start then CP_End else CP_Start) qs)"

fun checkpoint_all :: "'r CoreEnv \<Rightarrow> GitEngine \<Rightarrow> string \<Rightarrow> (u32 \<times> CheckpointPhase) list \<Rightarrow> ('r, unit) git_op" where
  "checkpoint_all env en thread_id [] = ret ()"
| "checkpoint_all env en thread_id ((turn, phase) # rest) =
     bind (engine_checkpoint_create (core_git_env env) (ce_elapsed env) en thread_id turn phase) (\<lambda>_.
     checkpoint_all env en thread_id rest)"

lemma edges_alternate: "alternating (if s = RS_Running then CP_End else CP_Start) (map snd (edges s ts))"
proof (induction s ts rule: edges.induct)
  case (2 s turn s' rest)
  thus ?case by (cases s; cases s') auto
qed simp

lemma registry_set_state_get:
  "registry_get reg i = Some rw \<Longrightarrow>
   registry_get (registry_set_state i s reg) j = (if j = i then Some (rw\<lparr>rw_last_state := s\<rparr>) else registry_get reg j)"
  by (simp add: registry_set_state_def registry_get_def AList.update_conv')

lemma on_thread_state_eq:
  assumes "registry_get (co_git c) i = Some rw"
  shows "on_thread_state env i turn s c =
    (case checkpoint_all env (co_engines c ! rw_engine rw) i (edges (rw_last_state rw) [(turn, s)]) (co_world c) of
       (Inl e, w) \<Rightarrow> (Err (map_git_error e), c\<lparr>co_world := w\<rparr>)
     | (Inr _, w) \<Rightarrow> (Ok (), c\<lparr>co_git := registry_set_state i s (co_git c), co_world := w\<rparr>))"
  using assms
  by (auto simp: on_thread_state_def cbind_def cof_def cret_def cupdate_def with_engine_def blocking_def bind_def ret_def
      split: option.split prod.split sum.split)

lemma checkpoint_all_append:
  "checkpoint_all env en i (xs @ ys) = bind (checkpoint_all env en i xs) (\<lambda>_. checkpoint_all env en i ys)"
  by (induction env en i xs rule: checkpoint_all.induct)
    (auto simp: bind_def ret_def fun_eq_iff split: prod.split sum.split)

text \<open>
  C28. Start and end checkpoints bracket the runs of a thread. For a registered thread, reporting
  any sequence of states does to the repository exactly what creating, on the engine of its
  worktree, the checkpoints of the edges of \<open>Running\<close> in that order does, with the same first
  error; a report that fails leaves the recorded state as it was, so the edge is tried again.
  The phases alternate, beginning with a start unless the thread is already running, and when
  all succeed the last state is the recorded one.
\<close>

theorem thread_edges_checkpointed:
  assumes "registry_get (co_git c) i = Some rw"
  shows "(case checkpoint_all env (co_engines c ! rw_engine rw) i (edges (rw_last_state rw) ts) (co_world c) of
      (r, w) \<Rightarrow> (case report_states env i ts c of (r', c') \<Rightarrow>
         r' = map_sum map_git_error id r \<and> co_world c' = w \<and> co_engines c' = co_engines c \<and>
         (\<exists>rw'. registry_get (co_git c') i = Some rw' \<and> rw_info rw' = rw_info rw \<and>
            (r = Ok () \<longrightarrow> rw_last_state rw' = (if ts = [] then rw_last_state rw else snd (last ts)))) \<and>
         (\<forall>j. j \<noteq> i \<longrightarrow> registry_get (co_git c') j = registry_get (co_git c) j)))
    \<and> alternating (if rw_last_state rw = RS_Running then CP_End else CP_Start) (map snd (edges (rw_last_state rw) ts))"
  using assms
proof (induction ts arbitrary: c rw)
  case Nil
  thus ?case by (simp add: cret_def ret_def)
next
  case (Cons t ts)
  obtain turn s where t: "t = (turn, s)" by (cases t)
  let ?en = "co_engines c ! rw_engine rw"
  have split: "edges (rw_last_state rw) (t # ts) = edges (rw_last_state rw) [(turn, s)] @ edges s ts"
    by (simp add: t)
  obtain r w where first: "checkpoint_all env ?en i (edges (rw_last_state rw) [(turn, s)]) (co_world c) = (r, w)"
    by (cases "checkpoint_all env ?en i (edges (rw_last_state rw) [(turn, s)]) (co_world c)")
  note step = on_thread_state_eq[OF Cons.prems, of env turn s, unfolded first prod.case]
  show ?case
  proof (cases r)
    case (Inl e)
    have "report_states env i (t # ts) c = (Err (map_git_error e), c\<lparr>co_world := w\<rparr>)"
      using step by (simp add: t cbind_def Inl)
    moreover have "checkpoint_all env ?en i (edges (rw_last_state rw) (t # ts)) (co_world c) = (Err e, w)"
      unfolding split checkpoint_all_append bind_def first by (simp add: Inl)
    ultimately show ?thesis
      using Cons.prems edges_alternate[of "rw_last_state rw" "t # ts"] by simp
  next
    case (Inr u)
    let ?c = "c\<lparr>co_git := registry_set_state i s (co_git c), co_world := w\<rparr>"
    have rest: "registry_get (co_git ?c) i = Some (rw\<lparr>rw_last_state := s\<rparr>)"
      using Cons.prems by (simp add: registry_set_state_get)
    have "report_states env i (t # ts) c = report_states env i ts ?c"
      using step by (simp add: t cbind_def Inr)
    moreover have "checkpoint_all env ?en i (edges (rw_last_state rw) (t # ts)) (co_world c) =
        checkpoint_all env ?en i (edges s ts) w"
      unfolding split checkpoint_all_append bind_def first by (simp add: Inr)
    ultimately show ?thesis
      using Cons.IH[OF rest] edges_alternate[of "rw_last_state rw" "t # ts"] registry_set_state_get[OF Cons.prems, of s]
      by (auto simp: t split: prod.splits)
  qed
qed

definition ex_rw :: RegisteredWorktree where
  "ex_rw = \<lparr>rw_info = ex_info, rw_engine = 0, rw_config = default_git_config, rw_last_state = RS_Idle\<rparr>"

definition ex_engine :: GitEngine where
  "ex_engine = \<lparr>en_repo = ex_repo, en_options = default_git_options, en_diff_cache = cache_default\<rparr>"

definition ex_fff :: Fff where
  "ex_fff = \<lparr>fff_open = (\<lambda>p. Ok ()), fff_wait = (\<lambda>h n. True), fff_read = (\<lambda>h. Inr True), fff_search = (\<lambda>h q n. ([], [])),
     fff_rescan = (\<lambda>h. Ok ())\<rparr>"

definition ex_core :: "unit Core" where
  "ex_core = \<lparr>co_version = ''0.0.0'', co_search = \<lparr>sm_indexes = [(''/real/t'', \<lparr>wsi_base_path = ''/real/t'', wsi_picker = 0\<rparr>)], sm_next = 1\<rparr>,
     co_git = \<lparr>rg_threads = [(''thread-1'', ex_rw)], rg_engines = [(''/w'', 0), (''/real/t'', 0)]\<rparr>, co_engines = [ex_engine], co_world = ex_world\<rparr>"

definition ex_core_env :: "unit CoreEnv" where
  "ex_core_env = \<lparr>ce_host = failing_host, ce_setup = (\<lambda>n s p d. (Err (IoError ''spawn''), d)), ce_paths = (\<lambda>d. ex_fs),
     ce_canon_error = (\<lambda>d p. ''not found''), ce_read = (\<lambda>d p. Inl ''not found''), ce_parse_config = (\<lambda>s. Inr default_git_config),
     ce_roots = (\<lambda>i. Ok ''/w''), ce_sync_home = ''/home'', ce_fff = ex_fff, ce_differ = ex_differ, ce_hash = (\<lambda>s. s),
     ce_order = (\<lambda>xs. xs), ce_elapsed = 0\<rparr>"

theorem thread_edges_checkpointed_witness:
  "edges RS_Idle [(1, RS_Running), (1, RS_Running), (1, RS_Idle)] = [(1, CP_Start), (1, CP_End)]
   \<and> co_world (snd (report_states ex_core_env ''thread-1'' [(1, RS_Running), (1, RS_Running), (1, RS_Idle)] ex_core)) =
       snd (checkpoint_all ex_core_env ex_engine ''thread-1'' [(1, CP_Start), (1, CP_End)] ex_world)"
proof -
  let ?ts = "[(1, RS_Running), (1, RS_Running), (1, RS_Idle)] :: (u32 \<times> ThreadRuntimeState) list"
  have e: "edges RS_Idle ?ts = [(1, CP_Start), (1, CP_End)]" by simp
  have "registry_get (co_git ex_core) ''thread-1'' = Some ex_rw" by (simp add: registry_get_def ex_core_def)
  from thread_edges_checkpointed[OF this, of ?ts ex_core_env] e show ?thesis
    by (auto simp: ex_rw_def ex_core_def split: prod.splits)
qed

section \<open>Removing a worktree\<close>

lemma registry_engine_frame:
  "registry_engine env root options c = (r, c') \<Longrightarrow>
   co_search c' = co_search c \<and> rg_threads (co_git c') = rg_threads (co_git c) \<and>
   (\<forall>k e. map_of (rg_engines (co_git c)) k = Some e \<longrightarrow> map_of (rg_engines (co_git c')) k = Some e)"
  by (auto simp: registry_engine_def Let_def cbind_def blocking_def AList.update_conv'
      split: option.splits prod.splits sum.splits)

lemma with_engine_frame:
  "with_engine e f c = (r, c') \<Longrightarrow> co_search c' = co_search c \<and> co_git c' = co_git c \<and> co_engines c' = co_engines c"
  by (auto simp: with_engine_def cbind_def cof_def blocking_def split: prod.splits sum.splits)

lemma cbind_Ok: "cbind m f c = (Ok y, c'') \<Longrightarrow> \<exists>x c'. m c = (Ok x, c') \<and> f x c' = (Ok y, c'')"
  by (auto simp: cbind_def split: prod.splits sum.splits)

text \<open>
  Removing a worktree does not free what was kept for it. The registry key of its engine and
  the key of its search index are computed by resolving the path, but only after the directory
  has been deleted. When the path can no longer be resolved, a successful removal unregisters the
  thread, yet leaves the search index as it was, and leaves every engine that was registered
  under a resolved path other than the spelling the thread was registered with. A later worktree
  in the same place is served by that stale engine.
\<close>

theorem removed_worktree_keeps_index_and_engine:
  assumes "git_worktree_remove env thread_id force leased c = (Ok (), c')"
    and "registry_get (co_git c) thread_id = Some rw"
    and "ge_canonical (core_git_env env) (w_disk (co_world c')) (wi_path (rw_info rw)) = None"
  shows "registry_get (co_git c') thread_id = None \<and> co_search c' = co_search c \<and>
    (\<forall>key e. map_of (rg_engines (co_git c)) key = Some e \<longrightarrow> key \<noteq> wi_path (rw_info rw) \<longrightarrow>
       map_of (rg_engines (co_git c')) key = Some e \<and>
       (\<forall>c'' root options. co_git c'' = co_git c' \<longrightarrow>
          engine_key (core_git_env env) (w_disk (co_world c'')) root = key \<longrightarrow>
          registry_engine env root options c'' = (Ok e, c'')))"
proof -
  let ?g = "core_git_env env" let ?path = "wi_path (rw_info rw)"
  obtain me c1 c2 where 1: "registry_engine env (wi_workspace_root (rw_info rw)) (config_options (rw_config rw)) c = (Ok me, c1)"
    and 2: "with_engine me (\<lambda>en. worktree_delete ?g (en_repo en) (rw_info rw) force leased) c1 = (Ok (), c2)"
    and c': "c' = c2\<lparr>co_git := registry_remove ?g (w_disk (co_world c2)) thread_id (co_git c2),
       co_search := drop_index (core_canon env (w_disk (co_world c2))) ?path (co_search c2)\<rparr>"
    using assms(1,2) unfolding git_worktree_remove_def
    by (auto simp: registered_def cof_def cupdate_def drop_search_index_def dest!: cbind_Ok)
  have gone: "ge_canonical ?g (w_disk (co_world c2)) ?path = None" using assms(3) by (simp add: c')
  have frame: "co_search c2 = co_search c" "rg_threads (co_git c2) = rg_threads (co_git c)"
    "\<And>k e. map_of (rg_engines (co_git c)) k = Some e \<Longrightarrow> map_of (rg_engines (co_git c2)) k = Some e"
    using registry_engine_frame[OF 1] with_engine_frame[OF 2] by auto
  have get: "registry_get (co_git c2) thread_id = Some rw" using assms(2) frame(2) by (simp add: registry_get_def)
  have search: "co_search c' = co_search c"
    by (simp add: c' frame(1) drop_index_unresolved core_canon_def gone)
  have thread: "registry_get (co_git c') thread_id = None"
    using get by (simp add: c' registry_remove_def Let_def) (simp add: registry_get_def AList.delete_conv')
  have engines: "map_of (rg_engines (co_git c')) key = Some e"
    if "map_of (rg_engines (co_git c)) key = Some e" "key \<noteq> ?path" for key e
    using frame(3)[OF that(1)] that(2) get gone
    by (simp add: c' registry_remove_def Let_def engine_key_def AList.delete_conv')
  show ?thesis
    using search thread engines by (auto simp: registry_engine_def Let_def)
qed

lemma works_delete_refs: "works (delete_refs quiet_env repo refs)"
  by (induction refs) (auto intro!: works_intros simp: delete_ref_def)

lemma works_delete_thread_refs:
  "thread_ok thread \<Longrightarrow> works (delete_thread_refs quiet_env repo thread)"
  unfolding delete_thread_refs_def list_refs_def Let_def
  by (intro works_intros quiet_validate_thread works_delete_refs)

lemma works_worktree_delete:
  "thread_ok (wi_thread_id info) \<Longrightarrow> \<not> wi_main_checkout info \<Longrightarrow> works (worktree_delete quiet_env repo info True False)"
  unfolding worktree_delete_def delete_guard_def uncommitted_paths_def status_entries_def unpushed_commits_def
    rev_parse_def rev_parse_opt_def Let_def
  by (auto intro!: works_intros works_delete_thread_refs)

theorem removed_worktree_keeps_index_and_engine_witness:
  "\<exists>c'. git_worktree_remove ex_core_env ''thread-1'' True False ex_core = (Ok (), c')
    \<and> registry_get (co_git c') ''thread-1'' = None \<and> co_search c' = co_search ex_core
    \<and> map_of (rg_engines (co_git c')) ''/real/t'' = Some 0"
proof -
  have get: "registry_get (co_git ex_core) ''thread-1'' = Some ex_rw"
    by (simp add: registry_get_def ex_core_def)
  have "works (worktree_delete quiet_env ex_repo ex_info True False)"
    by (rule works_worktree_delete) (use thread_ok_thread_1 in \<open>simp_all add: ex_info_def\<close>)
  then obtain w' where "worktree_delete quiet_env ex_repo ex_info True False ex_world = (Ok (), w')"
    unfolding works_def by (metis (full_types) old.unit.exhaust)
  hence "\<exists>c'. git_worktree_remove ex_core_env ''thread-1'' True False ex_core = (Ok (), c')"
    using get by (simp add: git_worktree_remove_def cbind_def registered_def cof_def registry_engine_def Let_def
        engine_key_def core_git_env_def ex_core_env_def failing_host_def quiet_env_def[symmetric] with_engine_def
        blocking_def cupdate_def drop_search_index_def ex_rw_def ex_core_def ex_engine_def)
      (simp add: ex_info_def quiet_env_def)
  then obtain c' where "git_worktree_remove ex_core_env ''thread-1'' True False ex_core = (Ok (), c')" by blast
  moreover from removed_worktree_keeps_index_and_engine[OF this get]
  have "registry_get (co_git c') ''thread-1'' = None \<and> co_search c' = co_search ex_core
      \<and> map_of (rg_engines (co_git c')) ''/real/t'' = Some 0"
    by (simp add: core_git_env_def ex_core_env_def failing_host_def quiet_env_def ex_core_def ex_rw_def ex_info_def)
  ultimately show ?thesis by blast
qed

section \<open>Engine handles stay valid\<close>

text \<open>
  Every handle in the registry refers to an engine, a thread is registered under its own id, and
  the search indexes are well formed. \<open>triple P m Q\<close> is total correctness of a core operation that
  keeps the invariant on its error paths.
\<close>

definition core_wf :: "'r Core \<Rightarrow> bool" where
  "core_wf c \<longleftrightarrow> (\<forall>(k, e) \<in> set (rg_engines (co_git c)). e < length (co_engines c)) \<and>
     (\<forall>(i, rw) \<in> set (rg_threads (co_git c)). rw_engine rw < length (co_engines c) \<and> wi_thread_id (rw_info rw) = i) \<and>
     distinct (map fst (rg_threads (co_git c))) \<and> distinct (map fst (rg_engines (co_git c))) \<and> sm_wf (co_search c)"

definition triple :: "('r Core \<Rightarrow> bool) \<Rightarrow> ('r, 'a) core_op \<Rightarrow> ('a \<Rightarrow> 'r Core \<Rightarrow> bool) \<Rightarrow> bool" where
  "triple P m Q \<longleftrightarrow> (\<forall>c. P c \<longrightarrow> (case m c of (Inl e, c') \<Rightarrow> core_wf c' | (Inr x, c') \<Rightarrow> Q x c'))"

definition keeps :: "('r, 'a) core_op \<Rightarrow> bool" where
  "keeps m \<longleftrightarrow> triple core_wf m (\<lambda>_. core_wf)"

named_theorems keeps_intros \<open>operations that keep the invariant\<close>

lemma keepsD: "keeps m \<Longrightarrow> core_wf c \<Longrightarrow> core_wf (snd (m c))"
  unfolding keeps_def triple_def by (cases "m c") (auto split: prod.splits sum.splits)

lemma triple_bind: "triple P m R \<Longrightarrow> (\<And>x. triple (R x) (f x) Q) \<Longrightarrow> triple P (cbind m f) Q"
  unfolding triple_def cbind_def by (fastforce split: prod.splits sum.splits)

lemma triple_weaken:
  assumes "triple P m Q" "\<And>x c. Q x c \<Longrightarrow> R x c"
  shows "triple P m R"
  unfolding triple_def
proof (intro allI impI)
  fix c assume "P c"
  with assms show "case m c of (Inl e, c') \<Rightarrow> core_wf c' | (Inr x, c') \<Rightarrow> R x c'"
    unfolding triple_def by (cases "m c"; cases "fst (m c)") fastforce+
qed

lemma keeps_cbind [keeps_intros]: "keeps m \<Longrightarrow> (\<And>x. keeps (f x)) \<Longrightarrow> keeps (cbind m f)"
  unfolding keeps_def by (rule triple_bind)

lemma keeps_basic [keeps_intros]: "keeps (cret x)" "keeps (cfail e)" "keeps (cof f)"
  by (simp_all add: keeps_def triple_def cret_def cfail_def cof_def split: sum.split)

lemma keeps_option [keeps_intros]:
  "(x = None \<Longrightarrow> keeps m) \<Longrightarrow> (\<And>v. x = Some v \<Longrightarrow> keeps (f v)) \<Longrightarrow> keeps (case x of None \<Rightarrow> m | Some v \<Rightarrow> f v)"
  by (cases x) auto

lemma keeps_if [keeps_intros]: "(b \<Longrightarrow> keeps m) \<Longrightarrow> (\<not> b \<Longrightarrow> keeps n) \<Longrightarrow> keeps (if b then m else n)"
  by simp

lemma keeps_pair [keeps_intros]: "(\<And>a b. keeps (f a b)) \<Longrightarrow> keeps (case y of (a, b) \<Rightarrow> f a b)"
  by (cases y) simp

lemma core_wf_world [simp]: "core_wf (c\<lparr>co_world := w\<rparr>) = core_wf c"
  by (simp add: core_wf_def)

lemma keeps_blocking [keeps_intros]: "keeps (blocking m)"
  by (simp add: keeps_def triple_def blocking_def split: prod.split sum.split)

lemma keeps_with_engine [keeps_intros]: "keeps (with_engine e f)"
  unfolding with_engine_def by (intro keeps_intros)

lemma core_wf_engine_update: "core_wf c \<Longrightarrow> core_wf (c\<lparr>co_engines := (co_engines c)[e := en]\<rparr>)"
  by (simp add: core_wf_def)

lemma keeps_cupdate: "(\<And>c. core_wf c \<Longrightarrow> core_wf (f c)) \<Longrightarrow> keeps (cupdate f)"
  by (simp add: keeps_def triple_def cupdate_def)

lemma keeps_on_engine [keeps_intros]: "keeps (on_engine e f)"
  unfolding on_engine_def by (intro keeps_intros keeps_cupdate core_wf_engine_update)

lemma keeps_registered [keeps_intros]: "keeps (registered i)"
  unfolding registered_def by (intro keeps_intros)

lemma set_AList_update: "set (AList.update k v xs) \<subseteq> insert (k, v) (set xs)"
  by (induction xs) auto

lemma core_wf_new_engine:
  "core_wf c \<Longrightarrow> core_wf (c\<lparr>co_engines := co_engines c @ [en],
     co_git := (co_git c)\<lparr>rg_engines := AList.update key (length (co_engines c)) (rg_engines (co_git c))\<rparr>\<rparr>)"
  using set_AList_update[of key "length (co_engines c)" "rg_engines (co_git c)"]
  by (fastforce simp: core_wf_def distinct_update)

lemma triple_registry_engine:
  "triple core_wf (registry_engine env root options) (\<lambda>e c. core_wf c \<and> e < length (co_engines c))"
  unfolding triple_def
proof (intro allI impI)
  fix c :: "'a Core" assume wf: "core_wf c"
  let ?key = "engine_key (core_git_env env) (w_disk (co_world c)) root"
  show "case registry_engine env root options c of
      (Inl e, c') \<Rightarrow> core_wf c' | (Inr x, c') \<Rightarrow> core_wf c' \<and> x < length (co_engines c')"
  proof (cases "map_of (rg_engines (co_git c)) ?key")
    case (Some e)
    thus ?thesis using wf by (auto simp: registry_engine_def core_wf_def dest: map_of_SomeD)
  next
    case None
    have "core_wf (c\<lparr>co_world := w\<rparr>)" for w using wf by simp
    from core_wf_new_engine[OF this] None wf show ?thesis
      by (auto simp: registry_engine_def cbind_def blocking_def split: prod.split sum.split)
  qed
qed

lemma keeps_registry_engine [keeps_intros]: "keeps (registry_engine env root options)"
  unfolding keeps_def by (rule triple_weaken[OF triple_registry_engine]) simp

lemma core_wf_register:
  assumes "core_wf c" "e < length (co_engines c)"
  shows "core_wf (c\<lparr>co_git := registry_register info e config (co_git c)\<rparr>)"
  using assms set_AList_update[of "wi_thread_id info"
      "\<lparr>rw_info = info, rw_engine = e, rw_config = config, rw_last_state = RS_Idle\<rparr>" "rg_threads (co_git c)"]
  by (fastforce simp: core_wf_def registry_register_def distinct_update)

lemma keeps_register:
  "keeps (cbind (registry_engine env root options) (\<lambda>e.
     cbind (cupdate (\<lambda>c. c\<lparr>co_git := registry_register info e config (co_git c)\<rparr>)) (\<lambda>_. cret info)))"
  unfolding keeps_def
  by (rule triple_bind[OF triple_registry_engine])
    (simp add: triple_def cbind_def cupdate_def cret_def core_wf_register)

lemma core_wf_set_state: "core_wf c \<Longrightarrow> core_wf (c\<lparr>co_git := registry_set_state i s (co_git c)\<rparr>)"
proof (cases "registry_get (co_git c) i")
  case (Some rw)
  assume "core_wf c"
  moreover from Some have "(i, rw) \<in> set (rg_threads (co_git c))" by (simp add: registry_get_def map_of_SomeD)
  ultimately show ?thesis
    using Some set_AList_update[of i "rw\<lparr>rw_last_state := s\<rparr>" "rg_threads (co_git c)"]
    by (fastforce simp: core_wf_def registry_set_state_def distinct_update)
qed (simp add: registry_set_state_def)

lemma set_AList_delete: "set (AList.delete k xs) \<subseteq> set xs"
  by (auto simp: AList.delete_eq)

lemma core_wf_remove: "core_wf c \<Longrightarrow> core_wf (c\<lparr>co_git := registry_remove env d i (co_git c)\<rparr>)"
  using set_AList_delete[of i "rg_threads (co_git c)"]
  by (auto simp: core_wf_def registry_remove_def Let_def distinct_delete split: option.split
      dest!: subsetD[OF set_AList_delete])

lemma keeps_drop_search [keeps_intros]: "keeps (drop_search_index env path)"
  unfolding drop_search_index_def by (rule keeps_cupdate) (simp add: core_wf_def sm_wf_drop_index)

lemma manager_query_snd: "snd (manager_query fff canon root q n m) = snd (get_or_open fff canon root m)"
  by (simp add: manager_query_def split: prod.split sum.split)

lemma keeps_search_files [keeps_intros]: "keeps (search_files env i q n)"
proof -
  have "keeps (\<lambda>c. case manager_query (ce_fff env) (core_canon env (w_disk (co_world c))) root q n (co_search c) of
         (Inl e, m) \<Rightarrow> (Err (map_search_error e), c\<lparr>co_search := m\<rparr>)
       | (Inr items, m) \<Rightarrow> (Ok items, c\<lparr>co_search := m\<rparr>))" for root
    unfolding keeps_def triple_def
  proof (intro allI impI)
    fix c :: "'a Core" assume wf: "core_wf c"
    let ?q = "manager_query (ce_fff env) (core_canon env (w_disk (co_world c))) root q n (co_search c)"
    have "sm_wf (snd ?q)" using wf by (simp add: manager_query_snd core_wf_def sm_wf_get_or_open)
    hence "core_wf (c\<lparr>co_search := snd ?q\<rparr>)" using wf by (simp add: core_wf_def)
    thus "case (case ?q of (Inl e, m) \<Rightarrow> (Err (map_search_error e), c\<lparr>co_search := m\<rparr>)
       | (Inr items, m) \<Rightarrow> (Ok items, c\<lparr>co_search := m\<rparr>)) of (Inl e, c') \<Rightarrow> core_wf c' | (Inr x, c') \<Rightarrow> core_wf c'"
      by (cases ?q; cases "fst ?q") simp_all
  qed
  thus ?thesis unfolding search_files_def by (intro keeps_intros)
qed

lemma keeps_worktree_create [keeps_intros]: "keeps (git_worktree_create env spec)"
  unfolding git_worktree_create_def load_git_config_def check_jail_def fill_path_def
  by ((rule keeps_register | rule keeps_intros)+)

lemma keeps_worktrees [keeps_intros]:
  "keeps (git_worktree_remove env i force leased)" "keeps git_worktree_list" "keeps (git_worktree_archive env i)"
  unfolding git_worktree_remove_def git_worktree_list_def git_worktree_archive_def
  by (intro keeps_intros keeps_cupdate core_wf_remove; assumption)+

lemma keeps_thread_state [keeps_intros]: "keeps (on_thread_state env i turn s)"
  unfolding on_thread_state_def by (intro keeps_intros keeps_cupdate core_wf_set_state)

lemma keeps_checkpoints [keeps_intros]:
  "keeps (git_checkpoint_create env i turn phase)" "keeps (git_checkpoint_restore env target policy)"
  "keeps (git_checkpoint_list env i)" "keeps (git_diff_summary env source)" "keeps (git_diff_file env source path)"
  "keeps (git_stage env i paths)" "keeps (git_unstage env i paths)" "keeps (git_discard env i source hunks)"
  "keeps (git_commit env i message)"
  unfolding git_checkpoint_create_def git_checkpoint_restore_def git_checkpoint_list_def git_diff_summary_def
    git_diff_file_def git_stage_def git_unstage_def git_discard_def git_commit_def Let_def
  by (intro keeps_intros)+

inductive core_step :: "'r Core \<Rightarrow> 'r Core \<Rightarrow> bool" where
  "core_step c (snd (git_worktree_create env spec c))"
| "core_step c (snd (git_worktree_remove env i force leased c))"
| "core_step c (snd (git_worktree_archive env i c))"
| "core_step c (snd (on_thread_state env i turn s c))"
| "core_step c (snd (git_checkpoint_create env i turn phase c))"
| "core_step c (snd (git_checkpoint_restore env target policy c))"
| "core_step c (snd (git_checkpoint_list env i c))"
| "core_step c (snd (git_diff_summary env source c))"
| "core_step c (snd (git_diff_file env source path c))"
| "core_step c (snd (git_stage env i paths c))"
| "core_step c (snd (git_unstage env i paths c))"
| "core_step c (snd (git_discard env i source hunks c))"
| "core_step c (snd (git_commit env i message c))"
| "core_step c (snd (search_files env i query limit c))"

inductive_cases core_stepE: "core_step c c'"

definition core_new :: "string \<Rightarrow> 'r World \<Rightarrow> 'r Core" where
  "core_new version w = \<lparr>co_version = version, co_search = search_new, co_git = registry_new, co_engines = [], co_world = w\<rparr>"

lemma core_step_wf: "core_step c c' \<Longrightarrow> core_wf c \<Longrightarrow> core_wf c'"
  by (erule core_stepE) (auto intro!: keepsD keeps_intros)

lemma core_new_wf: "core_wf (core_new version w)"
  by (simp add: core_wf_def core_new_def registry_new_def sm_wf_new)

interpretation core: transition_invariant "\<lambda>c. \<exists>version w. c = core_new version w" core_step core_wf
  by unfold_locales (auto intro: core_new_wf core_step_wf)



end
