(* ===== verification/Setup_Runner.thy ===== *)
theory Setup_Runner
  imports Supervisor Git_Checkpoint
begin

text \<open>
  \<open>ProcessSetupRunner\<close> of \<^verbatim>\<open>crates/tethys-core/src/git_registry.rs\<close>: a setup script runs under the
  supervisor, is polled every 20 milliseconds and is cancelled at its deadline. \<open>SetupHost\<close> is the
  operating system around it: the answers of the successive polls, the clock read after each of
  them (in milliseconds), the answers during the cancel ladder and what the child writes to its
  standard error. An \<open>ExitStatus\<close> is its code. The loop may run as long as the clock allows, so it
  is a partial function whose value \<open>None\<close> is not returning.
\<close>

record SetupHost =
  sh_runtime :: "string + unit"
  sh_spawn :: "string list \<Rightarrow> string \<Rightarrow> string + unit"
  sh_start :: nat
  sh_poll :: "nat \<Rightarrow> string + int option option"
  sh_now :: "nat \<Rightarrow> nat"
  sh_ladder_first :: "string poll"
  sh_ladder_polls :: "string poll list"
  sh_ladder_wait :: "string + unit"
  sh_stderr :: "byte list list"

definition to_string_lossy :: "StderrRingBuffer \<Rightarrow> string" where
  "to_string_lossy rb = utf8_lossy (map (\<lambda>b. char_of (unat b)) (rb_buffer rb))"

definition shell_command :: "string \<Rightarrow> string list" where
  "shell_command script = [''sh'', ''-c'', script]"

definition io :: "string + 'a \<Rightarrow> GitError + 'a" where
  "io x = (case x of Inl e \<Rightarrow> Err (IoError e) | Inr v \<Rightarrow> Ok v)"

partial_function (option) setup_loop ::
  "SetupHost \<Rightarrow> nat \<Rightarrow> nat \<Rightarrow> (GitError + int option option \<times> bool) option" where
  "setup_loop h deadline n =
     (case sh_poll h n of
        Inl e \<Rightarrow> Some (Err (IoError e))
      | Inr (Some finished) \<Rightarrow> Some (Ok (Some finished, False))
      | Inr None \<Rightarrow>
          if deadline \<le> sh_now h n
          then (case snd (cancel_ladder (sh_ladder_first h) (sh_ladder_polls h) (sh_ladder_wait h)) of
                  Inl e \<Rightarrow> Some (Err (IoError e))
                | Inr _ \<Rightarrow> Some (Ok (None, True)))
          else setup_loop h deadline (Suc n))"

definition setup_run :: "SetupHost \<Rightarrow> nat \<Rightarrow> string \<Rightarrow> string \<Rightarrow> (GitError + SetupOutcome) option" where
  "setup_run h timeout script cwd =
     (case sh_runtime h of
        Inl e \<Rightarrow> Some (Err (IoError e))
      | Inr _ \<Rightarrow>
     (case sh_spawn h (shell_command script) cwd of
        Inl e \<Rightarrow> Some (Err (IoError e))
      | Inr _ \<Rightarrow>
     (case setup_loop h (sh_start h + timeout) 0 of
        None \<Rightarrow> None
      | Some (Inl e) \<Rightarrow> Some (Err e)
      | Some (Inr (status, timed_out)) \<Rightarrow>
          Some (Ok \<lparr>so_exit_code = Option.bind status (\<lambda>finished. finished),
            so_stderr = to_string_lossy (run_steps write_bytes (rb_new (256 * 1024)) (sh_stderr h)),
            so_timed_out = timed_out\<rparr>))))"

section \<open>The loop ends\<close>

text \<open>\<open>thread::sleep\<close> sleeps at least its duration, and the clock starts with the loop.\<close>

definition sleeps :: "SetupHost \<Rightarrow> bool" where
  "sleeps h \<longleftrightarrow> sh_start h \<le> sh_now h 0 \<and> (\<forall>n. sh_now h n + 20 \<le> sh_now h (Suc n))"

lemma sleeps_now: "sleeps h \<Longrightarrow> sh_start h + 20 * n \<le> sh_now h n"
proof (induction n)
  case (Suc n)
  have "sh_now h n + 20 \<le> sh_now h (Suc n)" using Suc.prems by (simp add: sleeps_def)
  with Suc show ?case by simp
qed (simp add: sleeps_def)

definition waiting :: "SetupHost \<Rightarrow> nat \<Rightarrow> nat \<Rightarrow> bool" where
  "waiting h deadline n \<longleftrightarrow> sh_poll h n = Inr None \<and> sh_now h n < deadline"

lemma setup_loop_waits: "waiting h deadline n \<Longrightarrow> setup_loop h deadline n = setup_loop h deadline (Suc n)"
  by (subst setup_loop.simps) (simp add: waiting_def)

lemma setup_loop_skips: "\<forall>m<n. waiting h deadline m \<Longrightarrow> setup_loop h deadline 0 = setup_loop h deadline n"
  by (induction n) (auto simp: setup_loop_waits)

lemma setup_loop_decides:
  "\<not> waiting h deadline n \<Longrightarrow>
   setup_loop h deadline n =
     Some (case sh_poll h n of
        Inl e \<Rightarrow> Err (IoError e)
      | Inr (Some finished) \<Rightarrow> Ok (Some finished, False)
      | Inr None \<Rightarrow> map_sum id (\<lambda>_. (None, True))
           (io (snd (cancel_ladder (sh_ladder_first h) (sh_ladder_polls h) (sh_ladder_wait h)))))"
  by (subst setup_loop.simps) (auto simp: waiting_def io_def split: sum.split option.split)

text \<open>The first poll that does not wait comes within the timeout.\<close>

lemma first_decision:
  assumes "sleeps h"
  obtains n where "n \<le> timeout div 20 + 1" "\<forall>m<n. waiting h (sh_start h + timeout) m"
    "\<not> waiting h (sh_start h + timeout) n"
proof -
  let ?P = "\<lambda>n. \<not> waiting h (sh_start h + timeout) n"
  have "timeout \<le> 20 * (timeout div 20 + 1)" by simp
  with sleeps_now[OF assms, of "timeout div 20 + 1"] have late: "?P (timeout div 20 + 1)"
    by (simp add: waiting_def)
  define n where "n = (LEAST n. ?P n)"
  have "n \<le> timeout div 20 + 1" unfolding n_def by (rule Least_le) (rule late)
  moreover have "waiting h (sh_start h + timeout) m" if "m < n" for m
    using not_less_Least[of m ?P] that unfolding n_def by blast
  moreover have "?P n" unfolding n_def by (rule LeastI[of ?P]) (rule late)
  ultimately show thesis by (intro that) auto
qed

text \<open>
  C26. A setup script is never waited for forever. Whatever the child does, the runner returns,
  after at most \<open>timeout div 20 + 2\<close> polls. When it reports a finished script, that poll found it
  finished after polls that all found it running before the deadline; when it reports a timeout,
  the last poll found it running at or after the deadline and the cancel ladder ended without an
  error. The captured standard error is the last 256 KiB of what the child wrote.
\<close>

theorem setup_script_terminates:
  assumes "sleeps h"
  shows "\<exists>outcome. setup_run h timeout script cwd = Some outcome \<and>
    (\<forall>v. outcome = Ok v \<longrightarrow>
      (\<exists>n\<le>timeout div 20 + 1.
        (\<forall>m<n. sh_poll h m = Inr None \<and> sh_now h m < sh_start h + timeout) \<and>
        (if so_timed_out v
         then sh_poll h n = Inr None \<and> sh_start h + timeout \<le> sh_now h n \<and> so_exit_code v = None \<and>
           snd (cancel_ladder (sh_ladder_first h) (sh_ladder_polls h) (sh_ladder_wait h)) = Ok ()
         else sh_poll h n = Inr (Some (so_exit_code v)))) \<and>
      so_stderr v = utf8_lossy (map (\<lambda>b. char_of (unat b)) (last_n (256 * 1024) (concat (sh_stderr h)))))"
proof -
  obtain n where n: "n \<le> timeout div 20 + 1" "\<forall>m<n. waiting h (sh_start h + timeout) m"
    "\<not> waiting h (sh_start h + timeout) n"
    using first_decision[OF assms] by metis
  have "setup_loop h (sh_start h + timeout) 0 = setup_loop h (sh_start h + timeout) n"
    using n(2) by (rule setup_loop_skips)
  note loop = this[unfolded setup_loop_decides[OF n(3)]]
  have stderr: "rb_buffer (run_steps write_bytes (rb_new (256 * 1024)) (sh_stderr h)) = last_n (256 * 1024) (concat (sh_stderr h))"
    using run_write_bytes[OF rb_new_wf, of "256 * 1024" "[]" "sh_stderr h"] by (simp add: rb_new_def last_n_def)
  show ?thesis
    unfolding setup_run_def loop to_string_lossy_def stderr
    using n by (auto simp: waiting_def io_def split: sum.split option.split intro!: exI[of _ n])
qed

definition ex_host :: SetupHost where
  "ex_host = \<lparr>sh_runtime = Ok (), sh_spawn = (\<lambda>c d. Ok ()), sh_start = 0, sh_poll = (\<lambda>n. Inr None),
     sh_now = (\<lambda>n. 20 * n), sh_ladder_first = Inr False, sh_ladder_polls = [Inr True], sh_ladder_wait = Ok (),
     sh_stderr = []\<rparr>"

theorem setup_script_terminates_witness:
  "sleeps ex_host \<and> (\<exists>outcome. setup_run ex_host 50 ''make'' ''/w'' = Some outcome)"
proof -
  have "sleeps ex_host" by (simp add: sleeps_def ex_host_def)
  with setup_script_terminates[of ex_host 50 "''make''" "''/w''"] show ?thesis by blast
qed

end
