(* ===== verification/Skill_Safety.thy ===== *)
theory Skill_Safety
  imports Skill_Trust
begin

text \<open>
  What imports do to the disk: extraction stays below its destination for every archive and every
  refused disk operation, moving a skill into place never loses the one that is there, and the two
  inputs on which an import destroys or cannot finish what it should.
\<close>

section \<open>Containment\<close>

text \<open>The destination and its parents are directories, and nothing outside it differs from \<open>d0\<close>.\<close>

definition dirs_to :: "disk \<Rightarrow> loc \<Rightarrow> bool" where
  "dirs_to d p \<longleftrightarrow> list_all (\<lambda>i. is_dir_at d (take i p)) [0..<Suc (length p)]"

definition confined :: "loc \<Rightarrow> disk \<Rightarrow> disk \<Rightarrow> bool" where
  "confined dir d0 d \<longleftrightarrow> dirs_to d dir \<and> (\<forall>p. \<not> below dir p \<longrightarrow> node_at d p = node_at d0 p)"

definition of_disk :: "(disk \<Rightarrow> bool) \<Rightarrow> SkillWorld \<Rightarrow> bool" where
  "of_disk J w = J (sw_disk w)"

lemma dirs_to_iff: "dirs_to d p \<longleftrightarrow> (\<forall>i \<le> length p. is_dir_at d (take i p))"
  by (auto simp: dirs_to_def list_all_iff less_Suc_eq_le)

lemma below_append [simp]: "below dir (dir @ rest)"
  by (simp add: below_def)

lemma node_at_append:
  "node_at (d @ map (\<lambda>q. (q, DirNode)) qs) p =
     (case node_at d p of None \<Rightarrow> if p \<in> set qs then Some DirNode else None | Some n \<Rightarrow> Some n)"
proof -
  have "map_of (map (\<lambda>q. (q, DirNode)) qs) p = (if p \<in> set qs then Some DirNode else None)"
    by (induction qs) auto
  thus ?thesis by (simp add: node_at_def map_add_def split: option.split)
qed

lemma missing_dirs_below:
  assumes "dirs_to d dir" "q \<in> set (missing_dirs d (dir @ rest))"
  shows "below dir q"
proof -
  obtain i where q: "q = take i (dir @ rest)" "node_at d q = None" using assms(2) by (auto simp: missing_dirs_def)
  have "\<not> i \<le> length dir"
    using assms(1) q by (auto simp: dirs_to_iff is_dir_at_def)
  thus ?thesis by (simp add: q(1) below_def)
qed

lemma confined_mkdirs:
  assumes "confined dir d0 d" "mkdirs (dir @ rest) d = Ok d'"
  shows "confined dir d0 d'"
proof -
  have d': "d' = d @ map (\<lambda>q. (q, DirNode)) (missing_dirs d (dir @ rest))"
    using assms(2) by (simp add: mkdirs_def split: if_splits)
  have dirs: "dirs_to d dir" using assms(1) by (simp add: confined_def)
  have "\<not> below dir p \<Longrightarrow> node_at d' p = node_at d p" for p
    using missing_dirs_below[OF dirs] by (auto simp: d' node_at_append split: option.split)
  moreover have "dirs_to d' dir" using dirs by (simp add: dirs_to_iff is_dir_at_def d' node_at_append)
  ultimately show ?thesis using assms(1) by (simp add: confined_def)
qed

lemma mkdirs_parents: "dirs_to d dir \<Longrightarrow> mkdirs (butlast dir) d = Ok d' \<Longrightarrow> d' = d"
  by (auto simp: mkdirs_def missing_dirs_def dirs_to_iff is_dir_at_def filter_empty_conv butlast_conv_take min_def
      split: if_splits)

lemma node_at_filter: "node_at (filter (\<lambda>(q, n). q \<noteq> p) d) q = (if q = p \<and> p \<noteq> [] then None else node_at d q)"
  by (induction d) (auto simp: node_at_def)

lemma confined_write:
  assumes "confined dir d0 d" "write_node (dir @ rest) bytes exec d = Ok d'"
  shows "confined dir d0 d'"
proof -
  have not_dir: "\<not> is_dir_at d (dir @ rest)" "dir @ rest \<noteq> []"
    and d': "d' = filter (\<lambda>(q, n). q \<noteq> dir @ rest) d @ [(dir @ rest, FileNode bytes exec)]"
    using assms(2) by (auto simp: write_node_def split: if_splits)
  have same: "node_at d' p = node_at d p" if "p \<noteq> dir @ rest" for p
  proof -
    have "map_of d' p = map_of (filter (\<lambda>(q, n). q \<noteq> dir @ rest) d) p"
      using that by (simp add: d' map_add_def split: option.split)
    thus ?thesis using that node_at_filter[of "dir @ rest" d p] by (simp add: node_at_def split: if_splits)
  qed
  have "take i dir \<noteq> dir @ rest" if "i \<le> length dir" for i
    using that assms(1) not_dir by (auto simp: confined_def dirs_to_iff)
  hence "dirs_to d' dir" using assms(1) by (simp add: confined_def dirs_to_iff is_dir_at_def same)
  moreover have "\<not> below dir p \<Longrightarrow> node_at d' p = node_at d p" for p
    using same below_append by metis
  ultimately show ?thesis using assms(1) by (simp add: confined_def)
qed

lemma keeps_disk_step:
  assumes "\<And>d d'. J d \<Longrightarrow> f d = Ok d' \<Longrightarrow> J d'"
  shows "sk_keeps (of_disk J) (sk_disk env f)"
  using assms by (auto simp: sk_keeps_def sk_triple_def sk_disk_def of_disk_def Let_def split: option.split sum.split)

lemma confined_steps [sk_intros]:
  "sk_keeps (of_disk (confined dir d0)) (sk_disk env (mkdirs (dir @ rest)))"
  "sk_keeps (of_disk (confined dir d0)) (sk_disk env (write_node (dir @ rest) bytes exec))"
  by (rule keeps_disk_step, erule (1) confined_mkdirs confined_write)+

lemma confined_put_file [sk_intros]:
  "sk_keeps (of_disk (confined dir d0)) (put_file env (dir @ rest) bytes exec)"
proof (cases "rest = []")
  case True
  have "sk_keeps (of_disk (confined dir d0)) (sk_disk env (mkdirs (butlast dir)))"
    by (rule keeps_disk_step) (use mkdirs_parents in \<open>auto simp: confined_def\<close>)
  thus ?thesis unfolding put_file_def True using confined_steps(2)[of dir d0 env "[]"] by (auto intro!: sk_intros)
next
  case False
  thus ?thesis unfolding put_file_def by (auto intro!: sk_intros simp: butlast_append)
qed

lemma confined_unpack [sk_intros]: "sk_keeps (of_disk (confined dir d0)) (unpack_in env e dir)"
  unfolding unpack_in_def Let_def by (intro sk_intros)

lemma confined_tar_loop [sk_intros]: "sk_keeps (of_disk (confined dir d0)) (tar_loop env dir count acc entries)"
  by (induction env dir count acc entries rule: tar_loop.induct) (auto intro!: sk_intros split: sum.split)

lemma confined_zip_loop [sk_intros]: "sk_keeps (of_disk (confined dir d0)) (zip_loop env dir acc entries)"
  by (induction env dir acc entries rule: zip_loop.induct) (auto intro!: sk_intros split: option.split)

lemma confined_extraction:
  "sk_keeps (of_disk (confined dir d0)) (extract_tar env bytes dir)"
  "sk_keeps (of_disk (confined dir d0)) (extract_zip env bytes dir)"
  unfolding extract_tar_def extract_zip_def by (intro sk_intros)+

section \<open>Caps\<close>

lemma tar_loop_accepts:
  "tar_loop env dir count acc entries w = (Ok (), w') \<Longrightarrow> count \<le> MAX_ARCHIVE_ENTRIES \<Longrightarrow>
     count + length entries \<le> MAX_ARCHIVE_ENTRIES \<and>
     list_all (\<lambda>r. case r of Inl _ \<Rightarrow> False | Inr e \<Rightarrow> te_kind e \<noteq> Tar_Link \<and> \<not> unsafe_path (te_path e)) entries"
  by (induction env dir count acc entries arbitrary: w rule: tar_loop.induct)
    (auto simp: sk_fail_def sk_bind_def split: sum.splits if_splits prod.splits)


definition hostile_env :: SkillEnv where
  "hostile_env = sample_env\<lparr>se_tar := (\<lambda>_. Ok
     [Ok \<lparr>te_kind = Tar_File, te_path = ''SKILL.md'', te_size = Ok 4, te_bytes = ''evil'', te_exec = False\<rparr>,
      Ok \<lparr>te_kind = Tar_File, te_path = ''../../x'', te_size = Ok 4, te_bytes = ''evil'', te_exec = True\<rparr>])\<rparr>"


section \<open>Moving into place\<close>

definition parents_exist :: "disk \<Rightarrow> bool" where
  "parents_exist d \<longleftrightarrow> list_all (\<lambda>(p, n). list_all (\<lambda>i. node_at d (take i p) \<noteq> None) [0..<Suc (length p)]) d"

definition tree_at :: "disk \<Rightarrow> loc \<Rightarrow> loc \<Rightarrow> Node option" where
  "tree_at d p = (\<lambda>rest. node_at d (p @ rest))"

definition none_below :: "disk \<Rightarrow> loc \<Rightarrow> bool" where
  "none_below d p \<longleftrightarrow> list_all (\<lambda>(q, n). \<not> below p q) d"

lemma below_iff: "below p q \<longleftrightarrow> (\<exists>r. q = p @ r)"
  unfolding below_def by (metis append_eq_conv_conj append_take_drop_id)

lemma absent_none_below:
  assumes "parents_exist d" "node_at d p = None"
  shows "none_below d p"
  unfolding none_below_def list_all_iff
proof (clarify)
  fix q n assume "(q, n) \<in> set d" "below p q"
  hence "length p \<le> length q" by (auto simp: below_iff)
  with \<open>(q, n) \<in> set d\<close> have "node_at d (take (length p) q) \<noteq> None" using assms(1)
    unfolding parents_exist_def list_all_iff by (auto dest!: bspec[where x = "(q, n)"] dest: bspec[where x = "length p"])
  thus False using \<open>below p q\<close> assms(2) by (simp add: below_def)
qed

lemma mkdirs_existing:
  assumes "parents_exist d" "p \<noteq> []" "node_at d p \<noteq> None" "mkdirs (butlast p) d = Ok d'"
  shows "d' = d"
proof -
  obtain n where "(p, n) \<in> set d" using assms(2,3) by (auto simp: node_at_def dest: map_of_SomeD)
  hence "node_at d (take i p) \<noteq> None" if "i \<le> length p" for i
    using assms(1) that unfolding parents_exist_def list_all_iff by (auto dest!: bspec[where x = "(p, n)"] dest: bspec[where x = i])
  hence "missing_dirs d (butlast p) = []" by (auto simp: missing_dirs_def filter_empty_conv butlast_conv_take min_def)
  thus ?thesis using assms(4) by (auto simp: mkdirs_def split: if_splits)
qed

lemma map_of_move_in:
  "none_below d b \<Longrightarrow> map_of (move_tree a b d) (b @ r) = map_of d (a @ r)"
  by (induction d) (auto simp: move_tree_def none_below_def below_iff split: if_splits)

lemma map_of_move_out:
  "\<not> below a q \<Longrightarrow> \<not> below b q \<Longrightarrow> map_of (move_tree a b d) q = map_of d q"
  by (induction d) (auto simp: move_tree_def below_iff)

lemma none_below_moved: "none_below d b \<Longrightarrow> \<not> below a b \<Longrightarrow> \<not> below b a \<Longrightarrow> none_below (move_tree a b d) a"
  by (induction d) (auto simp: move_tree_def none_below_def below_iff append_eq_append_conv2 split: if_splits)

lemma tree_moved:
  assumes "none_below d b" "a \<noteq> []" "b \<noteq> []"
  shows "tree_at (move_tree a b d) b = tree_at d a"
  using assms by (auto simp: tree_at_def node_at_def map_of_move_in)

lemma trash_facts:
  assumes "dest \<noteq> []"
  shows "trash_of env w dest \<noteq> []" "\<not> below dest (trash_of env w dest)" "\<not> below (trash_of env w dest) dest"
    "butlast (trash_of env w dest) = butlast dest"
proof -
  have len: "length (trash_of env w dest) = length dest" using assms by (simp add: trash_of_def)
  have "last (trash_of env w dest) \<noteq> last dest"
    by (simp add: trash_of_def)
  hence "trash_of env w dest \<noteq> dest" by auto
  with len show "\<not> below dest (trash_of env w dest)" "\<not> below (trash_of env w dest) dest" by (auto simp: below_def)
qed (simp_all add: trash_of_def)


lemma sk_disk_cases:
  assumes "sk_disk env f w = (r, w')"
  obtains e where "r = Err e" "sw_disk w' = sw_disk w" | d where "r = Ok ()" "f (sw_disk w) = Ok d" "sw_disk w' = d"
  using assms by (auto simp: sk_disk_def Let_def split: option.splits sum.splits)

lemma rename_cases:
  assumes "rename_tree a b d = Ok d'" "none_below d b"
  shows "d' = move_tree a b d \<and> a \<noteq> [] \<and> b \<noteq> [] \<and> node_at d a \<noteq> None \<and> \<not> below a b"
proof -
  have "node_at d b = None" if "b \<noteq> []"
    using assms(2) that map_of_SomeD[of d b] by (cases "map_of d b") (auto simp: node_at_def none_below_def list_all_iff below_def)
  thus ?thesis using assms(1) by (auto simp: rename_tree_def split: if_splits)
qed

lemma comparable: "a @ r = b @ s \<Longrightarrow> below a b \<or> below b a"
  by (auto simp: below_iff append_eq_append_conv2)

lemma tree_kept:
  assumes "\<not> below a p" "\<not> below p a" "\<not> below b p" "\<not> below p b"
  shows "tree_at (move_tree a b d) p = tree_at d p"
proof
  fix r
  have "\<not> below a (p @ r)" "\<not> below b (p @ r)"
    using assms comparable by (metis below_iff)+
  thus "tree_at (move_tree a b d) p r = tree_at d p r" by (simp add: tree_at_def node_at_def map_of_move_out)
qed

lemma tree_removed:
  assumes "\<not> below a p" "\<not> below p a"
  shows "tree_at (remove_tree a d) p = tree_at d p"
proof
  fix r
  have "\<not> below a (p @ r)" using assms comparable by (metis below_iff)
  moreover have "\<not> below a q \<Longrightarrow> map_of (remove_tree a d) q = map_of d q" for q
    by (induction d) (auto simp: remove_tree_def)
  ultimately show "tree_at (remove_tree a d) p r = tree_at d p r" by (simp add: tree_at_def node_at_def)
qed

lemma remove_trash: "\<exists>w'. sk_remove_tree env p w = (Ok (), w') \<and> (sw_disk w' = sw_disk w \<or> sw_disk w' = remove_tree p (sw_disk w))"
  by (auto simp: sk_remove_tree_def sk_bind_def sk_attempt_def sk_ret_def sk_disk_def Let_def split: option.split)

text \<open>The outcomes of the swap once the skill that is there has been moved to the trash.\<close>

definition swapped :: "disk \<Rightarrow> loc \<Rightarrow> loc \<Rightarrow> loc \<Rightarrow> SyncError + unit \<Rightarrow> disk \<Rightarrow> bool" where
  "swapped d dest trash source r d' \<longleftrightarrow>
     (case r of
        Inl _ \<Rightarrow> tree_at d' dest = tree_at d dest \<or> tree_at d' trash = tree_at d dest
      | Inr _ \<Rightarrow> node_at d source \<noteq> None \<longrightarrow> \<not> below dest source \<longrightarrow> tree_at d' dest = tree_at d source)"

lemma beside_trash:
  assumes "dest \<noteq> []" "none_below d (trash_of env w dest)" "node_at d source \<noteq> None" "source \<noteq> []" "\<not> below source dest"
  shows "\<not> below (trash_of env w dest) source" "\<not> below source (trash_of env w dest)"
proof -
  obtain n where "map_of d source = Some n" using assms(3,4) by (auto simp: node_at_def)
  thus *: "\<not> below (trash_of env w dest) source"
    using assms(2) map_of_SomeD by (fastforce simp: none_below_def list_all_iff)
  show "\<not> below source (trash_of env w dest)"
  proof
    assume "below source (trash_of env w dest)"
    then obtain r where r: "trash_of env w dest = source @ r" by (auto simp: below_iff)
    show False
    proof (cases "r = []")
      case True thus False using * r by (simp add: below_def)
    next
      case False
      hence "butlast dest = source @ butlast r"
        using r trash_facts(4)[OF assms(1), of env w] by (simp add: butlast_append)
      hence "dest = source @ butlast r @ [last dest]" by (metis append.assoc append_butlast_last_id assms(1))
      thus False using assms(5) by (auto simp: below_iff)
    qed
  qed
qed

text \<open>The second rename, after the first has left nothing at the destination.\<close>

lemma swap_second_rename:
  assumes d1: "sw_disk w1 = move_tree dest trash d" and trash: "trash = trash_of env w dest"
    and dest: "dest \<noteq> []" and fresh: "none_below d trash"
    and run: "sk_bind (sk_attempt (sk_disk env (rename_tree source dest))) (\<lambda>r.
       case r of
         Inl e \<Rightarrow> sk_bind (sk_attempt (sk_disk env (rename_tree trash dest))) (\<lambda>_. sk_fail e)
       | Inr _ \<Rightarrow> sk_remove_tree env trash) w1 = (r, w')"
  shows "swapped d dest trash source r (sw_disk w')"
proof -
  note t = trash_facts[OF dest, of env w, folded trash]
  have gone: "none_below (sw_disk w1) dest"
    unfolding d1 using fresh t by (intro none_below_moved)
  have old: "tree_at (sw_disk w1) trash = tree_at d dest"
    unfolding d1 using fresh t dest by (intro tree_moved)
  obtain r2 w2 where m2: "sk_disk env (rename_tree source dest) w1 = (r2, w2)" by fastforce
  show ?thesis
  proof (cases r2)
    case (Inl e)
    obtain r3 w3 where m3: "sk_disk env (rename_tree trash dest) w2 = (r3, w3)" by fastforce
    have w2: "sw_disk w2 = sw_disk w1" using m2 Inl by (auto elim: sk_disk_cases)
    have "r = Err e" "w' = w3" using run m2 Inl m3 by (simp_all add: sk_bind_def sk_attempt_def sk_fail_def)
    moreover have "sw_disk w3 = sw_disk w1 \<or> sw_disk w3 = move_tree trash dest (sw_disk w1)"
      using m3 rename_cases[OF _ gone] by (auto simp: w2 elim!: sk_disk_cases)
    ultimately show ?thesis using old tree_moved[OF gone t(1) dest] by (auto simp: swapped_def)
  next
    case (Inr u)
    have d2: "sw_disk w2 = move_tree source dest (sw_disk w1)" and src: "source \<noteq> []" "\<not> below source dest"
      using m2 Inr rename_cases[OF _ gone] by (auto elim!: sk_disk_cases)
    obtain w3 where w3: "sk_remove_tree env trash w2 = (Ok (), w3)"
      "sw_disk w3 = sw_disk w2 \<or> sw_disk w3 = remove_tree trash (sw_disk w2)" using remove_trash by blast
    have r: "r = Ok ()" "w' = w3" using run m2 Inr w3(1) by (simp_all add: sk_bind_def sk_attempt_def)
    have "tree_at (sw_disk w') dest = tree_at (sw_disk w1) source"
      using w3(2) tree_removed[OF t(3,2)] tree_moved[OF gone src(1) dest] by (auto simp: r d2)
    moreover have "tree_at (sw_disk w1) source = tree_at d source" if "node_at d source \<noteq> None" "\<not> below dest source"
      unfolding d1 using that src beside_trash[OF dest fresh[unfolded trash] that(1) src] by (intro tree_kept) (simp_all add: trash)
    ultimately show ?thesis by (simp add: swapped_def r)
  qed
qed

lemma swap_existing_outcome:
  assumes run: "swap_existing env dest source w = (r, w')" and dest: "dest \<noteq> []"
    and fresh: "none_below (sw_disk w) (trash_of env w dest)"
  shows "swapped (sw_disk w) dest (trash_of env w dest) source r (sw_disk w')"
proof -
  obtain r1 w1 where m1: "sk_disk env (rename_tree dest (trash_of env w dest)) w = (r1, w1)" by fastforce
  show ?thesis
  proof (cases r1)
    case (Inl e)
    hence "sw_disk w' = sw_disk w" "r = Err e"
      using run m1 by (auto simp: swap_existing_def sk_bind_def sk_get_def elim!: sk_disk_cases)
    thus ?thesis by (simp add: swapped_def)
  next
    case (Inr u)
    have "sw_disk w1 = move_tree dest (trash_of env w dest) (sw_disk w)"
      using m1 Inr rename_cases[OF _ fresh] by (auto elim!: sk_disk_cases)
    from swap_second_rename[OF this refl dest fresh] show ?thesis
      using run m1 Inr by (simp add: swap_existing_def sk_bind_def[of "sk_get _"] sk_bind_def[of "sk_disk _ _"] sk_get_def)
  qed
qed

text \<open>
  C33. Replacing a skill is safe against failures. When the directory of a skill is there and the
  trash name is free, then whichever disk operations are refused and whatever the source is, a swap
  that fails leaves the complete old skill at its place or in the trash directory beside it, and a
  swap that succeeds leaves there exactly the tree of the source.
\<close>

theorem swap_never_loses_a_skill:
  assumes "parents_exist (sw_disk w)" "dest \<noteq> []" "node_at (sw_disk w) dest \<noteq> None"
    and "trash = trash_of env (w\<lparr>sw_ops := sw_ops w + 1\<rparr>) dest" "node_at (sw_disk w) trash = None"
    and "swap_into_place env dest source w = (r, w')"
  shows "swapped (sw_disk w) dest trash source r (sw_disk w')"
proof -
  obtain r1 w1 where m1: "sk_disk env (mkdirs (butlast dest)) w = (r1, w1)" by fastforce
  have ops: "sw_ops w1 = sw_ops w + 1"
    using m1 by (auto simp: sk_disk_def Let_def split: option.splits sum.splits)
  have disk: "sw_disk w1 = sw_disk w"
    using m1 mkdirs_existing[OF assms(1,2,3)] by (auto elim!: sk_disk_cases)
  have trash: "trash_of env w1 dest = trash" by (simp add: assms(4) trash_of_def ops)
  show ?thesis
  proof (cases r1)
    case (Inl e)
    thus ?thesis using assms(6) m1 disk by (auto simp: swap_into_place_def sk_bind_def swapped_def)
  next
    case (Inr u)
    hence "swap_existing env dest source w1 = (r, w')"
      using assms(3,6) m1 by (simp add: swap_into_place_def sk_bind_def sk_get_def disk)
    from swap_existing_outcome[OF this assms(2)] absent_none_below[OF assms(1,5)]
    show ?thesis by (simp add: disk trash)
  qed
qed


definition refusing_env :: SkillEnv where
  "refusing_env = sample_env\<lparr>se_faults := (\<lambda>n. if n = 2 then Some ''no space'' else None)\<rparr>"

theorem swap_never_loses_a_skill_witness:
  "let dest = [''w'', ''.agents'', ''skills'', ''pdf''];
       (r, w') = swap_into_place refusing_env dest [''w'', ''new''] sample_world in
   isl r \<and> tree_at (sw_disk w') dest [''SKILL.md''] = Some (FileNode ''Reads pdf'' False)"
proof -
  let ?dest = "[''w'', ''.agents'', ''skills'', ''pdf'']"
  let ?trash = "trash_of refusing_env (sample_world\<lparr>sw_ops := sw_ops sample_world + 1\<rparr>) ?dest"
  obtain r w' where run: "swap_into_place refusing_env ?dest [''w'', ''new''] sample_world = (r, w')" by fastforce
  have pre: "parents_exist (sw_disk sample_world)" "?dest \<noteq> []" "node_at (sw_disk sample_world) ?dest \<noteq> None"
    "node_at (sw_disk sample_world) ?trash = None" by code_simp+
  have err: "isl r"
  proof -
    have "isl (fst (swap_into_place refusing_env ?dest [''w'', ''new''] sample_world))" by code_simp
    thus ?thesis by (simp add: run)
  qed
  have "tree_at (sw_disk w') ?trash [''SKILL.md''] = None"
  proof -
    have "tree_at (sw_disk (snd (swap_into_place refusing_env ?dest [''w'', ''new''] sample_world))) ?trash [''SKILL.md''] = None"
      by code_simp
    thus ?thesis by (simp add: run)
  qed
  moreover have old: "tree_at (sw_disk sample_world) ?dest [''SKILL.md''] = Some (FileNode ''Reads pdf'' False)" by code_simp
  ultimately show ?thesis
    using swap_never_loses_a_skill[OF pre(1-3) refl pre(4) run] err
    by (cases r) (auto simp: run swapped_def)
qed

section \<open>Imports that go wrong\<close>

definition wrapped_env :: SkillEnv where
  "wrapped_env = sample_env\<lparr>se_ls_remote := (\<lambda>_ _. Ls_Exit True ''c0ffee HEAD'' []), se_get := (\<lambda>_. Ok []),
     se_tar := (\<lambda>_. Ok
       [Ok \<lparr>te_kind = Tar_File, te_path = ''r-c0ffee/SKILL.md'', te_size = Ok 4, te_bytes = ''new'', te_exec = False\<rparr>])\<rparr>"


definition zip_env :: "string \<Rightarrow> SkillEnv" where
  "zip_env text = sample_env\<lparr>se_zip := (\<lambda>_. Ok
     [Ok \<lparr>ze_name = ''SKILL.md'', ze_enclosed_name = Some [''SKILL.md''], ze_is_dir = False, ze_unix_mode = None,
        ze_size = 4, ze_bytes = text\<rparr>])\<rparr>"

text \<open>
  An archive whose \<open>SKILL.md\<close> is at its top and names no skill cannot be imported: the skill
  is named after the staging directory, which is moved aside and then cannot be moved to its own
  place. The same archive with a name in its front matter is installed.
\<close>

theorem unnamed_archive_not_installed:
  "let (r, w) = import_zip (zip_env ''no front matter'') sample_home Workspace [] sample_world in
     r = Err (IoError ''no such file or directory'') \<and> sw_disk w = sw_disk sample_world \<and> sw_db w = sw_db sample_world"
  "let (r, w) = import_zip (zip_env (''---'' @ [newline] @ ''name: xls'')) sample_home Workspace [] sample_world in
     \<not> isl r \<and> is_file_at (sw_disk w) [''w'', ''.agents'', ''skills'', ''xls'', ''SKILL.md'']"
  by code_simp+

end
