(* ===== verification/Sync_Projection.thy ===== *)
theory Sync_Projection
  imports Sync_Registry
begin

text \<open>
  Projection of registry entries into the configuration files of other tools:
  \<^verbatim>\<open>projection.rs\<close>, \<^verbatim>\<open>manifest.rs\<close>, \<^verbatim>\<open>atomic.rs\<close> and the conflict marking and application of
  \<^verbatim>\<open>import.rs\<close> in \<^verbatim>\<open>crates/tethys-sync/src\<close>. A projector is its target and its two file
  functions (they rest on the JSON and TOML editing crates), the digests are functions of bytes
  and of entries, and the disk is a map from paths to contents with one backup directory per
  encoded path; symbolic links and file modes are left out. \<open>IoFaults\<close> says which disk operation
  fails, so that every early return is a branch.
\<close>

section \<open>Data\<close>

record Projector =
  pj_target :: TargetId
  pj_inject :: "string \<Rightarrow> string \<Rightarrow> RegistryEntry \<Rightarrow> SyncError + string"
  pj_read_entries :: "string \<Rightarrow> SyncError + (string, RegistryEntry) btree"

record Digests =
  file_digest :: "string \<Rightarrow> string"
  entry_digest :: "RegistryEntry \<Rightarrow> string"
  unified_diff :: "string \<Rightarrow> string \<Rightarrow> string"

record PlanRequest =
  pr_projector :: Projector
  pr_path :: string
  pr_scope :: Scope
  pr_original :: "string option"
  pr_desired :: "(string \<times> RegistryEntry) list"
  pr_owned :: "(string, string) btree"

section \<open>Planning\<close>

definition has_secret_env :: "RegistryEntry \<Rightarrow> bool" where
  "has_secret_env entry \<longleftrightarrow> list_ex (\<lambda>kv. secret_ref (snd kv) \<noteq> None) (re_env entry)"

text \<open>The \<open>match\<close> on ownership and the file's entry.\<close>

definition ownership_state ::
  "Digests \<Rightarrow> RegistryEntry \<Rightarrow> string option \<Rightarrow> RegistryEntry option \<Rightarrow> EntryState \<times> string list" where
  "ownership_state d entry owned current =
     (case (owned, current) of
        (Some owned_hash, Some cur) \<Rightarrow>
          if entry_digest d cur \<noteq> owned_hash then (Conflict, [''entry changed outside Tethys''])
          else if entry_digest d entry = owned_hash then (InSync, [])
          else (Pending, [])
      | (Some _, None) \<Rightarrow> (Pending, [])
      | (None, Some _) \<Rightarrow> (Conflict, [''foreign entry with the same name''])
      | (None, None) \<Rightarrow> (Pending, []))"

definition entry_plan ::
  "Digests \<Rightarrow> TargetId \<Rightarrow> (string, string) btree \<Rightarrow> (string, RegistryEntry) btree
    \<Rightarrow> string \<times> RegistryEntry \<Rightarrow> EntryProjection" where
  "entry_plan d target owned on_disk ne =
     (case ne of (name, entry) \<Rightarrow>
      if re_transport entry = Sse
      then \<lparr>ep_name = name, ep_state = Unsupported, ep_projected = False,
            ep_notes = [''sse transport is import-only'']\<rparr>
      else
        (case ownership_state d entry (map_of owned name) (map_of on_disk name) of (s, notes) \<Rightarrow>
           let codex = target = T_Codex \<and> re_transport entry = Stdio \<and> has_secret_env entry;
               state = (if codex then Unsupported else s);
               notes' = (if codex then notes @ [''secret env values are omitted for codex stdio'']
                         else notes)
           in \<lparr>ep_name = name, ep_state = state, ep_projected = (state \<noteq> Conflict),
               ep_notes = notes'\<rparr>))"

definition injects :: "EntryProjection \<Rightarrow> bool" where
  "injects ep \<longleftrightarrow> ep_projected ep \<and> ep_state ep \<noteq> InSync"

fun project_entries ::
  "Digests \<Rightarrow> Projector \<Rightarrow> (string, string) btree \<Rightarrow> (string, RegistryEntry) btree
    \<Rightarrow> (string \<times> RegistryEntry) list \<Rightarrow> string \<Rightarrow> SyncError + (string \<times> EntryProjection list)" where
  "project_entries d pj owned on_disk [] content = Ok (content, [])"
| "project_entries d pj owned on_disk ((name, entry) # desired) content =
     (let ep = entry_plan d (pj_target pj) owned on_disk (name, entry) in
      case (if injects ep then pj_inject pj content name entry else Ok content) of
        Inl e \<Rightarrow> Err e
      | Inr content' \<Rightarrow>
          (case project_entries d pj owned on_disk desired content' of
             Inl e \<Rightarrow> Err e
           | Inr (final, eps) \<Rightarrow> Ok (final, ep # eps)))"

definition original_text :: "PlanRequest \<Rightarrow> string" where
  "original_text r = (case pr_original r of None \<Rightarrow> [] | Some t \<Rightarrow> t)"

definition plan_projection :: "Digests \<Rightarrow> PlanRequest \<Rightarrow> SyncError + ProjectionPlan" where
  "plan_projection d r =
     (let original = original_text r; created = blank original; pj = pr_projector r in
      case (if created then Ok [] else pj_read_entries pj original) of
        Inl e \<Rightarrow> Err e
      | Inr on_disk \<Rightarrow>
          (case project_entries d pj (pr_owned r) on_disk (pr_desired r) original of
             Inl e \<Rightarrow> Err e
           | Inr (content, eps) \<Rightarrow>
               Ok \<lparr>pp_target = pj_target pj, pp_path = pr_path r, pp_scope = pr_scope r,
                   pp_base_hash = file_digest d original, pp_created = created,
                   pp_diff = unified_diff d original content, pp_content = content,
                   pp_entries = eps, pp_providers = []\<rparr>))"

section \<open>The disk\<close>

record SyncFs =
  sf_files :: "string \<rightharpoonup> string"
  sf_backups :: "string \<Rightarrow> (string, string) btree"

record IoFaults =
  fault_read :: "SyncError option"
  fault_backup :: "SyncError option"
  fault_write :: "SyncError option"

definition no_faults :: IoFaults where
  "no_faults = \<lparr>fault_read = None, fault_backup = None, fault_write = None\<rparr>"

definition BACKUP_RETENTION :: nat where "BACKUP_RETENTION = 5"

text \<open>\<open>hash\<close> is the hexadecimal digest of the path.\<close>

definition encode_path :: "(string \<Rightarrow> string) \<Rightarrow> string \<Rightarrow> string" where
  "encode_path hash path =
     map (\<lambda>c. if alphanumeric c \<or> c = CHR ''-'' \<or> c = CHR ''_'' then c else CHR ''-'') path
     @ CHR ''-'' # take 8 (hash path)"

fun prune_backups :: "(string, string) btree \<Rightarrow> (string, string) btree" where
  "prune_backups [] = []"
| "prune_backups (b # bs) =
     (if length (b # bs) > BACKUP_RETENTION then prune_backups bs else b # bs)"

definition backup_name :: "nat \<Rightarrow> string" where
  "backup_name timestamp = show_nat timestamp @ ''.bak''"

definition backup_file :: "(string \<Rightarrow> string) \<Rightarrow> nat \<Rightarrow> string \<Rightarrow> SyncFs \<Rightarrow> SyncFs" where
  "backup_file hash timestamp path fs =
     (case sf_files fs path of
        None \<Rightarrow> fs
      | Some contents \<Rightarrow>
          let dir = encode_path hash path in
          fs\<lparr>sf_backups := (sf_backups fs)(dir :=
               prune_backups (bt_insert (backup_name timestamp) contents (sf_backups fs dir)))\<rparr>)"

definition newest_backup :: "(string \<Rightarrow> string) \<Rightarrow> string \<Rightarrow> SyncFs \<Rightarrow> string option" where
  "newest_backup hash path fs =
     (case rev (sf_backups fs (encode_path hash path)) of [] \<Rightarrow> None | b # _ \<Rightarrow> Some (snd b))"

definition write_atomic :: "string \<Rightarrow> string \<Rightarrow> SyncFs \<Rightarrow> SyncFs" where
  "write_atomic path contents fs = fs\<lparr>sf_files := (sf_files fs)(path \<mapsto> contents)\<rparr>"

definition read_text :: "IoFaults \<Rightarrow> string \<Rightarrow> SyncFs \<Rightarrow> SyncError + string option" where
  "read_text io path fs = (case fault_read io of Some e \<Rightarrow> Err e | None \<Rightarrow> Ok (sf_files fs path))"

section \<open>Apply, verify, roll back\<close>

definition applied_entries ::
  "Digests \<Rightarrow> (string, RegistryEntry) btree \<Rightarrow> EntryProjection list \<Rightarrow> (string, string) btree" where
  "applied_entries d read_back eps =
     bt_of_list (List.map_filter (\<lambda>ep. map_option (\<lambda>w. (ep_name ep, entry_digest d w))
       (map_of read_back (ep_name ep))) (filter ep_projected eps))"

definition apply_plan ::
  "Digests \<Rightarrow> (string \<Rightarrow> string) \<Rightarrow> IoFaults \<Rightarrow> nat \<Rightarrow> Projector \<Rightarrow> ProjectionPlan \<Rightarrow> SyncFs
    \<Rightarrow> (SyncError + Applied) \<times> SyncFs" where
  "apply_plan d hash io timestamp pj p fs =
     (let path = pp_path p in
      case read_text io path fs of
        Inl e \<Rightarrow> (Err e, fs)
      | Inr current \<Rightarrow>
          if file_digest d (case current of None \<Rightarrow> [] | Some t \<Rightarrow> t) \<noteq> pp_base_hash p
          then (Err (StalePlan path), fs)
          else
            (let conflicts = map ep_name (filter (\<lambda>ep. ep_state ep = Conflict) (pp_entries p)) in
             if conflicts \<noteq> []
             then (Err (ConflictError (''entries changed outside Tethys: '' @ join_comma conflicts)), fs)
             else case (if sf_files fs path \<noteq> None then fault_backup io else None) of
               Some e \<Rightarrow> (Err e, fs)
             | None \<Rightarrow>
                 (let fs1 = backup_file hash timestamp path fs in
                  case fault_write io of
                    Some e \<Rightarrow> (Err e, fs1)
                  | None \<Rightarrow>
                      (let fs2 = write_atomic path (pp_content p) fs1 in
                       case pj_read_entries pj (pp_content p) of
                         Inl e \<Rightarrow> (Err e, fs2)
                       | Inr read_back \<Rightarrow>
                           (Ok \<lparr>ap_target = pp_target p, ap_path = path, ap_scope = pp_scope p,
                               ap_file_hash = file_digest d (pp_content p), ap_created = pp_created p,
                               ap_entries = applied_entries d read_back (pp_entries p)\<rparr>, fs2)))))"

definition verify :: "Digests \<Rightarrow> IoFaults \<Rightarrow> string \<Rightarrow> Applied \<Rightarrow> SyncFs \<Rightarrow> SyncError + VerifyStatus" where
  "verify d io path a fs =
     (case read_text io path fs of
        Inl e \<Rightarrow> Err e
      | Inr None \<Rightarrow> Ok VS_Missing
      | Inr (Some text) \<Rightarrow> if file_digest d text = ap_file_hash a then Ok VS_InSync else Ok VS_Drifted)"

definition rollback ::
  "Digests \<Rightarrow> (string \<Rightarrow> string) \<Rightarrow> IoFaults \<Rightarrow> bool \<Rightarrow> Applied \<Rightarrow> SyncFs \<Rightarrow> (SyncError + unit) \<times> SyncFs" where
  "rollback d hash io force a fs =
     (let path = ap_path a in
      case read_text io path fs of
        Inl e \<Rightarrow> (Err e, fs)
      | Inr None \<Rightarrow> (Err (NotFoundError path), fs)
      | Inr (Some current) \<Rightarrow>
          if file_digest d current \<noteq> ap_file_hash a \<and> \<not> force
          then (Err (ConflictError ''file changed after the projection was applied''), fs)
          else if ap_created a
          then (case fault_write io of Some e \<Rightarrow> (Err e, fs)
                | None \<Rightarrow> (Ok (), fs\<lparr>sf_files := (sf_files fs)(path := None)\<rparr>))
          else (case newest_backup hash path fs of
                  None \<Rightarrow> (Err (NotFoundError (''backup for '' @ path)), fs)
                | Some contents \<Rightarrow>
                    (case fault_write io of Some e \<Rightarrow> (Err e, fs)
                     | None \<Rightarrow> (Ok (), write_atomic path contents fs))))"

section \<open>Manifest rows\<close>

record ProjectionRow =
  prow_target :: string
  prow_path :: string
  prow_scope :: string
  prow_file_hash :: string
  prow_created :: bool
  prow_updated_at :: int
  prow_entries :: string

text \<open>\<open>to_json\<close> and \<open>from_json\<close> are serde's functions on the entry map.\<close>

definition applied_to_row ::
  "((string, string) btree \<Rightarrow> SyncError + string) \<Rightarrow> Applied \<Rightarrow> int \<Rightarrow> SyncError + ProjectionRow" where
  "applied_to_row to_json a updated_at =
     (case to_json (ap_entries a) of
        Inl e \<Rightarrow> Err e
      | Inr text \<Rightarrow>
          Ok \<lparr>prow_target = target_as_str (ap_target a), prow_path = ap_path a,
              prow_scope = scope_as_str (ap_scope a), prow_file_hash = ap_file_hash a,
              prow_created = ap_created a, prow_updated_at = updated_at, prow_entries = text\<rparr>)"

definition applied_from_row ::
  "(string \<Rightarrow> SyncError + (string, string) btree) \<Rightarrow> ProjectionRow \<Rightarrow> SyncError + Applied" where
  "applied_from_row from_json row =
     (case target_parse (prow_target row) of
        None \<Rightarrow> Err (RegistryError (''unknown target '' @ prow_target row))
      | Some target \<Rightarrow>
          (case scope_parse (prow_scope row) of
             None \<Rightarrow> Err (RegistryError (''unknown scope '' @ prow_scope row))
           | Some scope \<Rightarrow>
               (case from_json (prow_entries row) of
                  Inl e \<Rightarrow> Err e
                | Inr entries \<Rightarrow>
                    Ok \<lparr>ap_target = target, ap_path = prow_path row, ap_scope = scope,
                        ap_file_hash = prow_file_hash row, ap_created = prow_created row,
                        ap_entries = entries\<rparr>)))"

section \<open>Import\<close>

text \<open>\<open>ser\<close> is the JSON text of an entry.\<close>

definition mark_conflicts ::
  "(RegistryEntry \<Rightarrow> string) \<Rightarrow> ImportCandidate list \<Rightarrow> ImportCandidate list" where
  "mark_conflicts ser candidates =
     map (\<lambda>c. c\<lparr>ic_conflict :=
       1 < length (remdups (map (ser \<circ> ic_entry) (filter (\<lambda>x. ic_name x = ic_name c) candidates)))\<rparr>)
     candidates"

fun import_entries ::
  "Scope \<Rightarrow> ImportCandidate list \<Rightarrow> (string, RegistryEntry) btree \<Rightarrow> (string, RegistryEntry) btree" where
  "import_entries scope [] servers = servers"
| "import_entries scope (c # selection) servers =
     import_entries scope selection (bt_insert (ic_name c)
       ((ic_entry c)\<lparr>re_meta := (re_meta (ic_entry c))\<lparr>em_scope := Some scope, em_enabled := True\<rparr>\<rparr>) servers)"

definition apply_import ::
  "reader \<Rightarrow> registry_parser \<Rightarrow> string \<Rightarrow> ImportCandidate list \<Rightarrow> Scope
    \<Rightarrow> SyncError + (RegistryFile \<times> string list)" where
  "apply_import fs from_str path selection scope =
     (case read_registry fs from_str path of
        Inl e \<Rightarrow> Err e
      | Inr file \<Rightarrow>
          (let f = (case file of None \<Rightarrow> registry_default | Some f \<Rightarrow> f) in
           Ok (f\<lparr>rf_version := REGISTRY_VERSION,
                 rf_servers := import_entries scope selection (rf_servers f)\<rparr>,
               map ic_name selection)))"

section \<open>Properties\<close>

definition codex_secret :: "TargetId \<Rightarrow> RegistryEntry \<Rightarrow> bool" where
  "codex_secret target entry \<longleftrightarrow>
     target = T_Codex \<and> re_transport entry = Stdio \<and> has_secret_env entry"

lemma project_entries_states:
  "project_entries d pj owned on_disk desired content = Ok (final, eps)
    \<Longrightarrow> eps = map (entry_plan d (pj_target pj) owned on_disk) desired"
  by (induction d pj owned on_disk desired content arbitrary: final eps rule: project_entries.induct)
     (auto simp: Let_def split: sum.splits if_splits)

lemma plan_entries:
  assumes "plan_projection d r = Ok p"
  shows "\<exists>on_disk. (if blank (original_text r) then on_disk = []
       else pj_read_entries (pr_projector r) (original_text r) = Ok on_disk)
    \<and> pp_entries p = map (entry_plan d (pj_target (pr_projector r)) (pr_owned r) on_disk) (pr_desired r)
    \<and> pp_created p = blank (original_text r) \<and> pp_base_hash p = file_digest d (original_text r)
    \<and> pp_path p = pr_path r"
  using assms
  by (auto simp: plan_projection_def Let_def dest: project_entries_states split: sum.splits if_splits)

lemma apply_plan_conflict:
  assumes "ep \<in> set (pp_entries p)" "ep_state ep = Conflict"
  shows "\<exists>e. apply_plan d hash io ts pj p fs = (Err e, fs)"
proof -
  have "filter (\<lambda>ep. ep_state ep = Conflict) (pp_entries p) \<noteq> []"
    using assms by (auto simp: filter_empty_conv)
  then show ?thesis by (auto simp: apply_plan_def Let_def split: sum.splits)
qed


subsection \<open>Backups\<close>

lemma prune_backups_eq: "prune_backups m = drop (length m - BACKUP_RETENTION) m"
  by (induction m) (auto simp: Suc_diff_le not_le)

lemma bt_insert_last:
  "(\<And>k. k \<in> fst ` set m \<Longrightarrow> k < name) \<Longrightarrow> bt_insert name c m = m @ [(name, c)]"
proof (induction m)
  case (Cons kv m)
  then have "fst kv < name" by simp
  with Cons show ?case by (cases kv) (auto simp: not_less_iff_gr_or_eq)
qed simp

lemma newest_after_backup:
  assumes "sf_files fs path = Some contents"
    "\<And>k. k \<in> fst ` set (sf_backups fs (encode_path hash path)) \<Longrightarrow> k < backup_name ts"
  shows "newest_backup hash path (backup_file hash ts path fs) = Some contents"
  using assms(1)
  by (simp add: newest_backup_def backup_file_def Let_def prune_backups_eq bt_insert_last[OF assms(2)]
      BACKUP_RETENTION_def drop_append)

lemma backup_files [simp]: "sf_files (backup_file hash ts path fs) = sf_files fs"
  by (simp add: backup_file_def Let_def split: option.split)

lemma write_atomic_simps [simp]:
  "sf_files (write_atomic path c fs) = (sf_files fs)(path \<mapsto> c)"
  "newest_backup hash q (write_atomic path c fs) = newest_backup hash q fs"
  by (simp_all add: write_atomic_def newest_backup_def)

lemma apply_plan_ok:
  assumes "apply_plan d hash io ts pj p fs = (Ok a, fs')"
  shows "file_digest d (case sf_files fs (pp_path p) of None \<Rightarrow> [] | Some t \<Rightarrow> t) = pp_base_hash p"
    "fs' = write_atomic (pp_path p) (pp_content p) (backup_file hash ts (pp_path p) fs)"
    "ap_path a = pp_path p" "ap_file_hash a = file_digest d (pp_content p)" "ap_created a = pp_created p"
  using assms
  by (auto simp: apply_plan_def Let_def read_text_def split: sum.splits option.splits if_splits)

text \<open>
  \<^emph>\<open>Rolling back restores the file.\<close> After a plan for a text has been applied, verification
  reports the file in sync, and rolling back (with or without force) gives back exactly the
  planned-for text, or removes the file when that text was absent or blank; no other file
  changes. (The digest is injective, and backup names grow.)
\<close>

theorem apply_rollback_roundtrip:
  assumes "plan_projection d r = Ok p" "apply_plan d hash io ts pj p fs = (Ok a, fs')"
    "inj (file_digest d)"
    "\<And>k. k \<in> fst ` set (sf_backups fs (encode_path hash (pr_path r))) \<Longrightarrow> k < backup_name ts"
  shows "verify d no_faults (pr_path r) a fs' = Ok VS_InSync
    \<and> (\<exists>fs''. rollback d hash no_faults force a fs' = (Ok (), fs'')
         \<and> sf_files fs'' = (sf_files fs)(pr_path r :=
             (if blank (original_text r) then None else Some (original_text r))))"
proof -
  have p: "pp_path p = pr_path r" "pp_created p = blank (original_text r)"
    "pp_base_hash p = file_digest d (original_text r)"
    using plan_entries[OF assms(1)] by auto
  note ok = apply_plan_ok[OF assms(2), unfolded p]
  have cur: "(case sf_files fs (pr_path r) of None \<Rightarrow> [] | Some t \<Rightarrow> t) = original_text r"
    using ok(1) assms(3) by (simp add: inj_eq)
  have written: "sf_files fs' (pr_path r) = Some (pp_content p)" using ok(2) by simp
  have "verify d no_faults (pr_path r) a fs' = Ok VS_InSync"
    using written ok(4) by (simp add: verify_def read_text_def no_faults_def)
  moreover have "\<exists>fs''. rollback d hash no_faults force a fs' = (Ok (), fs'')
         \<and> sf_files fs'' = (sf_files fs)(pr_path r :=
             (if blank (original_text r) then None else Some (original_text r)))"
  proof (cases "blank (original_text r)")
    case True
    then show ?thesis
      using written ok by (auto simp: rollback_def Let_def read_text_def no_faults_def)
  next
    case False
    then have "sf_files fs (pr_path r) = Some (original_text r)"
      using cur by (cases "sf_files fs (pr_path r)") (auto simp: blank_def)
    from newest_after_backup[OF this assms(4)] False show ?thesis
      using written ok by (auto simp: rollback_def Let_def read_text_def no_faults_def)
  qed
  ultimately show ?thesis by blast
qed

text \<open>
  \<^emph>\<open>Applying is atomic and guarded.\<close> Whichever disk operation fails, no other file changes
  and the target file holds either its previous content or the planned content; it changes
  only if its bytes are still the ones the plan was made for and no entry is in conflict, and
  a backup directory never grows beyond five entries (or its previous size).
\<close>

theorem apply_atomic_and_guarded:
  assumes "apply_plan d hash io ts pj p fs = (res, fs')"
  shows "(\<forall>q. q \<noteq> pp_path p \<longrightarrow> sf_files fs' q = sf_files fs q)
    \<and> (sf_files fs' (pp_path p) = sf_files fs (pp_path p)
       \<or> sf_files fs' (pp_path p) = Some (pp_content p)
         \<and> file_digest d (case sf_files fs (pp_path p) of None \<Rightarrow> [] | Some t \<Rightarrow> t) = pp_base_hash p
         \<and> (\<forall>ep \<in> set (pp_entries p). ep_state ep \<noteq> Conflict) \<and> fault_write io = None)
    \<and> (\<forall>dir. length (sf_backups fs' dir) \<le> max BACKUP_RETENTION (length (sf_backups fs dir)))"
proof -
  have len: "length (sf_backups (backup_file hash ts q fs) dir) \<le> max BACKUP_RETENTION (length (sf_backups fs dir))"
    for q dir
    by (auto simp: backup_file_def Let_def prune_backups_eq BACKUP_RETENTION_def split: option.split)
  have wr: "sf_backups (write_atomic q c fs1) = sf_backups fs1" for q c fs1
    by (simp add: write_atomic_def)
  show ?thesis
    using assms len
    by (auto simp: apply_plan_def Let_def read_text_def wr filter_empty_conv
             split: sum.splits option.splits if_splits)
qed

lemma manifest_row_roundtrip:
  assumes "\<And>m t. to_json m = Ok t \<Longrightarrow> from_json t = Ok m" "applied_to_row to_json a now = Ok row"
  shows "applied_from_row from_json row = Ok a"
proof -
  have "target_parse (target_as_str t) = Some t" for t by (cases t) (simp_all add: target_parse_def)
  moreover have "scope_parse (scope_as_str s) = Some s" for s by (cases s) (simp_all add: scope_parse_def)
  ultimately show ?thesis
    using assms by (auto simp: applied_to_row_def applied_from_row_def split: sum.splits)
qed


subsection \<open>Witnesses\<close>

text \<open>
  A projector for a file whose text is the list of its entry names, one per line; enough to
  satisfy the hypotheses. The digests are identities where they have to be injective.
\<close>

definition ex_entry :: RegistryEntry where
  "ex_entry = \<lparr>re_transport = Stdio, re_command = Some ''c'', re_args = [],
     re_env = [(''K'', Secret ''keychain:tethys/k'')], re_url = None, re_headers = [],
     re_meta = default_meta\<rparr>"

definition ex_projector :: "TargetId \<Rightarrow> Projector" where
  "ex_projector target = \<lparr>pj_target = target,
     pj_inject = (\<lambda>text name entry. Ok (text @ name @ [newline])),
     pj_read_entries = (\<lambda>text. Ok (bt_of_list (map (\<lambda>l. (butlast l, ex_entry)) (split_inclusive newline text))))\<rparr>"

definition ex_digests :: Digests where
  "ex_digests = \<lparr>file_digest = id, entry_digest = (\<lambda>e. ''d''), unified_diff = (\<lambda>a b. [])\<rparr>"

definition ex_request :: "TargetId \<Rightarrow> PlanRequest" where
  "ex_request target = \<lparr>pr_projector = ex_projector target, pr_path = ''f'', pr_scope = Global,
     pr_original = Some (''a'' @ [newline]), pr_desired = [(''a'', ex_entry)], pr_owned = []\<rparr>"

definition ex_request_new :: PlanRequest where
  "ex_request_new = (ex_request T_ClaudeCode)\<lparr>pr_desired := [(''b'', ex_entry)]\<rparr>"

definition ex_fs :: SyncFs where
  "ex_fs = \<lparr>sf_files = [''f'' \<mapsto> ''a'' @ [newline]], sf_backups = (\<lambda>_. [])\<rparr>"

lemmas ex_projection_defs = ex_request_def ex_request_new_def ex_projector_def ex_digests_def
  ex_entry_def ex_fs_def plan_projection_def original_text_def blank_def is_space_def
  entry_plan_def ownership_state_def injects_def has_secret_env_def bt_of_list_def Let_def


definition ex_plan :: ProjectionPlan where
  "ex_plan = projr (plan_projection ex_digests ex_request_new)"

lemma ex_plan_ok: "plan_projection ex_digests ex_request_new = Ok ex_plan"
  by (simp add: ex_plan_def ex_projection_defs)

lemma ex_applied:
  "\<exists>a fs'. apply_plan ex_digests id no_faults 7 (ex_projector T_ClaudeCode) ex_plan ex_fs = (Ok a, fs')
     \<and> sf_files fs' ''f'' = Some (''a'' @ [newline] @ ''b'' @ [newline])"
  by (simp add: ex_plan_def ex_projection_defs apply_plan_def read_text_def no_faults_def)

theorem apply_rollback_roundtrip_witness:
  "\<exists>a fs' fs''. apply_plan ex_digests id no_faults 7 (ex_projector T_ClaudeCode) ex_plan ex_fs = (Ok a, fs')
     \<and> rollback ex_digests id no_faults False a fs' = (Ok (), fs'')
     \<and> sf_files fs'' ''f'' = Some (''a'' @ [newline])"
proof -
  obtain a fs' where a: "apply_plan ex_digests id no_faults 7 (ex_projector T_ClaudeCode) ex_plan ex_fs = (Ok a, fs')"
    using ex_applied by blast
  have "inj (file_digest ex_digests)" by (simp add: ex_digests_def)
  moreover have "k < backup_name 7" if "k \<in> fst ` set (sf_backups ex_fs (encode_path id (pr_path ex_request_new)))" for k
    using that by (simp add: ex_fs_def)
  ultimately have "\<exists>fs''. rollback ex_digests id no_faults False a fs' = (Ok (), fs'')
     \<and> sf_files fs'' = (sf_files ex_fs)(pr_path ex_request_new :=
         (if blank (original_text ex_request_new) then None else Some (original_text ex_request_new)))"
    using apply_rollback_roundtrip[OF ex_plan_ok a] by blast
  moreover have "pr_path ex_request_new = ''f''" "original_text ex_request_new = ''a'' @ [newline]"
    "\<not> blank (''a'' @ [newline])"
    by (simp_all add: ex_projection_defs)
  ultimately show ?thesis using a by auto
qed

theorem apply_atomic_and_guarded_witness:
  "\<exists>res fs'. apply_plan ex_digests id (no_faults\<lparr>fault_write := Some (IoError ''full'')\<rparr>) 7
       (ex_projector T_ClaudeCode) ex_plan ex_fs = (res, fs')
     \<and> sf_files fs' ''f'' = sf_files ex_fs ''f''"
proof -
  let ?io = "no_faults\<lparr>fault_write := Some (IoError ''full'')\<rparr>"
  obtain res fs' where a: "apply_plan ex_digests id ?io 7 (ex_projector T_ClaudeCode) ex_plan ex_fs = (res, fs')"
    by fastforce
  moreover have "pp_path ex_plan = ''f''" by (simp add: ex_plan_def ex_projection_defs)
  ultimately show ?thesis
    using apply_atomic_and_guarded[OF a] by auto
qed

end
