(* ===== verification/Projectors.thy ===== *)
theory Projectors
  imports Sync_Projection
begin

text \<open>
  \<^verbatim>\<open>crates/tethys-sync/src/projectors\<close> and \<^verbatim>\<open>format\<close>: how registry entries are written into and read
  back from the configuration of Claude Code, OpenCode and Codex. A JSON or TOML document is the
  tree of its values; \<open>DocFormat\<close> holds the parsers and the format-preserving printers of the editing
  crates, where \<open>render source tree\<close> is the text of \<open>source\<close> after its tree was changed to \<open>tree\<close>.
\<close>

section \<open>Documents\<close>

datatype Json =
  J_Null
| J_Bool bool
| J_Number string
| J_String string
| J_Array "Json list"
| J_Object "(string \<times> Json) list"

text \<open>\<open>T_Other\<close> stands for numbers, dates, inline tables and arrays of tables.\<close>

datatype Toml =
  T_Str string
| T_Array "Toml list"
| T_Table "(string \<times> Toml) list"
| T_Other string

record DocFormat =
  df_json_parse :: "bool \<Rightarrow> string \<Rightarrow> string + Json"
  df_json_render :: "string \<Rightarrow> Json \<Rightarrow> string"
  df_toml_parse :: "string \<Rightarrow> string + (string \<times> Toml) list"
  df_toml_render :: "string \<Rightarrow> (string \<times> Toml) list \<Rightarrow> string"

text \<open>Properties of an object or a table: the first one of a name counts.\<close>

fun obj_set :: "string \<Rightarrow> 'a \<Rightarrow> (string \<times> 'a) list \<Rightarrow> (string \<times> 'a) list" where
  "obj_set name v [] = [(name, v)]"
| "obj_set name v ((k, w) # fs) = (if k = name then (k, v) # fs else (k, w) # obj_set name v fs)"

fun obj_remove :: "string \<Rightarrow> (string \<times> 'a) list \<Rightarrow> (string \<times> 'a) list" where
  "obj_remove name [] = []"
| "obj_remove name ((k, w) # fs) = (if k = name then fs else (k, w) # obj_remove name fs)"

fun as_object :: "Json \<Rightarrow> (string \<times> Json) list option" where
  "as_object (J_Object fs) = Some fs"
| "as_object _ = None"

fun as_string :: "Json \<Rightarrow> string option" where
  "as_string (J_String s) = Some s"
| "as_string _ = None"

fun as_array :: "Json \<Rightarrow> Json list option" where
  "as_array (J_Array xs) = Some xs"
| "as_array _ = None"

text \<open>A \<open>serde_json\<close> map keeps the last value of a key.\<close>

definition serde_get :: "(string \<times> Json) list \<Rightarrow> string \<Rightarrow> Json option" where
  "serde_get m k = map_of (rev m) k"

definition object_value :: "(string \<times> Json) list \<Rightarrow> string \<Rightarrow> (string \<times> Json) list option" where
  "object_value fs name = Option.bind (map_of fs name) as_object"

definition object_or_set :: "(string \<times> Json) list \<Rightarrow> string \<Rightarrow> (string \<times> Json) list" where
  "object_or_set fs name = (case object_value fs name of Some os \<Rightarrow> os | None \<Rightarrow> [])"

definition root_object :: "Json \<Rightarrow> SyncError + (string \<times> Json) list" where
  "root_object root = (case as_object root of Some fs \<Rightarrow> Ok fs | None \<Rightarrow> Err (RegistryError ''root must be a JSON object''))"

definition json_parse :: "DocFormat \<Rightarrow> bool \<Rightarrow> string \<Rightarrow> SyncError + Json" where
  "json_parse fmt loose t = (case df_json_parse fmt loose t of Inl m \<Rightarrow> Err (ParseError [] m) | Inr d \<Rightarrow> Ok d)"

definition toml_parse :: "DocFormat \<Rightarrow> string \<Rightarrow> SyncError + (string \<times> Toml) list" where
  "toml_parse fmt t = (case df_toml_parse fmt t of Inl m \<Rightarrow> Err (ParseError [] m) | Inr d \<Rightarrow> Ok d)"

section \<open>Values\<close>

definition claude_ref :: "string \<Rightarrow> RegistryValue \<Rightarrow> string" where
  "claude_ref key v = (case v of Plain t \<Rightarrow> t | Secret _ \<Rightarrow> ''${'' @ key @ ''}'')"

definition opencode_ref :: "string \<Rightarrow> RegistryValue \<Rightarrow> string" where
  "opencode_ref key v = (case v of Plain t \<Rightarrow> t | Secret _ \<Rightarrow> ''{env:'' @ key @ ''}'')"

definition secret_env_key :: "RegistryEntry \<Rightarrow> string option" where
  "secret_env_key entry = map_option fst (find (\<lambda>kv. secret_ref (snd kv) \<noteq> None) (re_env entry))"

fun until_sub :: "string \<Rightarrow> string \<Rightarrow> string" where
  "until_sub sep [] = []"
| "until_sub sep (c # s) = (if starts_with sep (c # s) then [] else c # until_sub sep s)"

definition braced :: "string \<Rightarrow> string \<Rightarrow> string option" where
  "braced opening t = Option.bind (strip_prefix opening t) (strip_suffix ''}'')"

definition import_value :: "string \<Rightarrow> RegistryValue" where
  "import_value t =
     (case braced ''${'' t of
        Some inner \<Rightarrow> Secret (''keychain:tethys/'' @ until_sub '':-'' inner)
      | None \<Rightarrow>
          (case braced ''{env:'' t of
             Some inner \<Rightarrow> Secret (''keychain:tethys/'' @ inner)
           | None \<Rightarrow> Plain t))"

definition infer_transport :: "string option \<Rightarrow> bool \<Rightarrow> bool \<Rightarrow> TransportKind" where
  "infer_transport explicit has_url has_command =
     (if explicit = Some ''http'' \<or> explicit = Some ''remote'' then Http
      else if explicit = Some ''sse'' then Sse
      else if explicit = Some ''stdio'' \<or> explicit = Some ''local'' then Stdio
      else if has_url \<and> \<not> has_command then Http else Stdio)"

definition string_list :: "Json option \<Rightarrow> string list" where
  "string_list v = (case Option.bind v as_array of Some items \<Rightarrow> List.map_filter as_string items | None \<Rightarrow> [])"

definition string_map :: "Json option \<Rightarrow> (string, RegistryValue) btree" where
  "string_map v =
     (case Option.bind v as_object of
        Some kvs \<Rightarrow> List.map_filter (\<lambda>(k, item). map_option (\<lambda>t. (k, import_value t)) (as_string item)) (bt_of_list kvs)
      | None \<Rightarrow> [])"

definition json_strings :: "(string \<Rightarrow> RegistryValue \<Rightarrow> string) \<Rightarrow> (string, RegistryValue) btree \<Rightarrow> Json" where
  "json_strings ref kvs = J_Object (map (\<lambda>(k, v). (k, J_String (ref k v))) kvs)"

definition required :: "string \<Rightarrow> 'a option \<Rightarrow> SyncError + 'a" where
  "required m x = (case x of Some v \<Rightarrow> Ok v | None \<Rightarrow> Err (RegistryError m))"

section \<open>Claude Code\<close>

definition claude_entry_value :: "RegistryEntry \<Rightarrow> SyncError + Json" where
  "claude_entry_value entry =
     (let kind = (''type'', J_String (transport_as_str (re_transport entry))) in
      case re_transport entry of
        Stdio \<Rightarrow>
          (case required ''stdio entry requires a command'' (re_command entry) of
             Inl e \<Rightarrow> Err e
           | Inr command \<Rightarrow> Ok (J_Object ([kind, (''command'', J_String command)]
               @ (if re_args entry \<noteq> [] then [(''args'', J_Array (map J_String (re_args entry)))] else [])
               @ (if re_env entry \<noteq> [] then [(''env'', json_strings claude_ref (re_env entry))] else []))))
      | Http \<Rightarrow>
          (case required ''http entry requires a url'' (re_url entry) of
             Inl e \<Rightarrow> Err e
           | Inr url \<Rightarrow> Ok (J_Object ([kind, (''url'', J_String url)]
               @ (if re_headers entry \<noteq> [] then [(''headers'', json_strings claude_ref (re_headers entry))] else []))))
      | Sse \<Rightarrow> Err (UnsupportedError ''claude-code:sse''))"

definition claude_entry_from_value :: "Json \<Rightarrow> RegistryEntry option" where
  "claude_entry_from_value v =
     map_option (\<lambda>m.
       let command = Option.bind (serde_get m ''command'') as_string; url = Option.bind (serde_get m ''url'') as_string in
       \<lparr>re_transport = infer_transport (Option.bind (serde_get m ''type'') as_string) (url \<noteq> None) (command \<noteq> None),
        re_command = command, re_args = string_list (serde_get m ''args''), re_env = string_map (serde_get m ''env''),
        re_url = url, re_headers = string_map (serde_get m ''headers''), re_meta = default_meta\<rparr>) (as_object v)"

definition entries_from_object :: "(Json \<Rightarrow> RegistryEntry option) \<Rightarrow> (string \<times> Json) list \<Rightarrow> (string, RegistryEntry) btree" where
  "entries_from_object from_value servers =
     bt_of_list (List.map_filter (\<lambda>(name, v). map_option (\<lambda>e. (name, e)) (from_value v)) servers)"

definition claude_inject_tree :: "Json \<Rightarrow> string \<Rightarrow> RegistryEntry \<Rightarrow> SyncError + Json" where
  "claude_inject_tree root name entry =
     (case root_object root of
        Inl e \<Rightarrow> Err e
      | Inr fs \<Rightarrow>
          (case claude_entry_value entry of
             Inl e \<Rightarrow> Err e
           | Inr v \<Rightarrow> Ok (J_Object (obj_set ''mcpServers'' (J_Object (obj_set name v (object_or_set fs ''mcpServers''))) fs))))"

definition claude_rollback_tree :: "Json \<Rightarrow> string \<Rightarrow> SyncError + Json" where
  "claude_rollback_tree root name =
     (case root_object root of
        Inl e \<Rightarrow> Err e
      | Inr fs \<Rightarrow> Ok (J_Object (case object_value fs ''mcpServers'' of
          None \<Rightarrow> fs
        | Some servers \<Rightarrow>
            let servers' = obj_remove name servers in
            if servers' = [] then obj_remove ''mcpServers'' fs else obj_set ''mcpServers'' (J_Object servers') fs)))"

definition claude_read_tree :: "Json \<Rightarrow> (string, RegistryEntry) btree" where
  "claude_read_tree root =
     (case Option.bind (as_object root) (\<lambda>fs. object_value fs ''mcpServers'') of
        None \<Rightarrow> [] | Some servers \<Rightarrow> entries_from_object claude_entry_from_value servers)"

section \<open>OpenCode\<close>

definition opencode_entry_value :: "RegistryEntry \<Rightarrow> SyncError + Json" where
  "opencode_entry_value entry =
     (case re_transport entry of
        Stdio \<Rightarrow>
          (case required ''stdio entry requires a command'' (re_command entry) of
             Inl e \<Rightarrow> Err e
           | Inr command \<Rightarrow> Ok (J_Object ([(''type'', J_String ''local''), (''command'', J_Array (map J_String (command # re_args entry)))]
               @ (if re_env entry \<noteq> [] then [(''environment'', json_strings opencode_ref (re_env entry))] else []))))
      | Http \<Rightarrow>
          (case required ''http entry requires a url'' (re_url entry) of
             Inl e \<Rightarrow> Err e
           | Inr url \<Rightarrow> Ok (J_Object ([(''type'', J_String ''remote''), (''url'', J_String url)]
               @ (if re_headers entry \<noteq> [] then [(''headers'', json_strings opencode_ref (re_headers entry))] else []))))
      | Sse \<Rightarrow> Err (UnsupportedError ''opencode:sse''))"

definition opencode_argv :: "(string \<times> Json) list \<Rightarrow> string option \<times> string list" where
  "opencode_argv m =
     (case serde_get m ''command'' of
        Some (J_String t) \<Rightarrow> (Some t, string_list (serde_get m ''args''))
      | Some (J_Array xs) \<Rightarrow>
          (case string_list (Some (J_Array xs)) of
             [] \<Rightarrow> (None, string_list (serde_get m ''args''))
           | command # argv \<Rightarrow> (Some command, argv))
      | _ \<Rightarrow> (None, string_list (serde_get m ''args'')))"

definition opencode_entry_from_value :: "Json \<Rightarrow> RegistryEntry option" where
  "opencode_entry_from_value v =
     map_option (\<lambda>m.
       let (command, args) = opencode_argv m; url = Option.bind (serde_get m ''url'') as_string in
       \<lparr>re_transport = infer_transport (Option.bind (serde_get m ''type'') as_string) (url \<noteq> None) (command \<noteq> None),
        re_command = command, re_args = args,
        re_env = string_map (case serde_get m ''environment'' of Some x \<Rightarrow> Some x | None \<Rightarrow> serde_get m ''env''),
        re_url = url, re_headers = string_map (serde_get m ''headers''), re_meta = default_meta\<rparr>) (as_object v)"

definition opencode_inject_tree :: "Json \<Rightarrow> string \<Rightarrow> RegistryEntry \<Rightarrow> SyncError + Json" where
  "opencode_inject_tree root name entry =
     (case root_object root of
        Inl e \<Rightarrow> Err e
      | Inr fs \<Rightarrow>
          (case opencode_entry_value entry of
             Inl e \<Rightarrow> Err e
           | Inr v \<Rightarrow>
               let mcp = object_or_set fs ''mcp''; servers = object_or_set mcp ''servers'' in
               Ok (J_Object (obj_set ''mcp'' (J_Object (obj_set ''servers'' (J_Object (obj_set name v servers)) mcp)) fs))))"

definition opencode_rollback_tree :: "Json \<Rightarrow> string \<Rightarrow> SyncError + Json" where
  "opencode_rollback_tree root name =
     (case root_object root of
        Inl e \<Rightarrow> Err e
      | Inr fs \<Rightarrow> Ok (J_Object (case object_value fs ''mcp'' of
          None \<Rightarrow> fs
        | Some mcp \<Rightarrow>
            let mcp' = (case object_value mcp ''servers'' of
                  None \<Rightarrow> mcp
                | Some servers \<Rightarrow>
                    let servers' = obj_remove name servers in
                    if servers' = [] then obj_remove ''servers'' mcp else obj_set ''servers'' (J_Object servers') mcp) in
            if mcp' = [] then obj_remove ''mcp'' fs else obj_set ''mcp'' (J_Object mcp') fs)))"

definition legacy_entry :: "Json \<Rightarrow> RegistryEntry option" where
  "legacy_entry v = map_option (\<lambda>e. e\<lparr>re_meta := (re_meta e)\<lparr>em_legacy := True\<rparr>\<rparr>) (opencode_entry_from_value v)"

definition legacy_entries :: "(string \<times> Json) list \<Rightarrow> (string \<times> RegistryEntry) list" where
  "legacy_entries mcp =
     List.map_filter (\<lambda>(name, v). map_option (\<lambda>e. (name, e)) (legacy_entry v)) (filter (\<lambda>(name, v). name \<noteq> ''servers'') mcp)"

definition opencode_read_tree :: "Json \<Rightarrow> (string, RegistryEntry) btree" where
  "opencode_read_tree root =
     (case Option.bind (as_object root) (\<lambda>fs. object_value fs ''mcp'') of
        None \<Rightarrow> []
      | Some mcp \<Rightarrow>
          bt_extend (case object_value mcp ''servers'' of
              Some servers \<Rightarrow> entries_from_object opencode_entry_from_value servers | None \<Rightarrow> []) (legacy_entries mcp))"

section \<open>Codex\<close>

fun as_table :: "Toml \<Rightarrow> (string \<times> Toml) list option" where
  "as_table (T_Table t) = Some t"
| "as_table _ = None"

fun as_str :: "Toml \<Rightarrow> string option" where
  "as_str (T_Str s) = Some s"
| "as_str _ = None"

fun as_toml_array :: "Toml \<Rightarrow> Toml list option" where
  "as_toml_array (T_Array xs) = Some xs"
| "as_toml_array _ = None"

definition plain_pairs :: "RegistryEntry \<Rightarrow> (string \<times> string) list" where
  "plain_pairs entry = List.map_filter (\<lambda>(k, v). map_option (\<lambda>t. (k, t)) (as_plain v)) (re_env entry)"

definition codex_entry_table :: "RegistryEntry \<Rightarrow> SyncError + (string \<times> Toml) list" where
  "codex_entry_table entry =
     (case re_transport entry of
        Stdio \<Rightarrow>
          (case required ''stdio entry requires a command'' (re_command entry) of
             Inl e \<Rightarrow> Err e
           | Inr command \<Rightarrow> Ok ([(''command'', T_Str command)]
               @ (if re_args entry \<noteq> [] then [(''args'', T_Array (map T_Str (re_args entry)))] else [])
               @ (if plain_pairs entry \<noteq> [] then [(''env'', T_Table (map (\<lambda>(k, t). (k, T_Str t)) (plain_pairs entry)))] else [])))
      | Http \<Rightarrow>
          (case required ''http entry requires a url'' (re_url entry) of
             Inl e \<Rightarrow> Err e
           | Inr url \<Rightarrow> Ok ([(''url'', T_Str url)]
               @ (case secret_env_key entry of Some key \<Rightarrow> [(''bearer_token_env_var'', T_Str key)] | None \<Rightarrow> [])))
      | Sse \<Rightarrow> Err (UnsupportedError ''codex:sse''))"

definition codex_entry_from_table :: "(string \<times> Toml) list \<Rightarrow> RegistryEntry" where
  "codex_entry_from_table t =
     (let url = Option.bind (map_of t ''url'') as_str;
          env = (case Option.bind (map_of t ''env'') as_table of
              Some kvs \<Rightarrow> bt_of_list (List.map_filter (\<lambda>(k, item). map_option (\<lambda>s. (k, Plain s)) (as_str item)) kvs)
            | None \<Rightarrow> []) in
      \<lparr>re_transport = (if url \<noteq> None then Http else Stdio), re_command = Option.bind (map_of t ''command'') as_str,
       re_args = (case Option.bind (map_of t ''args'') as_toml_array of Some xs \<Rightarrow> List.map_filter as_str xs | None \<Rightarrow> []),
       re_env = (case Option.bind (map_of t ''bearer_token_env_var'') as_str of
           Some key \<Rightarrow> bt_insert key (Secret (''keychain:tethys/'' @ key)) env | None \<Rightarrow> env),
       re_url = url, re_headers = [], re_meta = default_meta\<rparr>)"

definition table_or_insert :: "(string \<times> Toml) list \<Rightarrow> string \<Rightarrow> SyncError + (string \<times> Toml) list" where
  "table_or_insert doc key =
     (case map_of doc key of
        None \<Rightarrow> Ok []
      | Some item \<Rightarrow> (case as_table item of Some t \<Rightarrow> Ok t | None \<Rightarrow> Err (RegistryError (key @ '' must be a table''))))"

definition codex_inject_tree :: "(string \<times> Toml) list \<Rightarrow> string \<Rightarrow> RegistryEntry \<Rightarrow> SyncError + (string \<times> Toml) list" where
  "codex_inject_tree doc name entry =
     (case table_or_insert doc ''mcp_servers'' of
        Inl e \<Rightarrow> Err e
      | Inr servers \<Rightarrow>
          (case codex_entry_table entry of
             Inl e \<Rightarrow> Err e
           | Inr t \<Rightarrow> Ok (obj_set ''mcp_servers'' (T_Table (obj_set name (T_Table t) servers)) doc)))"

definition codex_rollback_tree :: "(string \<times> Toml) list \<Rightarrow> string \<Rightarrow> (string \<times> Toml) list" where
  "codex_rollback_tree doc name =
     (case Option.bind (map_of doc ''mcp_servers'') as_table of
        None \<Rightarrow> doc
      | Some servers \<Rightarrow>
          let servers' = obj_remove name servers in
          if servers' = [] then obj_remove ''mcp_servers'' doc else obj_set ''mcp_servers'' (T_Table servers') doc)"

definition codex_read_tree :: "(string \<times> Toml) list \<Rightarrow> (string, RegistryEntry) btree" where
  "codex_read_tree doc =
     (case Option.bind (map_of doc ''mcp_servers'') as_table of
        None \<Rightarrow> []
      | Some servers \<Rightarrow>
          bt_of_list (List.map_filter (\<lambda>(name, item). map_option (\<lambda>t. (name, codex_entry_from_table t)) (as_table item)) servers))"

section \<open>Texts\<close>

definition claude_source :: "string \<Rightarrow> string" where
  "claude_source original = (if blank original then ''{}'' else original)"

definition json_edit ::
  "DocFormat \<Rightarrow> bool \<Rightarrow> string \<Rightarrow> (Json \<Rightarrow> SyncError + Json) \<Rightarrow> SyncError + string" where
  "json_edit fmt loose source f =
     (case json_parse fmt loose source of
        Inl e \<Rightarrow> Err e
      | Inr d \<Rightarrow> (case f d of Inl e \<Rightarrow> Err e | Inr d' \<Rightarrow> Ok (df_json_render fmt source d')))"

definition claude_inject :: "DocFormat \<Rightarrow> string \<Rightarrow> string \<Rightarrow> RegistryEntry \<Rightarrow> SyncError + string" where
  "claude_inject fmt original name entry =
     (if re_transport entry = Sse then Err (UnsupportedError ''claude-code:sse'')
      else json_edit fmt False (claude_source original) (\<lambda>d. claude_inject_tree d name entry))"

definition claude_rollback :: "DocFormat \<Rightarrow> string \<Rightarrow> string \<Rightarrow> SyncError + string" where
  "claude_rollback fmt modified name = json_edit fmt False modified (\<lambda>d. claude_rollback_tree d name)"

definition claude_read_entries :: "DocFormat \<Rightarrow> string \<Rightarrow> SyncError + (string, RegistryEntry) btree" where
  "claude_read_entries fmt original =
     (if blank original then Ok []
      else case json_parse fmt False original of Inl e \<Rightarrow> Err e | Inr d \<Rightarrow> Ok (claude_read_tree d))"

definition opencode_inject :: "DocFormat \<Rightarrow> string \<Rightarrow> string \<Rightarrow> RegistryEntry \<Rightarrow> SyncError + string" where
  "opencode_inject fmt original name entry =
     (if re_transport entry = Sse then Err (UnsupportedError ''opencode:sse'')
      else json_edit fmt True (claude_source original) (\<lambda>d. opencode_inject_tree d name entry))"

definition opencode_rollback :: "DocFormat \<Rightarrow> string \<Rightarrow> string \<Rightarrow> SyncError + string" where
  "opencode_rollback fmt modified name = json_edit fmt True modified (\<lambda>d. opencode_rollback_tree d name)"

definition opencode_read_entries :: "DocFormat \<Rightarrow> string \<Rightarrow> SyncError + (string, RegistryEntry) btree" where
  "opencode_read_entries fmt original =
     (if blank original then Ok []
      else case json_parse fmt True original of Inl e \<Rightarrow> Err e | Inr d \<Rightarrow> Ok (opencode_read_tree d))"

definition codex_inject :: "DocFormat \<Rightarrow> string \<Rightarrow> string \<Rightarrow> RegistryEntry \<Rightarrow> SyncError + string" where
  "codex_inject fmt original name entry =
     (if re_transport entry = Sse then Err (UnsupportedError ''codex:sse'')
      else case (if blank original then Ok [] else toml_parse fmt original) of
          Inl e \<Rightarrow> Err e
        | Inr doc \<Rightarrow>
            (case codex_inject_tree doc name entry of
               Inl e \<Rightarrow> Err e
             | Inr doc' \<Rightarrow> Ok (df_toml_render fmt (if blank original then [] else original) doc')))"

definition codex_rollback :: "DocFormat \<Rightarrow> string \<Rightarrow> string \<Rightarrow> SyncError + string" where
  "codex_rollback fmt modified name =
     (case toml_parse fmt modified of Inl e \<Rightarrow> Err e | Inr doc \<Rightarrow> Ok (df_toml_render fmt modified (codex_rollback_tree doc name)))"

definition codex_read_entries :: "DocFormat \<Rightarrow> string \<Rightarrow> SyncError + (string, RegistryEntry) btree" where
  "codex_read_entries fmt original =
     (if blank original then Ok []
      else case toml_parse fmt original of Inl e \<Rightarrow> Err e | Inr doc \<Rightarrow> Ok (codex_read_tree doc))"

section \<open>The three projectors\<close>

record TargetFile =
  tf_path :: string
  tf_scope :: Scope

definition pick_config :: "(string \<Rightarrow> bool) \<Rightarrow> string \<Rightarrow> string \<Rightarrow> string" where
  "pick_config exists dir default_name =
     (let json = path_join dir default_name; jsonc = path_join dir (default_name @ ''c'') in
      if exists json then json else if exists jsonc then jsonc else json)"

definition claude_detect :: "string \<Rightarrow> string \<Rightarrow> TargetFile list" where
  "claude_detect root home = [\<lparr>tf_path = path_join root ''.mcp.json'', tf_scope = Workspace\<rparr>]"

definition opencode_detect :: "(string \<Rightarrow> bool) \<Rightarrow> string \<Rightarrow> string \<Rightarrow> TargetFile list" where
  "opencode_detect exists root home =
     [\<lparr>tf_path = pick_config exists root ''opencode.json'', tf_scope = Workspace\<rparr>,
      \<lparr>tf_path = pick_config exists (path_join (path_join home ''.config'') ''opencode'') ''opencode.json'', tf_scope = Global\<rparr>]"

definition codex_detect :: "string \<Rightarrow> string \<Rightarrow> TargetFile list" where
  "codex_detect root home = [\<lparr>tf_path = path_join (path_join home ''.codex'') ''config.toml'', tf_scope = Global\<rparr>]"

definition projector_for :: "DocFormat \<Rightarrow> TargetId \<Rightarrow> Projector option" where
  "projector_for fmt target =
     (case target of
        T_ClaudeCode \<Rightarrow> Some \<lparr>pj_target = T_ClaudeCode, pj_inject = claude_inject fmt, pj_read_entries = claude_read_entries fmt\<rparr>
      | T_Codex \<Rightarrow> Some \<lparr>pj_target = T_Codex, pj_inject = codex_inject fmt, pj_read_entries = codex_read_entries fmt\<rparr>
      | T_OpenCode \<Rightarrow> Some \<lparr>pj_target = T_OpenCode, pj_inject = opencode_inject fmt, pj_read_entries = opencode_read_entries fmt\<rparr>
      | T_Session \<Rightarrow> None)"

definition detect :: "(string \<Rightarrow> bool) \<Rightarrow> TargetId \<Rightarrow> string \<Rightarrow> string \<Rightarrow> TargetFile list" where
  "detect exists target root home =
     (case target of
        T_ClaudeCode \<Rightarrow> claude_detect root home
      | T_Codex \<Rightarrow> codex_detect root home
      | T_OpenCode \<Rightarrow> opencode_detect exists root home
      | T_Session \<Rightarrow> [])"
end
