(* ===== verification/Projector_Laws.thy ===== *)
theory Projector_Laws
  imports Projectors
begin

text \<open>
  What the planner relies on of a projector, as a locale over document trees, discharged for Claude
  Code, OpenCode and Codex: an injected entry is read back as its image and leaves the other entries
  alone. The image is what the target's file format can say about an entry. \<^verbatim>\<open>Projection_Cycle\<close> derives from
  this what a second plan finds after a first one was applied.
\<close>

section \<open>The contract\<close>

fun succeeds :: "'e + 'a \<Rightarrow> bool" where
  "succeeds (Inl _) = False"
| "succeeds (Inr _) = True"

lemma succeeds_simps [simp]:
  "succeeds (if b then Err x else y) \<longleftrightarrow> \<not> b \<and> succeeds y"
  "succeeds (case r of Inl x \<Rightarrow> Err (f x) | Inr v \<Rightarrow> Ok (g v)) \<longleftrightarrow> succeeds r"
  by (auto split: sum.split)

lemma succeeds_iff: "succeeds x \<longleftrightarrow> (\<exists>y. x = Ok y)"
  by (cases x) simp_all

locale tree_projector =
  fixes inject_tree :: "'d \<Rightarrow> string \<Rightarrow> RegistryEntry \<Rightarrow> SyncError + 'd"
    and read_tree :: "'d \<Rightarrow> (string, RegistryEntry) btree"
    and image :: "RegistryEntry \<Rightarrow> RegistryEntry"
    and fits :: "'d \<Rightarrow> string \<Rightarrow> bool"
  assumes own: "inject_tree d n e = Ok d' \<Longrightarrow> fits d n \<Longrightarrow> map_of (read_tree d') n = Some (image e)"
    and others: "inject_tree d n e = Ok d' \<Longrightarrow> m \<noteq> n \<Longrightarrow> map_of (read_tree d') m = map_of (read_tree d) m"
    and fits_kept: "inject_tree d n e = Ok d' \<Longrightarrow> fits d m \<Longrightarrow> fits d' m"
    and stable: "inject_tree d n e = Ok d' \<Longrightarrow> succeeds (inject_tree d' m x) = succeeds (inject_tree d m x)"
begin

fun inject_all :: "'d \<Rightarrow> (string \<times> RegistryEntry) list \<Rightarrow> SyncError + 'd" where
  "inject_all d [] = Ok d"
| "inject_all d ((n, e) # nes) = (case inject_tree d n e of Inl err \<Rightarrow> Err err | Inr d' \<Rightarrow> inject_all d' nes)"

lemma inject_all_others:
  "inject_all d nes = Ok d' \<Longrightarrow> m \<notin> fst ` set nes \<Longrightarrow> map_of (read_tree d') m = map_of (read_tree d) m"
proof (induction d nes rule: inject_all.induct)
  case (2 d n e nes)
  then show ?case using others by (auto split: sum.splits)
qed simp

lemma inject_all_own:
  "inject_all d nes = Ok d' \<Longrightarrow> distinct (map fst nes) \<Longrightarrow> (n, e) \<in> set nes \<Longrightarrow> fits d n \<Longrightarrow>
     map_of (read_tree d') n = Some (image e)"
proof (induction d nes rule: inject_all.induct)
  case (2 d m x nes)
  from "2.prems"(1) obtain d1 where d1: "inject_tree d m x = Ok d1" "inject_all d1 nes = Ok d'" by (auto split: sum.splits)
  show ?case
  proof (cases "(n, e) = (m, x)")
    case True
    with "2.prems" d1 own have "map_of (read_tree d1) n = Some (image e)" by simp
    with inject_all_others[OF d1(2)] "2.prems"(2) True show ?thesis by auto
  next
    case False
    with 2 d1 fits_kept show ?thesis by fastforce
  qed
qed simp

end

section \<open>Objects\<close>

fun last_entry :: "('v \<Rightarrow> 'e option) \<Rightarrow> (string \<times> 'v) list \<Rightarrow> string \<Rightarrow> 'e option" where
  "last_entry f [] m = None"
| "last_entry f ((k, v) # fs) m = (case last_entry f fs m of Some e \<Rightarrow> Some e | None \<Rightarrow> if k = m then f v else None)"

definition occurrences :: "string \<Rightarrow> (string \<times> 'v) list \<Rightarrow> nat" where
  "occurrences n fs = length (filter (\<lambda>kv. fst kv = n) fs)"

lemma map_of_map_filter:
  "map_of (rev (List.map_filter (\<lambda>(n, v). map_option (\<lambda>e. (n, e)) (f v)) fs)) m = last_entry f fs m"
  by (induction f fs m rule: last_entry.induct)
    (auto simp: List.map_filter_simps map_add_def split: option.splits)

lemma entries_from_object_last: "map_of (entries_from_object f fs) m = last_entry f fs m"
  by (simp add: entries_from_object_def map_of_bt_of_list map_of_map_filter)

lemma last_entry_absent: "occurrences n fs = 0 \<Longrightarrow> last_entry f fs n = None"
  by (induction f fs n rule: last_entry.induct) (auto simp: occurrences_def split: if_splits)

lemma last_entry_set_other: "m \<noteq> n \<Longrightarrow> last_entry f (obj_set n v fs) m = last_entry f fs m"
  by (induction n v fs rule: obj_set.induct) auto

lemma last_entry_set_own: "occurrences n fs \<le> 1 \<Longrightarrow> f v = Some e \<Longrightarrow> last_entry f (obj_set n v fs) n = Some e"
proof (induction n v fs rule: obj_set.induct)
  case (2 n v k w fs)
  show ?case
  proof (cases "k = n")
    case True
    with 2 have "occurrences n fs = 0" by (simp add: occurrences_def)
    thus ?thesis using 2 True by (simp add: last_entry_absent)
  next
    case False
    thus ?thesis using 2 by (simp add: occurrences_def)
  qed
qed simp

lemma occurrences_set: "occurrences m (obj_set n v fs) = (if m = n then max 1 (occurrences m fs) else occurrences m fs)"
  by (induction n v fs rule: obj_set.induct) (auto simp: occurrences_def)

lemma map_of_obj_set: "map_of (obj_set n v fs) m = (if m = n then Some v else map_of fs m)"
  by (induction n v fs rule: obj_set.induct) auto

lemma object_value_set: "object_value (obj_set n (J_Object v) fs) m = (if m = n then Some v else object_value fs m)"
  by (simp add: object_value_def map_of_obj_set)

lemma filter_obj_set: "\<not> P n \<Longrightarrow> filter (\<lambda>(k, v). P k) (obj_set n v fs) = filter (\<lambda>(k, v). P k) fs"
  by (induction n v fs rule: obj_set.induct) auto

lemma bt_insert_map: "bt_insert k (f k v) (map (\<lambda>(k, v). (k, f k v)) m) = map (\<lambda>(k, v). (k, f k v)) (bt_insert k v m)"
  by (induction k v m rule: bt_insert.induct) auto

lemma bt_of_list_map: "bt_of_list (map (\<lambda>(k, v). (k, f k v)) kvs) = map (\<lambda>(k, v). (k, f k v)) (bt_of_list kvs)"
proof -
  have "bt_extend (map (\<lambda>(k, v). (k, f k v)) m) (map (\<lambda>(k, v). (k, f k v)) kvs) = map (\<lambda>(k, v). (k, f k v)) (bt_extend m kvs)" for m
    by (induction m kvs rule: bt_extend.induct) (auto simp: bt_insert_map)
  from this[of "[]"] show ?thesis by (simp add: bt_of_list_def)
qed

section \<open>Images\<close>

definition imported :: "(string \<Rightarrow> RegistryValue \<Rightarrow> string) \<Rightarrow> (string, RegistryValue) btree \<Rightarrow> (string, RegistryValue) btree" where
  "imported ref kvs = map (\<lambda>(k, v). (k, import_value (ref k v))) (bt_of_list kvs)"

lemma string_map_strings: "string_map (Some (json_strings ref kvs)) = imported ref kvs"
proof -
  have "List.map_filter (\<lambda>(k, item). map_option (\<lambda>t. (k, import_value t)) (as_string item))
      (map (\<lambda>(k, v). (k, J_String (ref k v))) m) = map (\<lambda>(k, v). (k, import_value (ref k v))) m" for m
    by (induction m) (auto simp: List.map_filter_simps)
  thus ?thesis by (simp add: string_map_def json_strings_def imported_def bt_of_list_map)
qed

lemma imported_Nil [simp]: "imported ref [] = []"
  by (simp add: imported_def bt_of_list_def)

lemma string_map_None [simp]: "string_map None = []"
  by (simp add: string_map_def)

lemma string_list_strings [simp]: "string_list (Some (J_Array (map J_String xs))) = xs"
  unfolding string_list_def by (induction xs) (simp_all add: List.map_filter_simps)

lemma string_list_None [simp]: "string_list None = []"
  by (simp add: string_list_def)

definition json_image :: "(string \<Rightarrow> RegistryValue \<Rightarrow> string) \<Rightarrow> RegistryEntry \<Rightarrow> RegistryEntry" where
  "json_image ref e =
     (if re_transport e = Http
      then \<lparr>re_transport = Http, re_command = None, re_args = [], re_env = [], re_url = re_url e,
            re_headers = imported ref (re_headers e), re_meta = default_meta\<rparr>
      else \<lparr>re_transport = Stdio, re_command = re_command e, re_args = re_args e, re_env = imported ref (re_env e),
            re_url = None, re_headers = [], re_meta = default_meta\<rparr>)"

lemma claude_value_roundtrip:
  "claude_entry_value e = Ok v \<Longrightarrow> claude_entry_from_value v = Some (json_image claude_ref e)"
  by (auto simp: claude_entry_value_def required_def Let_def split: TransportKind.splits option.splits if_splits)
    (simp_all add: claude_entry_from_value_def json_image_def serde_get_def infer_transport_def string_map_strings)

lemma opencode_argv_strings [simp]:
  "serde_get m ''command'' = Some (J_Array (J_String c # map J_String args)) \<Longrightarrow> opencode_argv m = (Some c, args)"
  using string_list_strings[of "c # args"] by (simp add: opencode_argv_def)

lemma opencode_value_roundtrip:
  "opencode_entry_value e = Ok v \<Longrightarrow> opencode_entry_from_value v = Some (json_image opencode_ref e)"
  by (auto simp: opencode_entry_value_def required_def Let_def split: TransportKind.splits option.splits if_splits)
    (simp_all add: opencode_entry_from_value_def json_image_def serde_get_def opencode_argv_def[of "[_, (''url'', _)]"]
      opencode_argv_def[of "[_, (''url'', _), _]"] infer_transport_def string_map_strings)

definition codex_image :: "RegistryEntry \<Rightarrow> RegistryEntry" where
  "codex_image e =
     (if re_transport e = Http
      then \<lparr>re_transport = Http, re_command = None, re_args = [],
            re_env = (case secret_env_key e of Some k \<Rightarrow> [(k, Secret (''keychain:tethys/'' @ k))] | None \<Rightarrow> []),
            re_url = re_url e, re_headers = [], re_meta = default_meta\<rparr>
      else \<lparr>re_transport = Stdio, re_command = re_command e, re_args = re_args e,
            re_env = bt_of_list (map (\<lambda>(k, t). (k, Plain t)) (plain_pairs e)),
            re_url = None, re_headers = [], re_meta = default_meta\<rparr>)"

lemma map_filter_as_str [simp]: "List.map_filter as_str (map T_Str xs) = xs"
  by (induction xs) (simp_all add: List.map_filter_simps)

lemma map_filter_plain [simp]:
  "List.map_filter (\<lambda>(k, item). map_option (\<lambda>s. (k, Plain s)) (as_str item)) (map (\<lambda>(k, t). (k, T_Str t)) kvs)
     = map (\<lambda>(k, t). (k, Plain t)) kvs"
  by (induction kvs) (auto simp: List.map_filter_simps)

lemma codex_table_roundtrip:
  "codex_entry_table e = Ok t \<Longrightarrow> codex_entry_from_table t = codex_image e"
  by (auto simp: codex_entry_table_def required_def Let_def split: TransportKind.splits option.splits if_splits)
    (simp_all add: codex_entry_from_table_def codex_image_def bt_of_list_def)

section \<open>The three projectors satisfy the contract\<close>

text \<open>
  \<open>fits\<close>: the object that takes the entry has at most one property of this name (a second one would
  win when the file is read), and in OpenCode's file no legacy entry of this name.
\<close>

definition claude_fits :: "Json \<Rightarrow> string \<Rightarrow> bool" where
  "claude_fits d n \<longleftrightarrow>
     (case as_object d of None \<Rightarrow> True | Some fs \<Rightarrow> occurrences n (object_or_set fs ''mcpServers'') \<le> 1)"

definition opencode_fits :: "Json \<Rightarrow> string \<Rightarrow> bool" where
  "opencode_fits d n \<longleftrightarrow>
     (case as_object d of
        None \<Rightarrow> True
      | Some fs \<Rightarrow>
          let mcp = object_or_set fs ''mcp'' in
          occurrences n (object_or_set mcp ''servers'') \<le> 1 \<and> map_of (rev (legacy_entries mcp)) n = None)"

definition codex_fits :: "(string \<times> Toml) list \<Rightarrow> string \<Rightarrow> bool" where
  "codex_fits doc n \<longleftrightarrow>
     (case table_or_insert doc ''mcp_servers'' of Inl e \<Rightarrow> True | Inr servers \<Rightarrow> occurrences n servers \<le> 1)"

lemma claude_inject_treeE:
  assumes "claude_inject_tree d n e = Ok d'"
  obtains fs v where "d = J_Object fs" "claude_entry_value e = Ok v"
    "d' = J_Object (obj_set ''mcpServers'' (J_Object (obj_set n v (object_or_set fs ''mcpServers''))) fs)"
  using assms by (cases d) (auto simp: claude_inject_tree_def root_object_def split: sum.splits)

lemma claude_read_object:
  "map_of (claude_read_tree (J_Object fs)) m = last_entry claude_entry_from_value (object_or_set fs ''mcpServers'') m"
  by (simp add: claude_read_tree_def object_or_set_def entries_from_object_last split: option.splits)

lemma object_or_set_set: "object_or_set (obj_set n (J_Object v) fs) m = (if m = n then v else object_or_set fs m)"
  by (simp add: object_or_set_def object_value_set)

interpretation claude: tree_projector claude_inject_tree claude_read_tree "json_image claude_ref" claude_fits
proof unfold_locales
  fix d n e d' assume "claude_inject_tree d n e = Ok d'" and "claude_fits d n"
  thus "map_of (claude_read_tree d') n = Some (json_image claude_ref e)"
    by (elim claude_inject_treeE)
      (simp add: claude_read_object object_or_set_set claude_fits_def last_entry_set_own claude_value_roundtrip)
next
  fix d n e d' and m :: string assume "claude_inject_tree d n e = Ok d'" and "m \<noteq> n"
  thus "map_of (claude_read_tree d') m = map_of (claude_read_tree d) m"
    by (elim claude_inject_treeE) (simp add: claude_read_object object_or_set_set last_entry_set_other)
next
  fix d n e d' m assume "claude_inject_tree d n e = Ok d'" and "claude_fits d m"
  thus "claude_fits d' m"
    by (elim claude_inject_treeE) (auto simp: claude_fits_def object_or_set_set occurrences_set)
next
  fix d n e d' m x assume "claude_inject_tree d n e = Ok d'"
  thus "succeeds (claude_inject_tree d' m x) = succeeds (claude_inject_tree d m x)"
    by (elim claude_inject_treeE) (simp add: claude_inject_tree_def root_object_def split: sum.split)
qed

lemma opencode_inject_treeE:
  assumes "opencode_inject_tree d n e = Ok d'"
  obtains fs v where "d = J_Object fs" "opencode_entry_value e = Ok v"
    "d' = J_Object (obj_set ''mcp'' (J_Object (obj_set ''servers''
            (J_Object (obj_set n v (object_or_set (object_or_set fs ''mcp'') ''servers''))) (object_or_set fs ''mcp''))) fs)"
  using assms by (cases d) (auto simp: opencode_inject_tree_def root_object_def Let_def split: sum.splits)

lemma legacy_entries_set: "legacy_entries (obj_set ''servers'' v mcp) = legacy_entries mcp"
  using filter_obj_set[of "\<lambda>k. k \<noteq> ''servers''" "''servers''" v mcp] by (simp add: legacy_entries_def)

lemma legacy_entries_Nil [simp]: "legacy_entries [] = []"
  by (simp add: legacy_entries_def List.map_filter_simps)

lemma bt_wf_entries [simp]: "bt_wf (entries_from_object f fs)"
  by (simp add: entries_from_object_def)

lemma opencode_read_object:
  "map_of (opencode_read_tree (J_Object fs)) m =
     (let mcp = object_or_set fs ''mcp'' in
      case map_of (rev (legacy_entries mcp)) m of
        Some e \<Rightarrow> Some e
      | None \<Rightarrow> last_entry opencode_entry_from_value (object_or_set mcp ''servers'') m)"
  by (simp add: opencode_read_tree_def object_or_set_def entries_from_object_last map_of_bt_extend map_add_def
      object_value_def Let_def split: option.splits)

interpretation opencode: tree_projector opencode_inject_tree opencode_read_tree "json_image opencode_ref" opencode_fits
proof unfold_locales
  fix d n e d' assume "opencode_inject_tree d n e = Ok d'" and "opencode_fits d n"
  thus "map_of (opencode_read_tree d') n = Some (json_image opencode_ref e)"
    by (elim opencode_inject_treeE)
      (simp add: opencode_read_object object_or_set_set opencode_fits_def legacy_entries_set last_entry_set_own
        opencode_value_roundtrip Let_def)
next
  fix d n e d' and m :: string assume "opencode_inject_tree d n e = Ok d'" and "m \<noteq> n"
  thus "map_of (opencode_read_tree d') m = map_of (opencode_read_tree d) m"
    by (elim opencode_inject_treeE)
      (simp add: opencode_read_object object_or_set_set legacy_entries_set last_entry_set_other Let_def split: option.split)
next
  fix d n e d' m assume "opencode_inject_tree d n e = Ok d'" and "opencode_fits d m"
  thus "opencode_fits d' m"
    by (elim opencode_inject_treeE)
      (auto simp: opencode_fits_def object_or_set_set occurrences_set legacy_entries_set Let_def)
next
  fix d n e d' m x assume "opencode_inject_tree d n e = Ok d'"
  thus "succeeds (opencode_inject_tree d' m x) = succeeds (opencode_inject_tree d m x)"
    by (elim opencode_inject_treeE) (simp add: opencode_inject_tree_def root_object_def Let_def split: sum.split)
qed

lemma codex_inject_treeE:
  assumes "codex_inject_tree doc n e = Ok doc'"
  obtains servers t where "table_or_insert doc ''mcp_servers'' = Ok servers" "codex_entry_table e = Ok t"
    "doc' = obj_set ''mcp_servers'' (T_Table (obj_set n (T_Table t) servers)) doc"
  using assms by (auto simp: codex_inject_tree_def split: sum.splits)

definition codex_item :: "Toml \<Rightarrow> RegistryEntry option" where
  "codex_item item = map_option codex_entry_from_table (as_table item)"

lemma codex_read_last:
  "table_or_insert doc ''mcp_servers'' = Ok servers \<Longrightarrow> map_of (codex_read_tree doc) m = last_entry codex_item servers m"
  using map_of_map_filter[of codex_item servers m]
  by (auto simp: codex_read_tree_def table_or_insert_def codex_item_def map_of_bt_of_list option.map_comp comp_def
      split: option.splits)

lemma table_or_insert_set: "table_or_insert (obj_set n (T_Table v) doc) n = Ok v"
  by (simp add: table_or_insert_def map_of_obj_set)

interpretation codex: tree_projector codex_inject_tree codex_read_tree codex_image codex_fits
proof unfold_locales
  fix d n e d' assume "codex_inject_tree d n e = Ok d'" and "codex_fits d n"
  thus "map_of (codex_read_tree d') n = Some (codex_image e)"
    by (elim codex_inject_treeE)
      (simp add: codex_read_last[OF table_or_insert_set] codex_fits_def last_entry_set_own codex_item_def codex_table_roundtrip)
next
  fix d n e d' and m :: string assume "codex_inject_tree d n e = Ok d'" and "m \<noteq> n"
  thus "map_of (codex_read_tree d') m = map_of (codex_read_tree d) m"
    by (elim codex_inject_treeE)
      (simp add: codex_read_last[OF table_or_insert_set] codex_read_last last_entry_set_other)
next
  fix d n e d' m assume "codex_inject_tree d n e = Ok d'" and "codex_fits d m"
  thus "codex_fits d' m"
    by (elim codex_inject_treeE) (auto simp: codex_fits_def table_or_insert_set occurrences_set)
next
  fix d n e d' m x assume "codex_inject_tree d n e = Ok d'"
  thus "succeeds (codex_inject_tree d' m x) = succeeds (codex_inject_tree d m x)"
    by (elim codex_inject_treeE) (simp add: codex_inject_tree_def table_or_insert_set split: sum.split)
qed


section \<open>Texts\<close>

text \<open>
  The contract on texts: an injected text is not blank, reads back the image of its entry where the
  name fits, and leaves the other entries and the fitting names alone.
\<close>

definition projector_ok ::
  "Projector \<Rightarrow> (RegistryEntry \<Rightarrow> RegistryEntry) \<Rightarrow> (string \<Rightarrow> string \<Rightarrow> bool) \<Rightarrow> bool" where
  "projector_ok pj img fits \<longleftrightarrow>
     (\<forall>t n e t'. pj_inject pj t n e = Ok t' \<longrightarrow>
        \<not> blank t' \<and> (\<exists>old new. pj_read_entries pj t = Ok old \<and> pj_read_entries pj t' = Ok new
          \<and> (fits t n \<longrightarrow> map_of new n = Some (img e)) \<and> (\<forall>m. m \<noteq> n \<longrightarrow> map_of new m = map_of old m)
          \<and> (\<forall>m. fits t m \<longrightarrow> fits t' m) \<and> (\<forall>m x. succeeds (pj_inject pj t' m x) = succeeds (pj_inject pj t m x))))"

definition fits_in :: "(string \<Rightarrow> SyncError + 'd) \<Rightarrow> ('d \<Rightarrow> string \<Rightarrow> bool) \<Rightarrow> string \<Rightarrow> string \<Rightarrow> bool" where
  "fits_in doc fits t n \<longleftrightarrow> (case doc t of Inl _ \<Rightarrow> True | Inr d \<Rightarrow> fits d n)"

context tree_projector begin

lemma text_contract:
  assumes inj: "\<And>t n e t'. pj_inject pj t n e = Ok t' \<Longrightarrow>
      \<exists>d d'. doc t = Ok d \<and> inject_tree d n e = Ok d' \<and> doc t' = Ok d' \<and> \<not> blank t'"
    and read: "\<And>t d. doc t = Ok d \<Longrightarrow> pj_read_entries pj t = Ok (read_tree d)"
    and guard: "\<And>t d n e. doc t = Ok d \<Longrightarrow> succeeds (pj_inject pj t n e) \<longleftrightarrow> guard e \<and> succeeds (inject_tree d n e)"
  shows "projector_ok pj image (fits_in doc fits)"
  unfolding projector_ok_def
proof (intro allI impI)
  fix t n e t' assume "pj_inject pj t n e = Ok t'"
  then obtain d d' where d: "doc t = Ok d" "inject_tree d n e = Ok d'" "doc t' = Ok d'" "\<not> blank t'" using inj by blast
  from own[OF d(2)] others[OF d(2)] fits_kept[OF d(2)] d(1,3)
  have "(fits_in doc fits t n \<longrightarrow> map_of (read_tree d') n = Some (image e))
      \<and> (\<forall>m. m \<noteq> n \<longrightarrow> map_of (read_tree d') m = map_of (read_tree d) m)
      \<and> (\<forall>m. fits_in doc fits t m \<longrightarrow> fits_in doc fits t' m)"
    by (simp add: fits_in_def)
  moreover have "succeeds (pj_inject pj t' m x) = succeeds (pj_inject pj t m x)" for m x
    using guard[OF d(1)] guard[OF d(3)] stable[OF d(2)] by simp
  moreover note d(4) read[OF d(1)] read[OF d(3)]
  ultimately show "\<not> blank t' \<and> (\<exists>old new. pj_read_entries pj t = Ok old \<and> pj_read_entries pj t' = Ok new
          \<and> (fits_in doc fits t n \<longrightarrow> map_of new n = Some (image e)) \<and> (\<forall>m. m \<noteq> n \<longrightarrow> map_of new m = map_of old m)
          \<and> (\<forall>m. fits_in doc fits t m \<longrightarrow> fits_in doc fits t' m)
          \<and> (\<forall>m x. succeeds (pj_inject pj t' m x) = succeeds (pj_inject pj t m x)))"
    by blast
qed

end

text \<open>
  What is relied on of the editing crates: \<open>{}\<close> and the empty TOML text are the empty documents, and
  the text printed after an edit is not blank and parses to the edited document.
\<close>

definition reparses ::
  "(string \<Rightarrow> SyncError + 'd) \<Rightarrow> (string \<Rightarrow> 'd \<Rightarrow> string) \<Rightarrow> ('d \<Rightarrow> string \<Rightarrow> RegistryEntry \<Rightarrow> SyncError + 'd) \<Rightarrow> bool" where
  "reparses parse render inject_tree \<longleftrightarrow>
     (\<forall>t d n e d'. parse t = Ok d \<longrightarrow> inject_tree d n e = Ok d' \<longrightarrow> parse (render t d') = Ok d' \<and> \<not> blank (render t d'))"

definition format_ok :: "DocFormat \<Rightarrow> bool" where
  "format_ok fmt \<longleftrightarrow>
     (\<forall>loose. json_parse fmt loose ''{}'' = Ok (J_Object [])) \<and> toml_parse fmt [] = Ok []
     \<and> reparses (json_parse fmt False) (df_json_render fmt) claude_inject_tree
     \<and> reparses (json_parse fmt True) (df_json_render fmt) opencode_inject_tree
     \<and> reparses (toml_parse fmt) (df_toml_render fmt) codex_inject_tree"

lemma reparsesD:
  "reparses parse render inject_tree \<Longrightarrow> parse t = Ok d \<Longrightarrow> inject_tree d n e = Ok d' \<Longrightarrow>
     parse (render t d') = Ok d' \<and> \<not> blank (render t d')"
  unfolding reparses_def by blast

definition codex_source :: "string \<Rightarrow> string" where
  "codex_source original = (if blank original then [] else original)"

definition target_image :: "TargetId \<Rightarrow> RegistryEntry \<Rightarrow> RegistryEntry" where
  "target_image target =
     (case target of T_Codex \<Rightarrow> codex_image | T_OpenCode \<Rightarrow> json_image opencode_ref | _ \<Rightarrow> json_image claude_ref)"

definition target_fits :: "DocFormat \<Rightarrow> TargetId \<Rightarrow> string \<Rightarrow> string \<Rightarrow> bool" where
  "target_fits fmt target =
     (case target of
        T_Codex \<Rightarrow> fits_in (\<lambda>t. toml_parse fmt (codex_source t)) codex_fits
      | T_OpenCode \<Rightarrow> fits_in (\<lambda>t. json_parse fmt True (claude_source t)) opencode_fits
      | _ \<Rightarrow> fits_in (\<lambda>t. json_parse fmt False (claude_source t)) claude_fits)"

lemma format_okD:
  assumes "format_ok fmt"
  shows "json_parse fmt loose ''{}'' = Ok (J_Object [])" "toml_parse fmt [] = Ok []"
    "reparses (json_parse fmt False) (df_json_render fmt) claude_inject_tree"
    "reparses (json_parse fmt True) (df_json_render fmt) opencode_inject_tree"
    "reparses (toml_parse fmt) (df_toml_render fmt) codex_inject_tree"
  using assms by (simp_all add: format_ok_def)

lemma json_edit_text:
  assumes ok: "reparses (json_parse fmt loose) (df_json_render fmt) inject_tree"
    and edit: "json_edit fmt loose (claude_source t) (\<lambda>d. inject_tree d n e) = Ok t'"
  shows "\<exists>d d'. json_parse fmt loose (claude_source t) = Ok d \<and> inject_tree d n e = Ok d'
    \<and> json_parse fmt loose (claude_source t') = Ok d' \<and> \<not> blank t'"
proof -
  from edit obtain d d' where d: "json_parse fmt loose (claude_source t) = Ok d" "inject_tree d n e = Ok d'"
      "t' = df_json_render fmt (claude_source t) d'"
    by (auto simp: json_edit_def split: sum.splits)
  with reparsesD[OF ok d(1,2)] show ?thesis by (simp add: claude_source_def)
qed

lemma claude_text_ok:
  assumes fmt: "format_ok fmt" and pj: "projector_for fmt T_ClaudeCode = Some pj"
  shows "projector_ok pj (json_image claude_ref) (fits_in (\<lambda>t. json_parse fmt False (claude_source t)) claude_fits)"
proof (rule claude.text_contract)
  fix t n e t' assume "pj_inject pj t n e = Ok t'"
  with pj have "json_edit fmt False (claude_source t) (\<lambda>d. claude_inject_tree d n e) = Ok t'"
    by (auto simp: projector_for_def claude_inject_def split: if_splits)
  from json_edit_text[OF format_okD(3)[OF fmt] this]
  show "\<exists>d d'. json_parse fmt False (claude_source t) = Ok d \<and> claude_inject_tree d n e = Ok d'
    \<and> json_parse fmt False (claude_source t') = Ok d' \<and> \<not> blank t'" .
next
  fix t d assume "json_parse fmt False (claude_source t) = Ok d"
  with pj format_okD(1)[OF fmt] show "pj_read_entries pj t = Ok (claude_read_tree d)"
    by (auto simp: projector_for_def claude_read_entries_def claude_source_def claude_read_tree_def
        object_value_def split: if_splits)
next
  fix t d n e assume "json_parse fmt False (claude_source t) = Ok d"
  with pj show "succeeds (pj_inject pj t n e) \<longleftrightarrow> re_transport e \<noteq> Sse \<and> succeeds (claude_inject_tree d n e)"
    by (auto simp: projector_for_def claude_inject_def json_edit_def)
qed

lemma opencode_text_ok:
  assumes fmt: "format_ok fmt" and pj: "projector_for fmt T_OpenCode = Some pj"
  shows "projector_ok pj (json_image opencode_ref) (fits_in (\<lambda>t. json_parse fmt True (claude_source t)) opencode_fits)"
proof (rule opencode.text_contract)
  fix t n e t' assume "pj_inject pj t n e = Ok t'"
  with pj have "json_edit fmt True (claude_source t) (\<lambda>d. opencode_inject_tree d n e) = Ok t'"
    by (auto simp: projector_for_def opencode_inject_def split: if_splits)
  from json_edit_text[OF format_okD(4)[OF fmt] this]
  show "\<exists>d d'. json_parse fmt True (claude_source t) = Ok d \<and> opencode_inject_tree d n e = Ok d'
    \<and> json_parse fmt True (claude_source t') = Ok d' \<and> \<not> blank t'" .
next
  fix t d assume "json_parse fmt True (claude_source t) = Ok d"
  with pj format_okD(1)[OF fmt] show "pj_read_entries pj t = Ok (opencode_read_tree d)"
    by (auto simp: projector_for_def opencode_read_entries_def claude_source_def opencode_read_tree_def
        object_value_def split: if_splits)
next
  fix t d n e assume "json_parse fmt True (claude_source t) = Ok d"
  with pj show "succeeds (pj_inject pj t n e) \<longleftrightarrow> re_transport e \<noteq> Sse \<and> succeeds (opencode_inject_tree d n e)"
    by (auto simp: projector_for_def opencode_inject_def json_edit_def)
qed

lemma codex_text_ok:
  assumes fmt: "format_ok fmt" and pj: "projector_for fmt T_Codex = Some pj"
  shows "projector_ok pj codex_image (fits_in (\<lambda>t. toml_parse fmt (codex_source t)) codex_fits)"
proof (rule codex.text_contract)
  fix t n e t' assume "pj_inject pj t n e = Ok t'"
  with pj format_okD(2)[OF fmt] obtain d d' where d: "toml_parse fmt (codex_source t) = Ok d" "codex_inject_tree d n e = Ok d'"
      "t' = df_toml_render fmt (codex_source t) d'"
    by (auto simp: projector_for_def codex_inject_def codex_source_def split: if_splits sum.splits)
  with reparsesD[OF format_okD(5)[OF fmt] d(1,2)]
  show "\<exists>d d'. toml_parse fmt (codex_source t) = Ok d \<and> codex_inject_tree d n e = Ok d'
    \<and> toml_parse fmt (codex_source t') = Ok d' \<and> \<not> blank t'" by (simp add: codex_source_def)
next
  fix t d assume "toml_parse fmt (codex_source t) = Ok d"
  with pj format_okD(2)[OF fmt] show "pj_read_entries pj t = Ok (codex_read_tree d)"
    by (auto simp: projector_for_def codex_read_entries_def codex_source_def codex_read_tree_def split: if_splits)
next
  fix t d n e assume "toml_parse fmt (codex_source t) = Ok d"
  with pj format_okD(2)[OF fmt] show "succeeds (pj_inject pj t n e) \<longleftrightarrow> re_transport e \<noteq> Sse \<and> succeeds (codex_inject_tree d n e)"
    by (auto simp: projector_for_def codex_inject_def codex_source_def split: if_splits)
qed

lemma projector_for_ok:
  assumes "format_ok fmt" and "projector_for fmt target = Some pj"
  shows "projector_ok pj (target_image target) (target_fits fmt target)"
  using assms claude_text_ok opencode_text_ok codex_text_ok
  by (cases target) (simp_all add: target_image_def target_fits_def, simp add: projector_for_def)

end
