(* ===== verification/Projection_Cycle.thy ===== *)
theory Projection_Cycle
  imports Projector_Laws
begin

text \<open>
  What a plan finds after the previous one was applied, with the projectors of \<^verbatim>\<open>Projectors\<close>: the
  recorded digests are those of the entries read back, so that no projected entry is reported as
  changed outside Tethys, and an entry is in sync exactly if the file format can say all of it.
\<close>

section \<open>A run of injections\<close>

lemma projector_okD:
  assumes "projector_ok pj img fits" "pj_inject pj t n e = Ok t'" "pj_read_entries pj t = Ok old"
  shows "\<exists>new. pj_read_entries pj t' = Ok new \<and> (fits t n \<longrightarrow> map_of new n = Some (img e))
    \<and> (\<forall>m. m \<noteq> n \<longrightarrow> map_of new m = map_of old m) \<and> (\<forall>m. fits t m \<longrightarrow> fits t' m)
    \<and> (\<forall>m x. succeeds (pj_inject pj t' m x) = succeeds (pj_inject pj t m x))"
  using assms unfolding projector_ok_def by fastforce

lemma project_entries_reads:
  assumes pj: "projector_ok pj img fits"
  shows "project_entries d pj owned on_disk desired content = Ok (final, eps) \<Longrightarrow> distinct (map fst desired)
    \<Longrightarrow> pj_read_entries pj content = Ok old \<Longrightarrow>
    \<exists>new. pj_read_entries pj final = Ok new
      \<and> (\<forall>m x. succeeds (pj_inject pj final m x) = succeeds (pj_inject pj content m x))
      \<and> (\<forall>m. m \<notin> fst ` set desired \<longrightarrow> map_of new m = map_of old m)
      \<and> (\<forall>n e. (n, e) \<in> set desired \<longrightarrow>
           (if injects (entry_plan d (pj_target pj) owned on_disk (n, e))
            then (fits content n \<longrightarrow> map_of new n = Some (img e)) \<and> succeeds (pj_inject pj content n e)
            else map_of new n = map_of old n))"
proof (induction desired arbitrary: content old final eps)
  case Nil
  thus ?case by simp
next
  case (Cons ne desired)
  obtain name entry where ne: "ne = (name, entry)" by (cases ne)
  let ?inj = "\<lambda>n e. injects (entry_plan d (pj_target pj) owned on_disk (n, e))"
  from Cons.prems(1) ne obtain mid eps' where step: "(if ?inj name entry then pj_inject pj content name entry else Ok content) = Ok mid"
    and rest: "project_entries d pj owned on_disk desired mid = Ok (final, eps')"
    by (auto simp: Let_def split: sum.splits)
  have "\<exists>old'. pj_read_entries pj mid = Ok old'
      \<and> (\<forall>m x. succeeds (pj_inject pj mid m x) = succeeds (pj_inject pj content m x))
      \<and> (\<forall>m. m \<noteq> name \<longrightarrow> map_of old' m = map_of old m) \<and> (\<forall>m. fits content m \<longrightarrow> fits mid m)
      \<and> (if ?inj name entry then (fits content name \<longrightarrow> map_of old' name = Some (img entry)) \<and> succeeds (pj_inject pj content name entry)
         else map_of old' name = map_of old name)"
    using projector_okD[OF pj _ Cons.prems(3), of name entry mid] step Cons.prems(3) by (cases "?inj name entry") auto
  then obtain old' where mid: "pj_read_entries pj mid = Ok old'"
      "\<And>m x. succeeds (pj_inject pj mid m x) = succeeds (pj_inject pj content m x)"
      "\<And>m. m \<noteq> name \<Longrightarrow> map_of old' m = map_of old m" "\<And>m. fits content m \<Longrightarrow> fits mid m"
      "if ?inj name entry then (fits content name \<longrightarrow> map_of old' name = Some (img entry)) \<and> succeeds (pj_inject pj content name entry)
         else map_of old' name = map_of old name" by blast
  from Cons.prems(2) ne have names: "distinct (map fst desired)" "name \<notin> fst ` set desired" by auto
  from Cons.IH[OF rest names(1) mid(1)] obtain new where new: "pj_read_entries pj final = Ok new"
      "\<And>m x. succeeds (pj_inject pj final m x) = succeeds (pj_inject pj mid m x)"
      "\<And>m. m \<notin> fst ` set desired \<Longrightarrow> map_of new m = map_of old' m"
      "\<And>n e. (n, e) \<in> set desired \<Longrightarrow>
           if ?inj n e then (fits mid n \<longrightarrow> map_of new n = Some (img e)) \<and> succeeds (pj_inject pj mid n e)
           else map_of new n = map_of old' n" by blast
  have "if ?inj n e then (fits content n \<longrightarrow> map_of new n = Some (img e)) \<and> succeeds (pj_inject pj content n e)
        else map_of new n = map_of old n" if "(n, e) \<in> set (ne # desired)" for n e
  proof (cases "(n, e) = ne")
    case True
    with mid(5) new(3)[OF names(2)] ne show ?thesis by simp
  next
    case False
    with that have "(n, e) \<in> set desired" by simp
    moreover from this names(2) have "n \<noteq> name" by force
    ultimately show ?thesis using new(4)[of n e] mid by (simp split: if_splits)
  qed
  moreover have "map_of new m = map_of old m" if "m \<notin> fst ` set (ne # desired)" for m
    using new(3)[of m] mid(3)[of m] that ne by simp
  moreover have "succeeds (pj_inject pj final m x) = succeeds (pj_inject pj content m x)" for m x
    using new(2) mid(2) by simp
  ultimately show ?case using new(1) by blast
qed

lemma project_entries_succeeds:
  assumes pj: "projector_ok pj img fits"
  shows "pj_read_entries pj content = Ok old \<Longrightarrow>
    (\<And>n e. (n, e) \<in> set desired \<Longrightarrow> injects (entry_plan d (pj_target pj) owned on_disk (n, e)) \<Longrightarrow> succeeds (pj_inject pj content n e))
    \<Longrightarrow> succeeds (project_entries d pj owned on_disk desired content)"
proof (induction desired arbitrary: content old)
  case (Cons ne desired)
  obtain n e where ne: "ne = (n, e)" by (cases ne)
  show ?case
  proof (cases "injects (entry_plan d (pj_target pj) owned on_disk (n, e))")
    case True
    with Cons.prems(2) ne obtain mid where mid: "pj_inject pj content n e = Ok mid" by (force simp: succeeds_iff)
    from projector_okD[OF pj mid Cons.prems(1)] obtain old' where "pj_read_entries pj mid = Ok old'"
        "\<And>m x. succeeds (pj_inject pj mid m x) = succeeds (pj_inject pj content m x)" by blast
    from Cons.IH[OF this(1)] this(2) Cons.prems(2)
    have "succeeds (project_entries d pj owned on_disk desired mid)" by simp
    with True mid ne show ?thesis by (auto simp: Let_def succeeds_iff)
  next
    case False
    with Cons.IH[OF Cons.prems(1)] Cons.prems(2) ne show ?thesis by (auto simp: Let_def succeeds_iff)
  qed
qed simp

section \<open>The next plan\<close>

definition next_request :: "PlanRequest \<Rightarrow> Applied \<Rightarrow> SyncFs \<Rightarrow> PlanRequest" where
  "next_request r a fs = r\<lparr>pr_original := sf_files fs (pr_path r), pr_owned := ap_entries a\<rparr>"

lemma projector_for_target: "projector_for fmt target = Some pj \<Longrightarrow> pj_target pj = target"
  by (cases target) (auto simp: projector_for_def)

lemma projector_for_blank: "projector_for fmt target = Some pj \<Longrightarrow> blank t \<Longrightarrow> pj_read_entries pj t = Ok []"
  by (cases target) (auto simp: projector_for_def claude_read_entries_def opencode_read_entries_def codex_read_entries_def)

lemma plan_projectionE:
  assumes "plan_projection d r = Ok p" "projector_for fmt target = Some (pr_projector r)"
  obtains on_disk where "pj_read_entries (pr_projector r) (original_text r) = Ok on_disk"
    "project_entries d (pr_projector r) (pr_owned r) on_disk (pr_desired r) (original_text r) = Ok (pp_content p, pp_entries p)"
    "pp_path p = pr_path r"
  using assms projector_for_blank[OF assms(2)]
  by (auto simp: plan_projection_def Let_def split: sum.splits if_splits)

lemma plan_projection_read:
  assumes "pj_read_entries (pr_projector r) (original_text r) = Ok on_disk" "projector_for fmt target = Some (pr_projector r)"
    "project_entries d (pr_projector r) (pr_owned r) on_disk (pr_desired r) (original_text r) = Ok (content, eps)"
  shows "\<exists>p. plan_projection d r = Ok p \<and> pp_entries p = eps \<and> pp_content p = content"
  using assms projector_for_blank[OF assms(2), of "original_text r"]
  by (cases "blank (original_text r)") (simp_all add: plan_projection_def Let_def)

lemma apply_planE:
  assumes "apply_plan d hash io ts pj p fs = (Ok a, fs')"
  obtains read_back where "pj_read_entries pj (pp_content p) = Ok read_back"
    "ap_entries a = applied_entries d read_back (pp_entries p)" "sf_files fs' (pp_path p) = Some (pp_content p)"
    "\<And>ep. ep \<in> set (pp_entries p) \<Longrightarrow> ep_state ep \<noteq> Conflict"
  using assms
  by (auto simp: apply_plan_def Let_def write_atomic_def filter_empty_conv split: sum.splits if_splits option.splits list.splits)

lemma applied_entries_digest:
  assumes "ep \<in> set eps" "ep_name ep = n" "ep_projected ep"
  shows "map_of (applied_entries d rb eps) n = map_option (entry_digest d) (map_of rb n)"
proof -
  let ?f = "\<lambda>ep. map_option (\<lambda>w. (ep_name ep, entry_digest d w)) (map_of rb (ep_name ep))"
  have f: "map_of (rev (List.map_filter ?f xs)) n =
      (if \<exists>ep \<in> set xs. ep_name ep = n then map_option (entry_digest d) (map_of rb n) else None)" for xs
    by (induction xs) (auto simp: List.map_filter_simps map_add_def split: option.splits)
  from assms have "\<exists>ep \<in> set (filter ep_projected eps). ep_name ep = n" by auto
  with f[of "filter ep_projected eps"] show ?thesis by (simp only: applied_entries_def map_of_bt_of_list if_True)
qed

lemma entry_plan_name: "ep_name (entry_plan d t owned on_disk (n, e)) = n"
  by (simp add: entry_plan_def Let_def split: prod.splits)

lemma entry_plan_state:
  assumes "re_transport e \<noteq> Sse"
  shows "ep_state (entry_plan d t owned on_disk (n, e)) =
      (if codex_secret t e then Unsupported else fst (ownership_state d e (map_of owned n) (map_of on_disk n)))"
    "ep_projected (entry_plan d t owned on_disk (n, e)) \<longleftrightarrow> ep_state (entry_plan d t owned on_disk (n, e)) \<noteq> Conflict"
  using assms by (auto simp: entry_plan_def codex_secret_def Let_def split: prod.splits)

lemma entry_plan_sse: "re_transport e = Sse \<Longrightarrow> \<not> injects (entry_plan d t owned on_disk (n, e))"
  by (simp add: entry_plan_def injects_def)

lemma ownership_of_current:
  "fst (ownership_state d e (map_option (entry_digest d) current) current) =
     (case current of None \<Rightarrow> Pending | Some c \<Rightarrow> if entry_digest d e = entry_digest d c then InSync else Pending)"
  by (simp add: ownership_state_def split: option.split)

lemma ownership_in_sync:
  "fst (ownership_state d e owned current) = InSync \<longleftrightarrow>
     (\<exists>c. current = Some c \<and> owned = Some (entry_digest d c) \<and> entry_digest d e = entry_digest d c)"
  by (auto simp: ownership_state_def split: option.split)

text \<open>A plan that was applied: \<open>on_disk\<close> and \<open>new\<close> are the entries read before and after.\<close>

definition projected ::
  "Digests \<Rightarrow> DocFormat \<Rightarrow> TargetId \<Rightarrow> PlanRequest \<Rightarrow> ProjectionPlan \<Rightarrow> Applied
    \<Rightarrow> (string, RegistryEntry) btree \<Rightarrow> (string, RegistryEntry) btree \<Rightarrow> bool" where
  "projected d fmt target r p a on_disk new \<longleftrightarrow>
     projector_ok (pr_projector r) (target_image target) (target_fits fmt target) \<and> pj_target (pr_projector r) = target
     \<and> distinct (map fst (pr_desired r))
     \<and> pj_read_entries (pr_projector r) (original_text r) = Ok on_disk
     \<and> project_entries d (pr_projector r) (pr_owned r) on_disk (pr_desired r) (original_text r) = Ok (pp_content p, pp_entries p)
     \<and> pj_read_entries (pr_projector r) (pp_content p) = Ok new
     \<and> ap_entries a = applied_entries d new (pp_entries p)
     \<and> (\<forall>ep \<in> set (pp_entries p). ep_state ep \<noteq> Conflict)"

lemma projectedI:
  assumes "format_ok fmt" and pj: "projector_for fmt target = Some (pr_projector r)"
    and plan: "plan_projection d r = Ok p" and ap: "apply_plan d hash io ts (pr_projector r) p fs = (Ok a, fs')"
    and "distinct (map fst (pr_desired r))"
  shows "\<exists>on_disk new. projected d fmt target r p a on_disk new \<and> original_text (next_request r a fs') = pp_content p"
proof (rule plan_projectionE[OF plan pj], rule apply_planE[OF ap])
  fix on_disk new
  assume "pj_read_entries (pr_projector r) (original_text r) = Ok on_disk"
    "project_entries d (pr_projector r) (pr_owned r) on_disk (pr_desired r) (original_text r) = Ok (pp_content p, pp_entries p)"
    "pp_path p = pr_path r" "pj_read_entries (pr_projector r) (pp_content p) = Ok new"
    "ap_entries a = applied_entries d new (pp_entries p)" "sf_files fs' (pp_path p) = Some (pp_content p)"
    "\<And>ep. ep \<in> set (pp_entries p) \<Longrightarrow> ep_state ep \<noteq> Conflict"
  thus ?thesis using projector_for_ok[OF assms(1) pj] projector_for_target[OF pj] assms(5)
    by (auto simp: projected_def next_request_def original_text_def)
qed

lemma projected_entries:
  "projected d fmt target r p a on_disk new \<Longrightarrow> pp_entries p = map (entry_plan d target (pr_owned r) on_disk) (pr_desired r)"
  unfolding projected_def using project_entries_states by blast

lemma projected_owned:
  assumes pr: "projected d fmt target r p a on_disk new" and ne: "(n, e) \<in> set (pr_desired r)" "re_transport e \<noteq> Sse"
  shows "map_of (ap_entries a) n = map_option (entry_digest d) (map_of new n)"
proof -
  let ?ep = "entry_plan d target (pr_owned r) on_disk (n, e)"
  have ep: "?ep \<in> set (pp_entries p)" using projected_entries[OF pr] ne by simp
  with pr entry_plan_state(2)[OF ne(2)] have "ep_projected ?ep" unfolding projected_def by blast
  from applied_entries_digest[OF ep entry_plan_name this] pr show ?thesis by (simp add: projected_def)
qed

lemma projected_reads:
  assumes pr: "projected d fmt target r p a on_disk new"
  shows "succeeds (pj_inject (pr_projector r) (pp_content p) m x) = succeeds (pj_inject (pr_projector r) (original_text r) m x)"
    and "(n, e) \<in> set (pr_desired r) \<Longrightarrow>
       if injects (entry_plan d target (pr_owned r) on_disk (n, e))
       then (target_fits fmt target (original_text r) n \<longrightarrow> map_of new n = Some (target_image target e))
         \<and> succeeds (pj_inject (pr_projector r) (original_text r) n e)
       else map_of new n = map_of on_disk n"
proof -
  from pr have "pj_read_entries (pr_projector r) (pp_content p) = Ok new" "pj_target (pr_projector r) = target"
    by (simp_all add: projected_def)
  moreover from pr project_entries_reads[of "pr_projector r" "target_image target" "target_fits fmt target" d "pr_owned r" on_disk
      "pr_desired r" "original_text r" "pp_content p" "pp_entries p" on_disk]
  have "\<exists>new. pj_read_entries (pr_projector r) (pp_content p) = Ok new
      \<and> (\<forall>m x. succeeds (pj_inject (pr_projector r) (pp_content p) m x) = succeeds (pj_inject (pr_projector r) (original_text r) m x))
      \<and> (\<forall>m. m \<notin> fst ` set (pr_desired r) \<longrightarrow> map_of new m = map_of on_disk m)
      \<and> (\<forall>n e. (n, e) \<in> set (pr_desired r) \<longrightarrow>
           (if injects (entry_plan d (pj_target (pr_projector r)) (pr_owned r) on_disk (n, e))
            then (target_fits fmt target (original_text r) n \<longrightarrow> map_of new n = Some (target_image target e))
              \<and> succeeds (pj_inject (pr_projector r) (original_text r) n e)
            else map_of new n = map_of on_disk n))"
    unfolding projected_def by blast
  ultimately show "succeeds (pj_inject (pr_projector r) (pp_content p) m x) = succeeds (pj_inject (pr_projector r) (original_text r) m x)"
    "(n, e) \<in> set (pr_desired r) \<Longrightarrow>
       if injects (entry_plan d target (pr_owned r) on_disk (n, e))
       then (target_fits fmt target (original_text r) n \<longrightarrow> map_of new n = Some (target_image target e))
         \<and> succeeds (pj_inject (pr_projector r) (original_text r) n e)
       else map_of new n = map_of on_disk n"
    by auto
qed

lemma projected_settled:
  assumes pr: "projected d fmt target r p a on_disk new" and ne: "(n, e) \<in> set (pr_desired r)" "re_transport e \<noteq> Sse"
    and no: "\<not> injects (entry_plan d target (pr_owned r) on_disk (n, e))"
  shows "\<exists>c. map_of new n = Some c \<and> entry_digest d e = entry_digest d c \<and> \<not> codex_secret target e"
proof -
  let ?ep = "entry_plan d target (pr_owned r) on_disk (n, e)"
  have "?ep \<in> set (pp_entries p)" using projected_entries[OF pr] ne by simp
  with pr have "ep_state ?ep \<noteq> Conflict" unfolding projected_def by blast
  with entry_plan_state(2)[OF ne(2)] no have "ep_state ?ep = InSync" by (auto simp: injects_def)
  with entry_plan_state(1)[OF ne(2), of d target "pr_owned r" on_disk n] projected_reads(2)[OF pr ne(1)] no
  show ?thesis by (auto simp: ownership_in_sync eq_commute[of InSync] split: if_splits)
qed

lemma projected_state:
  assumes pr: "projected d fmt target r p a on_disk new" and ne: "(n, e) \<in> set (pr_desired r)" "re_transport e \<noteq> Sse"
  shows "ep_state (entry_plan d target (ap_entries a) new (n, e)) =
     (if codex_secret target e then Unsupported
      else case map_of new n of None \<Rightarrow> Pending | Some c \<Rightarrow> if entry_digest d e = entry_digest d c then InSync else Pending)"
  using entry_plan_state(1)[OF ne(2)] projected_owned[OF pr ne] by (simp add: ownership_of_current)

text \<open>An entry that the first plan left alone is not injected by a later plan over the new text either.\<close>

lemma projected_again:
  assumes pr: "projected d fmt target r p a on_disk new" and ne: "(n, e) \<in> set (pr_desired r)"
    and inj: "injects (entry_plan d target owned new (n, e))" and owned: "map_of owned n = None \<or> owned = ap_entries a"
  shows "succeeds (pj_inject (pr_projector r) (pp_content p) n e)"
proof (cases "injects (entry_plan d target (pr_owned r) on_disk (n, e))")
  case True
  with projected_reads(2)[OF pr ne] projected_reads(1)[OF pr] show ?thesis by simp
next
  case False
  from inj entry_plan_sse have sse: "re_transport e \<noteq> Sse" by blast
  from projected_settled[OF pr ne sse False] obtain c where c: "map_of new n = Some c" "entry_digest d e = entry_digest d c"
    "\<not> codex_secret target e" by blast
  from owned projected_owned[OF pr ne sse] c
  have "fst (ownership_state d e (map_of owned n) (map_of new n)) \<in> {Conflict, InSync}"
    by (auto simp: ownership_state_def)
  with entry_plan_state[OF sse, of d target owned new n] c(3) inj have False by (auto simp: injects_def)
  thus ?thesis ..
qed

lemma plan_over_projected:
  assumes pr: "projected d fmt target r p a on_disk new" and pj: "projector_for fmt target = Some (pr_projector r)"
    and r': "pr_projector r' = pr_projector r" "pr_desired r' = pr_desired r" "original_text r' = pp_content p"
    and owned: "pr_owned r' = [] \<or> pr_owned r' = ap_entries a"
  shows "\<exists>p'. plan_projection d r' = Ok p' \<and> pp_entries p' = map (entry_plan d target (pr_owned r') new) (pr_desired r)"
proof -
  from pr have new: "pj_read_entries (pr_projector r) (pp_content p) = Ok new"
    and ok: "projector_ok (pr_projector r) (target_image target) (target_fits fmt target)"
    and target: "pj_target (pr_projector r) = target" by (simp_all add: projected_def)
  have "succeeds (pj_inject (pr_projector r) (pp_content p) n e)"
    if "(n, e) \<in> set (pr_desired r)" "injects (entry_plan d target (pr_owned r') new (n, e))" for n e
    using projected_again[OF pr that] owned by auto
  with project_entries_succeeds[OF ok new, of "pr_desired r" d "pr_owned r'" new] target
  obtain content' eps' where again: "project_entries d (pr_projector r) (pr_owned r') new (pr_desired r) (pp_content p) = Ok (content', eps')"
    by (auto simp: succeeds_iff)
  with plan_projection_read[of r' new fmt target d content' eps'] new pj r'
  obtain p' where "plan_projection d r' = Ok p'" "pp_entries p' = eps'" by auto
  with project_entries_states[OF again] target show ?thesis by simp
qed

lemma replan_succeeds:
  assumes "projected d fmt target r p a on_disk new" "projector_for fmt target = Some (pr_projector r)"
    "original_text (next_request r a fs') = pp_content p"
  shows "\<exists>p'. plan_projection d (next_request r a fs') = Ok p'
    \<and> pp_entries p' = map (entry_plan d target (ap_entries a) new) (pr_desired r)"
  using plan_over_projected[OF assms(1,2), of "next_request r a fs'"] assms(3) by (simp add: next_request_def)

lemma last_entry_value: "last_entry f fs m = Some c \<Longrightarrow> \<exists>v. f v = Some c"
  by (induction f fs m rule: last_entry.induct) (auto split: option.splits if_splits)

lemma item_scope:
  "claude_entry_from_value v = Some c \<Longrightarrow> em_scope (re_meta c) = None"
  "opencode_entry_from_value v = Some c \<Longrightarrow> em_scope (re_meta c) = None"
  "legacy_entry v = Some c \<Longrightarrow> em_scope (re_meta c) = None"
  "codex_item item = Some c \<Longrightarrow> em_scope (re_meta c) = None"
  by (auto simp: claude_entry_from_value_def opencode_entry_from_value_def legacy_entry_def codex_item_def
      codex_entry_from_table_def default_meta_def Let_def case_prod_unfold)

lemma last_entry_scope:
  "last_entry claude_entry_from_value fs m = Some c \<Longrightarrow> em_scope (re_meta c) = None"
  "last_entry opencode_entry_from_value fs m = Some c \<Longrightarrow> em_scope (re_meta c) = None"
  "last_entry legacy_entry fs m = Some c \<Longrightarrow> em_scope (re_meta c) = None"
  "last_entry codex_item items m = Some c \<Longrightarrow> em_scope (re_meta c) = None"
  by (drule last_entry_value, elim exE, erule item_scope)+

lemma claude_read_scope:
  assumes "map_of (claude_read_tree d) n = Some c"
  shows "em_scope (re_meta c) = None"
proof (cases "\<exists>fs. d = J_Object fs")
  case True
  with assms obtain fs where "last_entry claude_entry_from_value fs n = Some c" by (auto simp: claude_read_object)
  thus ?thesis by (rule last_entry_scope(1))
next
  case False
  with assms show ?thesis by (cases d) (auto simp: claude_read_tree_def)
qed

lemma opencode_read_scope:
  assumes "map_of (opencode_read_tree d) n = Some c"
  shows "em_scope (re_meta c) = None"
proof (cases "\<exists>fs. d = J_Object fs")
  case True
  then obtain fs where d: "d = J_Object fs" ..
  let ?mcp = "object_or_set fs ''mcp''"
  have "map_of (rev (legacy_entries ?mcp)) n = Some c \<or> last_entry opencode_entry_from_value (object_or_set ?mcp ''servers'') n = Some c"
    using assms by (simp add: d opencode_read_object Let_def split: option.splits)
  thus ?thesis unfolding legacy_entries_def map_of_map_filter by (blast dest: last_entry_scope)
next
  case False
  with assms show ?thesis by (cases d) (auto simp: opencode_read_tree_def)
qed

lemma codex_read_scope:
  assumes "map_of (codex_read_tree doc) n = Some c"
  shows "em_scope (re_meta c) = None"
proof (cases "table_or_insert doc ''mcp_servers''")
  case (Inr servers)
  with assms codex_read_last[OF Inr, of n] show ?thesis by (simp add: last_entry_scope)
next
  case (Inl e)
  with assms show ?thesis by (auto simp: codex_read_tree_def table_or_insert_def split: option.splits)
qed

lemma read_scope:
  assumes "projector_for fmt target = Some pj" "pj_read_entries pj t = Ok entries" "map_of entries n = Some c"
  shows "em_scope (re_meta c) = None"
  using assms claude_read_scope opencode_read_scope codex_read_scope
  by (cases target) (auto simp: projector_for_def claude_read_entries_def opencode_read_entries_def codex_read_entries_def
      split: if_splits sum.splits)

section \<open>A concrete format\<close>

text \<open>A prefix code for documents, with its parser; it satisfies \<open>format_ok\<close>.\<close>

fun enc_str :: "string \<Rightarrow> string" where
  "enc_str [] = ''.''"
| "enc_str (c # s) = CHR ''+'' # c # enc_str s"

fun dec_str :: "string \<Rightarrow> (string \<times> string) option" where
  "dec_str [] = None"
| "dec_str (x # s) =
     (if x = CHR ''.'' then Some ([], s)
      else case s of [] \<Rightarrow> None | c # s' \<Rightarrow> map_option (apfst ((#) c)) (dec_str s'))"

fun print_json :: "Json \<Rightarrow> string"
and print_items :: "Json list \<Rightarrow> string"
and print_fields :: "(string \<times> Json) list \<Rightarrow> string" where
  "print_json J_Null = ''n''"
| "print_json (J_Bool b) = (if b then ''t'' else ''f'')"
| "print_json (J_Number s) = CHR ''#'' # enc_str s"
| "print_json (J_String s) = CHR ''s'' # enc_str s"
| "print_json (J_Array xs) = CHR ''['' # print_items xs"
| "print_json (J_Object fs) = CHR ''{'' # print_fields fs"
| "print_items [] = '']''"
| "print_items (x # xs) = CHR '','' # print_json x @ print_items xs"
| "print_fields [] = ''}''"
| "print_fields ((k, x) # fs) = CHR '','' # enc_str k @ print_json x @ print_fields fs"

fun scan_json :: "nat \<Rightarrow> string \<Rightarrow> (Json \<times> string) option"
and scan_items :: "nat \<Rightarrow> string \<Rightarrow> (Json list \<times> string) option"
and scan_fields :: "nat \<Rightarrow> string \<Rightarrow> ((string \<times> Json) list \<times> string) option" where
  "scan_json 0 s = None"
| "scan_json (Suc f) s =
     (case s of
        [] \<Rightarrow> None
      | c # s \<Rightarrow>
          if c = CHR ''n'' then Some (J_Null, s)
          else if c = CHR ''t'' then Some (J_Bool True, s)
          else if c = CHR ''f'' then Some (J_Bool False, s)
          else if c = CHR ''#'' then map_option (apfst J_Number) (dec_str s)
          else if c = CHR ''s'' then map_option (apfst J_String) (dec_str s)
          else if c = CHR ''['' then map_option (apfst J_Array) (scan_items f s)
          else if c = CHR ''{'' then map_option (apfst J_Object) (scan_fields f s)
          else None)"
| "scan_items 0 s = None"
| "scan_items (Suc f) s =
     (case s of
        [] \<Rightarrow> None
      | c # s \<Rightarrow>
          if c = CHR '']'' then Some ([], s)
          else case scan_json f s of
              None \<Rightarrow> None
            | Some (x, s) \<Rightarrow> map_option (apfst ((#) x)) (scan_items f s))"
| "scan_fields 0 s = None"
| "scan_fields (Suc f) s =
     (case s of
        [] \<Rightarrow> None
      | c # s \<Rightarrow>
          if c = CHR ''}'' then Some ([], s)
          else case dec_str s of
              None \<Rightarrow> None
            | Some (k, s) \<Rightarrow>
                (case scan_json f s of
                   None \<Rightarrow> None
                 | Some (x, s) \<Rightarrow> map_option (apfst ((#) (k, x))) (scan_fields f s)))"

lemma dec_enc_str [simp]: "dec_str (enc_str s @ rest) = Some (s, rest)"
  by (induction s) simp_all

lemma scan_print:
  "length (print_json j) \<le> f \<Longrightarrow> scan_json f (print_json j @ rest) = Some (j, rest)"
  "length (print_items js) \<le> f \<Longrightarrow> scan_items f (print_items js @ rest) = Some (js, rest)"
  "length (print_fields fs) \<le> f \<Longrightarrow> scan_fields f (print_fields fs @ rest) = Some (fs, rest)"
proof (induction j and js and fs arbitrary: f rest and f rest and f rest rule: print_json_print_items_print_fields.induct)
  case (5 xs f rest)
  then obtain g where g: "f = Suc g" "length (print_items xs) \<le> g" by (cases f) auto
  with "5.IH" show ?case by simp
next
  case (6 fs f rest)
  then obtain g where g: "f = Suc g" "length (print_fields fs) \<le> g" by (cases f) auto
  with "6.IH" show ?case by simp
next
  case (8 x xs f rest)
  then obtain g where g: "f = Suc g" "length (print_json x) \<le> g" "length (print_items xs) \<le> g" by (cases f) auto
  with "8.IH" show ?case by simp
next
  case (10 k x fs f rest)
  then obtain g where g: "f = Suc g" "length (print_json x) \<le> g" "length (print_fields fs) \<le> g" by (cases f) auto
  with "10.IH" show ?case by simp
next
  case (1 f rest)
  then show ?case by (cases f) simp_all
next
  case (2 b f rest)
  then show ?case by (cases f; cases b) simp_all
next
  case (3 s f rest)
  then show ?case by (cases f) simp_all
next
  case (4 s f rest)
  then show ?case by (cases f) simp_all
next
  case (7 f rest)
  then show ?case by (cases f) simp_all
next
  case (9 f rest)
  then show ?case by (cases f) simp_all
qed

fun toml_json :: "Toml \<Rightarrow> Json" where
  "toml_json (T_Str s) = J_String s"
| "toml_json (T_Array xs) = J_Array (map toml_json xs)"
| "toml_json (T_Table fs) = J_Object (map (\<lambda>kv. (fst kv, toml_json (snd kv))) fs)"
| "toml_json (T_Other s) = J_Number s"

fun json_toml :: "Json \<Rightarrow> Toml" where
  "json_toml (J_String s) = T_Str s"
| "json_toml (J_Array xs) = T_Array (map json_toml xs)"
| "json_toml (J_Object fs) = T_Table (map (\<lambda>kv. (fst kv, json_toml (snd kv))) fs)"
| "json_toml (J_Number s) = T_Other s"
| "json_toml _ = T_Other []"

lemma json_toml_json [simp]: "json_toml (toml_json t) = t"
  by (induction t rule: toml_json.induct) (auto simp: comp_def intro!: map_idI)

definition scan_doc :: "string \<Rightarrow> string + Json" where
  "scan_doc s = (case scan_json (length s) s of Some (d, []) \<Rightarrow> Ok d | _ \<Rightarrow> Err ''unexpected token'')"

definition code_format :: DocFormat where
  "code_format = \<lparr>df_json_parse = (\<lambda>loose. scan_doc), df_json_render = (\<lambda>source. print_json),
     df_toml_parse = (\<lambda>s. if s = [] then Ok [] else case scan_doc s of
         Ok (J_Object fs) \<Rightarrow> Ok (map (\<lambda>kv. (fst kv, json_toml (snd kv))) fs) | _ \<Rightarrow> Err ''expected a table''),
     df_toml_render = (\<lambda>source doc. print_json (toml_json (T_Table doc)))\<rparr>"

lemma scan_doc_print [simp]: "scan_doc (print_json d) = Ok d"
  using scan_print(1)[of d "length (print_json d)" "[]"] by (simp add: scan_doc_def)

lemma print_not_blank: "\<not> blank (print_json d)"
  by (cases d) (auto simp: blank_def is_space_def)

lemma code_format_ok: "format_ok code_format"
proof -
  have "print_json (J_Object []) = ''{}''" by simp
  hence "scan_doc ''{}'' = Ok (J_Object [])" using scan_doc_print by metis
  moreover have "print_json d \<noteq> []" for d by (cases d) auto
  ultimately show ?thesis
    by (simp add: format_ok_def reparses_def code_format_def json_parse_def toml_parse_def print_not_blank comp_def
        print_not_blank[of "J_Object _", simplified] del: print_json.simps)
qed


section \<open>Properties\<close>

text \<open>
  C12. After a plan was applied, the next plan over the written file and the recorded digests
  succeeds, and a projected entry is never reported as changed outside Tethys: it is in sync if it
  was in sync before or if its image in the target's file format has its digest, and pending
  otherwise. This holds of the projectors of all three targets, for a name that occurs at most once
  in the file (and is no legacy OpenCode entry), entries with SSE transport and Codex stdio entries
  with secrets apart.
\<close>

theorem replan_after_apply:
  assumes fmt: "format_ok fmt" and pj: "projector_for fmt target = Some (pr_projector r)"
    and plan: "plan_projection d r = Ok p" and ap: "apply_plan d hash io ts (pr_projector r) p fs = (Ok a, fs')"
    and names: "distinct (map fst (pr_desired r))" and ne: "(n, e) \<in> set (pr_desired r)"
    and e: "re_transport e \<noteq> Sse" "\<not> codex_secret target e" and fits: "target_fits fmt target (original_text r) n"
  shows "\<exists>p' ep ep'. plan_projection d (next_request r a fs') = Ok p'
    \<and> ep \<in> set (pp_entries p) \<and> ep_name ep = n \<and> ep' \<in> set (pp_entries p') \<and> ep_name ep' = n
    \<and> ep_state ep' = (if ep_state ep = InSync \<or> entry_digest d e = entry_digest d (target_image target e)
                      then InSync else Pending)"
proof -
  from projectedI[OF fmt pj plan ap names] obtain on_disk new where pr: "projected d fmt target r p a on_disk new"
    and same: "original_text (next_request r a fs') = pp_content p" by blast
  from replan_succeeds[OF pr pj same] obtain p' where p': "plan_projection d (next_request r a fs') = Ok p'"
    "pp_entries p' = map (entry_plan d target (ap_entries a) new) (pr_desired r)" by blast
  let ?ep = "entry_plan d target (pr_owned r) on_disk (n, e)" and ?ep' = "entry_plan d target (ap_entries a) new (n, e)"
  have mem: "?ep \<in> set (pp_entries p)" "?ep' \<in> set (pp_entries p')" using projected_entries[OF pr] p'(2) ne by simp_all
  from mem(1) pr have "ep_state ?ep \<noteq> Conflict" unfolding projected_def by blast
  hence inj: "injects ?ep \<longleftrightarrow> ep_state ?ep \<noteq> InSync" using entry_plan_state(2)[OF e(1)] by (simp add: injects_def)
  have "ep_state ?ep' = (if ep_state ?ep = InSync \<or> entry_digest d e = entry_digest d (target_image target e) then InSync else Pending)"
  proof (cases "injects ?ep")
    case True
    with projected_reads(2)[OF pr ne] fits have "map_of new n = Some (target_image target e)" by simp
    with projected_state[OF pr ne e(1)] e(2) inj True show ?thesis by simp
  next
    case False
    with projected_settled[OF pr ne e(1) False] projected_state[OF pr ne e(1)] e(2) inj show ?thesis by auto
  qed
  with p'(1) mem entry_plan_name show ?thesis by blast
qed

lemma apply_plan_succeeds:
  assumes "sf_files fs (pp_path p) = Some t" "pp_base_hash p = file_digest d t" "succeeds (pj_read_entries pj (pp_content p))"
    "\<And>ep. ep \<in> set (pp_entries p) \<Longrightarrow> ep_state ep \<noteq> Conflict"
  shows "\<exists>a fs'. apply_plan d hash no_faults ts pj p fs = (Ok a, fs')"
  using assms by (auto simp: apply_plan_def Let_def read_text_def no_faults_def succeeds_iff filter_empty_conv)

lemma replan_applies:
  assumes pr: "projected d fmt target r p a on_disk new" and pj: "projector_for fmt target = Some (pr_projector r)"
    and held: "sf_files fs' (pr_path r) = Some (pp_content p)" and plan: "plan_projection d (next_request r a fs') = Ok p2"
  shows "\<exists>a2 fs2. apply_plan d hash no_faults ts (pr_projector r) p2 fs' = (Ok a2, fs2)"
proof (rule apply_plan_succeeds)
  have same: "original_text (next_request r a fs') = pp_content p" using held by (simp add: next_request_def original_text_def)
  have p2: "pp_path p2 = pr_path r" "pp_base_hash p2 = file_digest d (pp_content p)"
    using plan_entries[OF plan] same by (auto simp: next_request_def)
  from p2(1) held show "sf_files fs' (pp_path p2) = Some (pp_content p)" by simp
  from p2(2) show "pp_base_hash p2 = file_digest d (pp_content p)" .
  have r: "pr_projector (next_request r a fs') = pr_projector r" "pr_desired (next_request r a fs') = pr_desired r"
    by (simp_all add: next_request_def)
  from plan_projectionE[OF plan, of fmt target] pj r obtain on_disk' where
    "pj_read_entries (pr_projector r) (pp_content p) = Ok on_disk'"
    "project_entries d (pr_projector r) (pr_owned (next_request r a fs')) on_disk' (pr_desired r) (pp_content p)
       = Ok (pp_content p2, pp_entries p2)" using same by auto
  with project_entries_reads[of "pr_projector r" "target_image target" "target_fits fmt target"] pr
  show "succeeds (pj_read_entries (pr_projector r) (pp_content p2))" unfolding projected_def succeeds_iff by metis
  fix ep assume "ep \<in> set (pp_entries p2)"
  with replan_succeeds[OF pr pj same] plan obtain n e where ne: "(n, e) \<in> set (pr_desired r)"
    "ep = entry_plan d target (ap_entries a) new (n, e)" by auto
  show "ep_state ep \<noteq> Conflict"
  proof (cases "re_transport e = Sse")
    case True
    with ne(2) show ?thesis by (simp add: entry_plan_def)
  next
    case False
    from projected_state[OF pr ne(1) False] ne(2) show ?thesis by (simp split: option.split)
  qed
qed

text \<open>
  A registry entry that carries its scope, as every entry written by \<^verbatim>\<open>mcp_registry_set\<close> and
  \<^verbatim>\<open>apply_import\<close> does, is never in sync with any file: the digest covers the metadata, and what is
  read back from a file has none. Every plan that has no conflict for it writes it again.
\<close>

theorem scoped_entry_never_in_sync:
  assumes pj: "projector_for fmt target = Some (pr_projector r)" and plan: "plan_projection d r = Ok p"
    and digest: "\<And>x y. entry_digest d x = entry_digest d y \<Longrightarrow> em_scope (re_meta x) = em_scope (re_meta y)"
    and ne: "(n, e) \<in> set (pr_desired r)" "distinct (map fst (pr_desired r))" and e: "em_scope (re_meta e) \<noteq> None"
    and ep: "ep \<in> set (pp_entries p)" "ep_name ep = n"
  shows "ep_state ep \<noteq> InSync \<and> (ep_state ep = Conflict \<or> re_transport e = Sse \<or> injects ep)"
proof -
  from plan_projectionE[OF plan pj] obtain on_disk where on_disk: "pj_read_entries (pr_projector r) (original_text r) = Ok on_disk"
    "project_entries d (pr_projector r) (pr_owned r) on_disk (pr_desired r) (original_text r) = Ok (pp_content p, pp_entries p)"
    by metis
  let ?ep = "entry_plan d target (pr_owned r) on_disk (n, e)"
  have "ep = ?ep" using ep ne project_entries_states[OF on_disk(2)] projector_for_target[OF pj]
    by (auto simp: entry_plan_name dest: eq_key_imp_eq_value)
  moreover have "ep_state ?ep \<noteq> InSync"
  proof (cases "re_transport e = Sse")
    case False
    have "fst (ownership_state d e (map_of (pr_owned r) n) (map_of on_disk n)) \<noteq> InSync"
      using read_scope[OF pj on_disk(1)] digest e unfolding ownership_in_sync by metis
    with entry_plan_state(1)[OF False] show ?thesis by auto
  qed (simp add: entry_plan_def)
  ultimately show ?thesis using entry_plan_state(2)[of e] unfolding injects_def by blast
qed

lemma applied_not_blank:
  assumes pr: "projected d fmt target r p a on_disk new" and pj: "projector_for fmt target = Some (pr_projector r)"
    and cur: "map_of new n = Some c"
  shows "\<not> blank (pp_content p)"
proof
  assume "blank (pp_content p)"
  from projector_for_blank[OF pj this] pr have "new = []" by (simp add: projected_def)
  with cur show False by simp
qed

lemma rollback_restores:
  assumes ap: "apply_plan d hash io ts pj p fs = (Ok a, fs')" and cur: "sf_files fs (pp_path p) = Some t"
    and created: "\<not> pp_created p" and keys: "\<And>k. k \<in> fst ` set (sf_backups fs (encode_path hash (pp_path p))) \<Longrightarrow> k < backup_name ts"
  shows "\<exists>fs''. rollback d hash no_faults force a fs' = (Ok (), fs'') \<and> sf_files fs'' (pp_path p) = Some t"
  using apply_plan_ok[OF ap] created newest_after_backup[OF cur keys]
  by (auto simp: rollback_def Let_def read_text_def no_faults_def)

text \<open>
  C13. Rolling back after two applications orphans the entries: the rollback restores the text of
  the first application, which holds the entry, while the record of ownership is gone, so that the
  next plan takes the entry for a foreign one and can never be applied. (A second application is the
  rule, as an entry whose image has another digest is written by every plan.)
\<close>

theorem rollback_after_two_applies_orphans:
  assumes fmt: "format_ok fmt" and pj: "projector_for fmt target = Some (pr_projector r)"
    and plan1: "plan_projection d r = Ok p1" and ap1: "apply_plan d hash io ts1 (pr_projector r) p1 fs = (Ok a1, fs1)"
    and plan2: "plan_projection d (next_request r a1 fs1) = Ok p2"
    and ap2: "apply_plan d hash io ts2 (pr_projector r) p2 fs1 = (Ok a2, fs2)"
    and keys: "\<And>k. k \<in> fst ` set (sf_backups fs1 (encode_path hash (pr_path r))) \<Longrightarrow> k < backup_name ts2"
    and names: "distinct (map fst (pr_desired r))" and ne: "(n, e) \<in> set (pr_desired r)"
    and e: "re_transport e \<noteq> Sse" "\<not> codex_secret target e"
    and fits: "target_fits fmt target (original_text r) n"
  shows "\<exists>fs3 p3 ep. rollback d hash no_faults False a2 fs2 = (Ok (), fs3)
    \<and> plan_projection d (r\<lparr>pr_original := sf_files fs3 (pr_path r), pr_owned := []\<rparr>) = Ok p3
    \<and> ep \<in> set (pp_entries p3) \<and> ep_name ep = n \<and> ep_state ep = Conflict
    \<and> (\<forall>io ts. \<exists>err. apply_plan d hash io ts (pr_projector r) p3 fs3 = (Err err, fs3))"
proof -
  from projectedI[OF fmt pj plan1 ap1 names] obtain on_disk new where pr: "projected d fmt target r p1 a1 on_disk new"
    and same: "original_text (next_request r a1 fs1) = pp_content p1" by blast
  obtain c where cur: "map_of new n = Some c"
    using projected_reads(2)[OF pr ne] projected_settled[OF pr ne e(1)] fits by (auto split: if_splits)
  have path: "pp_path p1 = pr_path r" "pp_path p2 = pr_path r" "pp_created p2 = blank (pp_content p1)"
    using plan_entries[OF plan1] plan_entries[OF plan2] same by (auto simp: next_request_def)
  have held: "sf_files fs1 (pp_path p2) = Some (pp_content p1)" using apply_plan_ok(2)[OF ap1] path by simp
  have "\<not> pp_created p2" using applied_not_blank[OF pr pj cur] path(3) by simp
  from rollback_restores[OF ap2 held this, of False] keys path(2)
  obtain fs3 where fs3: "rollback d hash no_faults False a2 fs2 = (Ok (), fs3)" "sf_files fs3 (pr_path r) = Some (pp_content p1)" by auto
  let ?r = "r\<lparr>pr_original := sf_files fs3 (pr_path r), pr_owned := []\<rparr>"
  from plan_over_projected[OF pr pj, of ?r] fs3(2) obtain p3 where p3: "plan_projection d ?r = Ok p3"
    "pp_entries p3 = map (entry_plan d target [] new) (pr_desired r)" by (auto simp: original_text_def)
  let ?ep = "entry_plan d target [] new (n, e)"
  have ep: "?ep \<in> set (pp_entries p3)" using p3(2) ne by simp
  have "ep_state ?ep = Conflict" using entry_plan_state(1)[OF e(1), of d target "[]" new n] e(2) cur by (simp add: ownership_state_def)
  with fs3(1) p3(1) ep entry_plan_name apply_plan_conflict[OF ep this] show ?thesis by blast
qed

subsection \<open>Witnesses\<close>

definition scope_digests :: Digests where
  "scope_digests = \<lparr>file_digest = id, entry_digest = (\<lambda>e. case em_scope (re_meta e) of None \<Rightarrow> ''n'' | Some Global \<Rightarrow> ''g'' | _ \<Rightarrow> ''w''),
     unified_diff = (\<lambda>a b. [])\<rparr>"

definition cycle_entry :: RegistryEntry where
  "cycle_entry = \<lparr>re_transport = Stdio, re_command = Some ''c'', re_args = [], re_env = [], re_url = None, re_headers = [],
     re_meta = default_meta\<lparr>em_scope := Some Global\<rparr>\<rparr>"

definition cycle_request :: PlanRequest where
  "cycle_request = \<lparr>pr_projector = the (projector_for code_format T_ClaudeCode), pr_path = ''f'', pr_scope = Workspace,
     pr_original = None, pr_desired = [(''a'', cycle_entry)], pr_owned = []\<rparr>"

definition cycle_plan :: ProjectionPlan where
  "cycle_plan = projr (plan_projection scope_digests cycle_request)"

lemma code_parse_empty: "json_parse code_format loose ''{}'' = Ok (J_Object [])"
  using code_format_ok by (simp add: format_ok_def)

lemma code_parse_print [simp]: "json_parse code_format loose (print_json d) = Ok d"
  by (simp add: json_parse_def code_format_def)

lemma code_render [simp]: "df_json_render code_format src = print_json"
  by (simp add: code_format_def)

lemma blank_Nil [simp]: "blank []"
  by (simp add: blank_def)

lemmas cycle_defs = cycle_request_def cycle_entry_def plan_projection_def original_text_def entry_plan_def ownership_state_def
  injects_def has_secret_env_def projector_for_def claude_inject_def json_edit_def claude_source_def claude_inject_tree_def
  claude_entry_value_def required_def root_object_def code_parse_empty Let_def

lemma cycle_plan_ok: "plan_projection scope_digests cycle_request = Ok cycle_plan"
  by (simp add: cycle_plan_def cycle_defs del: print_json.simps)

lemma cycle_entries: "map ep_name (pp_entries cycle_plan) = [''a''] \<and> map ep_state (pp_entries cycle_plan) = [Pending]"
  by (simp add: cycle_plan_def cycle_defs del: print_json.simps)


definition no_files :: SyncFs where
  "no_files = \<lparr>sf_files = Map.empty, sf_backups = (\<lambda>_. [])\<rparr>"

lemma cycle_applied: "\<exists>a fs'. apply_plan scope_digests id no_faults 1 (pr_projector cycle_request) cycle_plan no_files = (Ok a, fs')"
  by (simp add: cycle_plan_def cycle_defs apply_plan_def read_text_def no_faults_def no_files_def scope_digests_def
      claude_read_entries_def print_not_blank del: print_json.simps)

theorem replan_after_apply_witness:
  "\<exists>a fs' p' ep'. apply_plan scope_digests id no_faults 1 (pr_projector cycle_request) cycle_plan no_files = (Ok a, fs')
     \<and> plan_projection scope_digests (next_request cycle_request a fs') = Ok p'
     \<and> ep' \<in> set (pp_entries p') \<and> ep_name ep' = ''a'' \<and> ep_state ep' = Pending"
proof -
  obtain a fs' where ap: "apply_plan scope_digests id no_faults 1 (pr_projector cycle_request) cycle_plan no_files = (Ok a, fs')"
    using cycle_applied by blast
  have "projector_for code_format T_ClaudeCode = Some (pr_projector cycle_request)" "distinct (map fst (pr_desired cycle_request))"
    "(''a'', cycle_entry) \<in> set (pr_desired cycle_request)" "re_transport cycle_entry \<noteq> Sse" "\<not> codex_secret T_ClaudeCode cycle_entry"
    by (simp_all add: cycle_request_def projector_for_def cycle_entry_def codex_secret_def)
  moreover have "target_fits code_format T_ClaudeCode (original_text cycle_request) ''a''"
    by (simp add: target_fits_def fits_in_def cycle_request_def original_text_def claude_source_def code_parse_empty claude_fits_def
        object_or_set_def object_value_def occurrences_def)
  ultimately obtain p' ep ep' where "plan_projection scope_digests (next_request cycle_request a fs') = Ok p'"
    and ep: "ep \<in> set (pp_entries cycle_plan)"
    and "ep' \<in> set (pp_entries p')" "ep_name ep' = ''a''"
    and st: "ep_state ep' = (if ep_state ep = InSync \<or> entry_digest scope_digests cycle_entry
        = entry_digest scope_digests (target_image T_ClaudeCode cycle_entry) then InSync else Pending)"
    using replan_after_apply[OF code_format_ok _ cycle_plan_ok ap] by blast
  moreover from cycle_entries ep have "ep_state ep = Pending" by auto
  moreover have "entry_digest scope_digests cycle_entry \<noteq> entry_digest scope_digests (target_image T_ClaudeCode cycle_entry)"
    by (simp add: scope_digests_def cycle_entry_def target_image_def json_image_def default_meta_def)
  ultimately show ?thesis using ap by auto
qed

theorem rollback_after_two_applies_orphans_witness:
  "\<exists>a1 fs1 p2 a2 fs2 fs3 p3 ep. apply_plan scope_digests id no_faults 1 (pr_projector cycle_request) cycle_plan no_files = (Ok a1, fs1)
     \<and> plan_projection scope_digests (next_request cycle_request a1 fs1) = Ok p2
     \<and> apply_plan scope_digests id no_faults 2 (pr_projector cycle_request) p2 fs1 = (Ok a2, fs2)
     \<and> rollback scope_digests id no_faults False a2 fs2 = (Ok (), fs3)
     \<and> plan_projection scope_digests (cycle_request\<lparr>pr_original := sf_files fs3 ''f'', pr_owned := []\<rparr>) = Ok p3
     \<and> ep \<in> set (pp_entries p3) \<and> ep_state ep = Conflict"
proof -
  obtain a1 fs1 where ap1: "apply_plan scope_digests id no_faults 1 (pr_projector cycle_request) cycle_plan no_files = (Ok a1, fs1)"
    using cycle_applied by blast
  have pj: "projector_for code_format T_ClaudeCode = Some (pr_projector cycle_request)"
    and names: "distinct (map fst (pr_desired cycle_request))"
    and ne: "(''a'', cycle_entry) \<in> set (pr_desired cycle_request)" "re_transport cycle_entry \<noteq> Sse" "\<not> codex_secret T_ClaudeCode cycle_entry"
    and path: "pr_path cycle_request = ''f''"
    by (simp_all add: cycle_request_def projector_for_def cycle_entry_def codex_secret_def)
  from projectedI[OF code_format_ok pj cycle_plan_ok ap1 names] obtain on_disk new where
    pr: "projected scope_digests code_format T_ClaudeCode cycle_request cycle_plan a1 on_disk new"
    and same: "original_text (next_request cycle_request a1 fs1) = pp_content cycle_plan" by blast
  from replan_succeeds[OF pr pj same] obtain p2 where p2: "plan_projection scope_digests (next_request cycle_request a1 fs1) = Ok p2" by blast
  have held: "sf_files fs1 (pr_path cycle_request) = Some (pp_content cycle_plan)"
    using apply_plan_ok(2)[OF ap1] plan_entries[OF cycle_plan_ok] by auto
  from replan_applies[OF pr pj held p2] obtain a2 fs2 where
    ap2: "apply_plan scope_digests id no_faults 2 (pr_projector cycle_request) p2 fs1 = (Ok a2, fs2)" by blast
  have "sf_backups fs1 (encode_path id (pr_path cycle_request)) = []"
    using apply_plan_ok(2)[OF ap1] by (simp add: write_atomic_def backup_file_def no_files_def)
  moreover have "target_fits code_format T_ClaudeCode (original_text cycle_request) ''a''"
    by (simp add: target_fits_def fits_in_def cycle_request_def original_text_def claude_source_def code_parse_empty claude_fits_def
        object_or_set_def object_value_def occurrences_def)
  ultimately have "\<exists>fs3 p3 ep. rollback scope_digests id no_faults False a2 fs2 = (Ok (), fs3)
    \<and> plan_projection scope_digests (cycle_request\<lparr>pr_original := sf_files fs3 (pr_path cycle_request), pr_owned := []\<rparr>) = Ok p3
    \<and> ep \<in> set (pp_entries p3) \<and> ep_name ep = ''a'' \<and> ep_state ep = Conflict
    \<and> (\<forall>io ts. \<exists>err. apply_plan scope_digests id io ts (pr_projector cycle_request) p3 fs3 = (Err err, fs3))"
    using rollback_after_two_applies_orphans[OF code_format_ok pj cycle_plan_ok ap1 p2 ap2 _ names ne] by simp
  with ap1 p2 ap2 path show ?thesis by metis
qed

theorem scoped_entry_never_in_sync_witness:
  "\<exists>ep \<in> set (pp_entries cycle_plan). ep_name ep = ''a'' \<and> injects ep"
proof -
  from cycle_entries obtain ep where ep: "ep \<in> set (pp_entries cycle_plan)" "ep_name ep = ''a''" "ep_state ep = Pending"
    by (cases "pp_entries cycle_plan") auto
  have pj: "projector_for code_format T_ClaudeCode = Some (pr_projector cycle_request)"
    by (simp add: cycle_request_def projector_for_def)
  have digest: "em_scope (re_meta x) = em_scope (re_meta y)" if "entry_digest scope_digests x = entry_digest scope_digests y" for x y
    using that by (auto simp: scope_digests_def split: option.splits Scope.splits)
  have "(''a'', cycle_entry) \<in> set (pr_desired cycle_request)" "distinct (map fst (pr_desired cycle_request))"
    "em_scope (re_meta cycle_entry) \<noteq> None"
    by (simp_all add: cycle_request_def cycle_entry_def)
  from scoped_entry_never_in_sync[OF pj cycle_plan_ok digest this ep(1,2)] ep show ?thesis
    by (auto simp: cycle_entry_def)
qed

end
