(* ===== verification/Core_Mcp.thy ===== *)
theory Core_Mcp
  imports Projection_Cycle Thread_Sessions
begin

text \<open>
  The \<open>mcp.*\<close> requests of the core: \<^verbatim>\<open>crates/tethys-core/src/mcp.rs\<close>, with the registry writer of
  \<^verbatim>\<open>registry.rs\<close>, the scan of \<^verbatim>\<open>import.rs\<close> and the projection rows of \<^verbatim>\<open>tethys-store/src/sync_state.rs\<close>.
  The state is the disk, the optional projection table and the thread sessions; the environment
  holds the workspace roots, the codecs and digests, the clock and the failures of the disk and of
  the database during the request.
\<close>

section \<open>State\<close>

record DiskFaults =
  read_fault :: "string option"
  backup_fault :: "string option"
  write_fault :: "string option"

type_synonym projection_table = "string \<times> string \<rightharpoonup> ProjectionRow"

record McpEnv =
  me_roots :: workspace_roots
  me_home :: string
  me_disabled :: "string set"
  me_digests :: Digests
  me_hash :: "string \<Rightarrow> string"
  me_format :: DocFormat
  me_parse :: registry_parser
  me_pretty :: "RegistryFile \<Rightarrow> string + string"
  me_serialize :: "RegistryEntry \<Rightarrow> string"
  me_to_json :: "(string, string) btree \<Rightarrow> SyncError + string"
  me_from_json :: "string \<Rightarrow> SyncError + (string, string) btree"
  me_serde :: "string \<Rightarrow> string + Json"
  me_canonicalize :: "string \<Rightarrow> string option"
  me_exited :: "child \<Rightarrow> bool"
  me_order :: "ConnectionKey list"
  me_now :: nat
  me_faults :: DiskFaults
  me_store_fault :: "string option"

record McpCore =
  mc_sessions :: ThreadSessions
  mc_fs :: SyncFs
  mc_store :: "projection_table option"

definition io_of :: "McpEnv \<Rightarrow> IoFaults" where
  "io_of env = \<lparr>fault_read = map_option IoError (read_fault (me_faults env)),
     fault_backup = map_option IoError (backup_fault (me_faults env)),
     fault_write = map_option IoError (write_fault (me_faults env))\<rparr>"

definition fs_reader :: "McpEnv \<Rightarrow> SyncFs \<Rightarrow> reader" where
  "fs_reader env fs path =
     (case read_fault (me_faults env) of
        Some m \<Rightarrow> Inl (Some m)
      | None \<Rightarrow> (case sf_files fs path of None \<Rightarrow> Inl None | Some t \<Rightarrow> Inr t))"

fun internal :: "SyncError + 'a \<Rightarrow> ApiError + 'a" where
  "internal (Inl e) = Err (Internal (sync_error_text e))"
| "internal (Inr x) = Ok x"

definition stored :: "McpEnv \<Rightarrow> 'a \<Rightarrow> ApiError + 'a" where
  "stored env x = (case me_store_fault env of Some m \<Rightarrow> Err (Internal m) | None \<Rightarrow> Ok x)"

section \<open>Rows of the projection table\<close>

definition upsert_projection :: "ProjectionRow \<Rightarrow> projection_table \<Rightarrow> projection_table" where
  "upsert_projection row t = t((prow_target row, prow_path row) \<mapsto> row)"

definition get_projection :: "projection_table \<Rightarrow> string \<Rightarrow> string \<Rightarrow> ProjectionRow option" where
  "get_projection t target path = t (target, path)"

definition delete_projection :: "string \<Rightarrow> string \<Rightarrow> projection_table \<Rightarrow> bool \<times> projection_table" where
  "delete_projection target path t = (t (target, path) \<noteq> None, t((target, path) := None))"

section \<open>Registry files\<close>

definition write_registry ::
  "McpEnv \<Rightarrow> string \<Rightarrow> RegistryFile \<Rightarrow> bool \<Rightarrow> SyncFs \<Rightarrow> (SyncError + unit) \<times> SyncFs" where
  "write_registry env path file backup fs =
     (case (if backup \<and> sf_files fs path \<noteq> None then fault_backup (io_of env) else None) of
        Some e \<Rightarrow> (Err e, fs)
      | None \<Rightarrow>
          (let fs1 = (if backup then backup_file (me_hash env) (me_now env) path fs else fs) in
           case me_pretty env (file\<lparr>rf_version := REGISTRY_VERSION\<rparr>) of
             Inl m \<Rightarrow> (Err (JsonError m), fs1)
           | Inr t \<Rightarrow>
               (case fault_write (io_of env) of
                  Some e \<Rightarrow> (Err e, fs1)
                | None \<Rightarrow> (Ok (), write_atomic path (t @ [newline]) fs1))))"

definition import_apply ::
  "McpEnv \<Rightarrow> string \<Rightarrow> ImportCandidate list \<Rightarrow> Scope \<Rightarrow> SyncFs \<Rightarrow> (SyncError + string list) \<times> SyncFs" where
  "import_apply env path selection scope fs =
     (case apply_import (fs_reader env fs) (me_parse env) path selection scope of
        Inl e \<Rightarrow> (Err e, fs)
      | Inr (file, names) \<Rightarrow>
          (case write_registry env path file True fs of
             (Inl e, fs') \<Rightarrow> (Err e, fs') | (Inr _, fs') \<Rightarrow> (Ok names, fs')))"

section \<open>Scanning the configurations of other tools\<close>

record ImportFailure =
  if_source_path :: string
  if_message :: string

record ImportScan =
  is_candidates :: "ImportCandidate list"
  is_failures :: "ImportFailure list"

definition failure :: "string \<Rightarrow> string \<Rightarrow> ImportFailure" where
  "failure source m = \<lparr>if_source_path = source, if_message = m\<rparr>"

definition candidates_of :: "string \<Rightarrow> Scope \<Rightarrow> (string, RegistryEntry) btree \<Rightarrow> ImportCandidate list" where
  "candidates_of source scope entries =
     map (\<lambda>(n, e). \<lparr>ic_name = n, ic_entry = e, ic_source_path = source, ic_scope = scope, ic_conflict = False\<rparr>) entries"

fun scan_file ::
  "McpEnv \<Rightarrow> SyncFs \<Rightarrow> Projector \<Rightarrow> TargetFile list \<Rightarrow> ImportCandidate list \<times> ImportFailure list
    \<Rightarrow> ImportCandidate list \<times> ImportFailure list" where
  "scan_file env fs pj [] acc = acc"
| "scan_file env fs pj (target # targets) (cands, fails) =
     (case read_text (io_of env) (tf_path target) fs of
        Inr None \<Rightarrow> scan_file env fs pj targets (cands, fails)
      | Inl e \<Rightarrow> scan_file env fs pj targets (cands, fails @ [failure (tf_path target) (sync_error_text e)])
      | Inr (Some t) \<Rightarrow>
          (case pj_read_entries pj t of
             Inr entries \<Rightarrow> scan_file env fs pj targets (cands @ candidates_of (tf_path target) (tf_scope target) entries, fails)
           | Inl e \<Rightarrow> scan_file env fs pj targets (cands, fails @ [failure (tf_path target) (sync_error_text e)])))"

definition json_get :: "Json \<Rightarrow> string \<Rightarrow> Json option" where
  "json_get v key = Option.bind (as_object v) (\<lambda>m. serde_get m key)"

definition servers_in :: "Json \<Rightarrow> (string \<times> Json) list option" where
  "servers_in v = Option.bind (json_get v ''mcpServers'') as_object"

text \<open>A \<open>serde_json\<close> map iterates in the order of its keys.\<close>

definition entries_from_map :: "(string \<times> Json) list \<Rightarrow> (string, RegistryEntry) btree" where
  "entries_from_map m =
     bt_of_list (List.map_filter (\<lambda>(n, v). map_option (\<lambda>e. (n, e)) (claude_entry_from_value v)) (bt_of_list m))"

definition project_candidates :: "string \<Rightarrow> Json \<Rightarrow> string list \<Rightarrow> ImportCandidate list" where
  "project_candidates source projects keys =
     concat (map (\<lambda>key.
       (case Option.bind (json_get projects key) servers_in of
          None \<Rightarrow> []
        | Some m \<Rightarrow> candidates_of (source @ ''#projects['' @ key @ '']'') Workspace (entries_from_map m))) keys)"

definition scan_claude_user_config ::
  "McpEnv \<Rightarrow> SyncFs \<Rightarrow> string \<Rightarrow> string \<Rightarrow> ImportCandidate list \<times> ImportFailure list
    \<Rightarrow> ImportCandidate list \<times> ImportFailure list" where
  "scan_claude_user_config env fs home root acc =
     (let path = path_join home ''.claude.json''; (cands, fails) = acc in
      case read_text (io_of env) path fs of
        Inr None \<Rightarrow> acc
      | Inl e \<Rightarrow> (cands, fails @ [failure path (sync_error_text e)])
      | Inr (Some t) \<Rightarrow>
          (case me_serde env t of
             Inl m \<Rightarrow> (cands, fails @ [failure path m])
           | Inr d \<Rightarrow>
               (let top = (case servers_in d of None \<Rightarrow> [] | Some m \<Rightarrow> candidates_of path Global (entries_from_map m));
                    keys = [root, (case me_canonicalize env root of Some c \<Rightarrow> c | None \<Rightarrow> root)];
                    nested = (case json_get d ''projects'' of
                        Some (J_Object fs) \<Rightarrow> project_candidates path (J_Object fs) keys | _ \<Rightarrow> []) in
                (cands @ top @ nested, fails))))"

definition import_scan :: "McpEnv \<Rightarrow> SyncFs \<Rightarrow> string \<Rightarrow> string \<Rightarrow> ImportScan" where
  "import_scan env fs root home =
     (let fmt = me_format env; exists = (\<lambda>p. sf_files fs p \<noteq> None);
          scan = (\<lambda>target. scan_file env fs (the (projector_for fmt target)) (detect exists target root home));
          (cands, fails) = scan_claude_user_config env fs home root
            (scan T_OpenCode (scan T_Codex (scan T_ClaudeCode ([], [])))) in
      \<lparr>is_candidates = mark_conflicts (me_serialize env) cands, is_failures = fails\<rparr>)"

section \<open>Paths and plans\<close>

definition resolve_workspace_root :: "McpEnv \<Rightarrow> string option \<Rightarrow> ApiError + string option" where
  "resolve_workspace_root env i =
     (case i of
        None \<Rightarrow> Ok None
      | Some i \<Rightarrow> (case me_roots env i of Inl e \<Rightarrow> Err e | Inr root \<Rightarrow> Ok (Some root)))"

definition registry_paths :: "McpEnv \<Rightarrow> string option \<Rightarrow> string \<times> string option" where
  "registry_paths env root = (registry_path (me_home env), map_option registry_path root)"

definition scope_registry_path :: "McpEnv \<Rightarrow> Scope \<Rightarrow> string option \<Rightarrow> ApiError + string" where
  "scope_registry_path env scope root =
     (case scope of
        Global \<Rightarrow> Ok (registry_path (me_home env))
      | Workspace \<Rightarrow>
          (case root of
             Some r \<Rightarrow> Ok (registry_path r)
           | None \<Rightarrow> Err (InvalidConfig ''workspace scope needs a workspace root'')))"

definition load_registry :: "McpEnv \<Rightarrow> string option \<Rightarrow> McpCore \<Rightarrow> ApiError + Registry" where
  "load_registry env root st =
     (case registry_paths env root of
        (global, workspace) \<Rightarrow> internal (registry_load (fs_reader env (mc_fs st)) (me_parse env) (Some global) workspace))"

fun debug_target :: "TargetId \<Rightarrow> string" where
  "debug_target T_Session = ''Session''"
| "debug_target T_ClaudeCode = ''ClaudeCode''"
| "debug_target T_Codex = ''Codex''"
| "debug_target T_OpenCode = ''OpenCode''"

fun debug_scope :: "Scope \<Rightarrow> string" where
  "debug_scope Global = ''Global''"
| "debug_scope Workspace = ''Workspace''"

definition require_projector :: "McpEnv \<Rightarrow> TargetId \<Rightarrow> ApiError + Projector" where
  "require_projector env target =
     (case projector_for (me_format env) target of
        Some pj \<Rightarrow> Ok pj
      | None \<Rightarrow> Err (Internal (debug_target target @ '' has no file projector'')))"

definition target_path :: "(string \<Rightarrow> bool) \<Rightarrow> TargetId \<Rightarrow> string \<Rightarrow> string \<Rightarrow> Scope \<Rightarrow> ApiError + string" where
  "target_path exists target root home scope =
     (case find (\<lambda>file. tf_scope file = scope) (detect exists target root home) of
        Some file \<Rightarrow> Ok (tf_path file)
      | None \<Rightarrow> Err (InvalidConfig (debug_target target @ '' has no '' @ debug_scope scope @ ''-scope config'')))"

definition target_path_of :: "McpEnv \<Rightarrow> McpCore \<Rightarrow> TargetId \<Rightarrow> string \<Rightarrow> Scope \<Rightarrow> ApiError + string" where
  "target_path_of env st target root scope =
     target_path (\<lambda>p. sf_files (mc_fs st) p \<noteq> None) target root (me_home env) scope"

definition owned_entries :: "McpEnv \<Rightarrow> McpCore \<Rightarrow> TargetId \<Rightarrow> string \<Rightarrow> ApiError + (string, string) btree" where
  "owned_entries env st target path =
     (case mc_store st of
        None \<Rightarrow> Ok []
      | Some table \<Rightarrow>
          (case stored env (get_projection table (target_as_str target) path) of
             Inl e \<Rightarrow> Err e
           | Inr None \<Rightarrow> Ok []
           | Inr (Some row) \<Rightarrow>
               (case internal (applied_from_row (me_from_json env) row) of Inl e \<Rightarrow> Err e | Inr a \<Rightarrow> Ok (ap_entries a))))"

text \<open>The part that the plan and the attachment states share.\<close>

definition plan_at ::
  "McpEnv \<Rightarrow> McpCore \<Rightarrow> Projector \<Rightarrow> TargetId \<Rightarrow> string \<Rightarrow> Scope \<Rightarrow> string \<Rightarrow> ApiError + ProjectionPlan" where
  "plan_at env st pj target root scope path =
     (case internal (read_text (io_of env) path (mc_fs st)) of
        Inl e \<Rightarrow> Err e
      | Inr original \<Rightarrow>
          (case load_registry env (Some root) st of
             Inl e \<Rightarrow> Err e
           | Inr reg \<Rightarrow>
               (case owned_entries env st target path of
                  Inl e \<Rightarrow> Err e
                | Inr owned \<Rightarrow>
                    internal (plan_projection (me_digests env)
                      \<lparr>pr_projector = pj, pr_path = path, pr_scope = scope, pr_original = original,
                       pr_desired = effective reg target {}, pr_owned = owned\<rparr>))))"

definition plan_providers :: "McpCore \<Rightarrow> TargetId \<Rightarrow> string list" where
  "plan_providers st target =
     (case projection_of_target target of
        Inl _ \<Rightarrow> []
      | Inr pt \<Rightarrow> map fst (filter (\<lambda>(i, k, cmpt). projection_target cmpt = Some pt) (profiles_compat (mc_sessions st))))"

definition build_projection_plan ::
  "McpEnv \<Rightarrow> McpCore \<Rightarrow> string \<Rightarrow> TargetId \<Rightarrow> Scope \<Rightarrow> ApiError + ProjectionPlan" where
  "build_projection_plan env st root target scope =
     (case require_projector env target of
        Inl e \<Rightarrow> Err e
      | Inr pj \<Rightarrow>
          (case target_path_of env st target root scope of
             Inl e \<Rightarrow> Err e
           | Inr path \<Rightarrow>
               (case plan_at env st pj target root scope path of
                  Inl e \<Rightarrow> Err e
                | Inr p \<Rightarrow> Ok (p\<lparr>pp_providers := pp_providers p @ plan_providers st target\<rparr>))))"

definition compute_projection_states_for_target ::
  "McpEnv \<Rightarrow> McpCore \<Rightarrow> string \<Rightarrow> ProjectionTarget \<Rightarrow> ApiError + (string \<rightharpoonup> EntryState)" where
  "compute_projection_states_for_target env st root target =
     (let target_id = target_of_projection target in
      case projector_for (me_format env) target_id of
        None \<Rightarrow> Ok Map.empty
      | Some pj \<Rightarrow>
          (case target_path_of env st target_id root Workspace of
             Inl _ \<Rightarrow> Ok Map.empty
           | Inr path \<Rightarrow>
               (case plan_at env st pj target_id root Workspace path of
                  Inl e \<Rightarrow> Err e
                | Inr p \<Rightarrow> Ok (map_of (rev (map (\<lambda>ep. (ep_name ep, ep_state ep)) (pp_entries p)))))))"

section \<open>Registry requests\<close>

record RegistryEntryView =
  rv_name :: string
  rv_scope :: Scope
  rv_entry :: RegistryEntry

definition view :: "string \<Rightarrow> Scope \<Rightarrow> RegistryEntry \<Rightarrow> RegistryEntryView" where
  "view name scope entry = \<lparr>rv_name = name, rv_scope = scope, rv_entry = entry\<rparr>"

definition mcp_registry_list :: "McpEnv \<Rightarrow> string option \<Rightarrow> McpCore \<Rightarrow> ApiError + RegistryEntryView list" where
  "mcp_registry_list env i st =
     (case resolve_workspace_root env i of
        Inl e \<Rightarrow> Err e
      | Inr root \<Rightarrow>
          (case load_registry env root st of
             Inl e \<Rightarrow> Err e
           | Inr reg \<Rightarrow> Ok (map (\<lambda>(n, e). view n Global e) (rf_servers (reg_global reg))
               @ map (\<lambda>(n, e). view n Workspace e) (rf_servers (reg_workspace reg)))))"

text \<open>A registry file that is read, changed and written back.\<close>

definition on_fs :: "(SyncFs \<Rightarrow> (SyncError + 'a) \<times> SyncFs) \<Rightarrow> McpCore \<Rightarrow> (ApiError + 'a) \<times> McpCore" where
  "on_fs f st = (case f (mc_fs st) of (r, fs) \<Rightarrow> (internal r, st\<lparr>mc_fs := fs\<rparr>))"

definition scope_path :: "McpEnv \<Rightarrow> Scope \<Rightarrow> string option \<Rightarrow> ApiError + string" where
  "scope_path env scope i =
     (case resolve_workspace_root env i of Inl e \<Rightarrow> Err e | Inr root \<Rightarrow> scope_registry_path env scope root)"

definition mcp_registry_set ::
  "McpEnv \<Rightarrow> string \<Rightarrow> RegistryEntry \<Rightarrow> Scope \<Rightarrow> string option \<Rightarrow> McpCore \<Rightarrow> (ApiError + unit) \<times> McpCore" where
  "mcp_registry_set env name entry scope i st =
     (case scope_path env scope i of
        Inl e \<Rightarrow> (Err e, st)
      | Inr path \<Rightarrow>
          (case internal (read_registry (fs_reader env (mc_fs st)) (me_parse env) path) of
             Inl e \<Rightarrow> (Err e, st)
           | Inr file \<Rightarrow>
               (let f = (case file of None \<Rightarrow> registry_default | Some f \<Rightarrow> f);
                    entry' = entry\<lparr>re_meta := (re_meta entry)\<lparr>em_scope := Some scope\<rparr>\<rparr> in
                on_fs (write_registry env path (f\<lparr>rf_servers := bt_insert name entry' (rf_servers f)\<rparr>) True) st)))"

definition mcp_registry_delete ::
  "McpEnv \<Rightarrow> string \<Rightarrow> Scope \<Rightarrow> string option \<Rightarrow> McpCore \<Rightarrow> (ApiError + bool) \<times> McpCore" where
  "mcp_registry_delete env name scope i st =
     (case scope_path env scope i of
        Inl e \<Rightarrow> (Err e, st)
      | Inr path \<Rightarrow>
          (case internal (read_registry (fs_reader env (mc_fs st)) (me_parse env) path) of
             Inl e \<Rightarrow> (Err e, st)
           | Inr None \<Rightarrow> (Ok False, st)
           | Inr (Some f) \<Rightarrow>
               if map_of (rf_servers f) name \<noteq> None
               then (case on_fs (write_registry env path (f\<lparr>rf_servers := bt_remove name (rf_servers f)\<rparr>) True) st of
                       (Inl e, st') \<Rightarrow> (Err e, st') | (Inr _, st') \<Rightarrow> (Ok True, st'))
               else (Ok False, st)))"

definition mcp_effective :: "McpEnv \<Rightarrow> string option \<Rightarrow> string option \<Rightarrow> McpCore \<Rightarrow> ApiError + RegistryEntryView list" where
  "mcp_effective env provider_id i st =
     (case resolve_workspace_root env i of
        Inl e \<Rightarrow> Err e
      | Inr root \<Rightarrow>
          (case load_registry env root st of
             Inl e \<Rightarrow> Err e
           | Inr reg \<Rightarrow>
               Ok (map (\<lambda>(n, e). view n (case map_of (merged reg) n of Some (s, _) \<Rightarrow> s | None \<Rightarrow> Global) e)
                 (effective_for_provider reg provider_id {}))))"

section \<open>Projection requests\<close>

definition mcp_projection_plan ::
  "McpEnv \<Rightarrow> string \<Rightarrow> TargetId \<Rightarrow> Scope \<Rightarrow> McpCore \<Rightarrow> ApiError + ProjectionPlan" where
  "mcp_projection_plan env i target scope st =
     (case me_roots env i of Inl e \<Rightarrow> Err e | Inr root \<Rightarrow> build_projection_plan env st root target scope)"

definition same_plan :: "ProjectionPlan \<Rightarrow> ProjectionPlan \<Rightarrow> bool" where
  "same_plan p q \<longleftrightarrow> pp_target p = pp_target q \<and> pp_scope p = pp_scope q \<and> pp_path p = pp_path q
     \<and> pp_base_hash p = pp_base_hash q \<and> pp_content p = pp_content q"

definition sync_store :: "McpCore \<Rightarrow> ApiError + projection_table" where
  "sync_store st = (case mc_store st of Some t \<Rightarrow> Ok t | None \<Rightarrow> Err (Internal ''sync store not configured''))"

definition record_applied :: "McpEnv \<Rightarrow> projection_table \<Rightarrow> Applied \<Rightarrow> McpCore \<Rightarrow> (ApiError + Applied) \<times> McpCore" where
  "record_applied env table applied st =
     (case internal (applied_to_row (me_to_json env) applied (int (me_now env))) of
        Inl e \<Rightarrow> (Err e, st)
      | Inr row \<Rightarrow>
          (case stored env (upsert_projection row table) of
             Inl e \<Rightarrow> (Err e, st)
           | Inr table' \<Rightarrow> (Ok applied, st\<lparr>mc_store := Some table'\<rparr>)))"

definition mcp_projection_apply ::
  "McpEnv \<Rightarrow> string \<Rightarrow> TargetId \<Rightarrow> Scope \<Rightarrow> ProjectionPlan \<Rightarrow> McpCore \<Rightarrow> (ApiError + Applied) \<times> McpCore" where
  "mcp_projection_apply env i target scope plan st =
     (case mcp_projection_plan env i target scope st of
        Inl e \<Rightarrow> (Err e, st)
      | Inr fresh \<Rightarrow>
          if \<not> same_plan plan fresh
          then (Err (ApiConflict ''projection plan does not match workspace state; re-plan and retry''), st)
          else case sync_store st of
            Inl e \<Rightarrow> (Err e, st)
          | Inr table \<Rightarrow>
              (case require_projector env (pp_target fresh) of
                 Inl e \<Rightarrow> (Err e, st)
               | Inr pj \<Rightarrow>
                   (case on_fs (apply_plan (me_digests env) (me_hash env) (io_of env) (me_now env) pj fresh) st of
                      (Inl e, st') \<Rightarrow> (Err e, st')
                    | (Inr applied, st') \<Rightarrow> record_applied env table applied st')))"

definition recorded_projection ::
  "McpEnv \<Rightarrow> string \<Rightarrow> TargetId \<Rightarrow> Scope \<Rightarrow> McpCore \<Rightarrow> ApiError + (projection_table \<times> string \<times> ProjectionRow option)" where
  "recorded_projection env i target scope st =
     (case me_roots env i of
        Inl e \<Rightarrow> Err e
      | Inr root \<Rightarrow>
          (case sync_store st of
             Inl e \<Rightarrow> Err e
           | Inr table \<Rightarrow>
               (case require_projector env target of
                  Inl e \<Rightarrow> Err e
                | Inr pj \<Rightarrow>
                    (case target_path_of env st target root scope of
                       Inl e \<Rightarrow> Err e
                     | Inr path \<Rightarrow>
                         (case stored env (get_projection table (target_as_str target) path) of
                            Inl e \<Rightarrow> Err e | Inr row \<Rightarrow> Ok (table, path, row))))))"

definition mcp_projection_rollback ::
  "McpEnv \<Rightarrow> string \<Rightarrow> TargetId \<Rightarrow> Scope \<Rightarrow> McpCore \<Rightarrow> (ApiError + unit) \<times> McpCore" where
  "mcp_projection_rollback env i target scope st =
     (case recorded_projection env i target scope st of
        Inl e \<Rightarrow> (Err e, st)
      | Inr (table, path, None) \<Rightarrow> (Err (NotFound (''projection '' @ path)), st)
      | Inr (table, path, Some row) \<Rightarrow>
          (case internal (applied_from_row (me_from_json env) row) of
             Inl e \<Rightarrow> (Err e, st)
           | Inr applied \<Rightarrow>
               (case on_fs (rollback (me_digests env) (me_hash env) (io_of env) False applied) st of
                  (Inl e, st') \<Rightarrow> (Err e, st')
                | (Inr _, st') \<Rightarrow>
                    (case stored env (delete_projection (target_as_str target) path table) of
                       Inl e \<Rightarrow> (Err e, st')
                     | Inr (deleted, table') \<Rightarrow> (Ok (), st'\<lparr>mc_store := Some table'\<rparr>)))))"

definition mcp_projection_verify ::
  "McpEnv \<Rightarrow> string \<Rightarrow> TargetId \<Rightarrow> Scope \<Rightarrow> McpCore \<Rightarrow> ApiError + VerifyStatus" where
  "mcp_projection_verify env i target scope st =
     (case recorded_projection env i target scope st of
        Inl e \<Rightarrow> Err e
      | Inr (table, path, None) \<Rightarrow> Ok VS_Missing
      | Inr (table, path, Some row) \<Rightarrow>
          (case internal (applied_from_row (me_from_json env) row) of
             Inl e \<Rightarrow> Err e
           | Inr applied \<Rightarrow> internal (verify (me_digests env) (io_of env) path applied (mc_fs st))))"

section \<open>Import requests\<close>

definition mcp_import_scan :: "McpEnv \<Rightarrow> string \<Rightarrow> McpCore \<Rightarrow> ApiError + ImportScan" where
  "mcp_import_scan env i st =
     (case me_roots env i of Inl e \<Rightarrow> Err e | Inr root \<Rightarrow> Ok (import_scan env (mc_fs st) root (me_home env)))"

definition mcp_import_apply ::
  "McpEnv \<Rightarrow> string \<Rightarrow> ImportCandidate list \<Rightarrow> Scope \<Rightarrow> McpCore \<Rightarrow> (ApiError + string list) \<times> McpCore" where
  "mcp_import_apply env i candidates scope st =
     (case me_roots env i of
        Inl e \<Rightarrow> (Err e, st)
      | Inr root \<Rightarrow>
          (case scope_registry_path env scope (Some root) of
             Inl e \<Rightarrow> (Err e, st)
           | Inr path \<Rightarrow> on_fs (import_apply env path candidates scope) st))"

section \<open>The attachment grid\<close>

definition grid_servers_of :: "McpEnv \<Rightarrow> Registry \<Rightarrow> (string \<times> RegistryEntry \<times> Scope) list" where
  "grid_servers_of env reg =
     map (\<lambda>(n, s, e). (n, e, s)) (filter (\<lambda>(n, s, e). em_enabled (re_meta e) \<and> n \<notin> me_disabled env) (merged reg))"

definition row_connected :: "ConnectionEntry option \<Rightarrow> bool" where
  "row_connected row = (case row of None \<Rightarrow> False | Some e \<Rightarrow> ce_state e = CS_Connected)"

definition row_capabilities :: "ConnectionEntry option \<Rightarrow> NormalizedCapabilities option" where
  "row_capabilities row = (if row_connected row then Option.bind row ce_capabilities else None)"

definition row_name :: "ConnectionEntry option \<Rightarrow> string \<Rightarrow> string" where
  "row_name row profile_id =
     (case Option.bind row ce_info of Some info \<Rightarrow> ai_name info | None \<Rightarrow> profile_id)"

definition states_for ::
  "McpEnv \<Rightarrow> McpCore \<Rightarrow> string \<Rightarrow> ProjectionTarget option \<Rightarrow> (ProjectionTarget \<rightharpoonup> (string \<rightharpoonup> EntryState))
    \<Rightarrow> ApiError + (string \<rightharpoonup> EntryState) \<times> (ProjectionTarget \<rightharpoonup> (string \<rightharpoonup> EntryState))" where
  "states_for env st root target known =
     (case target of
        None \<Rightarrow> Ok (Map.empty, known)
      | Some t \<Rightarrow>
          (case known t of
             Some states \<Rightarrow> Ok (states, known)
           | None \<Rightarrow>
               (case compute_projection_states_for_target env st root t of
                  Inl e \<Rightarrow> Err e | Inr states \<Rightarrow> Ok (states, known(t \<mapsto> states)))))"

definition with_store :: "McpCore \<Rightarrow> ConnectionStore \<Rightarrow> McpCore" where
  "with_store st cs = st\<lparr>mc_sessions := (mc_sessions st)\<lparr>tss_store := cs\<rparr>\<rparr>"

fun profile_inputs ::
  "McpEnv \<Rightarrow> string \<Rightarrow> (string \<times> ConnectionKey \<times> AgentCompat) list \<Rightarrow> (ProjectionTarget \<rightharpoonup> (string \<rightharpoonup> EntryState))
    \<Rightarrow> McpCore \<Rightarrow> (ApiError + ProviderInput list) \<times> McpCore" where
  "profile_inputs env root [] known st = (Ok [], st)"
| "profile_inputs env root ((profile_id, key, cmpt) # profiles) known st =
     (case store_entry (me_exited env) key (tss_store (mc_sessions st)) of
        (row, cs) \<Rightarrow>
          (let st' = with_store st cs in
           case states_for env st' root (projection_target cmpt) known of
             Inl e \<Rightarrow> (Err e, st')
           | Inr (states, known') \<Rightarrow>
               (case profile_inputs env root profiles known' st' of
                  (Inl e, st'') \<Rightarrow> (Err e, st'')
                | (Inr inputs, st'') \<Rightarrow>
                    (Ok (\<lparr>pi_id = profile_id, pi_name = row_name row profile_id, pi_connected = row_connected row,
                          pi_capabilities = row_capabilities row, pi_projection_target = projection_target cmpt,
                          pi_projection_states = states\<rparr> # inputs), st''))))"

fun add_live :: "ConnectionEntry list \<Rightarrow> ProviderInput list \<Rightarrow> ProviderInput list" where
  "add_live [] inputs = inputs"
| "add_live (live # lives) inputs =
     (let profile_id = ck_profile_id (ce_key live) in
      add_live lives
        (if list_ex (\<lambda>p. pi_id p = profile_id) inputs then inputs
         else inputs @ [\<lparr>pi_id = profile_id, pi_name = row_name (Some live) profile_id, pi_connected = row_connected (Some live),
            pi_capabilities = row_capabilities (Some live), pi_projection_target = None, pi_projection_states = Map.empty\<rparr>]))"

definition mcp_attachments :: "McpEnv \<Rightarrow> string \<Rightarrow> McpCore \<Rightarrow> (ApiError + AttachmentGrid) \<times> McpCore" where
  "mcp_attachments env i st =
     (case me_roots env i of
        Inl e \<Rightarrow> (Err e, st)
      | Inr root \<Rightarrow>
          (case load_registry env (Some root) st of
             Inl e \<Rightarrow> (Err e, st)
           | Inr reg \<Rightarrow>
               (case profile_inputs env root (profiles_compat (mc_sessions st)) Map.empty st of
                  (Inl e, st') \<Rightarrow> (Err e, st')
                | (Inr inputs, st') \<Rightarrow>
                    (case store_entries (me_exited env) (me_order env) (tss_store (mc_sessions st')) of
                       (lives, cs) \<Rightarrow>
                         (Ok (compute_attachment_grid (grid_servers_of env reg) (sort_key pi_id (add_live lives inputs))),
                          with_store st' cs)))))"


section \<open>Lemmas\<close>

lemma internal_iff [simp]: "internal r = Ok x \<longleftrightarrow> r = Ok x"
  by (cases r) auto

lemma stored_iff [simp]: "stored env x = Ok y \<longleftrightarrow> me_store_fault env = None \<and> y = x"
  by (auto simp: stored_def split: option.split)

lemma require_projector_iff [simp]: "require_projector env target = Ok pj \<longleftrightarrow> projector_for (me_format env) target = Some pj"
  by (auto simp: require_projector_def split: option.split)

lemma plan_atE:
  assumes "plan_at env st pj target root scope path = Ok p"
  obtains r where "plan_projection (me_digests env) r = Ok p" "pr_projector r = pj" "pr_path r = path" "pr_scope r = scope"
    "read_text (io_of env) path (mc_fs st) = Ok (pr_original r)"
  using assms by (auto simp: plan_at_def split: sum.splits)

lemma build_projection_planE:
  assumes "build_projection_plan env st root target scope = Ok p"
  obtains pj path p' where "projector_for (me_format env) target = Some pj" "target_path_of env st target root scope = Ok path"
    "plan_at env st pj target root scope path = Ok p'" "p = p'\<lparr>pp_providers := pp_providers p' @ plan_providers st target\<rparr>"
  using assms by (auto simp: build_projection_plan_def split: sum.splits)

lemma plan_shape:
  assumes "plan_projection d r = Ok p"
  shows "pp_target p = pj_target (pr_projector r)" "pp_path p = pr_path r" "pp_scope p = pr_scope r"
  using assms by (auto simp: plan_projection_def Let_def split: sum.splits)

lemma build_plan_shape:
  assumes "build_projection_plan env st root target scope = Ok p"
  shows "pp_target p = target" "target_path_of env st target root scope = Ok (pp_path p)"
proof -
  from build_projection_planE[OF assms] obtain pj path p' where
    b: "projector_for (me_format env) target = Some pj" "target_path_of env st target root scope = Ok path"
    "plan_at env st pj target root scope path = Ok p'" "p = p'\<lparr>pp_providers := pp_providers p' @ plan_providers st target\<rparr>" .
  from plan_atE[OF b(3)] obtain r where r: "plan_projection (me_digests env) r = Ok p'" "pr_projector r = pj" "pr_path r = path" by metis
  from plan_shape[OF r(1)] r b projector_for_target[OF b(1)] show "pp_target p = target"
    "target_path_of env st target root scope = Ok (pp_path p)" by auto
qed

lemma build_plan_base:
  assumes "build_projection_plan env st root target scope = Ok p"
  defines "t \<equiv> (case sf_files (mc_fs st) (pp_path p) of None \<Rightarrow> [] | Some t \<Rightarrow> t)"
  shows "pp_base_hash p = file_digest (me_digests env) t" "pp_created p = blank t"
proof -
  from build_projection_planE[OF assms(1)] obtain pj path p' where
    b: "plan_at env st pj target root scope path = Ok p'" "p = p'\<lparr>pp_providers := pp_providers p' @ plan_providers st target\<rparr>"
    by metis
  from plan_atE[OF b(1)] obtain r where r: "plan_projection (me_digests env) r = Ok p'" "pr_path r = path"
    "read_text (io_of env) path (mc_fs st) = Ok (pr_original r)" by metis
  from r(3) have "pr_original r = sf_files (mc_fs st) path" by (auto simp: read_text_def split: option.splits)
  with plan_entries[OF r(1)] r(2) b(2) show "pp_base_hash p = file_digest (me_digests env) t" "pp_created p = blank t"
    by (auto simp: t_def original_text_def)
qed

text \<open>The outcomes of \<open>apply_plan\<close>: nothing but backups changes, or the planned content is written.\<close>

lemma apply_plan_outcome:
  assumes "apply_plan d hash io ts pj p fs = (res, fs')"
  shows "sf_files fs' = sf_files fs \<and> (\<exists>e. res = Err e)
    \<or> sf_files fs' = (sf_files fs)(pp_path p \<mapsto> pp_content p) \<and> (\<forall>ep \<in> set (pp_entries p). ep_state ep \<noteq> Conflict)
      \<and> (\<forall>a. res = Ok a \<longrightarrow> ap_target a = pp_target p \<and> ap_path a = pp_path p)"
  using assms by (auto simp: apply_plan_def Let_def filter_empty_conv split: sum.splits if_splits option.splits)

section \<open>Properties\<close>

text \<open>The projection table has one row per target and path.\<close>

interpretation projections: keyed_store "\<lambda>t key. get_projection t (fst key) (snd key)" "\<lambda>t row. upsert_projection row t"
  "\<lambda>row. (prow_target row, prow_path row)" "\<lambda>t. \<forall>key row. t key = Some row \<longrightarrow> (prow_target row, prow_path row) = key"
  by unfold_locales (auto simp: get_projection_def upsert_projection_def fun_eq_iff split: if_splits)

text \<open>
  C14. Applying a projection trusts nothing of the submitted plan: the request changes no file, or it
  writes the content of the plan that the core derives itself from the workspace, to the
  configuration path of the target, when the submitted plan names the same path, content and base
  and no entry is in conflict. The projection table changes only on success, by the row of the
  returned record. A failure of the database after the write leaves the written file unrecorded.
\<close>

theorem mcp_apply_only_own_plan:
  assumes "mcp_projection_apply env i target scope plan st = (res, st')"
  shows "sf_files (mc_fs st') = sf_files (mc_fs st) \<and> mc_store st' = mc_store st \<and> (\<exists>e. res = Err e)
    \<or> (\<exists>root fresh table. me_roots env i = Ok root \<and> build_projection_plan env st root target scope = Ok fresh
        \<and> pp_path plan = pp_path fresh \<and> pp_content plan = pp_content fresh \<and> pp_base_hash plan = pp_base_hash fresh
        \<and> (\<forall>ep \<in> set (pp_entries fresh). ep_state ep \<noteq> Conflict)
        \<and> target_path_of env st target root scope = Ok (pp_path fresh) \<and> mc_store st = Some table
        \<and> sf_files (mc_fs st') = (sf_files (mc_fs st))(pp_path fresh \<mapsto> pp_content fresh)
        \<and> (case res of
             Inl e \<Rightarrow> mc_store st' = mc_store st
           | Inr a \<Rightarrow> \<exists>row. applied_to_row (me_to_json env) a (int (me_now env)) = Ok row
               \<and> (prow_target row, prow_path row) = (target_as_str target, pp_path fresh)
               \<and> mc_store st' = Some (table((target_as_str target, pp_path fresh) \<mapsto> row))))"
proof (cases "\<exists>root fresh table pj. me_roots env i = Ok root \<and> build_projection_plan env st root target scope = Ok fresh
    \<and> same_plan plan fresh \<and> mc_store st = Some table \<and> projector_for (me_format env) target = Some pj")
  case False
  with assms show ?thesis
    by (auto simp: mcp_projection_apply_def mcp_projection_plan_def sync_store_def require_projector_def
        dest: build_plan_shape split: sum.splits if_splits option.splits)
next
  case True
  then obtain root fresh table pj where t: "me_roots env i = Ok root" "build_projection_plan env st root target scope = Ok fresh"
    "same_plan plan fresh" "mc_store st = Some table" "projector_for (me_format env) target = Some pj" by blast
  note shape = build_plan_shape[OF t(2)]
  from t(3) have same: "pp_path plan = pp_path fresh" "pp_content plan = pp_content fresh" "pp_base_hash plan = pp_base_hash fresh"
    by (simp_all add: same_plan_def)
  obtain r fs where ap: "apply_plan (me_digests env) (me_hash env) (io_of env) (me_now env) pj fresh (mc_fs st) = (r, fs)" by fastforce
  have run: "(res, st') = (case internal r of Inl e \<Rightarrow> (Err e, st\<lparr>mc_fs := fs\<rparr>)
      | Inr a \<Rightarrow> record_applied env table a (st\<lparr>mc_fs := fs\<rparr>))"
    using assms t shape ap
    by (simp add: mcp_projection_apply_def mcp_projection_plan_def sync_store_def require_projector_def on_fs_def)
  show ?thesis
  proof (cases r)
    case (Inl e)
    with run apply_plan_outcome[OF ap] t shape same show ?thesis by auto
  next
    case (Inr a)
    with apply_plan_outcome[OF ap] have w: "sf_files fs = (sf_files (mc_fs st))(pp_path fresh \<mapsto> pp_content fresh)"
      "\<forall>ep \<in> set (pp_entries fresh). ep_state ep \<noteq> Conflict" "ap_target a = target" "ap_path a = pp_path fresh"
      using shape(1) by auto
    have "prow_target row = target_as_str target \<and> prow_path row = pp_path fresh"
      if "applied_to_row (me_to_json env) a (int (me_now env)) = Ok row" for row
      using that w by (auto simp: applied_to_row_def split: sum.splits)
    with run Inr w t shape same show ?thesis
      by (auto simp: record_applied_def upsert_projection_def split: sum.splits)
  qed
qed


lemma pick_config_written:
  "pick_config exists dir name = path \<Longrightarrow> pick_config (\<lambda>p. p = path \<or> exists p) dir name = path"
  by (auto simp: pick_config_def Let_def split: if_splits)

lemma target_path_written:
  assumes "target_path_of env st target root scope = Ok path" "sf_files (mc_fs st') = (sf_files (mc_fs st))(path \<mapsto> c)"
  shows "target_path_of env st' target root scope = Ok path"
proof -
  have "(\<lambda>p. sf_files (mc_fs st') p \<noteq> None) = (\<lambda>p. p = path \<or> sf_files (mc_fs st) p \<noteq> None)"
    using assms(2) by auto
  with assms(1) show ?thesis
    by (cases target; cases scope)
      (auto simp: target_path_of_def target_path_def detect_def claude_detect_def codex_detect_def opencode_detect_def
        intro: pick_config_written)
qed

lemma mcp_projection_applyE:
  assumes "mcp_projection_apply env i target scope plan st = (Ok a, st')"
  obtains root fresh table pj row where "me_roots env i = Ok root" "build_projection_plan env st root target scope = Ok fresh"
    "mc_store st = Some table" "projector_for (me_format env) (pp_target fresh) = Some pj" "me_store_fault env = None"
    "apply_plan (me_digests env) (me_hash env) (io_of env) (me_now env) pj fresh (mc_fs st) = (Ok a, mc_fs st')"
    "applied_to_row (me_to_json env) a (int (me_now env)) = Ok row"
    "mc_store st' = Some (upsert_projection row table)"
  using assms
  by (auto simp: mcp_projection_apply_def mcp_projection_plan_def sync_store_def on_fs_def record_applied_def
      split: sum.splits if_splits option.splits prod.splits)


lemma apply_plan_no_faults:
  "apply_plan d hash io ts pj p fs = (Ok a, fs') \<Longrightarrow> fault_read io = None \<and> fault_write io = None"
  by (auto simp: apply_plan_def Let_def read_text_def split: sum.splits if_splits option.splits)

lemma applied_rolls_back:
  assumes ap: "apply_plan d hash io ts pj p fs = (Ok a, fs')" and inj: "inj (file_digest d)"
    and base: "pp_base_hash p = file_digest d t" "pp_created p = blank t"
    and keys: "\<And>k. k \<in> fst ` set (sf_backups fs (encode_path hash (pp_path p))) \<Longrightarrow> k < backup_name ts"
  shows "\<exists>fs''. rollback d hash io False a fs' = (Ok (), fs'')
    \<and> sf_files fs'' = (sf_files fs)(pp_path p := (if blank t then None else Some t))"
proof -
  note ok = apply_plan_ok[OF ap] and io = apply_plan_no_faults[OF ap]
  have cur: "(case sf_files fs (pp_path p) of None \<Rightarrow> [] | Some t \<Rightarrow> t) = t" using ok(1) base(1) inj by (simp add: inj_eq)
  show ?thesis
  proof (cases "blank t")
    case True
    with ok base(2) io show ?thesis by (auto simp: rollback_def Let_def read_text_def)
  next
    case False
    with cur have "sf_files fs (pp_path p) = Some t" by (cases "sf_files fs (pp_path p)") (auto simp: blank_def)
    from newest_after_backup[OF this keys] False ok base(2) io show ?thesis by (auto simp: rollback_def Let_def read_text_def)
  qed
qed

lemma recorded_projection_row:
  assumes "me_roots env i = Ok root" "mc_store st = Some table" "projector_for (me_format env) target = Some pj"
    "target_path_of env st target root scope = Ok path" "me_store_fault env = None"
  shows "recorded_projection env i target scope st = Ok (table, path, table (target_as_str target, path))"
  using assms by (simp add: recorded_projection_def sync_store_def require_projector_def stored_def get_projection_def)

text \<open>
  C15. After a projection was applied, verifying it reports the file in sync, and rolling it back
  restores the file as it was, or removes it when it was absent or blank, and forgets the row; no
  other file and no other row changes. (The file digest is injective, backup names grow and the
  JSON of the recorded entries reads back.)
\<close>

theorem mcp_apply_verify_rollback:
  assumes ap: "mcp_projection_apply env i target scope plan st = (Ok a, st')"
    and inj: "inj (file_digest (me_digests env))" and json: "\<And>m t. me_to_json env m = Ok t \<Longrightarrow> me_from_json env t = Ok m"
    and keys: "\<And>k. k \<in> fst ` set (sf_backups (mc_fs st) (encode_path (me_hash env) (ap_path a))) \<Longrightarrow> k < backup_name (me_now env)"
  shows "mcp_projection_verify env i target scope st' = Ok VS_InSync
    \<and> (\<exists>st''. mcp_projection_rollback env i target scope st' = (Ok (), st'')
        \<and> sf_files (mc_fs st'') = (sf_files (mc_fs st))(ap_path a :=
            (case sf_files (mc_fs st) (ap_path a) of None \<Rightarrow> None | Some t \<Rightarrow> if blank t then None else Some t))
        \<and> mc_store st'' = map_option (\<lambda>table. table((target_as_str target, ap_path a) := None)) (mc_store st))"
proof -
  from mcp_projection_applyE[OF ap] obtain root fresh table pj row where
    m: "me_roots env i = Ok root" "build_projection_plan env st root target scope = Ok fresh" "mc_store st = Some table"
    "projector_for (me_format env) (pp_target fresh) = Some pj" "me_store_fault env = None"
    "apply_plan (me_digests env) (me_hash env) (io_of env) (me_now env) pj fresh (mc_fs st) = (Ok a, mc_fs st')"
    "applied_to_row (me_to_json env) a (int (me_now env)) = Ok row" "mc_store st' = Some (upsert_projection row table)" by metis
  note shape = build_plan_shape[OF m(2)] and ok = apply_plan_ok[OF m(6)] and io = apply_plan_no_faults[OF m(6)]
  let ?path = "pp_path fresh" and ?key = "(target_as_str target, pp_path fresh)"
  let ?t = "case sf_files (mc_fs st) ?path of None \<Rightarrow> [] | Some t \<Rightarrow> t"
  note base = build_plan_base[OF m(2)]
  have row: "upsert_projection row table = table(?key \<mapsto> row)" "applied_from_row (me_from_json env) row = Ok a"
    using m(7) shape ok(3) apply_plan_outcome[OF m(6)] manifest_row_roundtrip[OF json m(7)]
    by (auto simp: applied_to_row_def upsert_projection_def split: sum.splits)
  have path': "target_path_of env st' target root scope = Ok ?path"
    using target_path_written[OF shape(2)] ok(2) by simp
  have rec: "recorded_projection env i target scope st' = Ok (table(?key \<mapsto> row), ?path, Some row)"
    using recorded_projection_row[OF m(1) m(8)[unfolded row(1)] _ path' m(5)] m(4) shape(1) by simp
  have "verify (me_digests env) (io_of env) ?path a (mc_fs st') = Ok VS_InSync"
    using ok(2,4) io by (simp add: verify_def read_text_def)
  with rec row(2) have "mcp_projection_verify env i target scope st' = Ok VS_InSync" by (simp add: mcp_projection_verify_def)
  moreover from applied_rolls_back[OF m(6) inj, of ?t] base keys ok(3) obtain fs'' where
    rb: "rollback (me_digests env) (me_hash env) (io_of env) False a (mc_fs st') = (Ok (), fs'')"
      "sf_files fs'' = (sf_files (mc_fs st))(?path := (if blank ?t then None else Some ?t))" by auto
  have "mcp_projection_rollback env i target scope st' = (Ok (), st'\<lparr>mc_fs := fs'', mc_store := Some (table(?key := None))\<rparr>)"
    using rec row(2) rb(1) m(5) by (simp add: mcp_projection_rollback_def on_fs_def stored_def delete_projection_def)
  ultimately show ?thesis using rb(2) ok(3) m(3) by (auto split: option.splits)
qed


subsection \<open>Witnesses\<close>

definition json_entries :: "(string, string) btree \<Rightarrow> SyncError + string" where
  "json_entries m = Ok (print_json (J_Object (map (\<lambda>(k, v). (k, J_String v)) m)))"

definition entries_json :: "string \<Rightarrow> SyncError + (string, string) btree" where
  "entries_json t =
     (case scan_doc t of
        Inr (J_Object fs) \<Rightarrow> Ok (map (\<lambda>(k, v). (k, case v of J_String s \<Rightarrow> s | _ \<Rightarrow> [])) fs)
      | _ \<Rightarrow> Err (JsonError ''expected an object''))"

lemma entries_json_inverse: "json_entries m = Ok t \<Longrightarrow> entries_json t = Ok m"
  by (auto simp: json_entries_def entries_json_def comp_def case_prod_unfold simp del: print_json.simps)

definition mcp_env :: McpEnv where
  "mcp_env = \<lparr>me_roots = (\<lambda>i. Ok ''/w''), me_home = ''/h'', me_disabled = {}, me_digests = scope_digests, me_hash = id,
     me_format = code_format, me_parse = (\<lambda>t. Ok \<lparr>rf_version = 2, rf_servers = [(''a'', cycle_entry)]\<rparr>),
     me_pretty = (\<lambda>f. Ok ''R''), me_serialize = (\<lambda>e. []), me_to_json = json_entries, me_from_json = entries_json,
     me_serde = scan_doc, me_canonicalize = Some, me_exited = (\<lambda>_. False), me_order = [], me_now = 7,
     me_faults = \<lparr>read_fault = None, backup_fault = None, write_fault = None\<rparr>, me_store_fault = None\<rparr>"

definition mcp_core :: McpCore where
  "mcp_core = \<lparr>mc_sessions = sessions_new ex_registered,
     mc_fs = \<lparr>sf_files = [''/h/.tethys/mcp.json'' \<mapsto> ''R''], sf_backups = (\<lambda>_. [])\<rparr>, mc_store = Some Map.empty\<rparr>"

definition mcp_plan :: ProjectionPlan where
  "mcp_plan = projr (mcp_projection_plan mcp_env ''w'' T_ClaudeCode Workspace mcp_core)"

lemmas mcp_example = mcp_env_def mcp_core_def

lemma mcp_fields:
  "me_roots mcp_env i = Ok ''/w''" "me_format mcp_env = code_format" "me_digests mcp_env = scope_digests"
  "me_to_json mcp_env = json_entries" "me_from_json mcp_env = entries_json" "me_store_fault mcp_env = None"
  "mc_store mcp_core = Some Map.empty" "sf_backups (mc_fs mcp_core) dir = []"
  by (simp_all add: mcp_example)

lemma mcp_read: "read_text (io_of mcp_env) ''/w/.mcp.json'' (mc_fs mcp_core) = Ok None"
  by (simp add: read_text_def io_of_def mcp_example)

lemma mcp_load:
  "load_registry mcp_env (Some ''/w'') mcp_core =
     Ok \<lparr>reg_global = \<lparr>rf_version = 2, rf_servers = [(''a'', cycle_entry)]\<rparr>, reg_workspace = registry_default\<rparr>"
  by (simp add: load_registry_def registry_paths_def registry_path_def registry_load_def load_or_default_def read_registry_def
      fs_reader_def mcp_example blank_def is_space_def)

lemma mcp_owned: "owned_entries mcp_env mcp_core T_ClaudeCode path = Ok []"
  by (simp add: owned_entries_def stored_def get_projection_def mcp_example)

lemma mcp_desired:
  "effective \<lparr>reg_global = \<lparr>rf_version = 2, rf_servers = [(''a'', cycle_entry)]\<rparr>, reg_workspace = registry_default\<rparr> T_ClaudeCode {}
     = [(''a'', cycle_entry)]"
  by (simp add: effective_def merged_entries_def registry_default_def cycle_entry_def default_meta_def allows_def allows_provider_def)

lemma mcp_target: "target_path_of mcp_env mcp_core T_ClaudeCode ''/w'' Workspace = Ok ''/w/.mcp.json''"
  by (simp add: target_path_of_def target_path_def detect_def claude_detect_def path_join_def is_absolute_def join_path_def)

definition mcp_request :: PlanRequest where
  "mcp_request = cycle_request\<lparr>pr_path := ''/w/.mcp.json''\<rparr>"

definition mcp_inner :: ProjectionPlan where
  "mcp_inner = projr (plan_projection scope_digests mcp_request)"

lemma mcp_inner_ok:
  "plan_projection scope_digests mcp_request = Ok mcp_inner" "map ep_state (pp_entries mcp_inner) = [Pending]"
  "succeeds (pj_read_entries (pr_projector cycle_request) (pp_content mcp_inner))"
  by (simp_all add: mcp_inner_def mcp_request_def cycle_defs claude_read_entries_def print_not_blank del: print_json.simps)

lemma mcp_inner_fields: "pp_base_hash mcp_inner = []" "pp_path mcp_inner = ''/w/.mcp.json''" "pp_target mcp_inner = T_ClaudeCode"
  using plan_entries[OF mcp_inner_ok(1)] plan_shape[OF mcp_inner_ok(1)]
  by (auto simp: mcp_request_def cycle_request_def original_text_def scope_digests_def projector_for_def)

lemma mcp_projector: "projector_for code_format T_ClaudeCode = Some (pr_projector cycle_request)"
  by (simp add: cycle_request_def projector_for_def)

lemma mcp_plan_at: "plan_at mcp_env mcp_core (pr_projector cycle_request) T_ClaudeCode ''/w'' Workspace ''/w/.mcp.json'' = Ok mcp_inner"
proof -
  have "\<lparr>pr_projector = pr_projector cycle_request, pr_path = ''/w/.mcp.json'', pr_scope = Workspace, pr_original = None,
      pr_desired = [(''a'', cycle_entry)], pr_owned = []\<rparr> = mcp_request"
    by (simp add: mcp_request_def cycle_request_def)
  thus ?thesis using mcp_inner_ok(1) by (simp add: plan_at_def mcp_read mcp_load mcp_owned mcp_desired mcp_fields)
qed

lemma mcp_plan_eq:
  "mcp_projection_plan mcp_env ''w'' T_ClaudeCode Workspace mcp_core = Ok mcp_plan"
  "mcp_plan = mcp_inner\<lparr>pp_providers := pp_providers mcp_inner @ plan_providers mcp_core T_ClaudeCode\<rparr>"
  by (simp_all add: mcp_plan_def mcp_projection_plan_def build_projection_plan_def require_projector_def mcp_target mcp_plan_at
      mcp_fields mcp_projector)

lemma mcp_applied:
  "\<exists>a fs. apply_plan scope_digests id (io_of mcp_env) 7 (pr_projector cycle_request) mcp_plan (mc_fs mcp_core) = (Ok a, fs)"
proof -
  have "filter (\<lambda>ep. ep_state ep = Conflict) (pp_entries mcp_plan) = []"
    using mcp_inner_ok(2) by (auto simp: mcp_plan_eq(2))
  moreover have "fault_backup (io_of mcp_env) = None" "fault_write (io_of mcp_env) = None"
    by (simp_all add: io_of_def mcp_env_def)
  ultimately show ?thesis using mcp_inner_ok(3) mcp_read
    by (auto simp: apply_plan_def Let_def mcp_plan_eq(2) mcp_inner_fields scope_digests_def succeeds_iff)
qed

lemma mcp_apply_ok: "\<exists>a st. mcp_projection_apply mcp_env ''w'' T_ClaudeCode Workspace mcp_plan mcp_core = (Ok a, st)"
proof -
  obtain a fs where ap: "apply_plan scope_digests id (io_of mcp_env) 7 (pr_projector cycle_request) mcp_plan (mc_fs mcp_core) = (Ok a, fs)"
    using mcp_applied by blast
  have "me_hash mcp_env = id" "me_now mcp_env = 7" by (simp_all add: mcp_env_def)
  with ap show ?thesis
    by (simp add: mcp_projection_apply_def mcp_plan_eq(1) same_plan_def sync_store_def require_projector_def mcp_fields mcp_projector
        mcp_plan_eq(2) mcp_inner_fields on_fs_def record_applied_def applied_to_row_def json_entries_def stored_def)
qed

theorem mcp_apply_only_own_plan_witness:
  "\<exists>a st. mcp_projection_apply mcp_env ''w'' T_ClaudeCode Workspace mcp_plan mcp_core = (Ok a, st)
     \<and> sf_files (mc_fs st) ''/w/.mcp.json'' = Some (pp_content mcp_plan)"
proof -
  obtain a st where ap: "mcp_projection_apply mcp_env ''w'' T_ClaudeCode Workspace mcp_plan mcp_core = (Ok a, st)"
    using mcp_apply_ok by blast
  from mcp_apply_only_own_plan[OF ap] obtain fresh where "build_projection_plan mcp_env mcp_core ''/w'' T_ClaudeCode Workspace = Ok fresh"
    "sf_files (mc_fs st) = (sf_files (mc_fs mcp_core))(pp_path fresh \<mapsto> pp_content fresh)" by (auto simp: mcp_fields)
  moreover from this(1) mcp_plan_eq(1) have "fresh = mcp_plan" by (simp add: mcp_projection_plan_def mcp_fields)
  ultimately show ?thesis using ap by (auto simp: mcp_plan_eq(2) mcp_inner_fields)
qed

theorem mcp_apply_verify_rollback_witness:
  "\<exists>a st st'. mcp_projection_apply mcp_env ''w'' T_ClaudeCode Workspace mcp_plan mcp_core = (Ok a, st)
     \<and> mcp_projection_verify mcp_env ''w'' T_ClaudeCode Workspace st = Ok VS_InSync
     \<and> mcp_projection_rollback mcp_env ''w'' T_ClaudeCode Workspace st = (Ok (), st')"
proof -
  obtain a st where ap: "mcp_projection_apply mcp_env ''w'' T_ClaudeCode Workspace mcp_plan mcp_core = (Ok a, st)"
    using mcp_apply_ok by blast
  have "inj (file_digest (me_digests mcp_env))" by (simp add: mcp_fields scope_digests_def)
  moreover have "me_from_json mcp_env t = Ok m" if "me_to_json mcp_env m = Ok t" for m t
    using that by (simp add: mcp_fields entries_json_inverse)
  ultimately show ?thesis using mcp_apply_verify_rollback[OF ap] ap by (auto simp: mcp_fields)
qed

end
