(* ===== verification/Store_Facade.thy ===== *)
theory Store_Facade
  imports Core_Mcp Core_Git
begin

text \<open>
  The rest of \<^verbatim>\<open>crates/tethys-store/src\<close>: the schema scripts of \<^verbatim>\<open>migrations.rs\<close>, the connection pool
  of \<^verbatim>\<open>pool.rs\<close> with one writer and two readers, and the store facade of \<^verbatim>\<open>lib.rs\<close>, which runs the
  statements of \<^verbatim>\<open>Event_Store\<close> on the pool. The scripts are lists of SQL statements, whose effect on a
  schema is \<^verbatim>\<open>exec_stmt\<close>; rows are not part of the schema. Running pending migrations is the library
  \<^verbatim>\<open>rusqlite_migration\<close>, the parameter \<^verbatim>\<open>run\<close>, of which \<^verbatim>\<open>runner_ok\<close> says that it runs the up scripts in order
  and the down scripts in reverse order. A connection fails when it is closed; readers see the last
  committed state. Pragmas, busy databases and damaged files are SQLite and have no counterpart.
\<close>

section \<open>Schemas\<close>

text \<open>A column with its declaration and the table it references.\<close>

record Column =
  col_name :: string
  col_decl :: string
  col_references :: "string option"

record Table =
  tb_columns :: "Column list"
  tb_constraints :: "string list"

record TableIndex =
  ix_table :: string
  ix_columns :: "string list"

record DbSchema =
  sch_tables :: "string \<rightharpoonup> Table"
  sch_indexes :: "string \<rightharpoonup> TableIndex"
  sch_foreign_keys :: bool

datatype Stmt =
  CreateTable string Table
| CreateIndex string TableIndex
| DropIndexIfExists string
| DropTableIfExists string
| RenameTable string string
| RenameColumn string string string

definition rename_reference :: "string \<Rightarrow> string \<Rightarrow> Table \<Rightarrow> Table" where
  "rename_reference old new t =
     t\<lparr>tb_columns := map (\<lambda>c. if col_references c = Some old then c\<lparr>col_references := Some new\<rparr> else c) (tb_columns t)\<rparr>"

definition rename_column :: "string \<Rightarrow> string \<Rightarrow> Table \<Rightarrow> Table" where
  "rename_column old new t = t\<lparr>tb_columns := map (\<lambda>c. if col_name c = old then c\<lparr>col_name := new\<rparr> else c) (tb_columns t)\<rparr>"

text \<open>Dropping a table drops its indexes; renaming a table or a column reaches the indexes on it.\<close>

definition drop_indexes_of :: "string \<Rightarrow> (string \<rightharpoonup> TableIndex) \<Rightarrow> string \<rightharpoonup> TableIndex" where
  "drop_indexes_of n m =
     (\<lambda>k. case m k of None \<Rightarrow> None | Some i \<Rightarrow> if ix_table i = n then None else Some i)"

definition move_index :: "string \<Rightarrow> string \<Rightarrow> TableIndex \<Rightarrow> TableIndex" where
  "move_index old new i = (if ix_table i = old then i\<lparr>ix_table := new\<rparr> else i)"

definition rename_indexed :: "string \<Rightarrow> string \<Rightarrow> string \<Rightarrow> TableIndex \<Rightarrow> TableIndex" where
  "rename_indexed table old new i =
     (if ix_table i = table then i\<lparr>ix_columns := map (\<lambda>c. if c = old then new else c) (ix_columns i)\<rparr> else i)"

fun exec_stmt :: "Stmt \<Rightarrow> DbSchema \<Rightarrow> string + DbSchema" where
  "exec_stmt (CreateTable n t) s =
     (if sch_tables s n \<noteq> None then Err (''table '' @ n @ '' already exists'')
      else Ok (s\<lparr>sch_tables := (sch_tables s)(n \<mapsto> t)\<rparr>))"
| "exec_stmt (CreateIndex n i) s =
     (if sch_indexes s n \<noteq> None then Err (''index '' @ n @ '' already exists'')
      else if sch_tables s (ix_table i) = None then Err (''no such table: '' @ ix_table i)
      else Ok (s\<lparr>sch_indexes := (sch_indexes s)(n \<mapsto> i)\<rparr>))"
| "exec_stmt (DropIndexIfExists n) s = Ok (s\<lparr>sch_indexes := (sch_indexes s)(n := None)\<rparr>)"
| "exec_stmt (DropTableIfExists n) s =
     Ok (s\<lparr>sch_tables := (sch_tables s)(n := None), sch_indexes := drop_indexes_of n (sch_indexes s)\<rparr>)"
| "exec_stmt (RenameTable old new) s =
     (case sch_tables s old of
        None \<Rightarrow> Err (''no such table: '' @ old)
      | Some t \<Rightarrow>
          if sch_tables s new \<noteq> None then Err (''there is already another table or index with this name: '' @ new)
          else Ok (s\<lparr>sch_tables := map_option (rename_reference old new) \<circ> (sch_tables s)(old := None, new \<mapsto> t),
                     sch_indexes := map_option (move_index old new) \<circ> sch_indexes s\<rparr>))"
| "exec_stmt (RenameColumn table old new) s =
     (case sch_tables s table of
        None \<Rightarrow> Err (''no such table: '' @ table)
      | Some t \<Rightarrow>
          if old \<notin> col_name ` set (tb_columns t) then Err (''no such column: '' @ old)
          else Ok (s\<lparr>sch_tables := (sch_tables s)(table \<mapsto> rename_column old new t),
                     sch_indexes := map_option (rename_indexed table old new) \<circ> sch_indexes s\<rparr>))"

fun exec_script :: "Stmt list \<Rightarrow> DbSchema \<Rightarrow> string + DbSchema" where
  "exec_script [] s = Ok s"
| "exec_script (stmt # stmts) s = (case exec_stmt stmt s of Inl e \<Rightarrow> Err e | Inr s' \<Rightarrow> exec_script stmts s')"

section \<open>The four migrations\<close>

definition col :: "string \<Rightarrow> string \<Rightarrow> Column" where
  "col n d = \<lparr>col_name = n, col_decl = d, col_references = None\<rparr>"

definition ref_col :: "string \<Rightarrow> string \<Rightarrow> Column" where
  "ref_col n table = \<lparr>col_name = n, col_decl = ''TEXT NOT NULL ON DELETE CASCADE'', col_references = Some table\<rparr>"

definition migration_core :: "Stmt list \<times> Stmt list" where
  "migration_core =
     ([CreateTable ''projects'' \<lparr>tb_columns = [col ''id'' ''TEXT PRIMARY KEY'', col ''root_path'' ''TEXT NOT NULL'',
          col ''isolation'' ''TEXT NOT NULL''], tb_constraints = []\<rparr>,
       CreateTable ''threads'' \<lparr>tb_columns = [col ''id'' ''TEXT PRIMARY KEY'', ref_col ''project_id'' ''projects'',
          col ''latest_seq'' ''INTEGER NOT NULL DEFAULT 0''], tb_constraints = []\<rparr>,
       CreateTable ''events'' \<lparr>tb_columns = [col ''id'' ''INTEGER PRIMARY KEY AUTOINCREMENT'', ref_col ''thread_id'' ''threads'',
          col ''seq'' ''INTEGER NOT NULL'', col ''event_type'' ''TEXT NOT NULL'', col ''payload'' ''TEXT NOT NULL'',
          col ''created_at'' ''INTEGER NOT NULL''], tb_constraints = [''UNIQUE(thread_id, seq)'']\<rparr>,
       CreateIndex ''idx_events_thread_seq'' \<lparr>ix_table = ''events'', ix_columns = [''thread_id'', ''seq'']\<rparr>,
       CreateIndex ''idx_threads_project'' \<lparr>ix_table = ''threads'', ix_columns = [''project_id'']\<rparr>],
      [DropIndexIfExists ''idx_threads_project'', DropIndexIfExists ''idx_events_thread_seq'',
       DropTableIfExists ''events'', DropTableIfExists ''threads'', DropTableIfExists ''projects''])"

definition migration_entries :: "Stmt list \<times> Stmt list" where
  "migration_entries =
     ([CreateTable ''entries'' \<lparr>tb_columns = [ref_col ''thread_id'' ''threads'', col ''kind'' ''TEXT NOT NULL'',
          col ''entry_id'' ''TEXT NOT NULL'', col ''first_seq'' ''INTEGER NOT NULL'', col ''last_seq'' ''INTEGER NOT NULL'',
          col ''turn_index'' ''INTEGER'', col ''payload'' ''TEXT NOT NULL''],
          tb_constraints = [''PRIMARY KEY (thread_id, kind, entry_id)'']\<rparr>,
       CreateIndex ''idx_entries_thread_first_seq'' \<lparr>ix_table = ''entries'', ix_columns = [''thread_id'', ''first_seq'']\<rparr>],
      [DropIndexIfExists ''idx_entries_thread_first_seq'', DropTableIfExists ''entries''])"

definition migration_sync :: "Stmt list \<times> Stmt list" where
  "migration_sync =
     ([CreateTable ''projections'' \<lparr>tb_columns = [col ''target'' ''TEXT NOT NULL'', col ''path'' ''TEXT NOT NULL'',
          col ''scope'' ''TEXT NOT NULL'', col ''file_hash'' ''TEXT NOT NULL'', col ''created'' ''INTEGER NOT NULL DEFAULT 0'',
          col ''updated_at'' ''INTEGER NOT NULL'', col ''entries'' ''TEXT NOT NULL''],
          tb_constraints = [''PRIMARY KEY (target, path)'']\<rparr>,
       CreateTable ''skills_state'' \<lparr>tb_columns = [col ''skill_id'' ''TEXT PRIMARY KEY'', col ''scope'' ''TEXT NOT NULL'',
          col ''name'' ''TEXT NOT NULL'', col ''source'' ''TEXT NOT NULL'', col ''pinned_sha'' ''TEXT'',
          col ''content_hash'' ''TEXT NOT NULL'', col ''trusted_hash'' ''TEXT'', col ''enabled'' ''INTEGER NOT NULL DEFAULT 1'',
          col ''requires_trust'' ''INTEGER NOT NULL DEFAULT 0''], tb_constraints = [''UNIQUE (scope, name)'']\<rparr>],
      [DropTableIfExists ''skills_state'', DropTableIfExists ''projections''])"

definition migration_workspaces :: "Stmt list \<times> Stmt list" where
  "migration_workspaces =
     ([RenameTable ''projects'' ''workspaces'', RenameColumn ''threads'' ''project_id'' ''workspace_id'',
       DropIndexIfExists ''idx_threads_project'',
       CreateIndex ''idx_threads_workspace'' \<lparr>ix_table = ''threads'', ix_columns = [''workspace_id'']\<rparr>],
      [DropIndexIfExists ''idx_threads_workspace'', RenameColumn ''threads'' ''workspace_id'' ''project_id'',
       RenameTable ''workspaces'' ''projects'',
       CreateIndex ''idx_threads_project'' \<lparr>ix_table = ''threads'', ix_columns = [''project_id'']\<rparr>])"

definition migrations :: "(Stmt list \<times> Stmt list) list" where
  "migrations = [migration_core, migration_entries, migration_sync, migration_workspaces]"

text \<open>
  The errors of the store: a statement's, a closed connection, a migration, and a directory that
  cannot be created.
\<close>

datatype StoreFailure = SF_Database DbError | SF_Closed | SF_Migration string | SF_Io string

text \<open>
  \<open>run\<close> is the library's runner: the scripts, the target version and the database with its version.
  Migrating to the latest version is migrating to the version of the last script.
\<close>

type_synonym runner = "(Stmt list \<times> Stmt list) list \<Rightarrow> nat \<Rightarrow> nat \<times> DbSchema \<Rightarrow> string + nat \<times> DbSchema"

definition migrate_to_version :: "runner \<Rightarrow> nat \<Rightarrow> nat \<times> DbSchema \<Rightarrow> StoreFailure + nat \<times> DbSchema" where
  "migrate_to_version run version db =
     (case db of (v, s) \<Rightarrow>
        (case run migrations version (v, s\<lparr>sch_foreign_keys := False\<rparr>) of
           Inl e \<Rightarrow> Err (SF_Migration e)
         | Inr (v', s') \<Rightarrow> Ok (v', s'\<lparr>sch_foreign_keys := True\<rparr>)))"

definition migrate_to_latest :: "runner \<Rightarrow> nat \<times> DbSchema \<Rightarrow> StoreFailure + nat \<times> DbSchema" where
  "migrate_to_latest run db = migrate_to_version run (length migrations) db"

definition verify_schema_version ::
  "((Stmt list \<times> Stmt list) list \<Rightarrow> nat \<Rightarrow> string + int) \<Rightarrow> nat \<times> DbSchema \<Rightarrow> StoreFailure + unit" where
  "verify_schema_version pending_migrations db =
     (case pending_migrations migrations (fst db) of
        Inl e \<Rightarrow> Err (SF_Migration e)
      | Inr pending \<Rightarrow>
          if pending \<noteq> 0
          then Err (SF_Migration (''schema version not up-to-date: '' @ show_int pending @ '' pending migrations''))
          else Ok ())"

section \<open>The pool\<close>

record ConnectionPool =
  pool_writer :: bool
  pool_readers :: "bool list"
  pool_next_reader :: u64

definition pool_new :: ConnectionPool where
  "pool_new = \<lparr>pool_writer = True, pool_readers = [True, True], pool_next_reader = 0\<rparr>"

text \<open>
  Opening: the writer migrates, then each reader checks the schema version. \<open>dir\<close> is the outcome of
  creating the parent directory.
\<close>

definition init_pool ::
  "runner \<Rightarrow> ((Stmt list \<times> Stmt list) list \<Rightarrow> nat \<Rightarrow> string + int) \<Rightarrow> nat \<times> DbSchema
    \<Rightarrow> StoreFailure + ConnectionPool \<times> nat \<times> DbSchema" where
  "init_pool run pending_migrations db =
     (case migrate_to_latest run db of
        Inl e \<Rightarrow> Err e
      | Inr db' \<Rightarrow>
          (case verify_schema_version pending_migrations db' of
             Inl e \<Rightarrow> Err e
           | Inr _ \<Rightarrow>
               (case verify_schema_version pending_migrations db' of
                  Inl e \<Rightarrow> Err e
                | Inr _ \<Rightarrow> Ok (pool_new, db'))))"

definition pool_open ::
  "string + unit \<Rightarrow> runner \<Rightarrow> ((Stmt list \<times> Stmt list) list \<Rightarrow> nat \<Rightarrow> string + int) \<Rightarrow> nat \<times> DbSchema
    \<Rightarrow> StoreFailure + ConnectionPool \<times> nat \<times> DbSchema" where
  "pool_open dir run pending_migrations db =
     (case dir of Inl e \<Rightarrow> Err (SF_Io e) | Inr _ \<Rightarrow> init_pool run pending_migrations db)"

text \<open>A connection is whether it is open. The counter is a \<open>usize\<close> that wraps around.\<close>

definition pool_reader :: "ConnectionPool \<Rightarrow> nat \<times> ConnectionPool" where
  "pool_reader p =
     (unat (pool_next_reader p) mod length (pool_readers p), p\<lparr>pool_next_reader := pool_next_reader p + 1\<rparr>)"

section \<open>The store\<close>

record 'b EventStore =
  es_pool :: ConnectionPool
  es_db :: Db
  es_projections :: projection_table
  es_blobs :: "'b blobs"

type_synonym ('b, 'a) es_op = "'b EventStore \<Rightarrow> (StoreFailure + 'a) \<times> 'b EventStore"

text \<open>\<open>blob_dir\<close> is the outcome of creating the blob directory.\<close>

definition event_store_open ::
  "string + unit \<Rightarrow> string + unit \<Rightarrow> runner \<Rightarrow> ((Stmt list \<times> Stmt list) list \<Rightarrow> nat \<Rightarrow> string + int)
    \<Rightarrow> 'b blobs \<Rightarrow> Db \<Rightarrow> projection_table \<Rightarrow> nat \<times> DbSchema \<Rightarrow> StoreFailure + 'b EventStore \<times> nat \<times> DbSchema" where
  "event_store_open dir blob_dir run pending_migrations blobs db projections schema =
     (case pool_open dir run pending_migrations schema of
        Inl e \<Rightarrow> Err e
      | Inr (pool, schema') \<Rightarrow>
          (case blob_dir of
             Inl e \<Rightarrow> Err (SF_Io e)
           | Inr _ \<Rightarrow> Ok (\<lparr>es_pool = pool, es_db = db, es_projections = projections, es_blobs = blobs\<rparr>, schema')))"

definition on_reader :: "('b EventStore \<Rightarrow> DbError + 'a) \<Rightarrow> ('b, 'a) es_op" where
  "on_reader f s =
     (case pool_reader (es_pool s) of (idx, pool) \<Rightarrow>
        (let s' = s\<lparr>es_pool := pool\<rparr> in
         if pool_readers pool ! idx
         then (case f s' of Inl e \<Rightarrow> (Err (SF_Database e), s') | Inr x \<Rightarrow> (Ok x, s'))
         else (Err SF_Closed, s')))"

definition on_writer :: "('b EventStore \<Rightarrow> (DbError + 'a) \<times> 'b EventStore) \<Rightarrow> ('b, 'a) es_op" where
  "on_writer f s =
     (if pool_writer (es_pool s)
      then (case f s of (Inl e, s') \<Rightarrow> (Err (SF_Database e), s') | (Inr x, s') \<Rightarrow> (Ok x, s'))
      else (Err SF_Closed, s))"

definition es_workspace :: "string \<Rightarrow> ('b, WorkspaceRow option) es_op" where
  "es_workspace i = on_reader (\<lambda>s. Ok (get_workspace (es_db s) i))"

definition es_ensure_workspace :: "string \<Rightarrow> string \<Rightarrow> string \<Rightarrow> ('b, unit) es_op" where
  "es_ensure_workspace i root isolation = on_writer (\<lambda>s. (Ok (), s\<lparr>es_db := ensure_workspace i root isolation (es_db s)\<rparr>))"

definition es_ensure_project :: "string \<Rightarrow> string \<Rightarrow> string \<Rightarrow> ('b, unit) es_op" where
  "es_ensure_project i root isolation = es_ensure_workspace i root isolation"

definition es_ensure_thread :: "string \<Rightarrow> string \<Rightarrow> ('b, unit) es_op" where
  "es_ensure_thread thread_id workspace_id =
     on_writer (\<lambda>s. (case ensure_thread thread_id workspace_id (es_db s) of Inl e \<Rightarrow> (Err e, s) | Inr db \<Rightarrow> (Ok (), s\<lparr>es_db := db\<rparr>)))"

definition es_append_batch :: "nat \<Rightarrow> string \<Rightarrow> NewEvent list \<Rightarrow> ('b, SeqRange) es_op" where
  "es_append_batch now thread_id events =
     on_writer (\<lambda>s. (case append_batch thread_id now events (es_db s) of (r, db) \<Rightarrow> (r, s\<lparr>es_db := db\<rparr>)))"

definition es_open_thread :: "string \<Rightarrow> EntryPage \<Rightarrow> ('b, ThreadView) es_op" where
  "es_open_thread thread_id page = on_reader (\<lambda>s. open_thread (es_db s) thread_id page)"

definition es_events_since :: "string \<Rightarrow> nat \<Rightarrow> nat \<Rightarrow> ('b, StoredEvent list) es_op" where
  "es_events_since thread_id since_seq limit = on_reader (\<lambda>s. Ok (read_events_since (es_db s) thread_id since_seq limit))"

definition es_read_events :: "string \<Rightarrow> nat \<Rightarrow> nat \<Rightarrow> ('b, StoredEvent list) es_op" where
  "es_read_events thread_id since_seq limit = on_reader (\<lambda>s. Ok (read_events_inclusive (es_db s) thread_id since_seq limit))"

definition es_count_events :: "string \<Rightarrow> ('b, nat) es_op" where
  "es_count_events thread_id = on_reader (\<lambda>s. Ok (count_events (es_db s) thread_id))"

definition es_checkpoint :: "('b, unit) es_op" where
  "es_checkpoint = on_writer (\<lambda>s. (Ok (), s))"

definition es_upsert_projection :: "ProjectionRow \<Rightarrow> ('b, unit) es_op" where
  "es_upsert_projection row = on_writer (\<lambda>s. (Ok (), s\<lparr>es_projections := upsert_projection row (es_projections s)\<rparr>))"

definition es_projection :: "string \<Rightarrow> string \<Rightarrow> ('b, ProjectionRow option) es_op" where
  "es_projection target path = on_reader (\<lambda>s. Ok (get_projection (es_projections s) target path))"

definition es_delete_projection :: "string \<Rightarrow> string \<Rightarrow> ('b, bool) es_op" where
  "es_delete_projection target path =
     on_writer (\<lambda>s. (case delete_projection target path (es_projections s) of (b, t) \<Rightarrow> (Ok b, s\<lparr>es_projections := t\<rparr>)))"

definition es_upsert_skill :: "SkillRow \<Rightarrow> ('b, unit) es_op" where
  "es_upsert_skill row =
     on_writer (\<lambda>s. (case upsert_skill row (es_db s) of Inl e \<Rightarrow> (Err e, s) | Inr db \<Rightarrow> (Ok (), s\<lparr>es_db := db\<rparr>)))"

definition es_skill :: "string \<Rightarrow> ('b, SkillRow option) es_op" where
  "es_skill skill_id = on_reader (\<lambda>s. Ok (get_skill (es_db s) skill_id))"

section \<open>Properties\<close>

subsection \<open>Migrations\<close>

text \<open>What the library's runner does: the up scripts in order, or the down scripts in reverse order.\<close>

definition goto_version :: "(Stmt list \<times> Stmt list) list \<Rightarrow> nat \<Rightarrow> nat \<times> DbSchema \<Rightarrow> string + nat \<times> DbSchema" where
  "goto_version ms v db =
     (case db of (u, s) \<Rightarrow>
        (case exec_script (if u \<le> v then concat (map fst (take (v - u) (drop u ms)))
                           else concat (map snd (rev (take (u - v) (drop v ms))))) s of
           Inl e \<Rightarrow> Err e | Inr s' \<Rightarrow> Ok (v, s')))"

definition runner_ok :: "runner \<Rightarrow> bool" where
  "runner_ok run \<longleftrightarrow> (\<forall>ms v u s. u \<le> length ms \<longrightarrow> v \<le> length ms \<longrightarrow> run ms v (u, s) = goto_version ms v (u, s))"

text \<open>The schema of each version.\<close>

fun schema_at :: "nat \<Rightarrow> DbSchema" where
  "schema_at 0 = \<lparr>sch_tables = Map.empty, sch_indexes = Map.empty, sch_foreign_keys = False\<rparr>"
| "schema_at (Suc k) = projr (exec_script (fst (migrations ! k)) (schema_at k))"

lemma map_option_upd: "map_option f \<circ> m(k := v) = (map_option f \<circ> m)(k := map_option f v)"
  by auto

lemma map_option_empty: "map_option f \<circ> Map.empty = Map.empty"
  by auto

lemma drop_indexes_upd:
  "drop_indexes_of n (m(k \<mapsto> i)) = (if ix_table i = n then (drop_indexes_of n m)(k := None) else (drop_indexes_of n m)(k \<mapsto> i))"
  by (auto simp: drop_indexes_of_def)

lemma drop_indexes_empty: "drop_indexes_of n Map.empty = Map.empty"
  by (simp add: drop_indexes_of_def)

lemmas schema_simps = migrations_def map_option_upd map_option_empty drop_indexes_upd drop_indexes_empty
  rename_reference_def rename_column_def move_index_def rename_indexed_def col_def ref_col_def

lemmas migration_defs = migration_core_def migration_entries_def migration_sync_def migration_workspaces_def

text \<open>Every up script runs, and every down script undoes its up script.\<close>

lemma up_core: "\<exists>s. exec_script (fst migration_core) (schema_at 0) = Ok s"
  by (simp add: schema_simps migration_defs)

lemma up_entries: "\<exists>s. exec_script (fst migration_entries) (schema_at (Suc 0)) = Ok s"
  by (simp add: schema_simps migration_defs)

lemma up_sync: "\<exists>s. exec_script (fst migration_sync) (schema_at (Suc (Suc 0))) = Ok s"
  by (simp add: schema_simps migration_defs)

lemma up_workspaces: "\<exists>s. exec_script (fst migration_workspaces) (schema_at (Suc (Suc (Suc 0)))) = Ok s"
  by (simp add: schema_simps migration_defs)

lemma down_core: "exec_script (snd migration_core) (schema_at (Suc 0)) = Ok (schema_at 0)"
  by (simp add: schema_simps migration_defs)

lemma down_entries: "exec_script (snd migration_entries) (schema_at (Suc (Suc 0))) = Ok (schema_at (Suc 0))"
  by (simp add: schema_simps migration_defs)

lemma down_sync: "exec_script (snd migration_sync) (schema_at (Suc (Suc (Suc 0)))) = Ok (schema_at (Suc (Suc 0)))"
  by (simp add: schema_simps migration_defs)

lemma down_workspaces:
  "exec_script (snd migration_workspaces) (schema_at (Suc (Suc (Suc (Suc 0))))) = Ok (schema_at (Suc (Suc (Suc 0))))"
  apply (simp add: schema_simps migration_defs)
  apply (intro conjI ext)
  apply simp_all
  done

declare schema_at.simps [simp del]

lemma schema_foreign_keys: "k \<le> 4 \<Longrightarrow> \<not> sch_foreign_keys (schema_at k)"
  by (auto simp: le_Suc_eq numeral_eq_Suc schema_at.simps schema_simps migration_defs)

lemma exec_script_append:
  "exec_script (xs @ ys) s = (case exec_script xs s of Inl e \<Rightarrow> Err e | Inr s' \<Rightarrow> exec_script ys s')"
  by (induction xs arbitrary: s) (auto split: sum.split)

lemma up_step: "k < 4 \<Longrightarrow> exec_script (fst (migrations ! k)) (schema_at k) = Ok (schema_at (Suc k))"
  using up_core up_entries up_sync up_workspaces
  by (auto simp: less_Suc_eq numeral_eq_Suc migrations_def schema_at.simps(2))

lemma down_step: "k < 4 \<Longrightarrow> exec_script (snd (migrations ! k)) (schema_at (Suc k)) = Ok (schema_at k)"
  using down_core down_entries down_sync down_workspaces
  by (auto simp: less_Suc_eq numeral_eq_Suc migrations_def)

lemma length_migrations: "length migrations = 4"
  by (simp add: migrations_def)

lemma take_more: "u + n < length ms \<Longrightarrow> take (Suc n) (drop u ms) = take n (drop u ms) @ [ms ! (u + n)]"
  by (simp add: take_Suc_conv_app_nth)

lemma up_steps:
  "u + n \<le> 4 \<Longrightarrow> exec_script (concat (map fst (take n (drop u migrations)))) (schema_at u) = Ok (schema_at (u + n))"
  by (induction n) (simp_all add: take_more length_migrations exec_script_append up_step)

lemma down_steps:
  "v + n \<le> 4 \<Longrightarrow> exec_script (concat (map snd (rev (take n (drop v migrations))))) (schema_at (v + n)) = Ok (schema_at v)"
  by (induction n) (simp_all add: take_more length_migrations exec_script_append down_step)

lemma migrations_commute:
  assumes "u \<le> 4" "v \<le> 4"
  shows "goto_version migrations v (u, schema_at u) = Ok (v, schema_at v)"
  using assms up_steps [of u "v - u"] down_steps [of v "u - v"] by (auto simp: goto_version_def)

lemma migrate_between:
  assumes run: "runner_ok run" and u: "u \<le> length migrations" and v: "v \<le> length migrations"
  shows "migrate_to_version run v (u, (schema_at u)\<lparr>sch_foreign_keys := b\<rparr>) = Ok (v, (schema_at v)\<lparr>sch_foreign_keys := True\<rparr>)"
proof -
  have "(schema_at u)\<lparr>sch_foreign_keys := False\<rparr> = schema_at u"
    using schema_foreign_keys [of u] u by (simp add: length_migrations DbSchema.equality)
  with run u v migrations_commute [of u v] show ?thesis
    by (simp add: migrate_to_version_def runner_ok_def length_migrations)
qed

text \<open>
  C10. Migrations can be run in both directions: from the schema of any version, migrating to any other
  version gives the schema of that version, with foreign keys enforced again, so that every down
  script undoes its up script, the renamed table, column and index included. Opening the pool brings
  a database of any version to the latest one, where both readers accept it when
  \<open>pending_migrations\<close> counts the scripts not yet run.
\<close>

theorem migrations_reversible:
  assumes run: "runner_ok run" and u: "u \<le> length migrations" and v: "v \<le> length migrations"
    and pending: "\<And>w. pending_migrations migrations w = Ok (int (length migrations) - int w)"
  shows "migrate_to_version run v (u, (schema_at u)\<lparr>sch_foreign_keys := b\<rparr>) = Ok (v, (schema_at v)\<lparr>sch_foreign_keys := True\<rparr>) \<and>
         pool_open (Ok ()) run pending_migrations (u, (schema_at u)\<lparr>sch_foreign_keys := b\<rparr>) =
           Ok (pool_new, length migrations, (schema_at (length migrations))\<lparr>sch_foreign_keys := True\<rparr>)"
  using migrate_between [OF run u v] migrate_between [OF run u order.refl] pending
  by (simp add: pool_open_def init_pool_def migrate_to_latest_def verify_schema_version_def)

theorem migrations_reversible_witness:
  "migrate_to_version goto_version 1 (4, (schema_at 4)\<lparr>sch_foreign_keys := True\<rparr>) = Ok (1, (schema_at 1)\<lparr>sch_foreign_keys := True\<rparr>)"
proof -
  have "runner_ok goto_version" by (simp add: runner_ok_def)
  from migrations_reversible [OF this, of 4 1 "\<lambda>ms w. Ok (int (length ms) - int w)" True]
  show ?thesis by (simp add: length_migrations)
qed

subsection \<open>The pool\<close>

text \<open>The two readers take turns, also when the counter wraps around.\<close>

lemma readers_alternate:
  assumes "length (pool_readers p) = 2" "pool_reader p = (i, p')" "pool_reader p' = (j, p'')"
  shows "i < 2 \<and> j < 2 \<and> i \<noteq> j"
proof -
  let ?n = "pool_next_reader p"
  have "unat (?n + 1) mod 2 \<noteq> unat ?n mod 2"
  proof -
    have "unat (?n + 1) = (unat ?n + 1) mod 2 ^ 64" by (simp add: unat_word_ariths)
    moreover have "even ((unat ?n + 1) mod 2 ^ 64) = even (unat ?n + 1)" by (rule dvd_mod_iff) simp
    ultimately have "even (unat (?n + 1)) \<noteq> even (unat ?n)" by simp
    then show ?thesis by (metis even_iff_mod_2_eq_zero)
  qed
  with assms show ?thesis by (auto simp: pool_reader_def)
qed

subsection \<open>Requests\<close>

text \<open>
  The requests of the facade and the operation of the event store that each of them is. Requests that
  only read, and those of the other tables, leave the log alone.
\<close>

datatype EsRequest =
  Req_Workspace string
| Req_EnsureWorkspace string string string
| Req_EnsureProject string string string
| Req_EnsureThread string string
| Req_AppendBatch nat string "NewEvent list"
| Req_OpenThread string EntryPage
| Req_EventsSince string nat nat
| Req_ReadEvents string nat nat
| Req_CountEvents string
| Req_Checkpoint
| Req_UpsertProjection ProjectionRow
| Req_Projection string string
| Req_DeleteProjection string string
| Req_UpsertSkill SkillRow
| Req_Skill string

fun es_step :: "'b EventStore \<Rightarrow> EsRequest \<Rightarrow> 'b EventStore" where
  "es_step s (Req_Workspace i) = snd (es_workspace i s)"
| "es_step s (Req_EnsureWorkspace i root isolation) = snd (es_ensure_workspace i root isolation s)"
| "es_step s (Req_EnsureProject i root isolation) = snd (es_ensure_project i root isolation s)"
| "es_step s (Req_EnsureThread t w) = snd (es_ensure_thread t w s)"
| "es_step s (Req_AppendBatch now t events) = snd (es_append_batch now t events s)"
| "es_step s (Req_OpenThread t page) = snd (es_open_thread t page s)"
| "es_step s (Req_EventsSince t since limit) = snd (es_events_since t since limit s)"
| "es_step s (Req_ReadEvents t since limit) = snd (es_read_events t since limit s)"
| "es_step s (Req_CountEvents t) = snd (es_count_events t s)"
| "es_step s Req_Checkpoint = snd (es_checkpoint s)"
| "es_step s (Req_UpsertProjection row) = snd (es_upsert_projection row s)"
| "es_step s (Req_Projection target path) = snd (es_projection target path s)"
| "es_step s (Req_DeleteProjection target path) = snd (es_delete_projection target path s)"
| "es_step s (Req_UpsertSkill row) = snd (es_upsert_skill row s)"
| "es_step s (Req_Skill i) = snd (es_skill i s)"

fun request_op :: "EsRequest \<Rightarrow> StoreOp option" where
  "request_op (Req_EnsureWorkspace i root isolation) = Some (EnsureWorkspace i root isolation)"
| "request_op (Req_EnsureProject i root isolation) = Some (EnsureWorkspace i root isolation)"
| "request_op (Req_EnsureThread t w) = Some (EnsureThread t w)"
| "request_op (Req_AppendBatch now t events) = Some (AppendBatch t now events)"
| "request_op (Req_UpsertSkill row) = Some (UpsertSkill row)"
| "request_op _ = None"

lemmas es_defs = es_workspace_def es_ensure_workspace_def es_ensure_project_def es_ensure_thread_def es_append_batch_def
  es_open_thread_def es_events_since_def es_read_events_def es_count_events_def es_checkpoint_def es_upsert_projection_def
  es_projection_def es_delete_projection_def es_upsert_skill_def es_skill_def

lemma on_reader_keeps:
  "es_db (snd (on_reader f s)) = es_db s" "pool_writer (es_pool (snd (on_reader f s))) = pool_writer (es_pool s)"
  "pool_readers (es_pool (snd (on_reader f s))) = pool_readers (es_pool s)"
  by (auto simp: on_reader_def pool_reader_def Let_def split: sum.split)

lemma es_step_refines:
  assumes "pool_writer (es_pool s)"
  shows "es_db (es_step s r) = (case request_op r of None \<Rightarrow> es_db s | Some op \<Rightarrow> store_step (es_db s) op)"
  using assms by (cases r) (auto simp: es_defs on_reader_keeps on_writer_def split: sum.split prod.split)

definition pool_ready :: "'b EventStore \<Rightarrow> bool" where
  "pool_ready s \<longleftrightarrow> pool_writer (es_pool s) \<and> pool_readers (es_pool s) = [True, True]"

lemma pool_ready_step: "pool_ready s \<Longrightarrow> pool_ready (es_step s r)"
  unfolding pool_ready_def
  by (cases r) (auto simp: es_defs on_reader_keeps on_writer_def split: sum.split prod.split)

text \<open>An opened store is ready, and stays ready and well-formed under every request.\<close>

lemma opened_pool_ready:
  "event_store_open dir blob_dir run pending_migrations blobs db projections schema = Ok (s, schema')
    \<Longrightarrow> pool_ready s \<and> es_db s = db"
  by (auto simp: event_store_open_def pool_open_def init_pool_def pool_ready_def pool_new_def split: sum.splits)

definition opened_store :: "'b blobs \<Rightarrow> projection_table \<Rightarrow> 'b EventStore" where
  "opened_store blobs projections = \<lparr>es_pool = pool_new, es_db = db_new, es_projections = projections, es_blobs = blobs\<rparr>"

interpretation facade: step_invariant "opened_store blobs projections" es_step "\<lambda>s. pool_ready s \<and> db_wf (es_db s)" for blobs projections
proof
  show "pool_ready (opened_store blobs projections) \<and> db_wf (es_db (opened_store blobs projections))"
    by (simp add: pool_ready_def opened_store_def pool_new_def db_new_wf)
next
  fix s :: "'a EventStore" and r
  assume inv: "pool_ready s \<and> db_wf (es_db s)"
  then have "pool_writer (es_pool s)" by (simp add: pool_ready_def)
  from es_step_refines [OF this, of r] inv show "pool_ready (es_step s r) \<and> db_wf (es_db (es_step s r))"
    by (auto simp: pool_ready_step store.inv_step split: option.split)
qed

text \<open>
  The facade refines the event store: on an open pool a sequence of requests does to the log what
  the operations behind them do, in the same order, and no reader is ever missing: a read is
  answered from the state after all earlier writes.
\<close>

theorem facade_refines_event_store:
  assumes "pool_ready s"
  shows "es_db (run_steps es_step s rs) = run_steps store_step (es_db s) (List.map_filter request_op rs)"
    and "fst (es_events_since t since limit (run_steps es_step s rs)) =
         Ok (read_events_since (run_steps store_step (es_db s) (List.map_filter request_op rs)) t since limit)"
proof -
  have db: "es_db (run_steps es_step s rs) = run_steps store_step (es_db s) (List.map_filter request_op rs)
      \<and> pool_ready (run_steps es_step s rs)"
    using assms
  proof (induction rs arbitrary: s)
    case (Cons r rs)
    have "pool_writer (es_pool s)" using Cons.prems by (simp add: pool_ready_def)
    from es_step_refines [OF this, of r] Cons.IH [OF pool_ready_step [OF Cons.prems, of r]] show ?case
      by (simp add: map_filter_simps split: option.splits)
  qed (simp add: map_filter_simps)
  then show "es_db (run_steps es_step s rs) = run_steps store_step (es_db s) (List.map_filter request_op rs)" by blast
  have "[True, True] ! (k mod Suc (Suc 0))" for k :: nat
    using mod_less_divisor [of "Suc (Suc 0)" k] by (auto simp: less_Suc_eq)
  with db show "fst (es_events_since t since limit (run_steps es_step s rs)) =
      Ok (read_events_since (run_steps store_step (es_db s) (List.map_filter request_op rs)) t since limit)"
    by (simp add: es_events_since_def on_reader_def pool_reader_def pool_ready_def Let_def)
qed

end
