(* ===== verification/Spec2Isabelle.thy ===== *)
theory Spec2Isabelle
  imports Thread_Machine Acp_Session Core_Skills Core_Git Setup_Runner Skill_Safety Store_Facade
begin

text \<open>
  Verification development for Tethys, a desktop application that runs coding agents. This text says
  what is modelled, in which theory, and what the theorems show.

  \<^bold>\<open>The program.\<close> The core (\<^verbatim>\<open>crates/tethys-core\<close>) serves the requests of the desktop shell. A thread is
  a conversation with an agent: its events are applied to a state machine that materializes the
  entries shown to the user (\<^verbatim>\<open>tethys-thread\<close>), and its agent process belongs to a connection store that
  shares processes between threads by leases (\<^verbatim>\<open>tethys-agent-servers\<close>, \<^verbatim>\<open>tethys-supervisor\<close>) and talks
  the agent client protocol in two versions (\<^verbatim>\<open>tethys-acp\<close>). Threads work in git worktrees, with
  checkpoints at the edges of a turn, diffs and hunks (\<^verbatim>\<open>tethys-git\<close>), searched through one index per
  root (\<^verbatim>\<open>tethys-search\<close>). A registry of MCP servers is handed to sessions and projected into the
  configuration files of other tools, and skills are imported, trusted and offered to prompts
  (\<^verbatim>\<open>tethys-sync\<close>). Events, rows and blobs are stored in SQLite and beside it (\<^verbatim>\<open>tethys-store\<close>).

  \<^bold>\<open>Shared theories.\<close>

  \<^item> \<^verbatim>\<open>Tethys_Prelude\<close>: machine integers, results as sums (\<open>Ok\<close>, \<open>Err\<close>), in-place edits of lists, tables
    with a primary key, and the interfaces \<open>step_invariant\<close>, \<open>transition_invariant\<close> and \<open>keyed_store\<close>,
    which the components interpret on their own operations.
  \<^item> \<^verbatim>\<open>Rust_Text\<close>, \<^verbatim>\<open>BTree_Map\<close>, \<^verbatim>\<open>Disk\<close>: the string and path functions, the ordered map and the file system
    calls of the Rust standard library that the code uses.

  \<^bold>\<open>Threads and agents.\<close>

  \<^item> \<^verbatim>\<open>Thread_Schema\<close>, \<^verbatim>\<open>Thread_Entries\<close>, \<^verbatim>\<open>Thread_Machine\<close> (\<^verbatim>\<open>tethys-schema/src/thread.rs\<close>,
    \<^verbatim>\<open>tethys-thread/src/entries.rs\<close>, \<^verbatim>\<open>state.rs\<close>): events, \<open>apply_event\<close> branch by branch and every mutator of
    the machine. Entry ids stay distinct, replaying a history over its own entries changes nothing, turns
    are numbered by position, and orderly reports leave at most one turn open.
  \<^item> \<^verbatim>\<open>Supervisor\<close>, \<^verbatim>\<open>Connection_Store\<close> (\<^verbatim>\<open>tethys-supervisor/src/lib.rs\<close>,
    \<^verbatim>\<open>tethys-agent-servers/src/connection_store.rs\<close>, \<^verbatim>\<open>launch.rs\<close>, \<^verbatim>\<open>recovery.rs\<close>): the stderr ring buffer and the
    cancel ladder; the store with each section under its lock as one step. Under every interleaving a
    child process has one owner, leases agree with the lifecycle state, and \<open>acquire\<close> refines a one-step
    specification.
  \<^item> \<^verbatim>\<open>Acp_Map\<close>, \<^verbatim>\<open>Acp_Client\<close>, \<^verbatim>\<open>Acp_Session\<close> (\<^verbatim>\<open>tethys-acp/src/map.rs\<close>, \<^verbatim>\<open>map_v2.rs\<close>, \<^verbatim>\<open>client.rs\<close>): updates of both
    versions become the same events, synthetic ids follow the runs of a role, a resumed transcript adds
    nothing when it carries ids, each permission request is answered once, a subscriber gets the last
    1024 events, and the agent is told about exactly the selected servers.
  \<^item> \<^verbatim>\<open>Thread_Sessions\<close> (\<^verbatim>\<open>tethys-core/src/thread_session.rs\<close>): the threads of the core over a heap of shared
    handles. A view is its log applied in order, lease counters count the threads that hold a lease, and
    a subscriber that keeps up misses nothing.

  \<^bold>\<open>Storage.\<close>

  \<^item> \<^verbatim>\<open>Event_Store\<close> (\<^verbatim>\<open>tethys-store/src/schema.rs\<close>, \<^verbatim>\<open>entries.rs\<close>, \<^verbatim>\<open>sync_state.rs\<close>, \<^verbatim>\<open>blobs.rs\<close>): the tables and every
    statement. Logs have no gaps, failed transactions change nothing, pages cover the entries, blobs are
    found again under their digest.
  \<^item> \<^verbatim>\<open>Store_Facade\<close> (\<^verbatim>\<open>migrations.rs\<close>, \<^verbatim>\<open>pool.rs\<close>, \<^verbatim>\<open>lib.rs\<close>): the schema scripts in both directions, the pool with
    alternating readers, and the requests of the store, which refine the operations of \<^verbatim>\<open>Event_Store\<close>.

  \<^bold>\<open>Git and search.\<close>

  \<^item> \<^verbatim>\<open>Git_Repo\<close>, \<^verbatim>\<open>Git_Checkpoint\<close>, \<^verbatim>\<open>Git_Refs\<close>, \<^verbatim>\<open>Git_Diff\<close>, \<^verbatim>\<open>Git_Hunks\<close>, \<^verbatim>\<open>Git_Bootstrap\<close>, \<^verbatim>\<open>Git_Worktree\<close>
    (\<^verbatim>\<open>tethys-git/src\<close>): the git process as a parameter with a history of the commands that were run. A
    checkpoint touches neither index nor branch, a restore captures an undo state first, archiving and
    deleting act on the map of refs, hunks applied to the old text give the new one and back, a discard
    runs only checked patches, the bootstrap copies exactly the matching files, and a failed preparation
    removes the worktree.
  \<^item> \<^verbatim>\<open>Worktree_Paths\<close>, \<^verbatim>\<open>Search_Index\<close>, \<^verbatim>\<open>Setup_Runner\<close>, \<^verbatim>\<open>Core_Git\<close> (\<^verbatim>\<open>tethys-core/src/lib.rs\<close>,
    \<^verbatim>\<open>git_registry.rs\<close>, \<^verbatim>\<open>tethys-git/src/lib.rs\<close>, \<^verbatim>\<open>tethys-search/src\<close>): the jail of worktree paths over symbolic
    links, one picker per root, the setup script with its deadline, and the orchestrator: engine handles
    stay valid and the edges of running are checkpointed alternately.

  \<^bold>\<open>Sync.\<close>

  \<^item> \<^verbatim>\<open>Sync_Schema\<close>, \<^verbatim>\<open>Sync_Registry\<close> (\<^verbatim>\<open>tethys-schema/src/sync.rs\<close>, \<^verbatim>\<open>connection.rs\<close>, \<^verbatim>\<open>tethys-sync/src/registry.rs\<close>,
    \<^verbatim>\<open>session.rs\<close>, \<^verbatim>\<open>secrets.rs\<close>, \<^verbatim>\<open>attachments.rs\<close>): which entries a session sees, and that the attachment grid
    agrees with the handoff.
  \<^item> \<^verbatim>\<open>Sync_Projection\<close>, \<^verbatim>\<open>Projectors\<close>, \<^verbatim>\<open>Projector_Laws\<close>, \<^verbatim>\<open>Projection_Cycle\<close> (\<^verbatim>\<open>projection.rs\<close>, \<^verbatim>\<open>manifest.rs\<close>,
    \<^verbatim>\<open>atomic.rs\<close>, \<^verbatim>\<open>import.rs\<close>, \<^verbatim>\<open>projectors\<close>, \<^verbatim>\<open>format\<close>): plan, apply, verify and rollback for any projector, the
    three projectors over document trees as instances of the locale \<open>tree_projector\<close>, and what the next
    plan finds after an applied one.
  \<^item> \<^verbatim>\<open>Core_Mcp\<close> (\<^verbatim>\<open>tethys-core/src/mcp.rs\<close>): every request with its order of failures. A projection writes
    nothing or what the core itself derives, and can be verified and rolled back.
  \<^item> \<^verbatim>\<open>Skills\<close>, \<^verbatim>\<open>Skill_Import\<close>, \<^verbatim>\<open>Skill_Trust\<close>, \<^verbatim>\<open>Skill_Safety\<close> (\<^verbatim>\<open>skills.rs\<close>, \<^verbatim>\<open>skill_import.rs\<close>, \<^verbatim>\<open>trust.rs\<close>,
    \<^verbatim>\<open>walk.rs\<close>): trusted means unchanged, archives stay below their destination, and moving a skill into
    place does not lose the old one, for every pattern of refused disk operations.
  \<^item> \<^verbatim>\<open>Tethys_Api\<close>, \<^verbatim>\<open>Composer\<close>, \<^verbatim>\<open>Core_Skills\<close> (\<^verbatim>\<open>tethys-api/src/lib.rs\<close>, \<^verbatim>\<open>tethys-core/src/workspace_roots.rs\<close>,
    \<^verbatim>\<open>composer\<close>, \<^verbatim>\<open>skills.rs\<close>): errors and roots, commands and references of a prompt, and the skill
    requests. A path reference stays inside the workspace, and a prompt refers only to trusted skills.

  \<^bold>\<open>Representation.\<close> Strings are lists of bytes; \<open>u32\<close> and \<open>u64\<close> counters are words where the code can
  wrap or saturate and natural numbers where the value is a length or a database integer. Errors are
  values: each early return is a branch. State is passed explicitly; shared objects are heap addresses
  or indexes, locks are the boundaries of steps.

  \<^bold>\<open>Parameters.\<close> The git binary, agents, processes and clocks, disk and database failures, archive
  readers, downloads, parsers and format-preserving printers, digests, the line differ and the search
  picker are arguments. Where a theorem needs their documented behaviour it is a named hypothesis
  (such as \<open>script_ok\<close> for the differ, or \<open>runner_ok\<close> for the migration runner), and its witness
  instantiates them by concrete functions.

  \<^bold>\<open>Bounds and fuel.\<close> Constants are those of the code: channels of 1024 events, archives of 5000 entries
  and 100 MiB, five backups, diffs collapsed above 1 MiB. Loops over data are structural or have a
  measure. The nesting of directories is limited by \<open>se_max_depth\<close>, where the operating system refuses
  longer paths; the depth limit of the bootstrap is the code's own and is proved to hide no file. The
  poll loop of the setup runner is a partial function, shown to return when the clock advances.

  \<^bold>\<open>Not modelled.\<close> The desktop shell and its commands hand requests to the core; the API traits have no
  bodies; the mock agent, synthetic data, benchmarks and build tasks are not part of the program.
  Starting a process and its pipes, SQLite's pragmas and locking, the platform keychain, file modes and
  fsync, JSON and TOML text, and the platforms other than Unix are outside. Opening the core
  (\<open>Core::open\<close>) and the requests that only pass on to the thread sessions have no definition of their
  own: the operations they call are modelled.
\<close>

end
